(* ===== verification/GoBase.thy ===== *)
theory GoBase
  imports Main "HOL-Library.List_Lexorder" "HOL-Library.Char_ord" "HOL-Library.Sublist"
    "HOL-Library.Multiset"
begin

text \<open>
  The prelude: what every component model of the Go code shares.  A Go \<open>error\<close> result is
  \<open>'e option\<close> (\<open>None\<close> is \<open>nil\<close>); a pair of a value and an error is \<open>'e + 'a\<close>.  A
  validator that returns at its first failing check is \<open>first_err\<close> of its checks in
  source order, a validating loop is \<open>each_ok\<close>, and the loops that carry a \<open>previous\<close>
  key are \<open>ascending_from\<close>.  Go's \<open>int\<close> and \<open>int64\<close> are HOL integers with the
  wrap-around of 64 bits written out by \<open>wrap64\<close>.  Go strings are byte strings, so their
  order is the lexicographic order of List_Lexorder over the byte order of Char_ord.
\<close>

named_theorems go_simps "unfolding rules of validators and guards"

section \<open>Errors as values\<close>

fun first_err :: "'e option list \<Rightarrow> 'e option" where
  "first_err [] = None"
| "first_err (None # es) = first_err es"
| "first_err (Some e # es) = Some e"

definition fail_if :: "bool \<Rightarrow> 'e \<Rightarrow> 'e option" where
  "fail_if b e = (if b then Some e else None)"

fun each_ok :: "('a \<Rightarrow> 'e option) \<Rightarrow> 'a list \<Rightarrow> 'e option" where
  "each_ok f [] = None"
| "each_ok f (x # xs) = first_err [f x, each_ok f xs]"

definition map_err :: "('e \<Rightarrow> 'f) \<Rightarrow> 'e option \<Rightarrow> 'f option" where
  "map_err f r = map_option f r"

lemma fail_if_None [simp]: "fail_if b e = None \<longleftrightarrow> \<not> b"
  by (simp add: fail_if_def)

lemma fail_if_Some [simp]: "fail_if b e = Some e' \<longleftrightarrow> b \<and> e' = e"
  by (auto simp: fail_if_def)

lemma first_err_Cons_None [simp]:
  "first_err (x # xs) = None \<longleftrightarrow> x = None \<and> first_err xs = None"
  by (cases x) auto

lemma first_err_None_iff: "first_err es = None \<longleftrightarrow> (\<forall>x \<in> set es. x = None)"
  by (induction es) auto

lemma each_ok_None [simp]: "each_ok f xs = None \<longleftrightarrow> (\<forall>x \<in> set xs. f x = None)"
  by (induction xs) auto

lemma map_err_None [simp]: "map_err f r = None \<longleftrightarrow> r = None"
  by (simp add: map_err_def)

lemma first_err_fail [simp]:
  "first_err (fail_if b e # es) = (if b then Some e else first_err es)"
  by (simp add: fail_if_def)

lemma if_Some_None [simp]: "(if b then Some e else r) = None \<longleftrightarrow> \<not> b \<and> r = None"
  by simp

lemma each_ok_cong [fundef_cong]:
  assumes "xs = ys" and "\<And>x. x \<in> set ys \<Longrightarrow> f x = g x"
  shows "each_ok f xs = each_ok g ys"
proof -
  have "(\<And>x. x \<in> set ys \<Longrightarrow> f x = g x) \<Longrightarrow> each_ok f ys = each_ok g ys"
  proof (induction ys)
    case (Cons y ys)
    then show ?case by (cases "g y") auto
  qed simp
  with assms show ?thesis by simp
qed

section \<open>Strictly ascending lists\<close>

fun ascending_from :: "'k::linorder \<Rightarrow> ('a \<Rightarrow> 'k) \<Rightarrow> 'a list \<Rightarrow> bool" where
  "ascending_from p key [] = True"
| "ascending_from p key (x # xs) = (p < key x \<and> ascending_from (key x) key xs)"

lemma ascending_from_iff:
  "ascending_from p key xs \<longleftrightarrow> (\<forall>x \<in> set xs. p < key x) \<and> sorted_wrt (<) (map key xs)"
proof (induction xs arbitrary: p)
  case (Cons x xs)
  then show ?case by (auto dest: less_trans)
qed simp

lemma ascending_from_distinct: "ascending_from p key xs \<Longrightarrow> distinct (map key xs)"
  by (simp add: ascending_from_iff strict_sorted_iff)

lemma ascending_from_sorted: "ascending_from p key xs \<Longrightarrow> sorted (map key xs)"
  by (simp add: ascending_from_iff strict_sorted_iff)

lemma empty_less_string [simp]: "([]::'a::linorder list) < xs \<longleftrightarrow> xs \<noteq> []"
  by (cases xs) auto

text \<open>
  The interface between the code that seals a document and the code that validates it.
  Sealing sorts the entries by key; validation rescans them with a \<open>previous\<close> key that
  starts at the empty string, and rejects an entry that is invalid or does not ascend.
  What the two need from each other is only that a valid entry has a non-empty key.
\<close>

locale canonical_entries =
  fixes key :: "'a \<Rightarrow> string" and valid :: "'a \<Rightarrow> bool"
  assumes valid_key: "valid x \<Longrightarrow> key x \<noteq> []"
begin

lemma scan_iff:
  assumes "\<forall>x \<in> set xs. valid x"
  shows "ascending_from [] key xs \<longleftrightarrow> sorted (map key xs) \<and> distinct (map key xs)"
  using assms valid_key by (auto simp: ascending_from_iff strict_sorted_iff)

lemma sort_scans:
  assumes "\<forall>x \<in> set xs. valid x" and "distinct (map key xs)"
  shows "ascending_from [] key (sort_key key xs)"
proof -
  have "mset (map key (sort_key key xs)) = mset (map key xs)" by simp
  with assms(2) have "distinct (map key (sort_key key xs))"
    by (metis mset_eq_imp_distinct_iff)
  with assms(1) show ?thesis
    by (subst scan_iff) (auto simp: sorted_sort_key)
qed

lemma scan_sorted_id:
  assumes "ascending_from [] key xs"
  shows "sort_key key xs = xs"
  using assms by (simp add: ascending_from_sorted sort_key_id_if_sorted)

lemma scan_unique:
  assumes "ascending_from [] key xs" and "ascending_from [] key ys" and "set xs = set ys"
  shows "xs = ys"
proof -
  have dx: "distinct (map key xs)" and dy: "distinct (map key ys)"
    using assms(1,2) by (auto dest: ascending_from_distinct)
  then have "distinct xs" and "distinct ys" by (simp_all add: distinct_map)
  with assms(3) have "mset xs = mset ys" by (simp add: set_eq_iff_mset_eq_distinct)
  moreover have "inj_on key (set xs)" using dx by (simp add: distinct_map)
  ultimately have "sort_key key xs = sort_key key ys"
    by (rule sort_key_eq_sort_key)
  with assms show ?thesis by (simp add: scan_sorted_id)
qed

end

text \<open>Sorting commutes with a map that keeps the keys.\<close>

lemma insort_key_map_same:
  assumes "\<And>x. k (g x) = k' x"
  shows "insort_key k (g x) (map g xs) = map g (insort_key k' x xs)"
  by (induction xs) (auto simp: assms)

lemma sort_key_map_same:
  assumes "\<And>x. k (g x) = k' x"
  shows "sort_key k (map g xs) = map g (sort_key k' xs)"
  by (induction xs) (auto simp: insort_key_map_same [of k g k', OF assms])

lemma sort_key_idem [simp]: "sort_key k (sort_key k xs) = sort_key k xs"
  by (simp add: sort_key_id_if_sorted)

text \<open>
  The validating loop over a sorted list: each entry is checked, then its key must lie above
  the key of the entry before.
\<close>

fun scan_from :: "('a \<Rightarrow> 'e option) \<Rightarrow> 'e \<Rightarrow> ('a \<Rightarrow> 'k::linorder) \<Rightarrow> 'k \<Rightarrow> 'a list \<Rightarrow> 'e option" where
  "scan_from check unsorted key p [] = None"
| "scan_from check unsorted key p (x # xs) =
     first_err [check x, fail_if (key x \<le> p) unsorted, scan_from check unsorted key (key x) xs]"

lemma scan_from_None [simp]:
  "scan_from check unsorted key p xs = None \<longleftrightarrow> (\<forall>x \<in> set xs. check x = None) \<and> ascending_from p key xs"
  by (induction xs arbitrary: p) (auto simp: not_le)

section \<open>Slices\<close>

text \<open>
  A Go slice is its elements and whether it is \<open>nil\<close>; only JSON tells \<open>nil\<close> (null) from
  empty.  \<open>slices.Clone\<close> keeps \<open>nil\<close>, so it is the identity here.
\<close>

type_synonym 'a slice = "'a list option"

definition elems :: "'a slice \<Rightarrow> 'a list" where
  "elems s = (case s of None \<Rightarrow> [] | Some xs \<Rightarrow> xs)"

definition slice_map :: "('a \<Rightarrow> 'b) \<Rightarrow> 'a slice \<Rightarrow> 'b slice" where
  "slice_map f s = map_option (map f) s"

definition sort_slice :: "('a \<Rightarrow> 'k::linorder) \<Rightarrow> 'a slice \<Rightarrow> 'a slice" where
  "sort_slice key s = map_option (sort_key key) s"

lemma elems_simps [simp]:
  "elems None = []" "elems (Some xs) = xs"
  "elems (slice_map f s) = map f (elems s)" "elems (sort_slice key s) = sort_key key (elems s)"
  by (cases s; simp add: elems_def slice_map_def sort_slice_def)+

lemma sort_slice_id: "ascending_from [] key (elems s) \<Longrightarrow> sort_slice key s = s"
  by (cases s) (simp_all add: sort_slice_def ascending_from_sorted sort_key_id_if_sorted)

section \<open>Invariants of step relations\<close>

text \<open>
  The interface between a step relation of a component and what is claimed of all its runs:
  a predicate that every step preserves holds wherever the steps lead.
\<close>

locale preserved =
  fixes steps :: "'s \<Rightarrow> 's \<Rightarrow> bool" and inv :: "'s \<Rightarrow> bool"
  assumes step_inv: "inv s \<Longrightarrow> steps s s' \<Longrightarrow> inv s'"
begin

lemma run_inv: "steps\<^sup>*\<^sup>* s s' \<Longrightarrow> inv s \<Longrightarrow> inv s'"
  by (induction rule: rtranclp_induct) (auto intro: step_inv)

lemma run_implies: "steps\<^sup>*\<^sup>* s s' \<Longrightarrow> inv s \<Longrightarrow> (inv s' \<Longrightarrow> P) \<Longrightarrow> P"
  using run_inv by blast

end

section \<open>64-bit integers\<close>

definition wrap64 :: "int \<Rightarrow> int" where
  "wrap64 x = (x + 2 ^ 63) mod 2 ^ 64 - 2 ^ 63"

definition int64 :: "int \<Rightarrow> bool" where
  "int64 x \<longleftrightarrow> - (2 ^ 63) \<le> x \<and> x < 2 ^ 63"

definition add64 :: "int \<Rightarrow> int \<Rightarrow> int" where
  "add64 a b = wrap64 (a + b)"

definition sub64 :: "int \<Rightarrow> int \<Rightarrow> int" where
  "sub64 a b = wrap64 (a - b)"

lemma int64_wrap64 [simp]: "int64 (wrap64 x)"
  by (simp add: wrap64_def int64_def pos_mod_bound [THEN order_less_le_trans])

lemma wrap64_id [simp]: "int64 x \<Longrightarrow> wrap64 x = x"
  by (simp add: wrap64_def int64_def)

lemma add64_exact: "int64 (a + b) \<Longrightarrow> add64 a b = a + b"
  by (simp add: add64_def)

lemma sub64_exact: "int64 (a - b) \<Longrightarrow> sub64 a b = a - b"
  by (simp add: sub64_def)

lemma sub64_add64 [simp]: "int64 a \<Longrightarrow> sub64 (add64 a b) b = a"
proof -
  assume a: "int64 a"
  have "(wrap64 (a + b) - b + 2 ^ 63) mod 2 ^ 64 = (a + 2 ^ 63) mod (2 ^ 64 :: int)"
    by (simp add: wrap64_def algebra_simps mod_simps)
  then have "sub64 (add64 a b) b = wrap64 a"
    by (simp add: sub64_def add64_def wrap64_def)
  with a show ?thesis by simp
qed

lemma int64_add64 [simp]: "int64 (add64 a b)" and int64_sub64 [simp]: "int64 (sub64 a b)"
  by (simp_all add: add64_def sub64_def)


text \<open>Go's division truncates towards zero.\<close>

definition go_div :: "int \<Rightarrow> int \<Rightarrow> int" where
  "go_div a b = sgn a * sgn b * (\<bar>a\<bar> div \<bar>b\<bar>)"

definition go_mod :: "int \<Rightarrow> int \<Rightarrow> int" where
  "go_mod a b = a - b * go_div a b"

lemma go_div_nonneg [simp]: "0 \<le> a \<Longrightarrow> 0 < b \<Longrightarrow> go_div a b = a div b"
  by (cases "a = 0") (simp_all add: go_div_def)

lemma go_mod_nonneg [simp]: "0 \<le> a \<Longrightarrow> 0 < b \<Longrightarrow> go_mod a b = a mod b"
  by (simp add: go_mod_def minus_mult_div_eq_mod)

lemma wrap64_idem [simp]: "wrap64 (wrap64 x) = wrap64 x"
  by simp

lemma wrap64_add [simp]:
  "wrap64 (wrap64 a + b) = wrap64 (a + b)" "wrap64 (a + wrap64 b) = wrap64 (a + b)"
  by (simp_all add: wrap64_def algebra_simps mod_simps)

lemma wrap64_diff [simp]:
  "wrap64 (wrap64 a - b) = wrap64 (a - b)" "wrap64 (a - wrap64 b) = wrap64 (a - b)"
  by (simp_all add: wrap64_def algebra_simps mod_simps)

end
