(* ===== verification/GoText.thy ===== *)
theory GoText
  imports GoBase
begin

text \<open>
  Byte strings the way the Go code inspects them: \<open>strings.TrimSpace\<close> with the Unicode
  spaces it strips, \<open>strings.Split\<close>, and the shared validators for digests,
  identifiers, tokens, texts and JSON pointers of internal/capsule and internal/claim.
  A Go loop over the runes of a string that rejects everything outside an ASCII set rejects
  exactly the strings with a byte outside it, since a byte above 127 starts a rune above
  127 or the replacement rune; the validators are therefore stated over bytes.
\<close>

section \<open>Trimming and splitting\<close>

definition ascii_space :: "char \<Rightarrow> bool" where
  "ascii_space c \<longleftrightarrow> c \<in> set [CHR 0x09, CHR 0x0A, CHR 0x0B, CHR 0x0C, CHR 0x0D, CHR 0x20]"

text \<open>The two- and three-byte encodings of the other Unicode spaces.\<close>

definition space2 :: "char \<Rightarrow> char \<Rightarrow> bool" where
  "space2 a b \<longleftrightarrow> a = CHR 0xC2 \<and> (b = CHR 0x85 \<or> b = CHR 0xA0)"

definition space3 :: "char \<Rightarrow> char \<Rightarrow> char \<Rightarrow> bool" where
  "space3 a b c \<longleftrightarrow>
     (a, b, c) = (CHR 0xE1, CHR 0x9A, CHR 0x80) \<or>
     (a, b) = (CHR 0xE2, CHR 0x80) \<and>
       (CHR 0x80 \<le> c \<and> c \<le> CHR 0x8A \<or> c = CHR 0xA8 \<or> c = CHR 0xA9 \<or> c = CHR 0xAF) \<or>
     (a, b, c) = (CHR 0xE2, CHR 0x81, CHR 0x9F) \<or>
     (a, b, c) = (CHR 0xE3, CHR 0x80, CHR 0x80)"

fun trim_front :: "(char \<Rightarrow> char \<Rightarrow> bool) \<Rightarrow> (char \<Rightarrow> char \<Rightarrow> char \<Rightarrow> bool) \<Rightarrow> string \<Rightarrow> string" where
  "trim_front p2 p3 [] = []"
| "trim_front p2 p3 [a] = (if ascii_space a then [] else [a])"
| "trim_front p2 p3 [a, b] =
     (if ascii_space a then trim_front p2 p3 [b] else if p2 a b then [] else [a, b])"
| "trim_front p2 p3 (a # b # c # s) =
     (if ascii_space a then trim_front p2 p3 (b # c # s)
      else if p2 a b then trim_front p2 p3 (c # s)
      else if p3 a b c then trim_front p2 p3 s
      else a # b # c # s)"

definition trim_left :: "string \<Rightarrow> string" where
  "trim_left s = trim_front space2 space3 s"

definition trim_right :: "string \<Rightarrow> string" where
  "trim_right s = rev (trim_front (\<lambda>b a. space2 a b) (\<lambda>c b a. space3 a b c) (rev s))"

definition trim_space :: "string \<Rightarrow> string" where
  "trim_space s = trim_right (trim_left s)"

fun split_on :: "char \<Rightarrow> string \<Rightarrow> string list" where
  "split_on c [] = [[]]"
| "split_on c (x # xs) =
     (if x = c then [] # split_on c xs
      else (case split_on c xs of [] \<Rightarrow> [[x]] | p # ps \<Rightarrow> (x # p) # ps))"

fun join_with :: "string \<Rightarrow> string list \<Rightarrow> string" where
  "join_with sep [] = []"
| "join_with sep [p] = p"
| "join_with sep (p # q # ps) = p @ sep @ join_with sep (q # ps)"

lemma trim_front_suffix: "suffix (trim_front p2 p3 s) s"
  by (induction p2 p3 s rule: trim_front.induct) (auto intro: suffix_ConsI)

lemma length_trim_space: "length (trim_space s) \<le> length s"
proof -
  have "length (trim_front p2 p3 t) \<le> length t" for p2 p3 t
    using trim_front_suffix by (rule suffix_length_le)
  then have "length (trim_right t) \<le> length t" and "length (trim_left t) \<le> length t" for t
    unfolding trim_right_def trim_left_def by (metis length_rev)+
  then show ?thesis unfolding trim_space_def by (meson le_trans)
qed

lemma split_on_nonempty [simp]: "split_on c s \<noteq> []"
  by (cases s) (auto split: list.splits)

lemma join_with_Cons_char: "join_with sep ((x # p) # ps) = x # join_with sep (p # ps)"
  by (cases ps) auto

lemma join_with_Nil_part: "ps \<noteq> [] \<Longrightarrow> join_with sep ([] # ps) = sep @ join_with sep ps"
  by (cases ps) auto

lemma join_split: "join_with [c] (split_on c s) = s"
proof (induction s)
  case (Cons x s)
  then show ?case
    by (cases "split_on c s") (auto simp: join_with_Cons_char join_with_Nil_part)
qed simp

lemma split_no_sep: "p \<in> set (split_on c s) \<Longrightarrow> c \<notin> set p"
  by (induction s arbitrary: p) (auto split: if_splits list.splits)

lemma split_on_free: "c \<notin> set s \<Longrightarrow> split_on c s = [s]"
  by (induction s) auto

lemma split_on_joined: "split_on c (s @ c # t) = split_on c s @ split_on c t"
  by (induction s) (auto split: list.splits simp: split_on_nonempty)

lemma split_on_append: "c \<notin> set s \<Longrightarrow> split_on c (s @ c # t) = s # split_on c t"
  by (simp add: split_on_joined split_on_free)

section \<open>Validators\<close>

definition char_between :: "char \<Rightarrow> char \<Rightarrow> char \<Rightarrow> bool" where
  "char_between lo hi c \<longleftrightarrow> lo \<le> c \<and> c \<le> hi"

definition is_digit :: "char \<Rightarrow> bool" where
  "is_digit c = char_between CHR ''0'' CHR ''9'' c"

definition is_lower :: "char \<Rightarrow> bool" where
  "is_lower c = char_between CHR ''a'' CHR ''z'' c"

definition is_upper :: "char \<Rightarrow> bool" where
  "is_upper c = char_between CHR ''A'' CHR ''Z'' c"

definition valid_digest :: "string \<Rightarrow> bool" where
  "valid_digest value \<longleftrightarrow> length value = 64 \<and>
     (\<forall>c \<in> set value. \<not> (c < CHR ''0'' \<or> c > CHR ''9'' \<and> c < CHR ''a'' \<or> c > CHR ''f''))"

definition valid_optional_digest :: "string \<Rightarrow> bool" where
  "valid_optional_digest value \<longleftrightarrow> value = [] \<or> valid_digest value"

definition valid_identifier :: "string \<Rightarrow> bool" where
  "valid_identifier value \<longleftrightarrow>
     \<not> (value = [] \<or> length value > 256 \<or> value \<noteq> trim_space value) \<and>
     (\<forall>c \<in> set value. is_lower c \<or> is_digit c \<or> c \<in> set ''._:/-'')"

definition valid_schema_identity :: "string \<Rightarrow> bool" where
  "valid_schema_identity value \<longleftrightarrow> valid_identifier value \<and> CHR ''.'' \<in> set value"

definition valid_media_type :: "string \<Rightarrow> bool" where
  "valid_media_type value \<longleftrightarrow>
     value \<noteq> [] \<and> length value \<le> 128 \<and> value = trim_space value \<and> CHR ''/'' \<in> set value"

definition valid_claim_id :: "string \<Rightarrow> bool" where
  "valid_claim_id value \<longleftrightarrow>
     length value = 7 \<and> prefix ''CLM-'' value \<and> (\<forall>c \<in> set (drop 4 value). is_digit c)"

definition valid_text :: "string \<Rightarrow> bool" where
  "valid_text value \<longleftrightarrow> value \<noteq> [] \<and> length value \<le> 4096 \<and> value = trim_space value"

definition valid_token :: "string \<Rightarrow> bool" where
  "valid_token value \<longleftrightarrow>
     \<not> (value = [] \<or> length value > 256 \<or> value \<noteq> trim_space value) \<and>
     (\<forall>c \<in> set value. is_lower c \<or> is_upper c \<or> is_digit c \<or> c \<in> set ''._:/-'')"

text \<open>The scan of \<open>validJSONPointer\<close>: each tilde is followed by a zero or a one.\<close>

fun tildes_escaped :: "string \<Rightarrow> bool" where
  "tildes_escaped [] = True"
| "tildes_escaped [c] = (c \<noteq> CHR ''~'')"
| "tildes_escaped (c # d # s) =
     (if c \<noteq> CHR ''~'' then tildes_escaped (d # s)
      else (d = CHR ''0'' \<or> d = CHR ''1'') \<and> tildes_escaped s)"

definition valid_json_pointer :: "string \<Rightarrow> bool" where
  "valid_json_pointer pointer \<longleftrightarrow>
     pointer = [] \<or>
     prefix ''/'' pointer \<and> length pointer \<le> 2048 \<and> tildes_escaped pointer"

lemma valid_digest_nonempty [dest]: "valid_digest v \<Longrightarrow> v \<noteq> []"
  by (auto simp: valid_digest_def)

lemma valid_digest_not_Nil [simp]: "\<not> valid_digest []"
  by (simp add: valid_digest_def)

lemma valid_identifier_not_Nil [simp]: "\<not> valid_identifier []"
  by (simp add: valid_identifier_def)

lemma valid_token_not_Nil [simp]: "\<not> valid_token []"
  by (simp add: valid_token_def)

lemma valid_text_not_Nil [simp]: "\<not> valid_text []"
  by (simp add: valid_text_def)

lemma valid_claim_id_not_Nil [simp]: "\<not> valid_claim_id []"
  by (simp add: valid_claim_id_def)

lemma valid_identifier_token: "valid_identifier v \<Longrightarrow> valid_token v"
  by (auto simp: valid_identifier_def valid_token_def)

text \<open>An identifier holds no zero byte, so it can be the left part of a composite key.\<close>

lemma valid_identifier_no_nul: "valid_identifier v \<Longrightarrow> CHR 0x00 \<notin> set v"
  by (auto simp: valid_identifier_def is_lower_def is_digit_def char_between_def)

lemma valid_digest_no_nul: "valid_digest v \<Longrightarrow> CHR 0x00 \<notin> set v"
  by (auto simp: valid_digest_def)

lemma composite_key_inj:
  assumes "c \<notin> set a" and "c \<notin> set a'" and "a @ c # b = a' @ c # b'"
  shows "a = a' \<and> b = b'"
  using assms by (induction a arbitrary: a') (auto simp: Cons_eq_append_conv append_eq_Cons_conv)

section \<open>Nothing to trim\<close>

definition token_char :: "char \<Rightarrow> bool" where
  "token_char c \<longleftrightarrow> is_lower c \<or> is_upper c \<or> is_digit c \<or> c \<in> set ''._:/-''"

lemma token_char_ascii: "token_char c \<Longrightarrow> \<not> ascii_space c \<and> c \<noteq> CHR 0xC2 \<and> c \<noteq> CHR 0xE1 \<and> c \<noteq> CHR 0xE2 \<and> c \<noteq> CHR 0xE3"
  by (auto simp: token_char_def ascii_space_def is_lower_def is_upper_def is_digit_def char_between_def)

lemma trim_front_token:
  assumes "\<And>a b. p2 a b \<Longrightarrow> \<not> token_char a \<or> \<not> token_char b"
    and "\<And>a b c. p3 a b c \<Longrightarrow> \<not> token_char a \<or> \<not> token_char c"
  shows "\<forall>c \<in> set s. token_char c \<Longrightarrow> trim_front p2 p3 s = s"
  using assms token_char_ascii by (cases "(p2, p3, s)" rule: trim_front.cases) auto

lemma trim_space_token: "\<forall>c \<in> set s. token_char c \<Longrightarrow> trim_space s = s"
proof -
  assume s: "\<forall>c \<in> set s. token_char c"
  have "trim_front space2 space3 s = s" "trim_front (\<lambda>b a. space2 a b) (\<lambda>c b a. space3 a b c) (rev s) = rev s"
    using s token_char_ascii by (intro trim_front_token; force simp: space2_def space3_def)+
  then show ?thesis by (simp add: trim_space_def trim_left_def trim_right_def)
qed

end
