(* ===== verification/Utf8.thy ===== *)
theory Utf8
  imports GoText
begin

text \<open>
  UTF-8 as package unicode/utf8 reads and writes it: \<open>rune_len\<close> is the width of the rune at
  the front of a byte string (0 where \<open>DecodeRune\<close> reports an encoding error of width one),
  \<open>runes\<close> cuts a string into runes the way a range loop does, \<open>utf8_valid\<close> is
  \<open>utf8.Valid\<close> and \<open>utf8_encode\<close> is \<open>utf8.EncodeRune\<close> on scalar values.
\<close>

abbreviation ord :: "char \<Rightarrow> nat" where
  "ord c \<equiv> of_char c"

abbreviation chr :: "nat \<Rightarrow> char" where
  "chr n \<equiv> char_of n"

definition cont :: "char \<Rightarrow> bool" where
  "cont c \<longleftrightarrow> 128 \<le> ord c \<and> ord c < 192"

definition second_ok :: "char \<Rightarrow> char \<Rightarrow> bool" where
  "second_ok a b \<longleftrightarrow> cont b \<and> (ord a = 224 \<longrightarrow> 160 \<le> ord b) \<and> (ord a = 237 \<longrightarrow> ord b < 160) \<and>
     (ord a = 240 \<longrightarrow> 144 \<le> ord b) \<and> (ord a = 244 \<longrightarrow> ord b < 144)"

text \<open>The number of bytes a leading byte announces; 0 for bytes that cannot lead.\<close>

definition lead_len :: "char \<Rightarrow> nat" where
  "lead_len a =
     (if ord a < 128 then 1 else if ord a < 194 then 0 else if ord a < 224 then 2
      else if ord a < 240 then 3 else if ord a < 245 then 4 else 0)"

fun rune_len :: "string \<Rightarrow> nat" where
  "rune_len [] = 0"
| "rune_len (a # s) =
     (if lead_len a \<le> 1 then lead_len a
      else case s of [] \<Rightarrow> 0 | b # t \<Rightarrow>
        if second_ok a b \<and> lead_len a - 2 \<le> length t \<and> (\<forall>c \<in> set (take (lead_len a - 2) t). cont c)
        then lead_len a else 0)"

lemma lead_len_le: "lead_len a \<le> 4"
  by (simp add: lead_len_def)

lemma rune_len_le: "rune_len s \<le> length s"
  by (cases s) (auto simp: not_le split: list.splits)

function runes :: "string \<Rightarrow> string option list" where
  "runes [] = []"
| "runes (a # s) =
     (if rune_len (a # s) = 0 then None # runes s
      else Some (take (rune_len (a # s)) (a # s)) # runes (drop (rune_len (a # s)) (a # s)))"
  by pat_completeness auto
termination
  by (relation "measure length") (auto simp del: rune_len.simps(2))

declare runes.simps(2) [simp del] rune_len.simps(2) [simp del]

definition utf8_valid :: "string \<Rightarrow> bool" where
  "utf8_valid s \<longleftrightarrow> None \<notin> set (runes s)"

definition utf8_encode :: "nat \<Rightarrow> string" where
  "utf8_encode v =
     (if v < 128 then [chr v]
      else if v < 2048 then [chr (192 + v div 64), chr (128 + v mod 64)]
      else if v < 65536 then [chr (224 + v div 4096), chr (128 + v div 64 mod 64), chr (128 + v mod 64)]
      else [chr (240 + v div 262144), chr (128 + v div 4096 mod 64), chr (128 + v div 64 mod 64),
            chr (128 + v mod 64)])"

definition scalar :: "nat \<Rightarrow> bool" where
  "scalar v \<longleftrightarrow> v < 0xD800 \<or> 0xE000 \<le> v \<and> v < 0x110000"

definition replacement :: string where
  "replacement = utf8_encode 0xFFFD"

text \<open>A complete rune: a non-empty string whose front rune is the whole of it.\<close>

definition is_rune :: "string \<Rightarrow> bool" where
  "is_rune r \<longleftrightarrow> r \<noteq> [] \<and> rune_len r = length r"

section \<open>Facts\<close>

lemma rune_len_append:
  assumes "is_rune r"
  shows "rune_len (r @ t) = length r"
proof (cases r)
  case (Cons a s)
  then show ?thesis
    using assms by (cases s) (auto simp: is_rune_def rune_len.simps(2) split: if_splits list.splits)
qed (use assms in \<open>simp add: is_rune_def\<close>)

lemma runes_rune: "is_rune r \<Longrightarrow> runes (r @ t) = Some r # runes t"
proof -
  assume r: "is_rune r"
  then obtain a s where "r = a # s" by (cases r) (auto simp: is_rune_def)
  moreover have "rune_len (r @ t) = length r" using r by (rule rune_len_append)
  ultimately show ?thesis by (simp add: runes.simps(2))
qed

lemma is_rune_take:
  assumes "rune_len s \<noteq> 0"
  shows "is_rune (take (rune_len s) s)"
proof (cases s)
  case (Cons a t)
  show ?thesis
  proof (cases "lead_len a \<le> 1")
    case True
    with assms Cons have "lead_len a = 1" by (simp add: rune_len.simps(2))
    with Cons show ?thesis by (simp add: is_rune_def rune_len.simps(2))
  next
    case False
    then obtain m where "lead_len a = Suc (Suc m)" by (metis One_nat_def not_less_eq_eq less_eq_nat.simps(1) not0_implies_Suc)
    with assms Cons show ?thesis
      by (cases t) (auto simp: is_rune_def rune_len.simps(2) split: if_splits)
  qed
qed (use assms in simp)

lemma is_rune_ascii [simp]: "is_rune [a] \<longleftrightarrow> ord a < 128"
  by (auto simp: is_rune_def lead_len_def rune_len.simps(2))

lemma runes_is_rune: "Some r \<in> set (runes s) \<Longrightarrow> is_rune r"
proof (induction s rule: runes.induct)
  case (2 a s)
  then show ?case
    using is_rune_take [of "a # s"] by (auto simp: runes.simps(2) split: if_splits)
qed simp

lemma utf8_valid_Nil [simp]: "utf8_valid []"
  by (simp add: utf8_valid_def)

lemma utf8_valid_rune [simp]: "is_rune r \<Longrightarrow> utf8_valid (r @ t) \<longleftrightarrow> utf8_valid t"
  by (simp add: utf8_valid_def runes_rune)

lemma utf8_valid_ascii [simp]: "ord a < 128 \<Longrightarrow> utf8_valid (a # t) \<longleftrightarrow> utf8_valid t"
  using utf8_valid_rune [of "[a]" t] by simp

lemma runes_append: "utf8_valid s \<Longrightarrow> runes (s @ t) = runes s @ runes t"
proof (induction s rule: runes.induct)
  case (2 a s)
  let ?n = "rune_len (a # s)"
  have n: "?n \<noteq> 0" using 2(3) by (auto simp: utf8_valid_def runes.simps(2) split: if_splits)
  then have r: "is_rune (take ?n (a # s))" by (rule is_rune_take)
  have split: "a # s = take ?n (a # s) @ drop ?n (a # s)" by simp
  have v: "utf8_valid (drop ?n (a # s))"
    using 2(3) utf8_valid_rune [OF r] split by metis
  have "runes ((a # s) @ t) = Some (take ?n (a # s)) # runes (drop ?n (a # s) @ t)"
    by (metis append.assoc runes_rune [OF r] split)
  also have "\<dots> = Some (take ?n (a # s)) # runes (drop ?n (a # s)) @ runes t"
    using 2(2) n v by simp
  also have "\<dots> = runes (a # s) @ runes t"
    using n by (simp only: runes.simps(2)) simp
  finally show ?case .
qed simp

lemma utf8_valid_append [simp]: "utf8_valid s \<Longrightarrow> utf8_valid (s @ t) \<longleftrightarrow> utf8_valid t"
  by (simp add: utf8_valid_def runes_append)

lemma ord_chr [simp]: "n < 256 \<Longrightarrow> ord (chr n) = n"
  by (simp add: of_char_of)

lemma chr_eq: "n < 256 \<Longrightarrow> chr n = c \<longleftrightarrow> ord c = n"
  by (metis ord_chr char_of_char)

lemma runes_concat: "utf8_valid s \<Longrightarrow> concat (map the (runes s)) = s"
proof (induction s rule: runes.induct)
  case (2 a s)
  let ?n = "rune_len (a # s)"
  have n: "?n \<noteq> 0" using 2(3) by (auto simp: utf8_valid_def runes.simps(2) split: if_splits)
  then have "utf8_valid (drop ?n (a # s))"
    using 2(3) utf8_valid_rune [OF is_rune_take [OF n]] by (metis append_take_drop_id)
  with 2(2) n show ?case by (simp add: runes.simps(2))
qed simp

lemma is_rune2: "lead_len a = 2 \<Longrightarrow> second_ok a b \<Longrightarrow> is_rune [a, b]"
  by (simp add: is_rune_def rune_len.simps(2))

lemma is_rune3: "lead_len a = 3 \<Longrightarrow> second_ok a b \<Longrightarrow> cont c \<Longrightarrow> is_rune [a, b, c]"
  by (simp add: is_rune_def rune_len.simps(2))

lemma is_rune4: "lead_len a = 4 \<Longrightarrow> second_ok a b \<Longrightarrow> cont c \<Longrightarrow> cont d \<Longrightarrow> is_rune [a, b, c, d]"
  by (simp add: is_rune_def rune_len.simps(2))

lemma six_bits: "128 + x mod 64 < (256::nat)" "128 + x mod 64 < (192::nat)"
  using mod_less_divisor [of 64 x] by linarith+

lemma cont_chr [simp]: "cont (chr (128 + x mod 64))"
  by (simp add: cont_def six_bits)

lemma lead_len_chr:
  "194 \<le> n \<Longrightarrow> n < 224 \<Longrightarrow> lead_len (chr n) = 2"
  "224 \<le> n \<Longrightarrow> n < 240 \<Longrightarrow> lead_len (chr n) = 3"
  "240 \<le> n \<Longrightarrow> n < 245 \<Longrightarrow> lead_len (chr n) = 4"
  by (simp_all add: lead_len_def)

lemma second_ok_chr:
  assumes "n < 256" and "n = 224 \<Longrightarrow> 32 \<le> x mod 64" and "n = 237 \<Longrightarrow> x mod 64 < 32"
    and "n = 240 \<Longrightarrow> 16 \<le> x mod 64" and "n = 244 \<Longrightarrow> x mod 64 < 16"
  shows "second_ok (chr n) (chr (128 + x mod 64))"
  using assms by (auto simp: second_ok_def six_bits)

lemma digit64: "v div 64 mod 64 = v div 64 - 64 * (v div 4096)" for v :: nat
  using minus_mult_div_eq_mod [of "v div 64" 64] by (simp add: div_mult2_eq [symmetric])

lemma encode_is_rune:
  assumes "scalar v"
  shows "is_rune (utf8_encode v)"
proof -
  have "v < 0x110000" using assms by (auto simp: scalar_def)
  then consider "v < 128" | "128 \<le> v" "v < 2048" | "2048 \<le> v" "v < 65536"
    | "65536 \<le> v" "v < 0x110000" by linarith
  then show ?thesis
  proof cases
    case 2
    then have "192 + v div 64 < 224" "194 \<le> 192 + v div 64" by auto
    with 2 show ?thesis
      by (simp add: utf8_encode_def) (intro is_rune2 lead_len_chr second_ok_chr; simp)
  next
    case 3
    have a: "v div 4096 < 16" using 3 by auto
    have b: "v div 4096 = 0 \<Longrightarrow> 32 \<le> v div 64 mod 64" using 3 by (simp add: digit64)
    have c: "v div 64 mod 64 < 32" if "v div 4096 = 13"
    proof -
      from that have "v < 14 * 4096" by (auto simp: dividend_less_div_times)
      with assms have "v < 864 * 64" by (simp add: scalar_def)
      then have "v div 64 < 864" by (simp add: less_mult_imp_div_less)
      with that show ?thesis by (simp add: digit64)
    qed
    have "utf8_encode v = [chr (224 + v div 4096), chr (128 + v div 64 mod 64), chr (128 + v mod 64)]"
      using 3 by (simp add: utf8_encode_def)
    moreover have "lead_len (chr (224 + v div 4096)) = 3"
      using a by (intro lead_len_chr) auto
    moreover have "second_ok (chr (224 + v div 4096)) (chr (128 + v div 64 mod 64))"
      using a b c by (intro second_ok_chr) linarith+
    ultimately show ?thesis by (simp add: is_rune3)
  next
    case 4
    have a: "v div 262144 < 5" using 4 by auto
    have d: "v div 4096 mod 64 = v div 4096 - 64 * (v div 262144)"
      using digit64 [of "v div 64"] by (simp add: div_mult2_eq [symmetric])
    have b: "v div 262144 = 0 \<Longrightarrow> 16 \<le> v div 4096 mod 64" using 4 by (simp add: d)
    have c: "v div 262144 = 4 \<Longrightarrow> v div 4096 mod 64 < 16" using 4 by (simp add: d)
    have "utf8_encode v = [chr (240 + v div 262144), chr (128 + v div 4096 mod 64),
        chr (128 + v div 64 mod 64), chr (128 + v mod 64)]"
      using 4 by (simp add: utf8_encode_def)
    moreover have "lead_len (chr (240 + v div 262144)) = 4"
      using a by (intro lead_len_chr) auto
    moreover have "second_ok (chr (240 + v div 262144)) (chr (128 + v div 4096 mod 64))"
      using a b c by (intro second_ok_chr) linarith+
    ultimately show ?thesis by (simp add: is_rune4)
  qed (simp add: utf8_encode_def)
qed

lemma replacement_rune [simp]: "is_rune replacement"
  unfolding replacement_def by (rule encode_is_rune) (simp add: scalar_def)

text \<open>The bytes of a rune of more than one byte are above the ASCII range.\<close>

lemma rune_bytes_high:
  assumes "is_rune r" and "length r \<noteq> 1" and "c \<in> set r"
  shows "128 \<le> ord c"
proof (cases r)
  case (Cons a s)
  with assms show ?thesis
    by (cases s) (auto simp: is_rune_def rune_len.simps(2) lead_len_def second_ok_def cont_def not_less
        split: if_splits)
qed (use assms in simp)

end
