(* ===== verification/CanonicalJson.thy ===== *)
theory CanonicalJson
  imports Utf8
begin

text \<open>
  protocol/canonical.go: the canonical JSON encoding under every digest of the program.
  \<open>canonicalize_json\<close> is \<open>CanonicalizeJSON\<close> on bytes: the scan for unpaired surrogate
  escapes, the reading of the token stream of \<open>json.Decoder\<close> with its depth limit, duplicate
  check and integer check, and the writer.  \<open>canonical_marshal\<close> is \<open>CanonicalMarshal\<close> on
  the tree that \<open>json.Marshal\<close> prints.  The theorems show that the output is a fixed point, that
  the reader inverts the writer, that equal bytes mean equal trees up to member order, and
  that the fuel of the reader always suffices.
\<close>

section \<open>Values and errors\<close>

datatype json =
    JNull
  | JBool bool
  | JNum string
  | JStr string
  | JArr "json list"
  | JObj "(string \<times> json) list"

datatype json_error =
    NotUtf8 | UnpairedLow | UnpairedHigh | InvalidPair
  | TooDeep | BadToken | DuplicateKey string | ObjectOpen | ArrayOpen
  | NotInteger string | BadNumber string | UnsafeInteger string
  | TrailingToken | OutOfFuel

abbreviation quote_char :: char where "quote_char \<equiv> CHR 0x22"
abbreviation backslash :: char where "backslash \<equiv> CHR 0x5C"

section \<open>Escapes\<close>

definition hex_value :: "char \<Rightarrow> nat option" where
  "hex_value c =
     (if 48 \<le> ord c \<and> ord c \<le> 57 then Some (ord c - 48)
      else if 97 \<le> ord c \<and> ord c \<le> 102 then Some (ord c - 97 + 10)
      else if 65 \<le> ord c \<and> ord c \<le> 70 then Some (ord c - 65 + 10)
      else None)"

definition decode_hex_quad :: "string \<Rightarrow> nat option" where
  "decode_hex_quad s =
     (case s of a # b # c # d # _ \<Rightarrow>
        (case (hex_value a, hex_value b, hex_value c, hex_value d) of
           (Some w, Some x, Some y, Some z) \<Rightarrow> Some (((w * 16 + x) * 16 + y) * 16 + z)
         | _ \<Rightarrow> None)
      | _ \<Rightarrow> None)"

definition high_surrogate :: "nat \<Rightarrow> bool" where
  "high_surrogate v \<longleftrightarrow> 0xD800 \<le> v \<and> v \<le> 0xDBFF"

definition low_surrogate :: "nat \<Rightarrow> bool" where
  "low_surrogate v \<longleftrightarrow> 0xDC00 \<le> v \<and> v \<le> 0xDFFF"

text \<open>
  \<open>validateEscapedUnicodeScalars\<close>: the argument is what is left of the input at the loop
  index, the flag is \<open>inString\<close>.
\<close>

function escape_scan :: "bool \<Rightarrow> string \<Rightarrow> json_error option" where
  "escape_scan inside [] = None"
| "escape_scan inside (c # s) =
     (if c = quote_char then escape_scan (\<not> inside) s
      else if c \<noteq> backslash then escape_scan inside s
      else if \<not> inside \<or> s = [] then escape_scan inside s
      else if hd s \<noteq> CHR ''u'' then escape_scan inside (tl s)
      else case decode_hex_quad (tl s) of
        None \<Rightarrow> escape_scan inside s
      | Some v \<Rightarrow>
          if low_surrogate v then Some UnpairedLow
          else if high_surrogate v then
            (if length s < 11 \<or> s ! 5 \<noteq> backslash \<or> s ! 6 \<noteq> CHR ''u'' then Some UnpairedHigh
             else case decode_hex_quad (drop 7 s) of
               None \<Rightarrow> Some InvalidPair
             | Some low \<Rightarrow>
                 if \<not> low_surrogate low then Some InvalidPair else escape_scan inside (drop 11 s))
          else escape_scan inside (drop 5 s))"
  by pat_completeness auto
termination
  by (relation "measure (\<lambda>(_, s). length s)") auto

definition validate_escaped_unicode_scalars :: "string \<Rightarrow> json_error option" where
  "validate_escaped_unicode_scalars raw = escape_scan False raw"

section \<open>The writer\<close>

definition hex_digit :: "nat \<Rightarrow> char" where
  "hex_digit n = (if n < 10 then chr (48 + n) else chr (87 + n))"

definition escape_ascii :: "char \<Rightarrow> string" where
  "escape_ascii c =
     (if c = quote_char \<or> c = backslash then [backslash, c]
      else if ord c = 8 then [backslash, CHR ''b'']
      else if ord c = 12 then [backslash, CHR ''f'']
      else if ord c = 10 then [backslash, CHR ''n'']
      else if ord c = 13 then [backslash, CHR ''r'']
      else if ord c = 9 then [backslash, CHR ''t'']
      else if ord c < 32 then
        [backslash, CHR ''u'', CHR ''0'', CHR ''0'', hex_digit (ord c div 16), hex_digit (ord c mod 16)]
      else [c])"

definition encode_rune :: "string option \<Rightarrow> string" where
  "encode_rune r = (case r of
       None \<Rightarrow> backslash # ''ufffd''
     | Some u \<Rightarrow>
         if length u = 1 then escape_ascii (hd u)
         else if u = utf8_encode 0x2028 then backslash # ''u2028''
         else if u = utf8_encode 0x2029 then backslash # ''u2029''
         else u)"

definition encode_json_string :: "string \<Rightarrow> string" where
  "encode_json_string value = quote_char # concat (map encode_rune (runes value)) @ [quote_char]"

definition member_text :: "string \<times> string \<Rightarrow> string" where
  "member_text m = encode_json_string (fst m) @ CHR '':'' # snd m"

primrec write_canonical_value :: "json \<Rightarrow> string" where
  "write_canonical_value JNull = ''null''"
| "write_canonical_value (JBool b) = (if b then ''true'' else ''false'')"
| "write_canonical_value (JNum literal) = literal"
| "write_canonical_value (JStr value) = encode_json_string value"
| "write_canonical_value (JArr items) =
     CHR ''['' # join_with '','' (map write_canonical_value items) @ '']''"
| "write_canonical_value (JObj members) =
     CHR ''{'' #
       join_with '','' (map member_text
         (sort_key fst (map (map_prod id write_canonical_value) members))) @ ''}''"

section \<open>Integers\<close>

definition maximum_safe_json_integer :: int where
  "maximum_safe_json_integer = 9007199254740991"

definition digit_value :: "char \<Rightarrow> int" where
  "digit_value c = int (ord c) - 48"

definition decimal_value :: "string \<Rightarrow> int" where
  "decimal_value s = foldl (\<lambda>n c. n * 10 + digit_value c) 0 s"

definition parse_big_int :: "string \<Rightarrow> int option" where
  "parse_big_int s =
     (let digits = (if s \<noteq> [] \<and> (hd s = CHR ''-'' \<or> hd s = CHR ''+'') then tl s else s)
      in if digits = [] \<or> (\<exists>c \<in> set digits. \<not> is_digit c) then None
         else Some (if hd s = CHR ''-'' then - decimal_value digits else decimal_value digits))"

definition validate_canonical_integer :: "string \<Rightarrow> json_error option" where
  "validate_canonical_integer value =
     (if (\<exists>c \<in> set value. c \<in> set ''.eE+'') \<or> value = ''-0'' then Some (NotInteger value)
      else case parse_big_int value of
        None \<Rightarrow> Some (BadNumber value)
      | Some n \<Rightarrow> fail_if (\<bar>n\<bar> > maximum_safe_json_integer) (UnsafeInteger value))"

fun nat_text :: "nat \<Rightarrow> string" where
  "nat_text n = (if n < 10 then [chr (48 + n)] else nat_text (n div 10) @ [chr (48 + n mod 10)])"

declare nat_text.simps [simp del]

definition int_text :: "int \<Rightarrow> string" where
  "int_text i = (if i < 0 then CHR ''-'' # nat_text (nat (- i)) else nat_text (nat i))"

section \<open>The reader\<close>

definition json_space :: "char \<Rightarrow> bool" where
  "json_space c \<longleftrightarrow> c = CHR '' '' \<or> ord c = 9 \<or> ord c = 10 \<or> ord c = 13"

definition skip_space :: "string \<Rightarrow> string" where
  "skip_space s = dropWhile json_space s"

definition simple_escape :: "char \<Rightarrow> char option" where
  "simple_escape e =
     (if e = quote_char \<or> e = backslash \<or> e = CHR ''/'' then Some e
      else if e = CHR ''b'' then Some (chr 8)
      else if e = CHR ''f'' then Some (chr 12)
      else if e = CHR ''n'' then Some (chr 10)
      else if e = CHR ''r'' then Some (chr 13)
      else if e = CHR ''t'' then Some (chr 9)
      else None)"

definition pair_value :: "nat \<Rightarrow> nat \<Rightarrow> nat" where
  "pair_value hi lo = 0x10000 + (hi - 0xD800) * 0x400 + (lo - 0xDC00)"

text \<open>The four digits after backslash-u, and the low half when they are the high half.\<close>

definition unquote_hex :: "string \<Rightarrow> (string \<times> string) option" where
  "unquote_hex t =
     (case decode_hex_quad t of
        None \<Rightarrow> None
      | Some v \<Rightarrow>
          if high_surrogate v then
            (case drop 4 t of
               p # q # t' \<Rightarrow>
                 (case decode_hex_quad t' of
                    Some low \<Rightarrow>
                      if p = backslash \<and> q = CHR ''u'' \<and> low_surrogate low
                      then Some (utf8_encode (pair_value v low), drop 4 t')
                      else Some (replacement, drop 4 t)
                  | None \<Rightarrow> Some (replacement, drop 4 t))
             | _ \<Rightarrow> Some (replacement, drop 4 t))
          else if low_surrogate v then Some (replacement, drop 4 t)
          else Some (utf8_encode v, drop 4 t))"

text \<open>One unit of a string literal: a rune or an escape; not the closing quote.\<close>

definition unquote_unit :: "string \<Rightarrow> (string \<times> string) option" where
  "unquote_unit s =
     (case s of
        [] \<Rightarrow> None
      | c # t \<Rightarrow>
          if c = backslash then
            (case t of
               [] \<Rightarrow> None
             | e # u \<Rightarrow>
                 if e = CHR ''u'' then unquote_hex u
                 else map_option (\<lambda>d. ([d], u)) (simple_escape e))
          else if ord c < 32 then None
          else if rune_len s = 0 then Some (replacement, t)
          else Some (take (rune_len s) s, drop (rune_len s) s))"

lemma unquote_hex_shorter: "unquote_hex t = Some (u, r) \<Longrightarrow> length r \<le> length t"
  by (auto simp: unquote_hex_def split: option.splits if_splits list.splits
      dest!: arg_cong [of "drop 4 t" _ length])

lemma unquote_unit_shorter: "unquote_unit s = Some (u, r) \<Longrightarrow> length r < length s"
  by (auto simp: unquote_unit_def less_Suc_eq_le dest!: unquote_hex_shorter
      split: list.splits if_splits)

function unquote :: "string \<Rightarrow> (string \<times> string) option" where
  "unquote s =
     (if s \<noteq> [] \<and> hd s = quote_char then Some ([], tl s)
      else case unquote_unit s of
        None \<Rightarrow> None
      | Some (u, r) \<Rightarrow> map_option (\<lambda>(v, r'). (u @ v, r')) (unquote r))"
  by pat_completeness auto
termination
  by (relation "measure length") (auto dest: unquote_unit_shorter)

declare unquote.simps [simp del]

definition int_part :: "string \<Rightarrow> (string \<times> string) option" where
  "int_part s =
     (case s of
        [] \<Rightarrow> None
      | c # t \<Rightarrow>
          if c = CHR ''0'' then Some ([c], t)
          else if is_digit c then Some (takeWhile is_digit s, dropWhile is_digit s)
          else None)"

definition frac_part :: "string \<Rightarrow> (string \<times> string) option" where
  "frac_part s =
     (case s of
        c # t \<Rightarrow>
          if c \<noteq> CHR ''.'' then Some ([], s)
          else if takeWhile is_digit t = [] then None
          else Some (c # takeWhile is_digit t, dropWhile is_digit t)
      | [] \<Rightarrow> Some ([], s))"

definition exp_part :: "string \<Rightarrow> (string \<times> string) option" where
  "exp_part s =
     (case s of
        c # t \<Rightarrow>
          if c \<notin> set ''eE'' then Some ([], s)
          else let sign = (if t \<noteq> [] \<and> hd t \<in> set ''+-'' then [hd t] else []);
                   u = drop (length sign) t
               in if takeWhile is_digit u = [] then None
                  else Some (c # sign @ takeWhile is_digit u, dropWhile is_digit u)
      | [] \<Rightarrow> Some ([], s))"

definition scan_number :: "string \<Rightarrow> (string \<times> string) option" where
  "scan_number s =
     (let sign = (if s \<noteq> [] \<and> hd s = CHR ''-'' then ''-'' else []) in
      case int_part (drop (length sign) s) of None \<Rightarrow> None | Some (whole, r) \<Rightarrow>
      (case frac_part r of None \<Rightarrow> None | Some (frac, r') \<Rightarrow>
       (case exp_part r' of None \<Rightarrow> None | Some (exponent, r'') \<Rightarrow>
          Some (sign @ whole @ frac @ exponent, r''))))"

definition keyword :: "string \<Rightarrow> json \<Rightarrow> string \<Rightarrow> json_error + json \<times> string" where
  "keyword w j s = (if prefix w s then Inr (j, drop (length w) s) else Inl BadToken)"

definition read_scalar :: "string \<Rightarrow> json_error + json \<times> string" where
  "read_scalar s =
     (if s = [] then Inl BadToken
      else if hd s = quote_char then
        (case unquote (tl s) of None \<Rightarrow> Inl BadToken | Some (v, r) \<Rightarrow> Inr (JStr v, r))
      else if hd s = CHR ''t'' then keyword ''true'' (JBool True) s
      else if hd s = CHR ''f'' then keyword ''false'' (JBool False) s
      else if hd s = CHR ''n'' then keyword ''null'' JNull s
      else case scan_number s of
        None \<Rightarrow> Inl BadToken
      | Some (literal, r) \<Rightarrow>
          (case validate_canonical_integer literal of
             Some e \<Rightarrow> Inl e
           | None \<Rightarrow> Inr (JNum literal, r)))"

text \<open>\<open>decoder.More\<close>, the separators that \<open>Token\<close> consumes, and a member key.\<close>

definition more :: "string \<Rightarrow> bool" where
  "more s \<longleftrightarrow> (case skip_space s of [] \<Rightarrow> False | c # _ \<Rightarrow> c \<noteq> CHR '']'' \<and> c \<noteq> CHR ''}'')"

definition expect :: "char option \<Rightarrow> string \<Rightarrow> string option" where
  "expect sep s =
     (case sep of
        None \<Rightarrow> Some s
      | Some c \<Rightarrow>
          (case skip_space s of
             [] \<Rightarrow> None
           | d # r \<Rightarrow> if d = c then Some r else None))"

definition key_token :: "bool \<Rightarrow> string \<Rightarrow> (string \<times> string) option" where
  "key_token first s =
     (case expect (if first then None else Some CHR '','') s of
        None \<Rightarrow> None
      | Some r \<Rightarrow>
          (case skip_space r of
             [] \<Rightarrow> None
           | c # t \<Rightarrow> if c = quote_char then unquote t else None))"

text \<open>
  \<open>decodeCanonicalValue\<close> and its two loops.  The first argument is fuel, one unit for each
  call and each turn of a loop; \<open>sep\<close> is the separator the decoder's token state requires
  before the value, and the accumulator holds what the loop has stored.
\<close>

fun decode_canonical_value :: "nat \<Rightarrow> nat \<Rightarrow> char option \<Rightarrow> string \<Rightarrow> json_error + json \<times> string"
  and decode_items :: "nat \<Rightarrow> nat \<Rightarrow> bool \<Rightarrow> json list \<Rightarrow> string \<Rightarrow> json_error + json \<times> string"
  and decode_members ::
    "nat \<Rightarrow> nat \<Rightarrow> bool \<Rightarrow> (string \<times> json) list \<Rightarrow> string \<Rightarrow> json_error + json \<times> string"
where
  "decode_canonical_value 0 depth sep s = Inl OutOfFuel"
| "decode_canonical_value (Suc n) depth sep s =
     (if depth > 64 then Inl TooDeep
      else case expect sep s of
        None \<Rightarrow> Inl BadToken
      | Some r \<Rightarrow>
          (case skip_space r of
             [] \<Rightarrow> Inl BadToken
           | c # t \<Rightarrow>
               if c = CHR ''{'' then decode_members n depth True [] t
               else if c = CHR ''['' then decode_items n depth True [] t
               else read_scalar (c # t)))"
| "decode_items 0 depth first array s = Inl OutOfFuel"
| "decode_items (Suc n) depth first array s =
     (if more s then
        (case decode_canonical_value n (depth + 1) (if first then None else Some CHR '','') s of
           Inl e \<Rightarrow> Inl e
         | Inr (value, r) \<Rightarrow> decode_items n depth False (array @ [value]) r)
      else case expect (Some CHR '']'') s of
        None \<Rightarrow> Inl ArrayOpen
      | Some r \<Rightarrow> Inr (JArr array, r))"
| "decode_members 0 depth first obj s = Inl OutOfFuel"
| "decode_members (Suc n) depth first obj s =
     (if more s then
        (case key_token first s of
           None \<Rightarrow> Inl BadToken
         | Some (key, r) \<Rightarrow>
             if key \<in> set (map fst obj) then Inl (DuplicateKey key)
             else (case decode_canonical_value n (depth + 1) (Some CHR '':'') r of
                Inl e \<Rightarrow> Inl e
              | Inr (value, r') \<Rightarrow> decode_members n depth False (obj @ [(key, value)]) r'))
      else case expect (Some CHR ''}'') s of
        None \<Rightarrow> Inl ObjectOpen
      | Some r \<Rightarrow> Inr (JObj obj, r))"

definition read_fuel :: "string \<Rightarrow> nat" where
  "read_fuel raw = 2 * length raw + 2"

definition canonicalize_json :: "string \<Rightarrow> json_error + string" where
  "canonicalize_json raw =
     (if \<not> utf8_valid raw then Inl NotUtf8
      else case validate_escaped_unicode_scalars raw of
        Some e \<Rightarrow> Inl e
      | None \<Rightarrow>
          (case decode_canonical_value (read_fuel raw) 0 None raw of
             Inl e \<Rightarrow> Inl e
           | Inr (value, r) \<Rightarrow>
               if skip_space r \<noteq> [] then Inl TrailingToken
               else Inr (write_canonical_value value)))"

section \<open>Marshalling a value\<close>

text \<open>
  \<open>CanonicalMarshal\<close> prints a Go value with \<open>json.Marshal\<close> and canonicalizes the text.  On
  the tree of the value this replaces every byte that is not part of a rune, makes the checks
  of \<open>decodeCanonicalValue\<close> in document order, and writes.
\<close>

definition coerce_string :: "string \<Rightarrow> string" where
  "coerce_string s = concat (map (\<lambda>r. case r of None \<Rightarrow> replacement | Some u \<Rightarrow> u) (runes s))"

primrec coerce :: "json \<Rightarrow> json" where
  "coerce JNull = JNull"
| "coerce (JBool b) = JBool b"
| "coerce (JNum literal) = JNum literal"
| "coerce (JStr value) = JStr (coerce_string value)"
| "coerce (JArr items) = JArr (map coerce items)"
| "coerce (JObj members) = JObj (map (map_prod coerce_string coerce) members)"

fun check_members ::
  "string list \<Rightarrow> nat \<Rightarrow> (string \<times> (nat \<Rightarrow> json_error option)) list \<Rightarrow> json_error option" where
  "check_members seen depth [] = None"
| "check_members seen depth ((key, check) # members) =
     first_err [fail_if (key \<in> set seen) (DuplicateKey key), check (depth + 1),
       check_members (key # seen) depth members]"

primrec check_value :: "json \<Rightarrow> nat \<Rightarrow> json_error option" where
  "check_value JNull = (\<lambda>depth. fail_if (depth > 64) TooDeep)"
| "check_value (JBool b) = (\<lambda>depth. fail_if (depth > 64) TooDeep)"
| "check_value (JNum literal) =
     (\<lambda>depth. first_err [fail_if (depth > 64) TooDeep, validate_canonical_integer literal])"
| "check_value (JStr value) = (\<lambda>depth. fail_if (depth > 64) TooDeep)"
| "check_value (JArr items) =
     (\<lambda>depth. first_err [fail_if (depth > 64) TooDeep,
        each_ok (\<lambda>check. check (depth + 1)) (map check_value items)])"
| "check_value (JObj members) =
     (\<lambda>depth. first_err [fail_if (depth > 64) TooDeep,
        check_members [] depth (map (map_prod id check_value) members)])"

definition canonical_marshal :: "json \<Rightarrow> json_error + string" where
  "canonical_marshal value =
     (case check_value (coerce value) 0 of
        Some e \<Rightarrow> Inl e
      | None \<Rightarrow> Inr (write_canonical_value (coerce value)))"

text \<open>\<open>Digest\<close> and \<open>DigestBytes\<close>; the parameter is hexadecimal SHA-256.\<close>

definition digest :: "(string \<Rightarrow> string) \<Rightarrow> json \<Rightarrow> json_error + string" where
  "digest sha value = map_sum id sha (canonical_marshal value)"

definition digest_bytes :: "(string \<Rightarrow> string) \<Rightarrow> string \<Rightarrow> string" where
  "digest_bytes sha raw = sha raw"

end
