(* ===== verification/CanonicalFacts.thy ===== *)
theory CanonicalFacts
  imports CanonicalJson
begin

text \<open>
  What protocol/canonical.go promises: the reader always terminates within its fuel, the
  reader inverts the writer, what the reader accepts is well formed, canonical bytes are a
  fixed point, and two values with the same canonical bytes are the same value up to the
  order of members.
\<close>

section \<open>The fuel suffices\<close>

lemma unquote_shorter: "unquote s = Some (v, r) \<Longrightarrow> length r < length s"
proof (induction s arbitrary: v r rule: unquote.induct)
  case (1 s)
  show ?case
  proof (cases "s \<noteq> [] \<and> hd s = quote_char")
    case True
    with 1(2) have "r = tl s" by (simp add: unquote.simps [of s])
    with True show ?thesis by (cases s) auto
  next
    case False
    with 1(2) obtain u t w where u: "unquote_unit s = Some (u, t)" and t: "unquote t = Some (w, r)"
      by (auto simp: unquote.simps [of s] split: option.splits)
    have "length r < length t" using 1(1) False u t by blast
    with unquote_unit_shorter [OF u] show ?thesis by simp
  qed
qed

lemma skip_space_le: "length (skip_space s) \<le> length s"
  by (simp add: skip_space_def length_dropWhile_le)

lemma expect_le: "expect sep s = Some r \<Longrightarrow> length r \<le> length s"
  using skip_space_le [of s] by (auto simp: expect_def split: option.splits list.splits if_splits)

lemma expect_less: "expect (Some c) s = Some r \<Longrightarrow> length r < length s"
  using skip_space_le [of s] by (auto simp: expect_def split: option.splits list.splits if_splits)

lemma key_token_shorter:
  assumes "key_token first s = Some (k, r)"
  shows "length r < length s"
proof -
  obtain u where u: "expect (if first then None else Some CHR '','') s = Some u"
    using assms by (auto simp: key_token_def split: option.splits)
  obtain c t where t: "skip_space u = c # t"
    using assms u by (auto simp: key_token_def split: list.splits)
  have "unquote t = Some (k, r)"
    using assms u t by (auto simp: key_token_def split: if_splits)
  with unquote_shorter [OF this] skip_space_le [of u] expect_le [OF u] t show ?thesis by simp
qed

lemma int_part_split: "int_part s = Some (w, r) \<Longrightarrow> s = w @ r \<and> w \<noteq> []"
  by (auto simp: int_part_def split: list.splits if_splits)

lemma frac_part_split: "frac_part s = Some (w, r) \<Longrightarrow> s = w @ r"
  by (auto simp: frac_part_def split: list.splits if_splits)

lemma exp_part_split:
  assumes "exp_part s = Some (w, r)"
  shows "s = w @ r"
proof (cases s)
  case (Cons c t)
  then show ?thesis
    using assms by (cases t) (auto simp: exp_part_def split: if_splits)
qed (use assms in \<open>simp add: exp_part_def\<close>)

lemma scan_number_split:
  assumes "scan_number s = Some (l, r)"
  shows "s = l @ r \<and> l \<noteq> []"
proof -
  define sign where "sign = (if s \<noteq> [] \<and> hd s = CHR ''-'' then ''-'' else [])"
  obtain w r1 f r2 e where w: "int_part (drop (length sign) s) = Some (w, r1)"
    and f: "frac_part r1 = Some (f, r2)" and e: "exp_part r2 = Some (e, r)"
    and l: "l = sign @ w @ f @ e"
    using assms by (auto simp: scan_number_def sign_def [symmetric] Let_def split: option.splits)
  have "s = sign @ drop (length sign) s"
    by (cases s) (auto simp: sign_def)
  with int_part_split [OF w] frac_part_split [OF f] exp_part_split [OF e] l
  show ?thesis by (metis append.assoc append_is_Nil_conv)
qed

lemma keyword_shorter: "keyword w j s = Inr (v, r) \<Longrightarrow> w \<noteq> [] \<Longrightarrow> length r < length s"
  by (auto simp: keyword_def prefix_def split: if_splits)

lemma scan_number_shorter: "scan_number s = Some (l, r) \<Longrightarrow> length r < length s"
  by (auto dest!: scan_number_split)

lemma read_scalar_shorter: "read_scalar s = Inr (j, r) \<Longrightarrow> length r < length s"
  by (cases s) (auto simp: read_scalar_def dest!: unquote_shorter keyword_shorter scan_number_shorter
      split: if_splits option.splits)

lemma validate_integer_fuel [simp]: "validate_canonical_integer l \<noteq> Some OutOfFuel"
  by (auto simp: validate_canonical_integer_def split: option.splits)

lemma read_scalar_fuel [simp]: "read_scalar s \<noteq> Inl OutOfFuel"
  using validate_integer_fuel by (auto simp: read_scalar_def keyword_def split: if_splits option.splits)

lemma read_enough:
  "2 * length s + 1 \<le> n \<Longrightarrow>
     decode_canonical_value n depth sep s \<noteq> Inl OutOfFuel \<and>
     (\<forall>j r. decode_canonical_value n depth sep s = Inr (j, r) \<longrightarrow> length r < length s)"
  "2 * length s + 2 \<le> n \<Longrightarrow>
     decode_items n depth first array s \<noteq> Inl OutOfFuel \<and>
     (\<forall>j r. decode_items n depth first array s = Inr (j, r) \<longrightarrow> length r < length s)"
  "2 * length s + 2 \<le> n \<Longrightarrow>
     decode_members n depth first obj s \<noteq> Inl OutOfFuel \<and>
     (\<forall>j r. decode_members n depth first obj s = Inr (j, r) \<longrightarrow> length r < length s)"
proof (induction n depth sep s and n depth first array s and n depth first obj s
    rule: decode_canonical_value_decode_items_decode_members.induct)
  case (2 n depth sep s)
  show ?case
  proof (cases "expect sep s")
    case (Some r)
    note r = expect_le [OF Some]
    show ?thesis
    proof (cases "skip_space r")
      case (Cons c t)
      have t: "length t < length s" using Cons skip_space_le [of r] r by simp
      have A: "\<not> 64 < depth \<Longrightarrow> c = CHR ''{'' \<Longrightarrow> decode_members n depth True [] t \<noteq> Inl OutOfFuel \<and>
          (\<forall>j r. decode_members n depth True [] t = Inr (j, r) \<longrightarrow> length r < length t)"
        using 2(1) [OF _ Some Cons] 2(3) t by simp
      have B: "\<not> 64 < depth \<Longrightarrow> c = CHR ''['' \<Longrightarrow> decode_items n depth True [] t \<noteq> Inl OutOfFuel \<and>
          (\<forall>j r. decode_items n depth True [] t = Inr (j, r) \<longrightarrow> length r < length t)"
        using 2(2) [OF _ Some Cons] 2(3) t by simp
      have C: "length u < length (c # t) \<Longrightarrow> length u < length s" for u :: string
        using t by simp
      show ?thesis
        using A B C t Some Cons by (auto dest!: read_scalar_shorter intro: less_trans [OF _ t])
    qed (use Some in auto)
  qed auto
next
  case (4 n depth first array s)
  show ?case
  proof (cases "more s")
    case True
    show ?thesis
    proof (cases "decode_canonical_value n (depth + 1) (if first then None else Some CHR '','') s")
      case (Inl e)
      then show ?thesis using 4(1) 4(3) True by auto
    next
      case (Inr p)
      then obtain j r where p: "p = (j, r)" by force
      have "length r < length s" using 4(1) 4(3) True Inr p by auto
      then show ?thesis using 4(2) [OF True Inr p [symmetric]] 4(3) True Inr p by (auto intro: less_trans)
    qed
  qed (auto dest: expect_less split: option.splits)
next
  case (6 n depth first obj s)
  show ?case
  proof (cases "more s")
    case True
    show ?thesis
    proof (cases "key_token first s")
      case (Some p)
      obtain k r where p: "p = (k, r)" by force
      have r: "length r < length s" using key_token_shorter Some p by auto
      show ?thesis
      proof (cases "k \<in> set (map fst obj)")
        case False
        show ?thesis
        proof (cases "decode_canonical_value n (depth + 1) (Some CHR '':'') r")
          case (Inl e)
          then show ?thesis using 6(1) [OF True Some p [symmetric] False] 6(3) True Some p r False by auto
        next
          case (Inr q)
          obtain j t where q: "q = (j, t)" by force
          have t: "length t < length r" using 6(1) [OF True Some p [symmetric] False] 6(3) Inr q r by auto
          then show ?thesis
            using 6(2) [OF True Some p [symmetric] False Inr q [symmetric]] 6(3) True Some p Inr q r False by (auto intro: less_trans)
        qed
      qed (use True Some p in auto)
    qed (use True in auto)
  qed (auto dest: expect_less split: option.splits)
qed auto

lemma escape_scan_fuel [simp]: "escape_scan inside s \<noteq> Some OutOfFuel"
  by (induction inside s rule: escape_scan.induct) (auto split: option.splits)

section \<open>Strings: the reader inverts the writer\<close>

lemma hex_value_digit [simp]: "n < 16 \<Longrightarrow> hex_value (hex_digit n) = Some n"
  by (simp add: hex_value_def hex_digit_def)

lemma hex_value_zero [simp]: "hex_value CHR ''0'' = Some 0"
  by (simp add: hex_value_def)

lemma decode_control:
  "n < 256 \<Longrightarrow> decode_hex_quad
     (CHR ''0'' # CHR ''0'' # hex_digit (n div 16) # hex_digit (n mod 16) # t) = Some n"
  by (simp add: decode_hex_quad_def less_mult_imp_div_less)

lemma escape_ascii_unit:
  assumes "ord c < 128"
  shows "unquote_unit (escape_ascii c @ t) = Some ([c], t)"
proof -
  consider "c = quote_char \<or> c = backslash" | "ord c = 8" | "ord c = 12" | "ord c = 10" | "ord c = 13"
    | "ord c = 9" | "c \<noteq> quote_char" "c \<noteq> backslash" "32 \<le> ord c"
    | "ord c < 32" "ord c \<notin> {8, 9, 10, 12, 13}"
    by fastforce
  then show ?thesis
  proof cases
    case 7
    with assms have "rune_len (c # t) = 1" using rune_len_append [of "[c]" t] by simp
    with 7 show ?thesis by (simp add: escape_ascii_def unquote_unit_def)
  next
    case 8
    then have "c \<noteq> quote_char" "c \<noteq> backslash" by auto
    with 8 show ?thesis
      by (auto simp: escape_ascii_def unquote_unit_def unquote_hex_def decode_control high_surrogate_def
          low_surrogate_def utf8_encode_def)
  qed (auto simp: escape_ascii_def unquote_unit_def simple_escape_def dest: arg_cong [of _ _ chr])
qed

lemma escape_ascii_head: "hd (escape_ascii c @ t) \<noteq> quote_char \<and> escape_ascii c \<noteq> []"
  by (auto simp: escape_ascii_def)

lemma decode_2028 [simp]:
  "decode_hex_quad (CHR ''2'' # CHR ''0'' # CHR ''2'' # CHR ''8'' # t) = Some 0x2028"
  "decode_hex_quad (CHR ''2'' # CHR ''0'' # CHR ''2'' # CHR ''9'' # t) = Some 0x2029"
  by (simp_all add: decode_hex_quad_def hex_value_def)

lemma encode_rune_unit:
  assumes "is_rune r"
  shows "unquote_unit (encode_rune (Some r) @ t) = Some (r, t)"
    and "encode_rune (Some r) \<noteq> []" and "hd (encode_rune (Some r)) \<noteq> quote_char"
proof -
  have "unquote_unit (encode_rune (Some r) @ t) = Some (r, t) \<and>
      encode_rune (Some r) \<noteq> [] \<and> hd (encode_rune (Some r)) \<noteq> quote_char"
  proof (cases "length r = 1")
    case True
    then obtain c where c: "r = [c]" by (auto simp: length_Suc_conv)
    with assms show ?thesis
      using escape_ascii_unit [of c t] escape_ascii_head [of c "[]"] by (simp add: encode_rune_def)
  next
    case False
    then obtain a s where as: "r = a # s" using assms by (cases r) (auto simp: is_rune_def)
    then have a: "128 \<le> ord a" using rune_bytes_high [OF assms False] by simp
    then have "a \<noteq> quote_char" "a \<noteq> backslash" by auto
    then show ?thesis
      using a as rune_len_append [OF assms, of t] False
      by (auto simp: encode_rune_def unquote_unit_def unquote_hex_def high_surrogate_def low_surrogate_def)
  qed
  then show "unquote_unit (encode_rune (Some r) @ t) = Some (r, t)"
    and "encode_rune (Some r) \<noteq> []" and "hd (encode_rune (Some r)) \<noteq> quote_char" by auto
qed

lemma unquote_encode:
  assumes "utf8_valid s"
  shows "unquote (concat (map encode_rune (runes s)) @ quote_char # rest) = Some (s, rest)"
proof -
  have "\<forall>r \<in> set rs. \<exists>u. r = Some u \<and> is_rune u \<Longrightarrow>
      unquote (concat (map encode_rune rs) @ quote_char # rest) = Some (concat (map the rs), rest)" for rs
  proof (induction rs)
    case Nil
    then show ?case by (simp add: unquote.simps)
  next
    case (Cons r rs)
    then obtain u where u: "r = Some u" "is_rune u" by auto
    let ?t = "concat (map encode_rune rs) @ quote_char # rest"
    have "hd (encode_rune r @ ?t) \<noteq> quote_char"
      using encode_rune_unit(2,3) [OF u(2)] u(1) by (cases "encode_rune r") auto
    then show ?case
      using Cons u encode_rune_unit(1) [OF u(2), of ?t] by (simp add: unquote.simps [of "encode_rune (Some u) @ ?t"])
  qed
  moreover have "\<forall>r \<in> set (runes s). \<exists>u. r = Some u \<and> is_rune u"
    using assms runes_is_rune unfolding utf8_valid_def by (metis not_Some_eq)
  ultimately show ?thesis using runes_concat [OF assms] by simp
qed

section \<open>Numbers\<close>

definition canonical_number :: "string \<Rightarrow> bool" where
  "canonical_number l \<longleftrightarrow> (\<exists>sign w. l = sign @ w \<and> (sign = [] \<or> sign = ''-'') \<and> w \<noteq> [] \<and>
     (\<forall>c \<in> set w. is_digit c) \<and> (hd w = CHR ''0'' \<longrightarrow> w = ''0''))"

definition delimited :: "string \<Rightarrow> bool" where
  "delimited rest \<longleftrightarrow> rest = [] \<or> hd rest \<in> set '',]}''"

lemma is_digit_iff: "is_digit c \<longleftrightarrow> 48 \<le> ord c \<and> ord c \<le> 57"
  by (simp add: is_digit_def char_between_def less_eq_char_def)

lemma zero_digit: "is_digit CHR ''0''"
  by (simp add: is_digit_iff)

lemma delimited_not_digit:
  assumes "delimited rest"
  shows "takeWhile is_digit rest = []" and "dropWhile is_digit rest = rest"
    and "frac_part rest = Some ([], rest)" and "exp_part rest = Some ([], rest)"
  using assms by (cases rest; auto simp: delimited_def is_digit_iff frac_part_def exp_part_def)+

lemma int_part_digits:
  assumes "w \<noteq> []" and "\<forall>c \<in> set w. is_digit c" and "hd w = CHR ''0'' \<longrightarrow> w = ''0''"
    and "delimited rest"
  shows "int_part (w @ rest) = Some (w, rest)"
  using assms by (cases w) (auto simp: int_part_def takeWhile_append2 dropWhile_append2 delimited_not_digit)

lemma scan_canonical:
  assumes "canonical_number l" and "delimited rest"
  shows "scan_number (l @ rest) = Some (l, rest)"
proof -
  obtain sign w where l: "l = sign @ w" and sign: "sign = [] \<or> sign = ''-''" and
    w: "w \<noteq> []" "\<forall>c \<in> set w. is_digit c" "hd w = CHR ''0'' \<longrightarrow> w = ''0''"
    using assms(1) by (auto simp: canonical_number_def)
  have "is_digit (hd w)" using w(1,2) by simp
  then have "hd w \<noteq> CHR ''-''" by (auto simp: is_digit_iff)
  with l sign w int_part_digits [OF w assms(2)] delimited_not_digit(3,4) [OF assms(2)]
  show ?thesis by (cases w) (auto simp: scan_number_def)
qed

lemma scan_canonical_number:
  assumes "scan_number s = Some (l, r)" and "validate_canonical_integer l = None"
  shows "canonical_number l"
proof -
  define sign where "sign = (if s \<noteq> [] \<and> hd s = CHR ''-'' then ''-'' else [])"
  obtain w r1 f r2 e where w: "int_part (drop (length sign) s) = Some (w, r1)"
    and f: "frac_part r1 = Some (f, r2)" and e: "exp_part r2 = Some (e, r)"
    and l: "l = sign @ w @ f @ e"
    using assms(1) by (auto simp: scan_number_def sign_def [symmetric] Let_def split: option.splits)
  have no: "\<not> (\<exists>c \<in> set l. c \<in> set ''.eE+'')"
    using assms(2) by (auto simp: validate_canonical_integer_def split: if_splits)
  have "hd f = CHR ''.'' \<or> f = []" using f by (auto simp: frac_part_def split: list.splits if_splits)
  moreover have "hd e \<in> set ''eE'' \<or> e = []"
    using e by (auto simp: exp_part_def Let_def split: list.splits if_splits)
  moreover have "hd f \<notin> set ''.eE+''" if "f \<noteq> []" using no l hd_in_set [OF that] by (metis Un_iff set_append)
  moreover have "hd e \<notin> set ''.eE+''" if "e \<noteq> []" using no l hd_in_set [OF that] by (metis Un_iff set_append)
  ultimately have "f = []" "e = []" by auto
  moreover have "w \<noteq> []" "\<forall>c \<in> set w. is_digit c" "hd w = CHR ''0'' \<longrightarrow> w = ''0''"
    using w zero_digit by (auto simp: int_part_def dest: set_takeWhileD split: list.splits if_splits)
  moreover have "sign = [] \<or> sign = ''-''" by (simp add: sign_def)
  ultimately show ?thesis using l unfolding canonical_number_def by auto
qed

lemma nat_text_digits:
  "nat_text n \<noteq> []" "\<forall>c \<in> set (nat_text n). is_digit c"
  "hd (nat_text n) = CHR ''0'' \<Longrightarrow> n = 0" "decimal_value (nat_text n) = int n"
proof -
  have "nat_text n \<noteq> [] \<and> (\<forall>c \<in> set (nat_text n). is_digit c) \<and>
     (hd (nat_text n) = CHR ''0'' \<longrightarrow> n = 0) \<and> decimal_value (nat_text n) = int n"
  proof (induction n rule: nat_text.induct)
    case (1 n)
    show ?case
    proof (cases "n < 10")
      case True
      then have "nat_text n = [chr (48 + n)]" by (simp add: nat_text.simps)
      with True show ?thesis
        by (simp add: is_digit_iff decimal_value_def digit_value_def chr_eq)
    next
      case False
      then have "n div 10 \<noteq> 0" by auto
      moreover have "nat_text n = nat_text (n div 10) @ [chr (48 + n mod 10)]"
        using False by (simp add: nat_text.simps)
      moreover have "48 + n mod 10 < 58" by simp
      moreover have "int (n div 10) * 10 + int (n mod 10) = int n" by presburger
      ultimately show ?thesis
        using 1 False by (auto simp: is_digit_iff decimal_value_def digit_value_def)
    qed
  qed
  then show "nat_text n \<noteq> []" "\<forall>c \<in> set (nat_text n). is_digit c"
    "hd (nat_text n) = CHR ''0'' \<Longrightarrow> n = 0" "decimal_value (nat_text n) = int n" by blast+
qed

lemma nat_text_zero [simp]: "nat_text 0 = ''0''"
  by (simp add: nat_text.simps chr_eq)

lemma int_text_split:
  obtains sign w where "int_text i = sign @ w" and "sign = [] \<and> 0 \<le> i \<or> sign = ''-'' \<and> i < 0"
    and "w \<noteq> []" and "\<forall>c \<in> set w. is_digit c" and "hd w = CHR ''0'' \<longrightarrow> i = 0"
    and "decimal_value w = \<bar>i\<bar>" and "w = nat_text (nat \<bar>i\<bar>)"
proof
  let ?w = "nat_text (nat \<bar>i\<bar>)"
  show "int_text i = (if i < 0 then ''-'' else []) @ ?w"
    by (simp add: int_text_def)
  show "(if i < 0 then ''-'' else []) = [] \<and> 0 \<le> i \<or> (if i < 0 then ''-'' else []) = ''-'' \<and> i < 0"
    by simp
  show "hd ?w = CHR ''0'' \<longrightarrow> i = 0"
    using nat_text_digits(3) [of "nat \<bar>i\<bar>"] by linarith
  show "decimal_value ?w = \<bar>i\<bar>"
    by (simp add: nat_text_digits(4))
qed (rule nat_text_digits(1) nat_text_digits(2) refl)+

lemma int_text_canonical: "canonical_number (int_text i)"
proof -
  obtain sign w where i: "int_text i = sign @ w" "sign = [] \<and> 0 \<le> i \<or> sign = ''-'' \<and> i < 0"
    and w: "w \<noteq> []" "\<forall>c \<in> set w. is_digit c" "hd w = CHR ''0'' \<longrightarrow> i = 0"
    "decimal_value w = \<bar>i\<bar>" "w = nat_text (nat \<bar>i\<bar>)"
    by (rule int_text_split)
  have "hd w = CHR ''0'' \<longrightarrow> w = ''0''" using w(3,5) by simp
  with i w(1,2) show ?thesis unfolding canonical_number_def by blast
qed

lemma parse_int_text: "parse_big_int (int_text i) = Some i"
proof -
  obtain sign w where i: "int_text i = sign @ w" "sign = [] \<and> 0 \<le> i \<or> sign = ''-'' \<and> i < 0"
    and w: "w \<noteq> []" "\<forall>c \<in> set w. is_digit c" "hd w = CHR ''0'' \<longrightarrow> i = 0"
    "decimal_value w = \<bar>i\<bar>" "w = nat_text (nat \<bar>i\<bar>)"
    by (rule int_text_split)
  have "is_digit (hd w)" using w(1,2) by simp
  then have "hd w \<noteq> CHR ''-''" "hd w \<noteq> CHR ''+''" by (auto simp: is_digit_iff)
  with i w(1,2,4) show ?thesis by (cases "i < 0") (auto simp: parse_big_int_def)
qed

lemma int_text_inject [simp]: "int_text i = int_text k \<longleftrightarrow> i = k"
  by (metis option.inject parse_int_text)

lemma canonical_number_chars:
  assumes "canonical_number l" and "c \<in> set l"
  shows "is_digit c \<or> c = CHR ''-''"
  using assms by (auto simp: canonical_number_def)

lemma validate_int_text:
  "validate_canonical_integer (int_text i) = None \<longleftrightarrow> \<bar>i\<bar> \<le> maximum_safe_json_integer"
proof -
  have "\<not> (\<exists>c \<in> set (int_text i). c \<in> set ''.eE+'')"
  proof
    assume "\<exists>c \<in> set (int_text i). c \<in> set ''.eE+''"
    then obtain c where c: "c \<in> set (int_text i)" "c \<in> set ''.eE+''" by blast
    from canonical_number_chars [OF int_text_canonical c(1)] c(2) show False
      by (auto simp: is_digit_iff)
  qed
  moreover have "int_text i \<noteq> ''-0''"
  proof
    assume "int_text i = ''-0''"
    then have "parse_big_int ''-0'' = Some i" using parse_int_text [of i] by simp
    then have "i = 0" by (simp add: parse_big_int_def decimal_value_def digit_value_def is_digit_iff)
    with \<open>int_text i = ''-0''\<close> show False by (simp add: int_text_def)
  qed
  ultimately have "validate_canonical_integer (int_text i) =
      fail_if (\<bar>i\<bar> > maximum_safe_json_integer) (UnsafeInteger (int_text i))"
    unfolding validate_canonical_integer_def by (simp only: parse_int_text if_False option.case simp_thms)
  then show ?thesis by (simp only: fail_if_None not_less)
qed

section \<open>Well-formed values and their canonical form\<close>

primrec well_formed :: "json \<Rightarrow> nat \<Rightarrow> bool" where
  "well_formed JNull = (\<lambda>depth. depth \<le> 64)"
| "well_formed (JBool b) = (\<lambda>depth. depth \<le> 64)"
| "well_formed (JNum literal) =
     (\<lambda>depth. depth \<le> 64 \<and> canonical_number literal \<and> validate_canonical_integer literal = None)"
| "well_formed (JStr value) = (\<lambda>depth. depth \<le> 64 \<and> utf8_valid value)"
| "well_formed (JArr items) =
     (\<lambda>depth. depth \<le> 64 \<and> (\<forall>f \<in> set (map well_formed items). f (depth + 1)))"
| "well_formed (JObj members) =
     (\<lambda>depth. depth \<le> 64 \<and> distinct (map fst members) \<and> (\<forall>k \<in> set (map fst members). utf8_valid k) \<and>
        (\<forall>m \<in> set (map (map_prod id well_formed) members). snd m (depth + 1)))"

primrec canon :: "json \<Rightarrow> json" where
  "canon JNull = JNull"
| "canon (JBool b) = JBool b"
| "canon (JNum literal) = JNum literal"
| "canon (JStr value) = JStr value"
| "canon (JArr items) = JArr (map canon items)"
| "canon (JObj members) = JObj (sort_key fst (map (map_prod id canon) members))"

lemma write_canon [simp]: "write_canonical_value (canon j) = write_canonical_value j"
proof (induction j)
  case (JArr items)
  then show ?case by (simp cong: map_cong)
next
  case (JObj ms)
  let ?w = "map_prod id write_canonical_value" and ?c = "map_prod id canon"
  have "map ?w (sort_key fst (map ?c ms)) = sort_key fst (map ?w (map ?c ms))"
    by (rule sort_key_map_same [symmetric]) simp
  moreover have "map ?w (map ?c ms) = map ?w ms"
    using JObj by (auto simp: snds.simps)
  ultimately have "sort_key fst (map ?w (sort_key fst (map ?c ms))) = sort_key fst (map ?w ms)"
    by (simp only: sort_key_idem)
  then show ?case by (simp only: canon.simps write_canonical_value.simps)
qed simp_all

lemma well_formed_depth: "well_formed j depth \<Longrightarrow> depth \<le> 64"
  by (cases j) auto

lemma well_formed_canon: "well_formed j depth \<Longrightarrow> well_formed (canon j) depth"
proof (induction j arbitrary: depth)
  case (JObj ms)
  have "mset (map fst (sort_key fst (map (map_prod id canon) ms))) = mset (map fst ms)"
    by (simp add: image_mset.compositionality comp_def)
  then have same: "distinct (map fst (sort_key fst (map (map_prod id canon) ms))) = distinct (map fst ms)"
    by (rule mset_eq_imp_distinct_iff)
  have "distinct (map fst ms)" using JObj.prems by simp
  then have "distinct (map fst (sort_key fst (map (map_prod id canon) ms)))"
    by (simp only: same)
  with JObj show ?case by (fastforce simp: snds.simps)
qed auto

text \<open>The text of a list after its first element, and the first byte of a value.\<close>

definition tail_text :: "string list \<Rightarrow> string" where
  "tail_text ws = concat (map (\<lambda>w. CHR '','' # w) ws)"

lemma join_tail: "join_with '','' (w # ws) = w @ tail_text ws"
  by (induction ws arbitrary: w) (auto simp: tail_text_def)

lemma tail_text_simps [simp]:
  "tail_text [] = []" "tail_text (w # ws) = CHR '','' # w @ tail_text ws"
  by (simp_all add: tail_text_def)

lemma delimited_tail [simp]:
  "delimited (tail_text ws @ CHR '']'' # rest)" "delimited (tail_text ws @ CHR ''}'' # rest)"
  by (cases ws; simp add: delimited_def)+

definition opens :: "string \<Rightarrow> bool" where
  "opens w \<longleftrightarrow> w \<noteq> [] \<and> \<not> json_space (hd w) \<and> hd w \<noteq> CHR '']'' \<and> hd w \<noteq> CHR ''}''"

lemma opens_simps:
  assumes "opens w"
  shows "skip_space (w @ t) = w @ t" and "more (w @ t)"
  using assms by (cases w; simp add: opens_def skip_space_def more_def)+

lemma opens_write: "well_formed j depth \<Longrightarrow> opens (write_canonical_value j)"
proof (cases j)
  case (JNum l)
  assume "well_formed j depth"
  then have "canonical_number l" using JNum by simp
  then have "l \<noteq> []" "\<forall>c \<in> set l. is_digit c \<or> c = CHR ''-''"
    using canonical_number_chars by (auto simp: canonical_number_def)
  then have "l \<noteq> []" "is_digit (hd l) \<or> hd l = CHR ''-''" by auto
  with JNum show ?thesis by (auto simp: opens_def json_space_def is_digit_iff)
qed (auto simp: opens_def encode_json_string_def json_space_def)

lemma skip_delim [simp]:
  "skip_space (CHR '','' # t) = CHR '','' # t" "skip_space (CHR '']'' # t) = CHR '']'' # t"
  "skip_space (CHR ''}'' # t) = CHR ''}'' # t" "skip_space (CHR '':'' # t) = CHR '':'' # t"
  "skip_space (quote_char # t) = quote_char # t"
  by (simp_all add: skip_space_def json_space_def)

lemma more_delim [simp]:
  "more (CHR '','' # t)" "\<not> more (CHR '']'' # t)" "\<not> more (CHR ''}'' # t)" "more (quote_char # t)"
  by (simp_all add: more_def)

lemma decode_sep:
  assumes "c = CHR '','' \<or> c = CHR '':''"
  shows "decode_canonical_value n depth (Some c) (c # s) = decode_canonical_value n depth None s"
  using assms by (cases n) (auto simp: expect_def)

section \<open>The reader inverts the writer\<close>

definition inverts :: "nat \<Rightarrow> json \<Rightarrow> bool" where
  "inverts depth j \<longleftrightarrow> (\<forall>n rest. delimited rest \<longrightarrow> 2 * length (write_canonical_value j @ rest) + 1 \<le> n \<longrightarrow>
     decode_canonical_value n depth None (write_canonical_value j @ rest) = Inr (canon j, rest))"

lemma invertsD:
  assumes "inverts depth j" and "delimited rest" and "2 * length (write_canonical_value j @ rest) + 1 \<le> n"
  shows "decode_canonical_value n depth None (write_canonical_value j @ rest) = Inr (canon j, rest)"
  using assms by (simp add: inverts_def)

lemma read_items:
  assumes "\<forall>j \<in> set items. inverts (depth + 1) j"
    and "2 * length (tail_text (map write_canonical_value items) @ CHR '']'' # rest) + 2 \<le> n"
  shows "decode_items n depth False acc (tail_text (map write_canonical_value items) @ CHR '']'' # rest) =
    Inr (JArr (acc @ map canon items), rest)"
  using assms
proof (induction items arbitrary: acc n)
  case Nil
  then show ?case by (cases n) (auto simp: expect_def)
next
  case (Cons j items)
  from Cons.prems(2) obtain m where m: "n = Suc m" by (cases n) auto
  let ?rest = "tail_text (map write_canonical_value items) @ CHR '']'' # rest"
  have "decode_canonical_value m (depth + 1) None (write_canonical_value j @ ?rest) = Inr (canon j, ?rest)"
    using Cons.prems m by (intro invertsD) auto
  then show ?case
    using Cons.IH [of m "acc @ [canon j]"] Cons.prems m by (simp add: decode_sep)
qed

lemma read_array:
  assumes "\<forall>j \<in> set items. inverts (depth + 1) j \<and> well_formed j (depth + 1)"
    and "2 * length (join_with '','' (map write_canonical_value items) @ CHR '']'' # rest) + 2 \<le> n"
  shows "decode_items n depth True [] (join_with '','' (map write_canonical_value items) @ CHR '']'' # rest) =
    Inr (JArr (map canon items), rest)"
proof (cases items)
  case Nil
  with assms(2) show ?thesis by (cases n) (auto simp: expect_def)
next
  case (Cons j js)
  from assms(2) obtain m where m: "n = Suc m" by (cases n) auto
  let ?rest = "tail_text (map write_canonical_value js) @ CHR '']'' # rest"
  have eq: "join_with '','' (map write_canonical_value items) @ CHR '']'' # rest =
      write_canonical_value j @ ?rest"
    using Cons by (simp only: list.map join_tail append.assoc)
  have "write_canonical_value j \<noteq> []"
    using opens_write assms(1) Cons unfolding opens_def by auto
  then have pos: "1 \<le> length (write_canonical_value j)" by (cases "write_canonical_value j") auto
  have "decode_canonical_value m (depth + 1) None (write_canonical_value j @ ?rest) = Inr (canon j, ?rest)"
    using assms Cons m unfolding eq by (intro invertsD) auto
  moreover have "decode_items m depth False [canon j] ?rest = Inr (JArr ([canon j] @ map canon js), rest)"
    using assms Cons m pos unfolding eq by (intro read_items) auto
  moreover have "more (write_canonical_value j @ ?rest)"
    using assms(1) Cons by (intro opens_simps opens_write) auto
  ultimately show ?thesis unfolding eq using Cons m by simp
qed

lemma read_key:
  assumes "utf8_valid k"
  shows "key_token True (encode_json_string k @ t) = Some (k, t)"
    and "key_token False (CHR '','' # encode_json_string k @ t) = Some (k, t)"
  using unquote_encode [OF assms, of t]
  by (simp_all add: key_token_def expect_def encode_json_string_def)

lemma member_text_append: "member_text (k, w) @ t = encode_json_string k @ CHR '':'' # w @ t"
  by (simp add: member_text_def)

definition member_texts :: "(string \<times> json) list \<Rightarrow> string list" where
  "member_texts ms = map (\<lambda>(k, v). member_text (k, write_canonical_value v)) ms"

lemma member_texts_simps [simp]:
  "member_texts [] = []"
  "member_texts ((k, v) # ms) = member_text (k, write_canonical_value v) # member_texts ms"
  by (simp_all add: member_texts_def)

lemma write_members:
  "map member_text (sort_key fst (map (map_prod id write_canonical_value) ms)) =
    member_texts (sort_key fst ms)"
proof -
  have "sort_key fst (map (map_prod id write_canonical_value) ms) =
      map (map_prod id write_canonical_value) (sort_key fst ms)"
    by (rule sort_key_map_same) simp
  then show ?thesis by (simp only: member_texts_def map_map) (auto simp: comp_def)
qed

definition canon_all :: "(string \<times> json) list \<Rightarrow> (string \<times> json) list" where
  "canon_all ms = map (\<lambda>(k, v). (k, canon v)) ms"

lemma canon_all_simps [simp]:
  "canon_all [] = []" "canon_all ((k, v) # ms) = (k, canon v) # canon_all ms"
  by (simp_all add: canon_all_def)

lemma canon_members: "canon (JObj ms) = JObj (canon_all (sort_key fst ms))"
proof -
  have "sort_key fst (map (map_prod id canon) ms) = map (map_prod id canon) (sort_key fst ms)"
    by (rule sort_key_map_same) simp
  then show ?thesis by (simp only: canon.simps canon_all_def) auto
qed

lemma read_member:
  assumes "inverts (depth + 1) v" and "delimited rest" and "2 * length (member_text (k, write_canonical_value v) @ rest) \<le> n"
  shows "decode_canonical_value n (depth + 1) (Some CHR '':'') (CHR '':'' # write_canonical_value v @ rest) =
    Inr (canon v, rest)"
proof -
  have "2 * length (write_canonical_value v @ rest) + 1 \<le> n"
    using assms(3) by (simp add: member_text_def)
  with assms(1,2) show ?thesis by (simp only: decode_sep invertsD simp_thms)
qed

lemma read_members:
  assumes "\<forall>m \<in> set ms. inverts (depth + 1) (snd m) \<and> utf8_valid (fst m)"
    and "distinct (map fst (acc @ ms))"
    and "2 * length (tail_text (member_texts ms) @ CHR ''}'' # rest) + 2 \<le> n"
  shows "decode_members n depth False acc (tail_text (member_texts ms) @ CHR ''}'' # rest) =
    Inr (JObj (acc @ canon_all ms), rest)"
  using assms
proof (induction ms arbitrary: acc n)
  case Nil
  then show ?case by (cases n) (auto simp: expect_def)
next
  case (Cons p ms)
  obtain k v where p: "p = (k, v)" by force
  from Cons.prems(3) obtain m where m: "n = Suc m" by (cases n) auto
  let ?rest = "tail_text (member_texts ms) @ CHR ''}'' # rest"
  have eq: "tail_text (member_texts (p # ms)) @ CHR ''}'' # rest =
      CHR '','' # encode_json_string k @ CHR '':'' # write_canonical_value v @ ?rest"
    by (simp add: p member_text_def)
  have "decode_canonical_value m (depth + 1) (Some CHR '':'') (CHR '':'' # write_canonical_value v @ ?rest) =
      Inr (canon v, ?rest)"
    using Cons.prems m p by (intro read_member [where k = k]) auto
  moreover have "key_token False (CHR '','' # encode_json_string k @ CHR '':'' # write_canonical_value v @ ?rest) =
      Some (k, CHR '':'' # write_canonical_value v @ ?rest)"
    using Cons.prems p by (intro read_key) auto
  moreover have "decode_members m depth False (acc @ [(k, canon v)]) ?rest =
      Inr (JObj ((acc @ [(k, canon v)]) @ canon_all ms), rest)"
    using Cons.prems m p by (intro Cons.IH) auto
  ultimately show ?case unfolding eq using Cons.prems(2) m p by simp
qed

lemma read_object:
  assumes "\<forall>m \<in> set ms. inverts (depth + 1) (snd m) \<and> utf8_valid (fst m)"
    and "distinct (map fst ms)"
    and "2 * length (join_with '','' (member_texts ms) @ CHR ''}'' # rest) + 2 \<le> n"
  shows "decode_members n depth True [] (join_with '','' (member_texts ms) @ CHR ''}'' # rest) =
    Inr (JObj (canon_all ms), rest)"
proof (cases ms)
  case Nil
  with assms(3) show ?thesis by (cases n) (auto simp: expect_def)
next
  case (Cons p qs)
  obtain k v where p: "p = (k, v)" by force
  from assms(3) obtain m where m: "n = Suc m" by (cases n) auto
  let ?rest = "tail_text (member_texts qs) @ CHR ''}'' # rest"
  let ?s = "encode_json_string k @ CHR '':'' # write_canonical_value v @ ?rest"
  have eq: "join_with '','' (member_texts ms) @ CHR ''}'' # rest = ?s"
    using Cons p by (simp add: join_tail member_text_def)
  have pos: "1 \<le> length (encode_json_string k)" by (simp add: encode_json_string_def)
  have "decode_canonical_value m (depth + 1) (Some CHR '':'') (CHR '':'' # write_canonical_value v @ ?rest) =
      Inr (canon v, ?rest)"
    using assms Cons m p unfolding eq by (intro read_member [where k = k]) (auto simp: member_text_def)
  moreover have "key_token True ?s = Some (k, CHR '':'' # write_canonical_value v @ ?rest)"
    using assms Cons p by (intro read_key) auto
  moreover have "decode_members m depth False [(k, canon v)] ?rest =
      Inr (JObj ([(k, canon v)] @ canon_all qs), rest)"
    using assms Cons m p pos unfolding eq by (intro read_members) auto
  moreover have "more ?s" by (simp add: encode_json_string_def)
  ultimately show ?thesis unfolding eq using Cons m p by simp
qed

lemma read_string_value:
  assumes "utf8_valid v"
  shows "read_scalar (encode_json_string v @ rest) = Inr (JStr v, rest)"
  using unquote_encode [OF assms, of rest] by (simp add: read_scalar_def encode_json_string_def)

lemma read_number_value:
  assumes "canonical_number l" and "validate_canonical_integer l = None" and "delimited rest"
  shows "read_scalar (l @ rest) = Inr (JNum l, rest)"
proof -
  obtain c w where l: "l = c # w" using assms(1) by (cases l) (auto simp: canonical_number_def)
  have c: "is_digit c \<or> c = CHR ''-''" using canonical_number_chars [OF assms(1)] l by simp
  have "c \<noteq> quote_char \<and> c \<noteq> CHR ''t'' \<and> c \<noteq> CHR ''f'' \<and> c \<noteq> CHR ''n''"
    using c by (auto simp: is_digit_iff)
  moreover have "scan_number ((c # w) @ rest) = Some (l, rest)"
    using scan_canonical [OF assms(1,3)] l by simp
  ultimately show ?thesis using assms(2) l by (simp add: read_scalar_def)
qed

lemma scalar_inverts:
  assumes "opens (write_canonical_value j)" and "hd (write_canonical_value j) \<noteq> CHR ''{''"
    and "hd (write_canonical_value j) \<noteq> CHR ''[''" and "depth \<le> 64"
    and "\<And>rest. delimited rest \<Longrightarrow> read_scalar (write_canonical_value j @ rest) = Inr (canon j, rest)"
  shows "inverts depth j"
  unfolding inverts_def
proof (intro allI impI)
  fix n rest
  let ?w = "write_canonical_value j"
  assume "delimited rest" and "2 * length (?w @ rest) + 1 \<le> n"
  moreover obtain c w where w: "?w = c # w" using assms(1) by (cases ?w) (auto simp: opens_def)
  moreover obtain m where "n = Suc m" using calculation(2) by (cases n) auto
  ultimately show "decode_canonical_value n depth None (?w @ rest) = Inr (canon j, rest)"
    using assms(1-4) assms(5) [of rest] by (simp add: opens_def expect_def skip_space_def)
qed

text \<open>Reading back what the writer printed gives the value with its members sorted.\<close>

lemma reader_inverts: "well_formed j depth \<Longrightarrow> inverts depth j"
proof (induction j arbitrary: depth)
  case (JNum l)
  have "opens l" using opens_write [OF JNum] by simp
  moreover have "hd l \<noteq> CHR ''{''" "hd l \<noteq> CHR ''[''"
    using JNum canonical_number_chars [of l "hd l"] calculation by (auto simp: opens_def is_digit_iff)
  ultimately show ?case
    using JNum by (intro scalar_inverts) (auto simp: read_number_value)
next
  case (JStr v)
  then show ?case
    using opens_write [OF JStr]
    by (intro scalar_inverts) (auto simp: read_string_value, auto simp: encode_json_string_def)
next
  case (JArr items)
  then have *: "\<forall>j \<in> set items. inverts (depth + 1) j \<and> well_formed j (depth + 1)" by auto
  show ?case
    unfolding inverts_def
  proof (intro allI impI)
    fix n rest
    assume d: "delimited rest" and n: "2 * length (write_canonical_value (JArr items) @ rest) + 1 \<le> n"
    obtain m where m: "n = Suc m" using n by (cases n) auto
    have "decode_items m depth True [] (join_with '','' (map write_canonical_value items) @ CHR '']'' # rest) =
        Inr (JArr (map canon items), rest)"
      using n m by (intro read_array [OF *]) simp
    with JArr.prems m show "decode_canonical_value n depth None (write_canonical_value (JArr items) @ rest) =
        Inr (canon (JArr items), rest)"
      by (simp add: expect_def skip_space_def json_space_def)
  qed
next
  case (JObj ms)
  have *: "\<forall>m \<in> set (sort_key fst ms). inverts (depth + 1) (snd m) \<and> utf8_valid (fst m)"
    using JObj by (fastforce simp: snds.simps)
  have "distinct (map fst (sort_key fst ms)) = distinct (map fst ms)"
    by (rule mset_eq_imp_distinct_iff) simp
  then have **: "distinct (map fst (sort_key fst ms))" using JObj.prems by simp
  show ?case
    unfolding inverts_def
  proof (intro allI impI)
    fix n rest
    assume d: "delimited rest" and n: "2 * length (write_canonical_value (JObj ms) @ rest) + 1 \<le> n"
    obtain m where m: "n = Suc m" using n by (cases n) auto
    let ?text = "join_with '','' (member_texts (sort_key fst ms)) @ CHR ''}'' # rest"
    have w: "write_canonical_value (JObj ms) @ rest = CHR ''{'' # ?text"
      by (simp only: write_canonical_value.simps write_members) simp
    have "decode_members m depth True [] ?text = Inr (JObj (canon_all (sort_key fst ms)), rest)"
      using n m unfolding w by (intro read_object [OF * **]) simp
    with JObj.prems m show "decode_canonical_value n depth None (write_canonical_value (JObj ms) @ rest) =
        Inr (canon (JObj ms), rest)"
      unfolding w canon_members by (simp add: expect_def skip_space_def json_space_def)
  qed
qed (rule scalar_inverts; auto simp: opens_def json_space_def read_scalar_def keyword_def)+

section \<open>Canonical bytes pass the checks of the reader\<close>

text \<open>A text that neither breaks UTF-8 nor changes what the escape scan makes of the rest.\<close>

definition passes :: "bool \<Rightarrow> string \<Rightarrow> bool" where
  "passes inside w \<longleftrightarrow> (\<forall>t. (utf8_valid (w @ t) \<longleftrightarrow> utf8_valid t) \<and>
     escape_scan inside (w @ t) = escape_scan inside t)"

lemma passes_Nil [simp]: "passes inside []"
  by (simp add: passes_def)

lemma passes_append [intro]: "passes inside v \<Longrightarrow> passes inside w \<Longrightarrow> passes inside (v @ w)"
  by (simp add: passes_def)

lemma passes_char: "ord c < 128 \<Longrightarrow> c \<noteq> quote_char \<Longrightarrow> c \<noteq> backslash \<Longrightarrow> passes inside [c]"
  by (simp add: passes_def)

lemma passes_Cons:
  "ord c < 128 \<Longrightarrow> c \<noteq> quote_char \<Longrightarrow> c \<noteq> backslash \<Longrightarrow> passes inside w \<Longrightarrow> passes inside (c # w)"
  by (simp add: passes_def)

lemma passes_concat: "\<forall>w \<in> set ws. passes inside w \<Longrightarrow> passes inside (concat ws)"
  by (induction ws) auto

lemma passes_join: "\<forall>w \<in> set ws. passes False w \<Longrightarrow> passes False (join_with '','' ws)"
  by (induction "'',''" ws rule: join_with.induct) (auto intro!: passes_append passes_Cons)

lemma passes_high:
  assumes "\<forall>c \<in> set w. 128 \<le> ord c"
  shows "escape_scan inside (w @ t) = escape_scan inside t"
  using assms
proof (induction w)
  case (Cons c w)
  then have "c \<noteq> quote_char" "c \<noteq> backslash" by auto
  with Cons show ?case by simp
qed simp

lemma hex_digit_ascii: "n < 16 \<Longrightarrow> ord (hex_digit n) < 128"
  by (simp add: hex_digit_def)

lemma passes_escape:
  assumes "ord c < 128"
  shows "passes True (escape_ascii c)"
proof -
  let ?hex = "backslash # CHR ''u'' # CHR ''0'' # CHR ''0'' #
      hex_digit (ord c div 16) # hex_digit (ord c mod 16) # []"
  consider (plain) "c \<noteq> quote_char" "c \<noteq> backslash" "escape_ascii c = [c]"
    | (pair) e where "escape_ascii c = [backslash, e]" "e \<noteq> CHR ''u''" "ord e < 128"
    | (hex) "escape_ascii c = ?hex" "ord c < 32"
  proof (cases "c = quote_char \<or> c = backslash \<or> ord c \<in> {8, 12, 10, 13, 9}")
    case True
    then have "\<exists>e. escape_ascii c = [backslash, e] \<and> e \<noteq> CHR ''u'' \<and> ord e < 128"
      by (auto simp: escape_ascii_def)
    with that(2) show thesis by blast
  next
    case False
    then show thesis
      using that(1,3) by (cases "ord c < 32") (simp_all add: escape_ascii_def)
  qed
  then show ?thesis
  proof cases
    case hex
    have "ord (hex_digit (ord c div 16)) < 128" "ord (hex_digit (ord c mod 16)) < 128"
      using hex(2) by (auto intro!: hex_digit_ascii)
    with hex show ?thesis
      using decode_control [of "ord c"] by (auto simp: passes_def low_surrogate_def high_surrogate_def)
  qed (use assms in \<open>auto simp: passes_def\<close>)
qed

lemma passes_rune:
  assumes "is_rune r"
  shows "passes True (encode_rune (Some r))"
proof (cases "length r = 1")
  case True
  then obtain c where "r = [c]" by (auto simp: length_Suc_conv)
  with assms show ?thesis by (simp add: encode_rune_def passes_escape)
next
  case False
  then have "escape_scan True (r @ t) = escape_scan True t" for t
    using rune_bytes_high [OF assms] by (intro passes_high) auto
  with False assms show ?thesis
    by (auto simp: encode_rune_def passes_def low_surrogate_def high_surrogate_def)
qed

lemma passes_string:
  assumes "utf8_valid s"
  shows "passes False (encode_json_string s)"
proof -
  have "passes True (concat (map encode_rune (runes s)))"
  proof (rule passes_concat, rule ballI)
    fix w assume "w \<in> set (map encode_rune (runes s))"
    then obtain r where "w = encode_rune r" "r \<in> set (runes s)" by auto
    moreover from this obtain u where "r = Some u" using assms by (cases r) (auto simp: utf8_valid_def)
    ultimately show "passes True w" using runes_is_rune passes_rune by blast
  qed
  then show ?thesis by (simp add: passes_def encode_json_string_def)
qed

lemma passes_write: "well_formed j depth \<Longrightarrow> passes False (write_canonical_value j)"
proof (induction j arbitrary: depth)
  case (JNum l)
  then have "\<forall>c \<in> set l. is_digit c \<or> c = CHR ''-''" using canonical_number_chars by auto
  then have "\<forall>c \<in> set l. ord c < 128 \<and> c \<noteq> quote_char \<and> c \<noteq> backslash" by (auto simp: is_digit_iff)
  then show ?case by (induction l) (auto intro: passes_Cons)
next
  case (JArr items)
  have "passes False (write_canonical_value x)" if "x \<in> set items" for x
    using JArr.prems that by (intro JArr.IH [of x "Suc depth"]) auto
  then show ?case by (auto intro!: passes_Cons passes_append passes_join)
next
  case (JObj ms)
  have "passes False w" if w: "w \<in> set (member_texts (sort_key fst ms))" for w
  proof -
    obtain k v where kv: "(k, v) \<in> set ms" "w = member_text (k, write_canonical_value v)"
      using w by (auto simp: member_texts_def)
    have "passes False (write_canonical_value v)" using JObj kv(1) by (fastforce simp: snds.simps)
    moreover have "passes False (encode_json_string k)"
      using JObj.prems kv(1) by (intro passes_string) force
    ultimately show ?thesis using kv(2) by (auto simp: member_text_def intro!: passes_append passes_Cons)
  qed
  then show ?case
    unfolding write_canonical_value.simps write_members by (auto intro!: passes_Cons passes_append passes_join)
next
  case (JStr v)
  then show ?case by (simp add: passes_string)
qed (auto simp: passes_def)

section \<open>What the reader accepts is well formed\<close>

lemma hex_value_less: "hex_value c = Some n \<Longrightarrow> n < 16"
  by (auto simp: hex_value_def split: if_splits)

lemma hex_quad_less:
  assumes "decode_hex_quad s = Some v"
  shows "v < 65536"
proof -
  obtain w x y z where "w < 16" "x < 16" "y < 16" "z < 16" and v: "v = ((w * 16 + x) * 16 + y) * 16 + z"
    using assms by (auto simp: decode_hex_quad_def dest!: hex_value_less split: list.splits option.splits)
  have step: "b < 16 \<Longrightarrow> a < n \<Longrightarrow> a * 16 + b < n * 16" for a b n :: nat by simp
  have "((w * 16 + x) * 16 + y) * 16 + z < 16 * 16 * 16 * 16"
    by (intro step \<open>w < 16\<close> \<open>x < 16\<close> \<open>y < 16\<close> \<open>z < 16\<close>)
  then show ?thesis unfolding v by simp
qed

lemma scalar_pair: "high_surrogate v \<Longrightarrow> low_surrogate low \<Longrightarrow> scalar (pair_value v low)"
  by (auto simp: high_surrogate_def low_surrogate_def pair_value_def scalar_def)

lemma unquote_hex_rune:
  assumes "unquote_hex t = Some (u, r)"
  shows "is_rune u"
proof -
  obtain v where v: "decode_hex_quad t = Some v"
    using assms by (auto simp: unquote_hex_def split: option.splits)
  show ?thesis
  proof (cases "high_surrogate v")
    case True
    with v assms scalar_pair [OF True] show ?thesis
      by (auto simp: unquote_hex_def intro: encode_is_rune split: list.splits option.splits if_splits)
  next
    case False
    have "low_surrogate v \<or> scalar v"
      using False hex_quad_less [OF v] by (auto simp: low_surrogate_def high_surrogate_def scalar_def)
    with v assms False show ?thesis
      by (auto simp: unquote_hex_def intro: encode_is_rune split: if_splits)
  qed
qed

lemma simple_escape_ascii: "simple_escape e = Some d \<Longrightarrow> ord d < 128"
  by (auto simp: simple_escape_def split: if_splits)

lemma unquote_unit_rune: "unquote_unit s = Some (u, r) \<Longrightarrow> is_rune u"
  using is_rune_take [of s]
  by (auto simp: unquote_unit_def dest: unquote_hex_rune simple_escape_ascii split: list.splits if_splits)

lemma unquote_valid: "unquote s = Some (v, r) \<Longrightarrow> utf8_valid v"
proof (induction s arbitrary: v r rule: unquote.induct)
  case (1 s)
  then show ?case
    by (auto simp: unquote.simps [of s] dest!: unquote_unit_rune split: if_splits option.splits)
qed

lemma read_scalar_well_formed:
  assumes "read_scalar s = Inr (j, r)" and "depth \<le> 64"
  shows "well_formed j depth"
  using assms scan_canonical_number
  by (auto simp: read_scalar_def keyword_def dest: unquote_valid split: if_splits option.splits)

lemma key_token_valid: "key_token first s = Some (k, r) \<Longrightarrow> utf8_valid k"
  by (auto simp: key_token_def dest: unquote_valid split: option.splits list.splits if_splits)

lemma decode_well_formed:
  "decode_canonical_value n depth sep s = Inr (j, r) \<Longrightarrow> well_formed j depth"
  "decode_items n depth first array s = Inr (j, r) \<Longrightarrow>
     \<forall>v \<in> set array. well_formed v (depth + 1) \<Longrightarrow> depth \<le> 64 \<Longrightarrow> well_formed j depth"
  "decode_members n depth first obj s = Inr (j, r) \<Longrightarrow>
     \<forall>m \<in> set obj. well_formed (snd m) (depth + 1) \<and> utf8_valid (fst m) \<Longrightarrow> distinct (map fst obj) \<Longrightarrow>
     depth \<le> 64 \<Longrightarrow> well_formed j depth"
proof (induction n depth sep s and n depth first array s and n depth first obj s
    arbitrary: j r and j r and j r rule: decode_canonical_value_decode_items_decode_members.induct)
  case (2 n depth sep s)
  then show ?case
    by (fastforce split: if_splits option.splits list.splits intro: read_scalar_well_formed)
next
  case (4 n depth first array s)
  then show ?case
    by (fastforce split: if_splits option.splits sum.splits)
next
  case (6 n depth first obj s)
  show ?case
  proof (cases "more s")
    case True
    then obtain k t where k: "key_token first s = Some (k, t)"
      using 6(3) by (auto split: option.splits)
    then have new: "k \<notin> set (map fst obj)"
      using 6(3) True by (auto split: if_splits)
    then obtain v t' where v: "decode_canonical_value n (depth + 1) (Some CHR '':'') t = Inr (v, t')"
      using 6(3) True k by (auto split: sum.splits)
    then have "decode_members n depth False (obj @ [(k, v)]) t' = Inr (j, r)"
      using 6(3) True k new by simp
    moreover have "well_formed v (depth + 1)" using 6(1) [OF True k refl new v] by simp
    ultimately show ?thesis
      using 6(2) [OF True k refl new v refl] 6(4-6) new key_token_valid [OF k] by auto
  next
    case False
    then have "j = JObj obj" using 6(3) by (auto split: option.splits)
    then show ?thesis using 6(4-6) by auto
  qed
qed (auto split: option.splits)

section \<open>Equal canonical forms\<close>

lemma distinct_canon_all: "distinct (map fst ms) \<Longrightarrow> distinct (map fst (canon_all ms))"
  by (simp add: canon_all_def comp_def case_prod_unfold)

lemma canon_object_eq:
  assumes "distinct (map fst ms)" and "distinct (map fst ms')"
  shows "canon (JObj ms) = canon (JObj ms') \<longleftrightarrow> map_of (canon_all ms) = map_of (canon_all ms')"
proof -
  have d: "distinct (map fst (canon_all ms))" "distinct (map fst (canon_all ms'))"
    using assms by (auto intro: distinct_canon_all)
  have sorted: "canon_all (sort_key fst ns) = sort_key fst (canon_all ns)" for ns
    unfolding canon_all_def by (rule sort_key_map_same [symmetric]) auto
  have "sort_key fst (canon_all ms) = sort_key fst (canon_all ms') \<longleftrightarrow> set (canon_all ms) = set (canon_all ms')"
  proof
    assume "set (canon_all ms) = set (canon_all ms')"
    moreover have "distinct (canon_all ms)" "distinct (canon_all ms')" using d by (simp_all add: distinct_map)
    ultimately have "mset (canon_all ms) = mset (canon_all ms')" by (simp add: set_eq_iff_mset_eq_distinct)
    then show "sort_key fst (canon_all ms) = sort_key fst (canon_all ms')"
      using d(1) by (intro sort_key_eq_sort_key) (auto simp: distinct_map)
  qed (metis set_sort)
  also have "\<dots> \<longleftrightarrow> map_of (canon_all ms) = map_of (canon_all ms')"
    using d by (metis map_of_eqI map_of_inject_set)
  finally show ?thesis unfolding canon_members sorted by simp
qed

section \<open>Marshalled values\<close>

text \<open>Every number of the tree is printed as a canonical literal, as \<open>json.Marshal\<close> prints ints.\<close>

primrec int_numbers :: "json \<Rightarrow> bool" where
  "int_numbers JNull = True"
| "int_numbers (JBool b) = True"
| "int_numbers (JNum literal) = canonical_number literal"
| "int_numbers (JStr value) = True"
| "int_numbers (JArr items) = (\<forall>b \<in> set (map int_numbers items). b)"
| "int_numbers (JObj members) = (\<forall>m \<in> set (map (map_prod id int_numbers) members). snd m)"

lemma concat_runes_valid: "\<forall>r \<in> set rs. is_rune r \<Longrightarrow> utf8_valid (concat rs)"
  by (induction rs) auto

lemma coerce_string_valid: "utf8_valid (coerce_string s)"
  unfolding coerce_string_def
  by (rule concat_runes_valid) (auto split: option.splits dest: runes_is_rune)

lemma coerce_string_id [simp]: "utf8_valid s \<Longrightarrow> coerce_string s = s"
proof -
  assume v: "utf8_valid s"
  then have "map (\<lambda>r. case r of None \<Rightarrow> replacement | Some u \<Rightarrow> u) (runes s) = map the (runes s)"
    by (auto simp: utf8_valid_def split: option.splits)
  with runes_concat [OF v] show ?thesis unfolding coerce_string_def by metis
qed

lemma check_members_None:
  "check_members seen depth ms = None \<longleftrightarrow>
     distinct (map fst ms) \<and> set seen \<inter> set (map fst ms) = {} \<and> (\<forall>m \<in> set ms. snd m (depth + 1) = None)"
proof (induction ms arbitrary: seen)
  case (Cons m ms)
  then show ?case by (cases m) auto
qed simp

lemma checked_well_formed:
  "check_value (coerce j) depth = None \<Longrightarrow> int_numbers j \<Longrightarrow> well_formed (coerce j) depth"
proof (induction j arbitrary: depth)
  case (JObj ms)
  have all: "\<forall>m \<in> set ms. check_value (coerce (snd m)) (depth + 1) = None"
    using JObj.prems(1) by (auto simp: check_members_None split: if_splits)
  have "well_formed (coerce v) (depth + 1)" if "(k, v) \<in> set ms" for k v
  proof (rule JObj.IH [OF that])
    show "v \<in> Basic_BNFs.snds (k, v)" by (simp add: snds.simps)
    show "check_value (coerce v) (depth + 1) = None"
      using bspec [OF all that] by simp
    show "int_numbers v" using JObj.prems(2) that by force
  qed
  then show ?case
    using JObj.prems(1) by (auto simp: check_members_None coerce_string_valid comp_def split: if_splits)
qed (auto simp: coerce_string_valid)

lemma canonical_marshal_write:
  assumes "canonical_marshal j = Inr b" and "int_numbers j"
  shows "well_formed (coerce j) 0" and "b = write_canonical_value (coerce j)"
  using assms checked_well_formed by (auto simp: canonical_marshal_def split: option.splits)

lemma write_inject:
  assumes "well_formed j 0" and "well_formed k 0" and "write_canonical_value j = write_canonical_value k"
  shows "canon j = canon k"
proof -
  let ?n = "2 * length (write_canonical_value j) + 1"
  have "decode_canonical_value ?n 0 None (write_canonical_value j @ []) = Inr (canon j, [])"
    by (rule invertsD [OF reader_inverts [OF assms(1)]]) (simp_all add: delimited_def)
  moreover have "decode_canonical_value ?n 0 None (write_canonical_value k @ []) = Inr (canon k, [])"
    by (rule invertsD [OF reader_inverts [OF assms(2)]]) (simp_all add: delimited_def assms(3))
  ultimately show ?thesis using assms(3) by simp
qed

lemma canonical_marshal_inject:
  assumes "canonical_marshal j = Inr b" and "canonical_marshal k = Inr b"
    and "int_numbers j" and "int_numbers k"
  shows "canon (coerce j) = canon (coerce k)"
  using assms canonical_marshal_write write_inject by metis

lemma digest_Inr: "digest sha j = Inr d \<longleftrightarrow> (\<exists>b. canonical_marshal j = Inr b \<and> d = sha b)"
  by (cases "canonical_marshal j") (auto simp: digest_def)

text \<open>
  Two values with one digest are the same value, or the two texts that were hashed are a
  collision: different texts with one hash.
\<close>

definition digest_text :: "json \<Rightarrow> string" where
  "digest_text j = write_canonical_value (coerce j)"

definition collides :: "(string \<Rightarrow> string) \<Rightarrow> string \<Rightarrow> string \<Rightarrow> bool" where
  "collides sha a b \<longleftrightarrow> a \<noteq> b \<and> sha a = sha b"

lemma digest_inject:
  assumes "digest sha j = Inr d" and "digest sha k = Inr d" and "int_numbers j" and "int_numbers k"
  shows "canon (coerce j) = canon (coerce k) \<or> collides sha (digest_text j) (digest_text k)"
proof -
  obtain b c where bc: "canonical_marshal j = Inr b" "canonical_marshal k = Inr c" "sha b = sha c"
    using assms(1,2) unfolding digest_Inr by metis
  moreover have "b = digest_text j" "c = digest_text k"
    using canonical_marshal_write(2) [OF bc(1) assms(3)] canonical_marshal_write(2) [OF bc(2) assms(4)]
    by (simp_all only: digest_text_def)
  ultimately show ?thesis
    using canonical_marshal_inject [OF bc(1) _ assms(3,4)] unfolding collides_def by metis
qed

lemma canonicalize_write:
  assumes "well_formed j 0"
  shows "canonicalize_json (write_canonical_value j) = Inr (write_canonical_value j)"
proof -
  let ?w = "write_canonical_value j"
  have p: "passes False ?w" using assms by (rule passes_write)
  have "utf8_valid ?w" using p by (simp add: passes_def) (metis append_Nil2 utf8_valid_Nil)
  moreover have "validate_escaped_unicode_scalars ?w = None"
    using p unfolding validate_escaped_unicode_scalars_def passes_def
    by (metis append_Nil2 escape_scan.simps(1))
  moreover have "decode_canonical_value (read_fuel ?w) 0 None (?w @ []) = Inr (canon j, [])"
    by (rule invertsD [OF reader_inverts [OF assms]]) (simp_all add: delimited_def read_fuel_def)
  ultimately show ?thesis
    by (simp add: canonicalize_json_def skip_space_def)
qed

section \<open>Properties\<close>

text \<open>
  C27: canonicalisation is total: on every input, however nested or malformed, the reader
  returns a canonical text or one of the code's own errors and never exhausts its fuel.
\<close>

theorem canonicalize_terminates: "canonicalize_json raw \<noteq> Inl OutOfFuel"
proof -
  have "decode_canonical_value (read_fuel raw) 0 None raw \<noteq> Inl OutOfFuel"
    using read_enough(1) [of raw "read_fuel raw" 0 None] by (simp add: read_fuel_def)
  moreover have "validate_escaped_unicode_scalars raw \<noteq> Some OutOfFuel"
    by (simp add: validate_escaped_unicode_scalars_def)
  ultimately show ?thesis by (auto simp: canonicalize_json_def split: option.splits sum.splits)
qed

lemma canonicalize_fixed:
  assumes "canonicalize_json raw = Inr out"
  shows "canonicalize_json out = Inr out"
proof -
  obtain j r where "decode_canonical_value (read_fuel raw) 0 None raw = Inr (j, r)"
    and out: "out = write_canonical_value j"
    using assms by (auto simp: canonicalize_json_def split: if_splits option.splits sum.splits)
  then have "well_formed j 0" by (auto dest: decode_well_formed(1))
  then show ?thesis unfolding out by (rule canonicalize_write)
qed

text \<open>
  C3: canonical JSON is a fixed point: the canonical text of any accepted input is accepted
  and canonicalizes to itself.
\<close>

theorem canonicalize_idempotent:
  assumes "canonicalize_json raw = Inr out"
  shows "canonicalize_json out = Inr out"
  using assms by (rule canonicalize_fixed)

lemma canonicalize_idempotent_witness:
  "canonicalize_json ''[1,-20,true]'' = Inr ''[1,-20,true]''"
  by (rule canonicalize_idempotent [of "''[1, -20 , true]''"]) code_simp

text \<open>
  Canonical bytes determine the value: two well-formed values have the same canonical
  text exactly when they are equal up to the order of object members.
\<close>

lemma canonical_text_iff:
  assumes "well_formed j 0" and "well_formed k 0"
  shows "write_canonical_value j = write_canonical_value k \<longleftrightarrow> canon j = canon k"
  using write_inject [OF assms] write_canon by metis

lemma canonical_text_iff_witness:
  "write_canonical_value (JObj [(''b'', JNum ''1''), (''a'', JNull)]) =
   write_canonical_value (JObj [(''a'', JNull), (''b'', JNum ''1'')])"
proof -
  have n: "canonical_number ''1''"
    unfolding canonical_number_def by (intro exI [of _ "[]"] exI [of _ "''1''"]) (simp add: is_digit_iff)
  have v: "validate_canonical_integer ''1'' = None" by code_simp
  have u: "utf8_valid ''a''" "utf8_valid ''b''" by simp_all
  show ?thesis
    by (subst canonical_text_iff) (simp_all add: n v u)
qed

end
