(* ===== verification/GoJson.thy ===== *)
theory GoJson
  imports CanonicalJson
begin

text \<open>
  What \<open>json.Marshal\<close> of Go's standard library prints for a struct: its fields in the order
  of their declaration, strings with the characters that matter to HTML escaped, and every byte that is not
  part of a rune replaced.  The values are the trees of CanonicalJson.
\<close>

section \<open>Fields\<close>

definition json_int :: "int \<Rightarrow> json" where
  "json_int i = JNum (int_text i)"

definition json_slice :: "('a \<Rightarrow> json) \<Rightarrow> 'a slice \<Rightarrow> json" where
  "json_slice f s = (case s of None \<Rightarrow> JNull | Some xs \<Rightarrow> JArr (map f xs))"

definition omit_empty :: "string \<Rightarrow> string \<Rightarrow> (string \<times> json) list" where
  "omit_empty key value = (if value = [] then [] else [(key, JStr value)])"

section \<open>The printer\<close>

definition html_char :: "char \<Rightarrow> bool" where
  "html_char c \<longleftrightarrow> c \<in> set ''<>&''"

definition marshal_rune :: "string option \<Rightarrow> string" where
  "marshal_rune r = (case r of
       Some [c] \<Rightarrow>
         if html_char c then [backslash, CHR ''u'', CHR ''0'', CHR ''0'', hex_digit (ord c div 16), hex_digit (ord c mod 16)]
         else encode_rune r
     | _ \<Rightarrow> encode_rune r)"

definition marshal_string :: "string \<Rightarrow> string" where
  "marshal_string value = quote_char # concat (map marshal_rune (runes value)) @ [quote_char]"

fun commas :: "string list \<Rightarrow> string" where
  "commas [] = []"
| "commas [x] = x"
| "commas (x # xs) = x @ CHR '','' # commas xs"

primrec json_marshal :: "json \<Rightarrow> string" where
  "json_marshal JNull = ''null''"
| "json_marshal (JBool b) = (if b then ''true'' else ''false'')"
| "json_marshal (JNum literal) = literal"
| "json_marshal (JStr value) = marshal_string value"
| "json_marshal (JArr items) = CHR ''['' # commas (map json_marshal items) @ '']''"
| "json_marshal (JObj members) =
     CHR ''{'' # commas (map (\<lambda>(key, text). marshal_string key @ CHR '':'' # text)
       (map (map_prod id json_marshal) members)) @ ''}''"

lemma json_marshal_nonempty [simp]: "json_marshal (JObj members) \<noteq> []"
  by simp

end
