(* ===== verification/Capsule.thy ===== *)
theory Capsule
  imports CanonicalFacts GoJson
begin

text \<open>
  internal/capsule/model.go and registry.go: the data of a capsule, and the registry of
  component types.  A Go named string type is a string with its constants as
  abbreviations and its \<open>Valid\<close> method as a function.  A registry document is sealed
  (\<open>seal_registry\<close>), validated (\<open>registry_document_validate\<close>) and loaded with its validators
  (\<open>new_registry_with_bindings\<close>, \<open>extend_registry_with_bindings\<close>).  Payload and binding validators
  are functions registered by the caller; \<open>sha\<close> is hexadecimal SHA-256.
\<close>

section \<open>Constants and enumerations\<close>

abbreviation ManifestSchemaVersion :: string where "ManifestSchemaVersion \<equiv> ''evalwitness.capsule-manifest.v1''"
abbreviation RegistrySchemaVersion :: string where "RegistrySchemaVersion \<equiv> ''evalwitness.capsule-registry.v1''"
abbreviation CanonicalPolicy :: string where "CanonicalPolicy \<equiv> ''evalwitness.capsule-canonical-json.v1''"
abbreviation DigestAlgorithm :: string where "DigestAlgorithm \<equiv> ''sha256''"

type_synonym role = string
abbreviation RoleObservation :: role where "RoleObservation \<equiv> ''observation''"
abbreviation RoleDerivation :: role where "RoleDerivation \<equiv> ''derivation''"
abbreviation RoleGovernance :: role where "RoleGovernance \<equiv> ''governance''"
abbreviation RoleAttestation :: role where "RoleAttestation \<equiv> ''attestation''"
abbreviation RoleCommitment :: role where "RoleCommitment \<equiv> ''commitment''"
abbreviation RolePresentation :: role where "RolePresentation \<equiv> ''presentation''"

definition role_valid :: "role \<Rightarrow> bool" where
  "role_valid r \<longleftrightarrow> r \<in> set [RoleObservation, RoleDerivation, RoleGovernance, RoleAttestation,
     RoleCommitment, RolePresentation]"

type_synonym visibility = string
abbreviation VisibilityPublic :: visibility where "VisibilityPublic \<equiv> ''public''"
abbreviation VisibilityRestricted :: visibility where "VisibilityRestricted \<equiv> ''restricted''"
abbreviation VisibilityPrivate :: visibility where "VisibilityPrivate \<equiv> ''private''"

definition visibility_valid :: "visibility \<Rightarrow> bool" where
  "visibility_valid v \<longleftrightarrow> v \<in> set [VisibilityPublic, VisibilityRestricted, VisibilityPrivate]"

definition visibility_rank :: "visibility \<Rightarrow> int" where
  "visibility_rank v =
     (if v = VisibilityPublic then 0 else if v = VisibilityRestricted then 1
      else if v = VisibilityPrivate then 2 else - 1)"

type_synonym payload_profile = string
abbreviation PayloadExactBytes :: payload_profile where
  "PayloadExactBytes \<equiv> ''evalwitness.payload-exact-bytes.v1''"
abbreviation PayloadCanonicalJSON :: payload_profile where
  "PayloadCanonicalJSON \<equiv> ''evalwitness.payload-canonical-json.v1''"

definition payload_profile_valid :: "payload_profile \<Rightarrow> bool" where
  "payload_profile_valid p \<longleftrightarrow> p = PayloadExactBytes \<or> p = PayloadCanonicalJSON"

type_synonym parent_resolution = string
abbreviation ParentInternal :: parent_resolution where "ParentInternal \<equiv> ''internal''"
abbreviation ParentExternal :: parent_resolution where "ParentExternal \<equiv> ''external''"
abbreviation ParentOmitted :: parent_resolution where "ParentOmitted \<equiv> ''omitted''"

definition parent_resolution_valid :: "parent_resolution \<Rightarrow> bool" where
  "parent_resolution_valid r \<longleftrightarrow> r = ParentInternal \<or> r = ParentExternal \<or> r = ParentOmitted"

type_synonym edge_kind = string
abbreviation EdgeDerivedFrom :: edge_kind where "EdgeDerivedFrom \<equiv> ''derived_from''"
abbreviation EdgeObservedFrom :: edge_kind where "EdgeObservedFrom \<equiv> ''observed_from''"
abbreviation EdgeGovernedBy :: edge_kind where "EdgeGovernedBy \<equiv> ''governed_by''"
abbreviation EdgeAttests :: edge_kind where "EdgeAttests \<equiv> ''attests''"
abbreviation EdgeCommitsTo :: edge_kind where "EdgeCommitsTo \<equiv> ''commits_to''"
abbreviation EdgeRedacts :: edge_kind where "EdgeRedacts \<equiv> ''redacts''"
abbreviation EdgeRenders :: edge_kind where "EdgeRenders \<equiv> ''renders''"
abbreviation EdgeSupersedes :: edge_kind where "EdgeSupersedes \<equiv> ''supersedes''"

definition edge_kind_valid :: "edge_kind \<Rightarrow> bool" where
  "edge_kind_valid k \<longleftrightarrow> k \<in> set [EdgeDerivedFrom, EdgeObservedFrom, EdgeGovernedBy, EdgeAttests,
     EdgeCommitsTo, EdgeRedacts, EdgeRenders, EdgeSupersedes]"

section \<open>Data\<close>

record parent_rule =
  rule_kind :: edge_kind
  rule_parent_type :: string
  rule_minimum :: int
  rule_maximum :: int
  rule_resolutions :: "parent_resolution slice"

record component_type =
  ct_type_id :: string
  ct_schema_id :: string
  ct_role :: role
  ct_allowed_visibilities :: "visibility slice"
  ct_media_type :: string
  ct_payload_profile :: payload_profile
  ct_validator_id :: string
  ct_binding_validator_id :: string
  ct_parent_rules :: "parent_rule slice"

record registry_document =
  rd_schema_version :: string
  rd_canonical_policy :: string
  rd_registry_id :: string
  rd_base_registry_digest :: string
  rd_types :: "component_type slice"
  rd_digest :: string

record parent_ref =
  ref_kind :: edge_kind
  ref_component_id :: string
  ref_type_id :: string
  ref_role :: role
  ref_visibility :: visibility
  ref_resolution :: parent_resolution
  ref_capsule_id :: string
  ref_omission_class :: string

record payload_identity =
  pi_algorithm :: string
  pi_digest :: string
  pi_bytes :: int
  pi_canonicalization :: payload_profile

record component_record =
  cr_component_id :: string
  cr_name :: string
  cr_type_id :: string
  cr_schema_id :: string
  cr_role :: role
  cr_visibility :: visibility
  cr_media_type :: string
  cr_payload :: payload_identity
  cr_parents :: "parent_ref slice"

record capsule_ref =
  cap_relation :: string
  cap_capsule_id :: string

record manifest =
  mf_schema_version :: string
  mf_canonical_policy :: string
  mf_capsule_id :: string
  mf_manifest_digest :: string
  mf_registry_digest :: string
  mf_study_id :: string
  mf_cell_id :: string
  mf_parent_capsules :: "capsule_ref slice"
  mf_scientific_roots :: "string slice"
  mf_presentation_roots :: "string slice"
  mf_components :: "component_record slice"

record verification_limits =
  max_components :: int
  max_manifest_bytes :: int
  max_registry_bytes :: int
  max_payload_bytes :: int
  max_total_bytes :: int

definition default_verification_limits :: verification_limits where
  "default_verification_limits =
     \<lparr> max_components = 100000, max_manifest_bytes = 64 * 2 ^ 20, max_registry_bytes = 16 * 2 ^ 20,
       max_payload_bytes = 512 * 2 ^ 20, max_total_bytes = 8 * 2 ^ 30 \<rparr>"

definition verification_limits_valid :: "verification_limits \<Rightarrow> bool" where
  "verification_limits_valid l \<longleftrightarrow>
     max_components l > 0 \<and> max_manifest_bytes l > 0 \<and> max_registry_bytes l > 0 \<and>
     max_payload_bytes l > 0 \<and> max_total_bytes l \<ge> max_payload_bytes l"

definition empty_payload_identity :: payload_identity where
  "empty_payload_identity =
     \<lparr> pi_algorithm = [], pi_digest = [], pi_bytes = 0, pi_canonicalization = [] \<rparr>"

definition empty_record :: component_record where
  "empty_record =
     \<lparr> cr_component_id = [], cr_name = [], cr_type_id = [], cr_schema_id = [], cr_role = [],
       cr_visibility = [], cr_media_type = [], cr_payload = empty_payload_identity, cr_parents = None \<rparr>"

section \<open>JSON of the data\<close>

text \<open>What \<open>json.Marshal\<close> prints for each struct: fields in order, \<open>omitempty\<close> left out.\<close>

definition parent_rule_json :: "parent_rule \<Rightarrow> json" where
  "parent_rule_json r = JObj [
     (''kind'', JStr (rule_kind r)), (''parent_type'', JStr (rule_parent_type r)),
     (''minimum'', json_int (rule_minimum r)), (''maximum'', json_int (rule_maximum r)),
     (''resolutions'', json_slice JStr (rule_resolutions r))]"

definition component_type_json :: "component_type \<Rightarrow> json" where
  "component_type_json t = JObj ([
     (''type_id'', JStr (ct_type_id t)), (''schema_id'', JStr (ct_schema_id t)), (''role'', JStr (ct_role t)),
     (''allowed_visibilities'', json_slice JStr (ct_allowed_visibilities t)),
     (''media_type'', JStr (ct_media_type t)), (''payload_profile'', JStr (ct_payload_profile t)),
     (''validator_id'', JStr (ct_validator_id t))] @
     omit_empty ''binding_validator_id'' (ct_binding_validator_id t) @
     [(''parent_rules'', json_slice parent_rule_json (ct_parent_rules t))])"

definition registry_document_json :: "registry_document \<Rightarrow> json" where
  "registry_document_json d = JObj ([
     (''schema_version'', JStr (rd_schema_version d)), (''canonical_policy'', JStr (rd_canonical_policy d)),
     (''registry_id'', JStr (rd_registry_id d))] @
     omit_empty ''base_registry_digest'' (rd_base_registry_digest d) @
     [(''types'', json_slice component_type_json (rd_types d)), (''digest'', JStr (rd_digest d))])"

definition parent_ref_json :: "parent_ref \<Rightarrow> json" where
  "parent_ref_json r = JObj ([
     (''kind'', JStr (ref_kind r)), (''component_id'', JStr (ref_component_id r)),
     (''type_id'', JStr (ref_type_id r)), (''role'', JStr (ref_role r)),
     (''visibility'', JStr (ref_visibility r)), (''resolution'', JStr (ref_resolution r))] @
     omit_empty ''capsule_id'' (ref_capsule_id r) @ omit_empty ''omission_class'' (ref_omission_class r))"

definition payload_identity_json :: "payload_identity \<Rightarrow> json" where
  "payload_identity_json p = JObj [
     (''algorithm'', JStr (pi_algorithm p)), (''digest'', JStr (pi_digest p)),
     (''bytes'', json_int (pi_bytes p)), (''canonicalization'', JStr (pi_canonicalization p))]"

definition component_record_json :: "component_record \<Rightarrow> json" where
  "component_record_json c = JObj [
     (''component_id'', JStr (cr_component_id c)), (''name'', JStr (cr_name c)),
     (''type_id'', JStr (cr_type_id c)), (''schema_id'', JStr (cr_schema_id c)), (''role'', JStr (cr_role c)),
     (''visibility'', JStr (cr_visibility c)), (''media_type'', JStr (cr_media_type c)),
     (''payload'', payload_identity_json (cr_payload c)),
     (''parents'', json_slice parent_ref_json (cr_parents c))]"

definition capsule_ref_json :: "capsule_ref \<Rightarrow> json" where
  "capsule_ref_json r = JObj [
     (''relation'', JStr (cap_relation r)), (''capsule_id'', JStr (cap_capsule_id r))]"

definition manifest_json :: "manifest \<Rightarrow> json" where
  "manifest_json m = JObj [
     (''schema_version'', JStr (mf_schema_version m)), (''canonical_policy'', JStr (mf_canonical_policy m)),
     (''capsule_id'', JStr (mf_capsule_id m)), (''manifest_digest'', JStr (mf_manifest_digest m)),
     (''registry_digest'', JStr (mf_registry_digest m)), (''study_id'', JStr (mf_study_id m)),
     (''cell_id'', JStr (mf_cell_id m)),
     (''parent_capsules'', json_slice capsule_ref_json (mf_parent_capsules m)),
     (''scientific_roots'', json_slice JStr (mf_scientific_roots m)),
     (''presentation_roots'', json_slice JStr (mf_presentation_roots m)),
     (''components'', json_slice component_record_json (mf_components m))]"

lemma int_numbers_json [simp]:
  "int_numbers (json_int i)"
  "(\<And>x. x \<in> set (elems s) \<Longrightarrow> int_numbers (f x)) \<Longrightarrow> int_numbers (json_slice f s)"
  by (auto simp: json_int_def int_text_canonical json_slice_def split: option.splits)

lemma int_numbers_omit [simp]: "\<forall>m \<in> set (omit_empty k v). int_numbers (snd m)"
  by (simp add: omit_empty_def)

lemma int_numbers_capsule [simp]:
  "int_numbers (parent_rule_json r)" "int_numbers (component_type_json t)"
  "int_numbers (registry_document_json d)" "int_numbers (parent_ref_json p)"
  "int_numbers (payload_identity_json i)" "int_numbers (component_record_json c)"
  "int_numbers (capsule_ref_json q)" "int_numbers (manifest_json m)"
  by (auto simp: parent_rule_json_def component_type_json_def registry_document_json_def parent_ref_json_def
      payload_identity_json_def component_record_json_def capsule_ref_json_def manifest_json_def omit_empty_def)

section \<open>Registry documents\<close>

datatype registry_error =
    RegistryIdentityInvalid | ComponentTypeInvalid string | VisibilityRequired | VisibilitiesUnordered
  | ParentRuleInvalid | ResolutionsUnordered | ParentRulesUnsorted string | TypesUnsorted
  | RegistryDigestInvalid | DigestFailed json_error
  | ValidatorInvalid string | BindingValidatorInvalid string
  | ValidatorUnavailable string string | BindingValidatorUnavailable string string
  | ParentTypeUnregistered string string | RoleInvertingEdge string edge_kind string
  | OmissionOnNonProjection string edge_kind
  | BaseRegistryRequired | BaseRegistryUnbound | TypeRedefined string
  | ValidatorReplaced string | BindingValidatorReplaced string
  | UnknownComponentType string | PayloadRejected string string | BindingsRejected string string
  | ExtensionInvalid registry_error

definition rule_key :: "parent_rule \<Rightarrow> string" where
  "rule_key rule = rule_kind rule @ CHR 0x00 # rule_parent_type rule"

definition validate_parent_rule :: "parent_rule \<Rightarrow> registry_error option" where
  "validate_parent_rule rule = first_err [
     fail_if (\<not> edge_kind_valid (rule_kind rule) \<or> \<not> valid_identifier (rule_parent_type rule) \<or>
         rule_minimum rule < 0 \<or> rule_maximum rule < - 1 \<or>
         rule_maximum rule \<ge> 0 \<and> rule_maximum rule < rule_minimum rule \<or>
         elems (rule_resolutions rule) = []) ParentRuleInvalid,
     scan_from (\<lambda>r. fail_if (\<not> parent_resolution_valid r) ResolutionsUnordered) ResolutionsUnordered id []
       (elems (rule_resolutions rule))]"

definition validate_visibilities :: "visibility list \<Rightarrow> registry_error option" where
  "validate_visibilities values = first_err [
     fail_if (values = []) VisibilityRequired,
     scan_from (\<lambda>v. fail_if (\<not> visibility_valid v) VisibilitiesUnordered) VisibilitiesUnordered
       visibility_rank (- 1) values]"

definition validate_component_type :: "component_type \<Rightarrow> registry_error option" where
  "validate_component_type descriptor = first_err [
     fail_if (\<not> valid_identifier (ct_type_id descriptor) \<or> \<not> valid_schema_identity (ct_schema_id descriptor) \<or>
         \<not> role_valid (ct_role descriptor) \<or> \<not> valid_media_type (ct_media_type descriptor) \<or>
         \<not> payload_profile_valid (ct_payload_profile descriptor) \<or>
         \<not> valid_identifier (ct_validator_id descriptor) \<or>
         ct_binding_validator_id descriptor \<noteq> [] \<and> \<not> valid_identifier (ct_binding_validator_id descriptor))
       (ComponentTypeInvalid (ct_type_id descriptor)),
     validate_visibilities (elems (ct_allowed_visibilities descriptor)),
     scan_from validate_parent_rule (ParentRulesUnsorted (ct_type_id descriptor)) rule_key []
       (elems (ct_parent_rules descriptor))]"

definition registry_digest :: "(string \<Rightarrow> string) \<Rightarrow> registry_document \<Rightarrow> json_error + string" where
  "registry_digest sha document = digest sha (registry_document_json (document\<lparr>rd_digest := []\<rparr>))"

definition registry_document_validate ::
  "(string \<Rightarrow> string) \<Rightarrow> registry_document \<Rightarrow> registry_error option" where
  "registry_document_validate sha d = first_err [
     fail_if (rd_schema_version d \<noteq> RegistrySchemaVersion \<or> rd_canonical_policy d \<noteq> CanonicalPolicy \<or>
         \<not> valid_identifier (rd_registry_id d) \<or> \<not> valid_optional_digest (rd_base_registry_digest d) \<or>
         \<not> valid_digest (rd_digest d) \<or> elems (rd_types d) = []) RegistryIdentityInvalid,
     scan_from validate_component_type TypesUnsorted ct_type_id [] (elems (rd_types d)),
     fail_if (registry_digest sha d \<noteq> Inr (rd_digest d)) RegistryDigestInvalid]"

text \<open>A rule, a type and the list of types in canonical order.\<close>

definition normalize_component_type :: "component_type \<Rightarrow> component_type" where
  "normalize_component_type descriptor = descriptor\<lparr>
     ct_allowed_visibilities := sort_slice visibility_rank (ct_allowed_visibilities descriptor),
     ct_parent_rules := slice_map (\<lambda>rule. rule\<lparr>rule_resolutions := sort_slice id (rule_resolutions rule)\<rparr>)
       (sort_slice rule_key (ct_parent_rules descriptor))\<rparr>"

text \<open>\<open>cloneComponentTypes\<close> allocates its result, so it is never \<open>nil\<close>.\<close>

definition clone_component_types :: "component_type slice \<Rightarrow> component_type slice" where
  "clone_component_types values = Some (elems values)"

definition seal_registry ::
  "(string \<Rightarrow> string) \<Rightarrow> string \<Rightarrow> string \<Rightarrow> component_type slice \<Rightarrow> registry_error + registry_document" where
  "seal_registry sha registry_id base_digest types =
     (let document = \<lparr> rd_schema_version = RegistrySchemaVersion, rd_canonical_policy = CanonicalPolicy,
            rd_registry_id = registry_id, rd_base_registry_digest = base_digest,
            rd_types = slice_map normalize_component_type
              (sort_slice ct_type_id (clone_component_types types)),
            rd_digest = [] \<rparr>
      in case registry_digest sha document of
           Inl e \<Rightarrow> Inl (DigestFailed e)
         | Inr d \<Rightarrow>
             let sealed = document\<lparr>rd_digest := d\<rparr>
             in (case registry_document_validate sha sealed of
                   Some e \<Rightarrow> Inl e
                 | None \<Rightarrow> Inr sealed))"

section \<open>Which roles an edge may connect\<close>

definition role_edge_allowed :: "component_record \<Rightarrow> component_record \<Rightarrow> edge_kind \<Rightarrow> bool" where
  "role_edge_allowed child parent kind =
     (if kind = EdgeDerivedFrom then
        cr_role child \<in> set [RoleDerivation, RoleGovernance] \<and> cr_role parent \<noteq> RolePresentation
      else if kind = EdgeObservedFrom then cr_role child = RoleObservation \<and> cr_role parent = RoleObservation
      else if kind = EdgeGovernedBy then
        cr_role child \<noteq> RoleGovernance \<and> cr_role child \<noteq> RolePresentation \<and> cr_role parent = RoleGovernance
      else if kind = EdgeAttests then
        cr_role child = RoleAttestation \<and>
        cr_role parent \<in> set [RoleObservation, RoleDerivation, RoleCommitment]
      else if kind = EdgeCommitsTo then cr_role child = RoleCommitment \<and> cr_role parent \<noteq> RolePresentation
      else if kind = EdgeRedacts then
        cr_role child \<in> set [RoleDerivation, RoleCommitment] \<and>
        cr_role parent \<in> set [RoleObservation, RoleDerivation, RoleAttestation]
      else if kind = EdgeRenders then cr_role child = RolePresentation \<and> cr_role parent \<noteq> RolePresentation
      else if kind = EdgeSupersedes then cr_role child = cr_role parent
      else False)"

section \<open>The loaded registry\<close>

type_synonym payload_validator = "string \<Rightarrow> string option"

record bound_parent =
  bp_reference :: parent_ref
  bp_record :: component_record
  bp_payload :: string

record binding_context =
  bc_component :: component_record
  bc_payload :: string
  bc_parents :: "bound_parent list"

type_synonym binding_validator = "binding_context \<Rightarrow> string option"

record registry =
  reg_document :: registry_document
  reg_types :: "string \<rightharpoonup> component_type"
  reg_validators :: "string \<rightharpoonup> payload_validator"
  reg_bindings :: "string \<rightharpoonup> binding_validator"

text \<open>
  A Go map of functions is an association list in the order its range loop takes, with
  \<open>None\<close> for a nil function.  \<open>load_functions\<close> is the loop that copies it.
\<close>

fun load_functions ::
  "(string \<Rightarrow> registry_error) \<Rightarrow> (string \<times> 'f option) list \<Rightarrow> registry_error + (string \<rightharpoonup> 'f)" where
  "load_functions bad [] = Inr Map.empty"
| "load_functions bad ((vid, f) # rest) =
     (if \<not> valid_identifier vid then Inl (bad vid)
      else case f of None \<Rightarrow> Inl (bad vid)
      | Some g \<Rightarrow> (case load_functions bad rest of Inl e \<Rightarrow> Inl e | Inr m \<Rightarrow> Inr (m(vid \<mapsto> g))))"

definition check_functions_available ::
  "(string \<rightharpoonup> payload_validator) \<Rightarrow> (string \<rightharpoonup> binding_validator) \<Rightarrow> component_type \<Rightarrow> registry_error option" where
  "check_functions_available validators bindings descriptor = first_err [
     fail_if (validators (ct_validator_id descriptor) = None)
       (ValidatorUnavailable (ct_type_id descriptor) (ct_validator_id descriptor)),
     fail_if (ct_binding_validator_id descriptor \<noteq> [] \<and> bindings (ct_binding_validator_id descriptor) = None)
       (BindingValidatorUnavailable (ct_type_id descriptor) (ct_binding_validator_id descriptor))]"

definition check_rule ::
  "(string \<rightharpoonup> component_type) \<Rightarrow> component_type \<Rightarrow> parent_rule \<Rightarrow> registry_error option" where
  "check_rule types descriptor rule =
     (case types (rule_parent_type rule) of
        None \<Rightarrow> Some (ParentTypeUnregistered (ct_type_id descriptor) (rule_parent_type rule))
      | Some parent \<Rightarrow> first_err [
          fail_if (\<not> role_edge_allowed
              (empty_record\<lparr>cr_type_id := ct_type_id descriptor, cr_role := ct_role descriptor\<rparr>)
              (empty_record\<lparr>cr_type_id := ct_type_id parent, cr_role := ct_role parent\<rparr>) (rule_kind rule))
            (RoleInvertingEdge (ct_type_id descriptor) (rule_kind rule) (rule_parent_type rule)),
          fail_if (ParentOmitted \<in> set (elems (rule_resolutions rule)) \<and>
              rule_kind rule \<noteq> EdgeRedacts \<and> rule_kind rule \<noteq> EdgeCommitsTo)
            (OmissionOnNonProjection (ct_type_id descriptor) (rule_kind rule))])"

definition type_table :: "component_type list \<Rightarrow> (string \<rightharpoonup> component_type)" where
  "type_table types = foldl (\<lambda>m t. m(ct_type_id t \<mapsto> t)) Map.empty types"

definition new_registry_with_bindings ::
  "(string \<Rightarrow> string) \<Rightarrow> registry_document \<Rightarrow> (string \<times> payload_validator option) list \<Rightarrow>
   (string \<times> binding_validator option) list \<Rightarrow> registry_error + registry" where
  "new_registry_with_bindings sha document validators bindings =
     (case registry_document_validate sha document of Some e \<Rightarrow> Inl e | None \<Rightarrow>
     (case load_functions ValidatorInvalid validators of Inl e \<Rightarrow> Inl e | Inr loaded \<Rightarrow>
     (case load_functions BindingValidatorInvalid bindings of Inl e \<Rightarrow> Inl e | Inr bound \<Rightarrow>
        let types = elems (rd_types document); table = type_table types in
        (case first_err [
             each_ok (check_functions_available loaded bound) types,
             each_ok (\<lambda>descriptor. each_ok (check_rule table descriptor) (elems (ct_parent_rules descriptor))) types] of
           Some e \<Rightarrow> Inl e
         | None \<Rightarrow> Inr \<lparr> reg_document = document, reg_types = table, reg_validators = loaded,
                         reg_bindings = bound \<rparr>))))"

definition new_registry ::
  "(string \<Rightarrow> string) \<Rightarrow> registry_document \<Rightarrow> (string \<times> payload_validator option) list \<Rightarrow> registry_error + registry"
where
  "new_registry sha document validators = new_registry_with_bindings sha document validators []"

text \<open>
  The copied functions of the base come from a registry, so they are given with their ids;
  \<open>keys\<close> lists the domain in the order of the range loop over the base's map.
\<close>

definition functions_of :: "string list \<Rightarrow> (string \<rightharpoonup> 'f) \<Rightarrow> (string \<times> 'f option) list" where
  "functions_of keys m = map (\<lambda>vid. (vid, m vid)) keys"

fun merge_functions ::
  "(string \<Rightarrow> registry_error) \<Rightarrow> (string \<times> 'f option) list \<Rightarrow> (string \<times> 'f option) list \<Rightarrow>
   registry_error + (string \<times> 'f option) list" where
  "merge_functions replaced merged [] = Inr merged"
| "merge_functions replaced merged ((vid, f) # rest) =
     (if vid \<in> set (map fst merged) then Inl (replaced vid)
      else merge_functions replaced (merged @ [(vid, f)]) rest)"

fun extend_types ::
  "(string \<rightharpoonup> component_type) \<Rightarrow> component_type list \<Rightarrow> component_type list \<Rightarrow> registry_error + component_type list"
where
  "extend_types known types [] = Inr types"
| "extend_types known types (descriptor # rest) =
     (if known (ct_type_id descriptor) \<noteq> None then Inl (TypeRedefined (ct_type_id descriptor))
      else extend_types known (types @ [descriptor]) rest)"

definition extend_registry_with_bindings ::
  "(string \<Rightarrow> string) \<Rightarrow> registry option \<Rightarrow> string list \<Rightarrow> string list \<Rightarrow> registry_document \<Rightarrow>
   (string \<times> payload_validator option) list \<Rightarrow> (string \<times> binding_validator option) list \<Rightarrow>
   registry_error + registry" where
  "extend_registry_with_bindings sha base validator_keys binding_keys extension validators bindings =
     (case base of None \<Rightarrow> Inl BaseRegistryRequired | Some r \<Rightarrow>
     (case registry_document_validate sha extension of Some e \<Rightarrow> Inl (ExtensionInvalid e) | None \<Rightarrow>
      if rd_base_registry_digest extension \<noteq> rd_digest (reg_document r) then Inl BaseRegistryUnbound
      else
     (case extend_types (reg_types r) (elems (rd_types (reg_document r))) (elems (rd_types extension)) of
        Inl e \<Rightarrow> Inl e | Inr types \<Rightarrow>
     (case merge_functions ValidatorReplaced (functions_of validator_keys (reg_validators r)) validators of
        Inl e \<Rightarrow> Inl e | Inr merged \<Rightarrow>
     (case merge_functions BindingValidatorReplaced (functions_of binding_keys (reg_bindings r)) bindings of
        Inl e \<Rightarrow> Inl e | Inr merged_bindings \<Rightarrow>
     (case seal_registry sha (rd_registry_id extension) (rd_digest (reg_document r)) (Some types) of
        Inl e \<Rightarrow> Inl e | Inr document \<Rightarrow>
        new_registry_with_bindings sha document merged merged_bindings))))))"

definition registry_document_of :: "registry option \<Rightarrow> registry_document" where
  "registry_document_of r = (case r of
       None \<Rightarrow> \<lparr> rd_schema_version = [], rd_canonical_policy = [], rd_registry_id = [],
                rd_base_registry_digest = [], rd_types = None, rd_digest = [] \<rparr>
     | Some g \<Rightarrow> (reg_document g)\<lparr>rd_types := clone_component_types (rd_types (reg_document g))\<rparr>)"

definition registry_digest_of :: "registry option \<Rightarrow> string" where
  "registry_digest_of r = (case r of None \<Rightarrow> [] | Some g \<Rightarrow> rd_digest (reg_document g))"

definition registry_lookup :: "registry option \<Rightarrow> string \<Rightarrow> component_type option" where
  "registry_lookup r type_id = (case r of None \<Rightarrow> None | Some g \<Rightarrow> reg_types g type_id)"

definition validate_payload :: "registry option \<Rightarrow> string \<Rightarrow> string \<Rightarrow> registry_error option" where
  "validate_payload r type_id payload =
     (case (r, registry_lookup r type_id) of
        (Some g, Some descriptor) \<Rightarrow>
          (case reg_validators g (ct_validator_id descriptor) of
             None \<Rightarrow> Some (ValidatorUnavailable type_id (ct_validator_id descriptor))
           | Some validator \<Rightarrow> map_err (PayloadRejected type_id) (validator payload))
      | _ \<Rightarrow> Some (UnknownComponentType type_id))"

definition validate_bindings :: "registry option \<Rightarrow> binding_context \<Rightarrow> registry_error option" where
  "validate_bindings r context =
     (case (r, registry_lookup r (cr_type_id (bc_component context))) of
        (Some g, Some descriptor) \<Rightarrow>
          if ct_binding_validator_id descriptor = [] then None
          else (case reg_bindings g (ct_binding_validator_id descriptor) of
             None \<Rightarrow> Some (BindingValidatorUnavailable (ct_type_id descriptor) (ct_binding_validator_id descriptor))
           | Some validator \<Rightarrow> map_err (BindingsRejected (cr_name (bc_component context))) (validator context))
      | _ \<Rightarrow> Some (UnknownComponentType (cr_type_id (bc_component context))))"

end
