(* ===== verification/CapsuleManifest.thy ===== *)
theory CapsuleManifest
  imports Capsule
begin

text \<open>
  internal/capsule/component.go and manifest.go: components are built and validated against
  their registered type, manifests are normalized, sealed and validated, and the provenance
  graph of a manifest is checked edge by edge, for cycles (\<open>reject_cycles\<close>, a depth-first search
  with three colours) and for unreachable components (\<open>reject_unreachable\<close>, a worklist).
  A Go map from component ids to records is an association list.
\<close>

section \<open>Components\<close>

datatype component_error =
    RegistryRequired | UnknownType string | Registry registry_error | Encoding json_error
  | PayloadEmpty | PayloadNotCanonical json_error | UnknownProfile payload_profile
  | TypeMismatch string | VisibilityForbidden string visibility | PayloadIdentityInvalid
  | ParentRefInvalid | InternalParentMetadata | ExternalParentUnbound | OmittedParentUnclassified
  | ParentsUnsorted | ParentCountOutside edge_kind string int | ParentNotAllowed string
  | ComponentDigestInvalid string

record component_input =
  ci_name :: string
  ci_type_id :: string
  ci_visibility :: visibility
  ci_payload :: string
  ci_parents :: "parent_ref slice"

definition normalize_payload :: "payload_profile \<Rightarrow> string \<Rightarrow> component_error + string" where
  "normalize_payload profile payload =
     (if payload = [] then Inl PayloadEmpty
      else if profile = PayloadExactBytes then Inr payload
      else if profile = PayloadCanonicalJSON then
        (case canonicalize_json payload of
           Inl e \<Rightarrow> Inl (PayloadNotCanonical e)
         | Inr canonical \<Rightarrow> Inr canonical)
      else Inl (UnknownProfile profile))"

definition component_record_of ::
  "(string \<Rightarrow> string) \<Rightarrow> component_type \<Rightarrow> component_input \<Rightarrow> string \<Rightarrow> component_record" where
  "component_record_of sha descriptor input payload =
     \<lparr> cr_component_id = [], cr_name = ci_name input, cr_type_id = ct_type_id descriptor,
       cr_schema_id = ct_schema_id descriptor, cr_role = ct_role descriptor,
       cr_visibility = ci_visibility input, cr_media_type = ct_media_type descriptor,
       cr_payload = \<lparr> pi_algorithm = DigestAlgorithm, pi_digest = digest_bytes sha payload,
         pi_bytes = int (length payload), pi_canonicalization = ct_payload_profile descriptor \<rparr>,
       cr_parents = ci_parents input \<rparr>"

definition parent_ref_key :: "parent_ref \<Rightarrow> string" where
  "parent_ref_key parent =
     ref_kind parent @ CHR 0x00 # ref_type_id parent @ CHR 0x00 # ref_component_id parent"

definition normalize_parent_refs :: "parent_ref slice \<Rightarrow> parent_ref slice" where
  "normalize_parent_refs parents = sort_slice parent_ref_key parents"

definition component_digest :: "(string \<Rightarrow> string) \<Rightarrow> component_record \<Rightarrow> json_error + string" where
  "component_digest sha record = digest sha (component_record_json (record\<lparr>cr_component_id := []\<rparr>))"

definition validate_payload_identity :: "payload_identity \<Rightarrow> component_error option" where
  "validate_payload_identity payload =
     fail_if (pi_algorithm payload \<noteq> DigestAlgorithm \<or> \<not> valid_digest (pi_digest payload) \<or>
         pi_bytes payload < 1 \<or> \<not> payload_profile_valid (pi_canonicalization payload))
       PayloadIdentityInvalid"

definition validate_parent_ref :: "parent_ref \<Rightarrow> component_error option" where
  "validate_parent_ref parent = first_err [
     fail_if (\<not> edge_kind_valid (ref_kind parent) \<or> \<not> valid_digest (ref_component_id parent) \<or>
         \<not> valid_identifier (ref_type_id parent) \<or> \<not> role_valid (ref_role parent) \<or>
         \<not> visibility_valid (ref_visibility parent) \<or> \<not> parent_resolution_valid (ref_resolution parent))
       ParentRefInvalid,
     fail_if (ref_resolution parent = ParentInternal \<and>
         (ref_capsule_id parent \<noteq> [] \<or> ref_omission_class parent \<noteq> [])) InternalParentMetadata,
     fail_if (ref_resolution parent = ParentExternal \<and>
         (\<not> valid_digest (ref_capsule_id parent) \<or> ref_omission_class parent \<noteq> [])) ExternalParentUnbound,
     fail_if (ref_resolution parent = ParentOmitted \<and>
         (\<not> valid_identifier (ref_omission_class parent) \<or> \<not> valid_optional_digest (ref_capsule_id parent)))
       OmittedParentUnclassified]"

definition rule_matches :: "parent_rule \<Rightarrow> parent_ref \<Rightarrow> bool" where
  "rule_matches rule parent \<longleftrightarrow> ref_kind parent = rule_kind rule \<and>
     ref_type_id parent = rule_parent_type rule \<and> ref_resolution parent \<in> set (elems (rule_resolutions rule))"

fun count_matching_parents :: "parent_ref list \<Rightarrow> parent_rule \<Rightarrow> int" where
  "count_matching_parents [] rule = 0"
| "count_matching_parents (parent # parents) rule =
     (if rule_matches rule parent then 1 else 0) + count_matching_parents parents rule"

definition validate_parent_refs :: "component_type \<Rightarrow> parent_ref list \<Rightarrow> component_error option" where
  "validate_parent_refs descriptor parents = first_err [
     scan_from validate_parent_ref ParentsUnsorted parent_ref_key [] parents,
     each_ok (\<lambda>rule. let count = count_matching_parents parents rule in
         fail_if (count < rule_minimum rule \<or> rule_maximum rule \<ge> 0 \<and> count > rule_maximum rule)
           (ParentCountOutside (rule_kind rule) (rule_parent_type rule) count))
       (elems (ct_parent_rules descriptor)),
     each_ok (\<lambda>parent. fail_if (\<not> (\<exists>rule \<in> set (elems (ct_parent_rules descriptor)). rule_matches rule parent))
         (ParentNotAllowed (ref_component_id parent))) parents]"

definition validate_component_record ::
  "(string \<Rightarrow> string) \<Rightarrow> registry option \<Rightarrow> component_record \<Rightarrow> component_error option" where
  "validate_component_record sha r record =
     (case r of None \<Rightarrow> Some RegistryRequired | Some _ \<Rightarrow>
     (case registry_lookup r (cr_type_id record) of
        None \<Rightarrow> Some (UnknownType (cr_type_id record))
      | Some descriptor \<Rightarrow> first_err [
          fail_if (\<not> valid_identifier (cr_name record) \<or> \<not> valid_digest (cr_component_id record) \<or>
              cr_schema_id record \<noteq> ct_schema_id descriptor \<or> cr_role record \<noteq> ct_role descriptor \<or>
              cr_media_type record \<noteq> ct_media_type descriptor \<or>
              pi_canonicalization (cr_payload record) \<noteq> ct_payload_profile descriptor)
            (TypeMismatch (cr_name record)),
          fail_if (cr_visibility record \<notin> set (elems (ct_allowed_visibilities descriptor)))
            (VisibilityForbidden (cr_name record) (cr_visibility record)),
          validate_payload_identity (cr_payload record),
          validate_parent_refs descriptor (elems (cr_parents record)),
          fail_if (component_digest sha record \<noteq> Inr (cr_component_id record))
            (ComponentDigestInvalid (cr_name record))]))"

definition build_component ::
  "(string \<Rightarrow> string) \<Rightarrow> registry option \<Rightarrow> component_input \<Rightarrow> component_error + component_record \<times> string" where
  "build_component sha r input =
     (case r of None \<Rightarrow> Inl RegistryRequired | Some _ \<Rightarrow>
     (case registry_lookup r (ci_type_id input) of None \<Rightarrow> Inl (UnknownType (ci_type_id input))
      | Some descriptor \<Rightarrow>
     (case normalize_payload (ct_payload_profile descriptor) (ci_payload input) of Inl e \<Rightarrow> Inl e
      | Inr payload \<Rightarrow>
     (case validate_payload r (ci_type_id input) payload of Some e \<Rightarrow> Inl (Registry e)
      | None \<Rightarrow>
        let record = component_record_of sha descriptor input payload;
            record = record\<lparr>cr_parents := normalize_parent_refs (cr_parents record)\<rparr>
        in (case component_digest sha record of Inl e \<Rightarrow> Inl (Encoding e)
            | Inr d \<Rightarrow>
              let record = record\<lparr>cr_component_id := d\<rparr>
              in (case validate_component_record sha r record of Some e \<Rightarrow> Inl e
                  | None \<Rightarrow> Inr (record, payload)))))))"

section \<open>Manifests\<close>

datatype manifest_error =
    Component component_error | ManifestEncoding json_error
  | ManifestIdentityInvalid | ManifestDigestsMissing | UnsealedHasDigests | ComponentsRequired
  | CapsuleRefsUnsorted | ComponentsUnsorted | DuplicateName string | RootsInvalid string
  | ScientificIdentityInvalid | ManifestDigestInvalid
  | UndeclaredParentCapsule string string | ParentTypeUnknown string | ParentMissing string
  | ParentMetadataMismatch string | RoleViolation edge_kind | NotFromMorePrivate edge_kind
  | LeaksPrivateParent edge_kind | CannotOmit edge_kind | SupersessionChangesType
  | Cycle string | Unreachable | SearchFuel

record manifest_input =
  mi_study_id :: string
  mi_cell_id :: string
  mi_parent_capsules :: "capsule_ref slice"
  mi_scientific_roots :: "string slice"
  mi_presentation_roots :: "string slice"
  mi_components :: "component_record slice"

type_synonym component_table = "(string \<times> component_record) list"

definition capsule_ref_key :: "capsule_ref \<Rightarrow> string" where
  "capsule_ref_key reference = cap_relation reference @ CHR 0x00 # cap_capsule_id reference"

definition validate_capsule_refs :: "capsule_ref list \<Rightarrow> manifest_error option" where
  "validate_capsule_refs references =
     scan_from (\<lambda>r. fail_if (\<not> valid_identifier (cap_relation r) \<or> \<not> valid_digest (cap_capsule_id r))
       CapsuleRefsUnsorted) CapsuleRefsUnsorted capsule_ref_key [] references"

fun validate_component_set_from ::
  "(string \<Rightarrow> string) \<Rightarrow> registry option \<Rightarrow> string \<Rightarrow> string list \<Rightarrow> component_table \<Rightarrow>
   component_record list \<Rightarrow> manifest_error + component_table" where
  "validate_component_set_from sha r previous names components [] = Inr components"
| "validate_component_set_from sha r previous names components (record # records) =
     (if cr_component_id record \<le> previous then Inl ComponentsUnsorted
      else if cr_name record \<in> set names then Inl (DuplicateName (cr_name record))
      else case validate_component_record sha r record of
        Some e \<Rightarrow> Inl (Component e)
      | None \<Rightarrow> validate_component_set_from sha r (cr_component_id record) (cr_name record # names)
          ((cr_component_id record, record) # components) records)"

definition validate_component_set ::
  "(string \<Rightarrow> string) \<Rightarrow> registry option \<Rightarrow> component_record list \<Rightarrow> manifest_error + component_table" where
  "validate_component_set sha r records = validate_component_set_from sha r [] [] [] records"

definition validate_root_set ::
  "string \<Rightarrow> string list \<Rightarrow> component_table \<Rightarrow> bool \<Rightarrow> manifest_error option" where
  "validate_root_set name roots components presentation =
     scan_from (\<lambda>root. fail_if
         (case map_of components root of
            None \<Rightarrow> True
          | Some record \<Rightarrow> \<not> valid_digest root \<or> (cr_role record = RolePresentation) \<noteq> presentation)
         (RootsInvalid name))
       (RootsInvalid name) id [] roots"

definition validate_roots :: "manifest \<Rightarrow> component_table \<Rightarrow> manifest_error option" where
  "validate_roots m components = first_err [
     validate_root_set ''scientific'' (elems (mf_scientific_roots m)) components False,
     validate_root_set ''presentation'' (elems (mf_presentation_roots m)) components True]"

definition resolve_parent ::
  "registry option \<Rightarrow> parent_ref \<Rightarrow> component_table \<Rightarrow> manifest_error + component_record" where
  "resolve_parent r parent components =
     (if registry_lookup r (ref_type_id parent) = None then Inl (ParentTypeUnknown (ref_type_id parent))
      else if ref_resolution parent \<noteq> ParentInternal then
        Inr (empty_record\<lparr>cr_component_id := ref_component_id parent, cr_type_id := ref_type_id parent,
               cr_role := ref_role parent, cr_visibility := ref_visibility parent\<rparr>)
      else case map_of components (ref_component_id parent) of
        None \<Rightarrow> Inl (ParentMissing (ref_component_id parent))
      | Some resolved \<Rightarrow>
          if cr_type_id resolved \<noteq> ref_type_id parent \<or> cr_role resolved \<noteq> ref_role parent \<or>
            cr_visibility resolved \<noteq> ref_visibility parent
          then Inl (ParentMetadataMismatch (ref_component_id parent))
          else Inr resolved)"

definition privacy_projection :: "edge_kind \<Rightarrow> bool" where
  "privacy_projection kind \<longleftrightarrow> kind = EdgeRedacts \<or> kind = EdgeCommitsTo"

definition validate_edge ::
  "component_record \<Rightarrow> component_record \<Rightarrow> parent_ref \<Rightarrow> manifest_error option" where
  "validate_edge child parent reference = first_err [
     fail_if (\<not> role_edge_allowed child parent (ref_kind reference)) (RoleViolation (ref_kind reference)),
     (if privacy_projection (ref_kind reference)
      then fail_if (visibility_rank (cr_visibility parent) \<le> visibility_rank (cr_visibility child))
        (NotFromMorePrivate (ref_kind reference))
      else fail_if (visibility_rank (cr_visibility child) < visibility_rank (cr_visibility parent))
        (LeaksPrivateParent (ref_kind reference))),
     fail_if (ref_resolution reference = ParentOmitted \<and> \<not> privacy_projection (ref_kind reference))
       (CannotOmit (ref_kind reference)),
     fail_if (ref_kind reference = EdgeSupersedes \<and> cr_type_id child \<noteq> cr_type_id parent)
       SupersessionChangesType]"

text \<open>The ids a component points at inside its capsule.\<close>

definition internal_parents :: "component_table \<Rightarrow> string \<Rightarrow> string list" where
  "internal_parents components component_id =
     (case map_of components component_id of
        None \<Rightarrow> []
      | Some record \<Rightarrow> map ref_component_id
          (filter (\<lambda>parent. ref_resolution parent = ParentInternal) (elems (cr_parents record))))"

text \<open>
  The recursive closure of \<open>rejectCycles\<close>; 1 marks a component on the current path and 2 a
  finished one.  The fuel bounds the depth of the recursion.
\<close>

type_synonym colours = "(string \<times> nat) list"

definition colour :: "colours \<Rightarrow> string \<Rightarrow> nat" where
  "colour state component_id = (case map_of state component_id of None \<Rightarrow> 0 | Some c \<Rightarrow> c)"

definition mark :: "colours \<Rightarrow> string \<Rightarrow> nat \<Rightarrow> colours" where
  "mark state component_id c = (component_id, c) # state"

lemma colour_mark [simp]: "colour (mark state i c) j = (if j = i then c else colour state j)"
  by (simp add: mark_def colour_def)

lemma colour_Nil [simp]: "colour [] i = 0"
  by (simp add: colour_def)

fun visit :: "nat \<Rightarrow> component_table \<Rightarrow> string \<Rightarrow> colours \<Rightarrow> manifest_error + colours"
  and visit_parents ::
    "nat \<Rightarrow> component_table \<Rightarrow> string list \<Rightarrow> colours \<Rightarrow> manifest_error + colours" where
  "visit 0 components component_id state = Inl SearchFuel"
| "visit (Suc n) components component_id state =
     (if colour state component_id = 1 then Inl (Cycle component_id)
      else if colour state component_id = 2 then Inr state
      else case visit_parents n components (internal_parents components component_id)
          (mark state component_id 1) of
        Inl e \<Rightarrow> Inl e
      | Inr state' \<Rightarrow> Inr (mark state' component_id 2))"
| "visit_parents n components [] state = Inr state"
| "visit_parents n components (parent # parents) state =
     (case visit n components parent state of
        Inl e \<Rightarrow> Inl e
      | Inr state' \<Rightarrow> visit_parents n components parents state')"

definition reject_cycles :: "component_record list \<Rightarrow> component_table \<Rightarrow> manifest_error option" where
  "reject_cycles records components =
     (case visit_parents (length components + 1) components (map cr_component_id records) [] of
        Inl e \<Rightarrow> Some e
      | Inr _ \<Rightarrow> None)"

text \<open>
  The worklist of \<open>rejectUnreachable\<close>; the head of the list is the end of the Go slice.
\<close>

function reach_from :: "component_table \<Rightarrow> string list \<Rightarrow> string list \<Rightarrow> string list" where
  "reach_from components reachable [] = reachable"
| "reach_from components reachable (component_id # stack) =
     (if component_id \<in> set reachable then reach_from components reachable stack
      else reach_from components (component_id # reachable)
        (rev (internal_parents components component_id) @ stack))"
  by pat_completeness auto
termination
proof (relation "measures [\<lambda>(c, reachable, stack). card (fst ` set c - set reachable),
    \<lambda>(c, reachable, stack). length stack]")
  fix c :: component_table and reachable stack :: "string list" and i
  assume new: "i \<notin> set reachable"
  show "((c, i # reachable, rev (internal_parents c i) @ stack), (c, reachable, i # stack)) \<in>
      measures [\<lambda>(c, reachable, stack). card (fst ` set c - set reachable),
        \<lambda>(c, reachable, stack). length stack]"
  proof (cases "i \<in> fst ` set c")
    case True
    with new have "card (fst ` set c - set (i # reachable)) < card (fst ` set c - set reachable)"
      by (intro psubset_card_mono) auto
    then show ?thesis by simp
  next
    case False
    then have "map_of c i = None" by (simp add: map_of_eq_None_iff)
    then have "internal_parents c i = []" by (simp add: internal_parents_def)
    moreover have "fst ` set c - set (i # reachable) = fst ` set c - set reachable" using False by auto
    ultimately show ?thesis by simp
  qed
qed auto

definition reject_unreachable :: "manifest \<Rightarrow> component_table \<Rightarrow> manifest_error option" where
  "reject_unreachable m components =
     fail_if (length (reach_from components []
         (rev (elems (mf_scientific_roots m) @ elems (mf_presentation_roots m)))) \<noteq> length components)
       Unreachable"

definition validate_parent ::
  "registry option \<Rightarrow> string list \<Rightarrow> component_table \<Rightarrow> component_record \<Rightarrow> parent_ref \<Rightarrow> manifest_error option"
where
  "validate_parent r parent_capsules components child parent =
     (if ref_resolution parent \<noteq> ParentInternal \<and> ref_capsule_id parent \<noteq> [] \<and>
         ref_capsule_id parent \<notin> set parent_capsules
      then Some (UndeclaredParentCapsule (cr_name child) (ref_capsule_id parent))
      else case resolve_parent r parent components of
        Inl e \<Rightarrow> Some e
      | Inr resolved \<Rightarrow> validate_edge child resolved parent)"

definition validate_graph :: "registry option \<Rightarrow> manifest \<Rightarrow> component_table \<Rightarrow> manifest_error option" where
  "validate_graph r m components =
     (let parent_capsules = map cap_capsule_id (elems (mf_parent_capsules m)) in
      first_err [
        each_ok (\<lambda>child. each_ok (validate_parent r parent_capsules components child)
          (elems (cr_parents child))) (elems (mf_components m)),
        reject_cycles (elems (mf_components m)) components,
        reject_unreachable m components])"

definition validate_manifest_structure ::
  "(string \<Rightarrow> string) \<Rightarrow> registry option \<Rightarrow> manifest \<Rightarrow> bool \<Rightarrow> manifest_error option" where
  "validate_manifest_structure sha r m require_identity =
     (case first_err [
         fail_if (Option.is_none r \<or> mf_schema_version m \<noteq> ManifestSchemaVersion \<or>
             mf_canonical_policy m \<noteq> CanonicalPolicy \<or> mf_registry_digest m \<noteq> registry_digest_of r \<or>
             \<not> valid_identifier (mf_study_id m) \<or> \<not> valid_identifier (mf_cell_id m)) ManifestIdentityInvalid,
         fail_if (require_identity \<and> (\<not> valid_digest (mf_capsule_id m) \<or> \<not> valid_digest (mf_manifest_digest m)))
           ManifestDigestsMissing,
         fail_if (\<not> require_identity \<and> (mf_capsule_id m \<noteq> [] \<or> mf_manifest_digest m \<noteq> [])) UnsealedHasDigests,
         fail_if (elems (mf_components m) = [] \<or> elems (mf_scientific_roots m) = []) ComponentsRequired,
         validate_capsule_refs (elems (mf_parent_capsules m))] of
        Some e \<Rightarrow> Some e
      | None \<Rightarrow>
          (case validate_component_set sha r (elems (mf_components m)) of
             Inl e \<Rightarrow> Some e
           | Inr components \<Rightarrow> first_err [validate_roots m components, validate_graph r m components]))"

section \<open>Identities\<close>

definition scientific_json :: "manifest \<Rightarrow> json" where
  "scientific_json m =
     (let scientific = filter (\<lambda>record. cr_role record \<noteq> RolePresentation) (elems (mf_components m)) in
      JObj [
        (''schema_version'', JStr (mf_schema_version m)), (''canonical_policy'', JStr (mf_canonical_policy m)),
        (''registry_digest'', JStr (mf_registry_digest m)), (''study_id'', JStr (mf_study_id m)),
        (''cell_id'', JStr (mf_cell_id m)),
        (''parent_capsules'', json_slice capsule_ref_json (mf_parent_capsules m)),
        (''scientific_roots'', json_slice JStr (mf_scientific_roots m)),
        (''components'', json_slice component_record_json
          (if scientific = [] then None else Some scientific))])"

definition scientific_digest :: "(string \<Rightarrow> string) \<Rightarrow> manifest \<Rightarrow> json_error + string" where
  "scientific_digest sha m = digest sha (scientific_json m)"

definition manifest_digest :: "(string \<Rightarrow> string) \<Rightarrow> manifest \<Rightarrow> json_error + string" where
  "manifest_digest sha m = digest sha (manifest_json (m\<lparr>mf_manifest_digest := []\<rparr>))"

definition normalize_manifest :: "manifest \<Rightarrow> manifest" where
  "normalize_manifest m = m\<lparr>
     mf_parent_capsules := sort_slice capsule_ref_key (mf_parent_capsules m),
     mf_scientific_roots := sort_slice id (mf_scientific_roots m),
     mf_presentation_roots := sort_slice id (mf_presentation_roots m),
     mf_components := sort_slice cr_component_id (mf_components m)\<rparr>"

definition manifest_validate :: "(string \<Rightarrow> string) \<Rightarrow> manifest \<Rightarrow> registry option \<Rightarrow> manifest_error option" where
  "manifest_validate sha m r = first_err [
     validate_manifest_structure sha r m True,
     fail_if (scientific_digest sha m \<noteq> Inr (mf_capsule_id m)) ScientificIdentityInvalid,
     fail_if (manifest_digest sha m \<noteq> Inr (mf_manifest_digest m)) ManifestDigestInvalid]"

definition build_manifest ::
  "(string \<Rightarrow> string) \<Rightarrow> registry option \<Rightarrow> manifest_input \<Rightarrow> manifest_error + manifest" where
  "build_manifest sha r input =
     (if Option.is_none r then Inl (Component RegistryRequired)
      else
        let m = normalize_manifest
          \<lparr> mf_schema_version = ManifestSchemaVersion, mf_canonical_policy = CanonicalPolicy,
            mf_capsule_id = [], mf_manifest_digest = [], mf_registry_digest = registry_digest_of r,
            mf_study_id = mi_study_id input, mf_cell_id = mi_cell_id input,
            mf_parent_capsules = mi_parent_capsules input, mf_scientific_roots = mi_scientific_roots input,
            mf_presentation_roots = mi_presentation_roots input,
            mf_components = Some (elems (mi_components input)) \<rparr>
        in case validate_manifest_structure sha r m False of Some e \<Rightarrow> Inl e | None \<Rightarrow>
          (case scientific_digest sha m of Inl e \<Rightarrow> Inl (ManifestEncoding e) | Inr capsule_id \<Rightarrow>
          (let m = m\<lparr>mf_capsule_id := capsule_id\<rparr> in
           case manifest_digest sha m of Inl e \<Rightarrow> Inl (ManifestEncoding e) | Inr d \<Rightarrow>
           (let m = m\<lparr>mf_manifest_digest := d\<rparr> in
            case manifest_validate sha m r of Some e \<Rightarrow> Inl e | None \<Rightarrow> Inr m))))"

end
