(* ===== verification/CapsuleGraph.thy ===== *)
theory CapsuleGraph
  imports CapsuleManifest
begin

text \<open>
  The graph checks of internal/capsule/manifest.go against their specification: the search of
  \<open>rejectCycles\<close> accepts exactly the acyclic graphs and never exhausts its fuel, and the worklist
  of \<open>rejectUnreachable\<close> visits exactly what the roots reach.
\<close>

section \<open>The depth-first search\<close>

definition edges :: "component_table \<Rightarrow> (string \<times> string) set" where
  "edges components = {(child, parent). parent \<in> set (internal_parents components child)}"

definition marked :: "colours \<Rightarrow> nat \<Rightarrow> string set" where
  "marked state c = {i. colour state i = c}"

definition settled :: "component_table \<Rightarrow> colours \<Rightarrow> bool" where
  "settled components state \<longleftrightarrow> (\<forall>i. colour state i = 2 \<longrightarrow>
     set (internal_parents components i) \<subseteq> marked state 2 \<and> (i, i) \<notin> (edges components)\<^sup>+)"

lemma settled_closed:
  assumes "settled components state" and "(i, j) \<in> (edges components)\<^sup>*" and "colour state i = 2"
  shows "colour state j = 2"
  using assms(2,1,3) by (induction rule: rtrancl_induct) (auto simp: settled_def edges_def marked_def)

lemma visit_settled:
  "visit n components i state = Inr state' \<Longrightarrow> settled components state \<Longrightarrow>
     settled components state' \<and> marked state 2 \<subseteq> marked state' 2 \<and>
     marked state' 1 = marked state 1 \<and> colour state' i = 2"
  "visit_parents n components ps state = Inr state' \<Longrightarrow> settled components state \<Longrightarrow>
     settled components state' \<and> marked state 2 \<subseteq> marked state' 2 \<and>
     marked state' 1 = marked state 1 \<and> (\<forall>p \<in> set ps. colour state' p = 2)"
proof (induction n components i state and n components ps state arbitrary: state' and state'
    rule: visit_visit_parents.induct)
  case (2 n components i state)
  show ?case
  proof (cases "colour state i = 2")
    case False
    with 2(2) have white: "colour state i \<noteq> 1" "colour state i \<noteq> 2" by auto
    then obtain s where s: "visit_parents n components (internal_parents components i) (mark state i 1) = Inr s"
      and state': "state' = mark s i 2"
      using 2(2) by (auto split: sum.splits)
    have "settled components (mark state i 1)"
      using 2(3) white(2) by (auto simp: settled_def marked_def)
    note all = 2(1) [OF white s this]
    note IH = all [THEN conjunct1] all [THEN conjunct2, THEN conjunct1]
      all [THEN conjunct2, THEN conjunct2, THEN conjunct1] all [THEN conjunct2, THEN conjunct2, THEN conjunct2]
    have "i \<in> marked s 1" unfolding IH(3) by (simp add: marked_def)
    then have si: "colour s i = 1" by (simp add: marked_def)
    have no_cycle: "(i, i) \<notin> (edges components)\<^sup>+"
    proof
      assume "(i, i) \<in> (edges components)\<^sup>+"
      then obtain p where "(i, p) \<in> edges components" "(p, i) \<in> (edges components)\<^sup>*"
        by (meson tranclD)
      then have "colour s i = 2" using settled_closed [OF IH(1)] IH(4) by (auto simp: edges_def)
      with si show False by simp
    qed
    have "settled components state'"
      unfolding settled_def state'
    proof (intro allI impI)
      fix j assume j: "colour (mark s i 2) j = 2"
      show "set (internal_parents components j) \<subseteq> marked (mark s i 2) 2 \<and> (j, j) \<notin> (edges components)\<^sup>+"
        using IH(1,4) j no_cycle by (cases "j = i") (auto simp: settled_def marked_def)
    qed
    moreover have "marked state 2 \<subseteq> marked state' 2"
      using IH(2) white state' by (auto simp: marked_def split: if_splits)
    moreover have "marked state' 1 = marked state 1"
      using IH(3) white state' by (auto simp: marked_def set_eq_iff split: if_splits)
    ultimately show ?thesis using state' by simp
  qed (use 2 in auto)
next
  case (4 n components p ps state)
  then obtain s where s: "visit n components p state = Inr s" "visit_parents n components ps s = Inr state'"
    by (auto split: sum.splits)
  note first = 4(1) [OF s(1) 4(4)]
  from 4(2) [OF s(1) s(2) first [THEN conjunct1]] first show ?case by (auto simp: marked_def)
qed auto

lemma visit_cycle:
  "visit n components i state = Inl (Cycle x) \<Longrightarrow> settled components state \<Longrightarrow>
     \<forall>g. colour state g = 1 \<longrightarrow> (g, i) \<in> (edges components)\<^sup>+ \<Longrightarrow> (x, x) \<in> (edges components)\<^sup>+"
  "visit_parents n components ps state = Inl (Cycle x) \<Longrightarrow> settled components state \<Longrightarrow>
     \<forall>g p. colour state g = 1 \<longrightarrow> p \<in> set ps \<longrightarrow> (g, p) \<in> (edges components)\<^sup>+ \<Longrightarrow> (x, x) \<in> (edges components)\<^sup>+"
proof (induction n components i state and n components ps state rule: visit_visit_parents.induct)
  case (2 n components i state)
  show ?case
  proof (cases "colour state i = 1")
    case False
    with 2(2) have white: "colour state i \<noteq> 1" "colour state i \<noteq> 2" by (auto split: if_splits)
    then have e: "visit_parents n components (internal_parents components i) (mark state i 1) = Inl (Cycle x)"
      using 2(2) by (auto split: sum.splits)
    have "settled components (mark state i 1)"
      using 2(3) white(2) by (auto simp: settled_def marked_def)
    moreover have "\<forall>g p. colour (mark state i 1) g = 1 \<longrightarrow> p \<in> set (internal_parents components i) \<longrightarrow>
        (g, p) \<in> (edges components)\<^sup>+"
    proof (intro allI impI)
      fix g p assume g: "colour (mark state i 1) g = 1" and "p \<in> set (internal_parents components i)"
      then have "(i, p) \<in> edges components" by (simp add: edges_def)
      with g 2(4) show "(g, p) \<in> (edges components)\<^sup>+"
        by (cases "g = i") (auto intro: trancl_into_trancl)
    qed
    ultimately show ?thesis using 2(1) [OF white e] by blast
  qed (use 2 in auto)
next
  case (4 n components p ps state)
  show ?case
  proof (cases "visit n components p state")
    case (Inl e)
    then show ?thesis using 4 by auto
  next
    case (Inr s)
    then have e: "visit_parents n components ps s = Inl (Cycle x)" using 4(3) by simp
    note fin = visit_settled(1) [OF Inr 4(4)]
    then have "\<forall>g. colour s g = 1 \<longrightarrow> colour state g = 1" by (auto simp: marked_def)
    then show ?thesis using 4(2) [OF Inr e] fin 4(5) by auto
  qed
qed auto


lemma visit_errors:
  "visit n components i state = Inl e \<Longrightarrow> e = SearchFuel \<or> (\<exists>x. e = Cycle x)"
  "visit_parents n components ps state = Inl e \<Longrightarrow> e = SearchFuel \<or> (\<exists>x. e = Cycle x)"
proof (induction n components i state and n components ps state rule: visit_visit_parents.induct)
  case (2 n components i state)
  then show ?case by (auto split: if_splits sum.splits)
next
  case (4 n components p ps state)
  then show ?case by (auto split: sum.splits)
qed auto

text \<open>The components that are not yet marked bound the depth of the recursion.\<close>

definition unmarked :: "component_table \<Rightarrow> colours \<Rightarrow> string set" where
  "unmarked components state = fst ` set components - marked state 1 - marked state 2"

lemma finite_unmarked [simp]: "finite (unmarked components state)"
  by (simp add: unmarked_def)

lemma card_unmarked_mono:
  "unmarked components s \<subseteq> unmarked components t \<Longrightarrow> card (unmarked components s) \<le> card (unmarked components t)"
  by (simp add: card_mono)

lemma visit_fuel:
  "card (unmarked components state) < n \<Longrightarrow> visit n components i state \<noteq> Inl SearchFuel \<and>
     (\<forall>s. visit n components i state = Inr s \<longrightarrow> unmarked components s \<subseteq> unmarked components state)"
  "card (unmarked components state) < n \<or> ps = [] \<Longrightarrow> visit_parents n components ps state \<noteq> Inl SearchFuel \<and>
     (\<forall>s. visit_parents n components ps state = Inr s \<longrightarrow> unmarked components s \<subseteq> unmarked components state)"
proof (induction n components i state and n components ps state rule: visit_visit_parents.induct)
  case (2 n components i state)
  show ?case
  proof (cases "colour state i = 1 \<or> colour state i = 2")
    case False
    then have white: "colour state i \<noteq> 1" "colour state i \<noteq> 2" by auto
    let ?s = "mark state i 1"
    have sub: "unmarked components ?s \<subseteq> unmarked components state"
      using white by (auto simp: unmarked_def marked_def)
    have "card (unmarked components ?s) < n \<or> internal_parents components i = []"
    proof (cases "i \<in> fst ` set components")
      case True
      then have "i \<in> unmarked components state" "i \<notin> unmarked components ?s"
        using white by (auto simp: unmarked_def marked_def)
      then have "card (unmarked components ?s) < card (unmarked components state)"
        using sub by (intro psubset_card_mono) auto
      with 2(2) show ?thesis by linarith
    next
      case False
      then have "map_of components i = None" by (simp add: map_of_eq_None_iff)
      then show ?thesis by (simp add: internal_parents_def)
    qed
    note IH = 2(1) [OF white this]
    show ?thesis
    proof (cases "visit_parents n components (internal_parents components i) ?s")
      case (Inr s)
      then have "unmarked components s \<subseteq> unmarked components state" using IH sub by blast
      moreover have "unmarked components (mark s i 2) \<subseteq> unmarked components s"
        by (auto simp: unmarked_def marked_def)
      ultimately show ?thesis using Inr white by auto
    qed (use IH white in auto)
  qed auto
next
  case (4 n components p ps state)
  note first = 4(1) [OF]
  show ?case
  proof (cases "visit n components p state")
    case (Inl e)
    then show ?thesis using 4(1) 4(3) by auto
  next
    case (Inr s)
    then have "unmarked components s \<subseteq> unmarked components state" using 4(1) 4(3) by auto
    moreover from this have "card (unmarked components s) < n"
      using card_unmarked_mono [of components s state] 4(3) by auto
    ultimately show ?thesis using 4(2) [OF Inr] Inr by auto
  qed
qed auto

section \<open>Acceptance\<close>

lemma edges_domain:
  assumes "(i, j) \<in> edges components"
  shows "i \<in> fst ` set components"
proof (rule ccontr)
  assume "i \<notin> fst ` set components"
  then have "map_of components i = None" by (simp add: map_of_eq_None_iff)
  with assms show False by (simp add: edges_def internal_parents_def)
qed

lemma reject_cycles_iff:
  assumes "set (map cr_component_id records) = fst ` set components"
  shows "reject_cycles records components = None \<longleftrightarrow> acyclic (edges components)"
proof -
  let ?start = "[] :: colours"
  have start: "settled components ?start" by (simp add: settled_def)
  have "unmarked components ?start \<subseteq> set (map fst components)" by (auto simp: unmarked_def)
  then have "card (unmarked components ?start) \<le> card (set (map fst components))"
    by (intro card_mono) auto
  also have "\<dots> \<le> length components" by (metis card_length length_map)
  finally have fuel: "visit_parents (length components + 1) components (map cr_component_id records) ?start \<noteq>
      Inl SearchFuel"
    using visit_fuel(2) [of components ?start "length components + 1"] by auto
  show ?thesis
  proof
    assume "reject_cycles records components = None"
    then obtain s where s: "visit_parents (length components + 1) components (map cr_component_id records) ?start = Inr s"
      by (auto simp: reject_cycles_def split: sum.splits)
    note r = visit_settled(2) [OF s start]
    show "acyclic (edges components)"
      unfolding acyclic_def
    proof (intro allI notI)
      fix x assume x: "(x, x) \<in> (edges components)\<^sup>+"
      then have "x \<in> set (map cr_component_id records)"
        using edges_domain unfolding assms by (metis tranclD)
      with r have "colour s x = 2" by blast
      with r x show False by (auto simp: settled_def)
    qed
  next
    assume acyclic: "acyclic (edges components)"
    show "reject_cycles records components = None"
    proof (cases "visit_parents (length components + 1) components (map cr_component_id records) ?start")
      case (Inl e)
      with fuel visit_errors(2) obtain x where "e = Cycle x" by blast
      then have "(x, x) \<in> (edges components)\<^sup>+"
        using visit_cycle(2) Inl start by auto
      with acyclic show ?thesis by (simp add: acyclic_def)
    qed (simp add: reject_cycles_def)
  qed
qed

section \<open>Reachability\<close>

lemma reach_from_distinct:
  "distinct reachable \<Longrightarrow> distinct (reach_from components reachable stack)"
  by (induction components reachable stack rule: reach_from.induct) auto

lemma reach_from_subset: "set reachable \<subseteq> set (reach_from components reachable stack)"
  by (induction components reachable stack rule: reach_from.induct) auto

lemma reach_from_stack: "set stack \<subseteq> set (reach_from components reachable stack)"
  using reach_from_subset
  by (induction components reachable stack rule: reach_from.induct) fastforce+

lemma reach_from_closed:
  assumes "\<forall>i \<in> set reachable. set (internal_parents components i) \<subseteq> set reachable \<union> set stack"
  shows "\<forall>i \<in> set (reach_from components reachable stack).
    set (internal_parents components i) \<subseteq> set (reach_from components reachable stack)"
  using assms
proof (induction components reachable stack rule: reach_from.induct)
  case (2 components reachable i stack)
  then show ?case by (cases "i \<in> set reachable") fastforce+
qed simp

lemma reach_from_sound:
  "set (reach_from components reachable stack) \<subseteq> set reachable \<union> (edges components)\<^sup>* `` set stack"
proof (induction components reachable stack rule: reach_from.induct)
  case (2 components reachable i stack)
  have step: "(edges components)\<^sup>* `` set (internal_parents components i) \<subseteq> (edges components)\<^sup>* `` {i}"
    by (auto simp: edges_def intro: converse_rtrancl_into_rtrancl)
  show ?case
  proof (cases "i \<in> set reachable")
    case False
    with 2 step show ?thesis by (auto simp: Image_Un)
  qed (use 2 in auto)
qed simp

lemma reach_from_iff: "set (reach_from components [] stack) = (edges components)\<^sup>* `` set stack"
proof
  show "(edges components)\<^sup>* `` set stack \<subseteq> set (reach_from components [] stack)"
  proof
    fix j assume "j \<in> (edges components)\<^sup>* `` set stack"
    then obtain i where "i \<in> set stack" "(i, j) \<in> (edges components)\<^sup>*" by auto
    from this(2,1) show "j \<in> set (reach_from components [] stack)"
    proof (induction rule: rtrancl_induct)
      case base
      then show ?case using reach_from_stack by blast
    next
      case (step j k)
      then show ?case using reach_from_closed [of "[]" components stack] by (auto simp: edges_def)
    qed
  qed
qed (use reach_from_sound [of components "[]" stack] in simp)

end
