(* ===== verification/CapsuleProps.thy ===== *)
theory CapsuleProps
  imports CapsuleGraph
begin

text \<open>
  What an accepted manifest guarantees: its provenance graph is acyclic and rooted, no edge
  leaks a more private parent, presentation never enters the scientific part, and its
  identities bind its content.
\<close>

section \<open>The component set\<close>

definition table_of :: "component_record list \<Rightarrow> component_table" where
  "table_of records = map (\<lambda>r. (cr_component_id r, r)) records"

lemma component_set_from:
  assumes "validate_component_set_from sha r previous names components records = Inr components'"
  shows "components' = rev (table_of records) @ components \<and> ascending_from previous cr_component_id records \<and>
    distinct (map cr_name records) \<and> set (map cr_name records) \<inter> set names = {} \<and>
    (\<forall>c \<in> set records. validate_component_record sha r c = None)"
  using assms
proof (induction records arbitrary: previous names components)
  case (Cons c records)
  then show ?case by (fastforce simp: table_of_def split: if_splits option.splits)
qed (simp add: table_of_def)

lemma component_set:
  assumes "validate_component_set sha r records = Inr components"
  shows "components = rev (table_of records)" and "ascending_from [] cr_component_id records"
    and "distinct (map cr_name records)" and "\<forall>c \<in> set records. validate_component_record sha r c = None"
  using component_set_from assms unfolding validate_component_set_def by fastforce+

lemma component_set_lookup:
  assumes "validate_component_set sha r records = Inr components"
  shows "map_of components i = Some c \<longleftrightarrow> c \<in> set records \<and> cr_component_id c = i"
proof -
  have "distinct (map cr_component_id records)"
    using component_set(2) [OF assms] by (rule ascending_from_distinct)
  then have "distinct (map fst components)"
    by (simp add: component_set(1) [OF assms] table_of_def comp_def rev_map [symmetric])
  then have "map_of components i = Some c \<longleftrightarrow> (i, c) \<in> set components" by simp
  also have "\<dots> \<longleftrightarrow> c \<in> set records \<and> cr_component_id c = i"
    by (auto simp: component_set(1) [OF assms] table_of_def)
  finally show ?thesis .
qed

section \<open>The provenance graph of a manifest\<close>

definition internal_edges :: "manifest \<Rightarrow> (component_record \<times> parent_ref) set" where
  "internal_edges m = {(c, p). c \<in> set (elems (mf_components m)) \<and> p \<in> set (elems (cr_parents c)) \<and>
     ref_resolution p = ParentInternal}"

definition provenance :: "manifest \<Rightarrow> (string \<times> string) set" where
  "provenance m = (\<lambda>(c, p). (cr_component_id c, ref_component_id p)) ` internal_edges m"

text \<open>The edges that hand on what the parent contains, without redaction or commitment.\<close>

definition disclosing :: "manifest \<Rightarrow> (string \<times> string) set" where
  "disclosing m = (\<lambda>(c, p). (cr_component_id c, ref_component_id p)) `
     {(c, p) \<in> internal_edges m. \<not> privacy_projection (ref_kind p)}"

lemma structureE:
  assumes "validate_manifest_structure sha r m identity = None"
  obtains components where "validate_component_set sha r (elems (mf_components m)) = Inr components"
    and "validate_roots m components = None" and "validate_graph r m components = None"
  using assms unfolding validate_manifest_structure_def
  by (auto simp del: first_err.simps split: option.splits sum.splits)

lemma edges_provenance:
  assumes "validate_component_set sha r (elems (mf_components m)) = Inr components"
  shows "edges components = provenance m"
proof -
  have "(i, j) \<in> edges components \<longleftrightarrow> (i, j) \<in> provenance m" for i j
    using component_set_lookup [OF assms, of i]
    by (cases "map_of components i")
      (force simp: edges_def internal_parents_def provenance_def internal_edges_def)+
  then show ?thesis by auto
qed

lemma validated_edge:
  assumes "validate_component_set sha r (elems (mf_components m)) = Inr components"
    and "validate_graph r m components = None" and "(c, p) \<in> internal_edges m"
  shows "\<exists>d \<in> set (elems (mf_components m)). cr_component_id d = ref_component_id p \<and> validate_edge c d p = None"
proof -
  have "validate_parent r (map cap_capsule_id (elems (mf_parent_capsules m))) components c p = None"
    using assms(2,3) by (auto simp: validate_graph_def Let_def internal_edges_def)
  moreover have "ref_resolution p = ParentInternal" using assms(3) by (simp add: internal_edges_def)
  ultimately show ?thesis
    using component_set_lookup [OF assms(1)]
    by (fastforce simp: validate_parent_def resolve_parent_def split: option.splits if_splits)
qed

lemma edge_in_order:
  assumes "validate_edge c d p = None"
  shows "cr_role d = RolePresentation \<Longrightarrow> cr_role c = RolePresentation"
    and "\<not> privacy_projection (ref_kind p) \<Longrightarrow> visibility_rank (cr_visibility d) \<le> visibility_rank (cr_visibility c)"
    and "privacy_projection (ref_kind p) \<Longrightarrow> visibility_rank (cr_visibility c) < visibility_rank (cr_visibility d)"
  using assms by (auto simp: validate_edge_def role_edge_allowed_def split: if_splits)

text \<open>An order that every edge respects is respected by every path.\<close>

lemma path_order:
  assumes edge: "\<And>c p. (c, p) \<in> internal_edges m \<Longrightarrow> P p \<Longrightarrow>
      \<exists>d \<in> set (elems (mf_components m)). cr_component_id d = ref_component_id p \<and> R c d"
    and ids: "distinct (map cr_component_id (elems (mf_components m)))"
    and refl: "\<And>c. R c c" and trans: "\<And>a b c. R a b \<Longrightarrow> R b c \<Longrightarrow> R a c"
    and path: "(i, j) \<in> ((\<lambda>(c, p). (cr_component_id c, ref_component_id p)) ` {(c, p) \<in> internal_edges m. P p})\<^sup>*"
    and c: "c \<in> set (elems (mf_components m))" "cr_component_id c = i"
    and d: "d \<in> set (elems (mf_components m))" "cr_component_id d = j"
  shows "R c d"
proof -
  have unique: "a = b" if "a \<in> set (elems (mf_components m))" "b \<in> set (elems (mf_components m))"
    "cr_component_id a = cr_component_id b" for a b
    using ids that by (auto simp: distinct_map dest: inj_onD)
  from path d show ?thesis
  proof (induction arbitrary: d rule: rtrancl_induct)
    case base
    then show ?case using unique c refl by metis
  next
    case (step j k)
    then obtain b p where b: "(b, p) \<in> internal_edges m" "P p" "cr_component_id b = j" "ref_component_id p = k"
      by auto
    have "R c b" using step.IH [of b] b by (auto simp: internal_edges_def)
    moreover have "R b d" using edge [OF b(1,2)] step.prems b(4) unique by metis
    ultimately show ?case by (rule trans)
  qed
qed

section \<open>Properties of accepted manifests\<close>

lemma manifest_validE:
  assumes "manifest_validate sha m r = None"
  obtains components where "validate_component_set sha r (elems (mf_components m)) = Inr components"
    and "validate_roots m components = None" and "validate_graph r m components = None"
    and "scientific_digest sha m = Inr (mf_capsule_id m)" and "manifest_digest sha m = Inr (mf_manifest_digest m)"
proof -
  have s: "validate_manifest_structure sha r m True = None"
    and d: "scientific_digest sha m = Inr (mf_capsule_id m)" "manifest_digest sha m = Inr (mf_manifest_digest m)"
    using assms by (simp_all add: manifest_validate_def)
  from s show thesis by (rule structureE) (rule that [OF _ _ _ d])
qed

lemma reached_known:
  assumes "validate_component_set sha r (elems (mf_components m)) = Inr components"
    and "validate_roots m components = None" and "validate_graph r m components = None"
    and "i \<in> set (elems (mf_scientific_roots m)) \<union> set (elems (mf_presentation_roots m))"
    and "(i, j) \<in> (provenance m)\<^sup>*"
  shows "j \<in> fst ` set components"
  using assms(5)
proof (induction rule: rtrancl_induct)
  case base
  have "map_of components i \<noteq> None"
    using assms(2,4) by (auto simp: validate_roots_def validate_root_set_def split: option.splits)
  then show ?case by (simp add: map_of_eq_None_iff)
next
  case (step j k)
  then obtain c p where "(c, p) \<in> internal_edges m" "k = ref_component_id p"
    by (auto simp: provenance_def)
  moreover have "cr_component_id ` set (elems (mf_components m)) = fst ` set components"
    by (simp add: component_set(1) [OF assms(1)] table_of_def image_image)
  ultimately show ?case using validated_edge [OF assms(1,3)] by force
qed

text \<open>
  C1: an accepted manifest is a rooted acyclic graph: the provenance relation between its
  components has no cycle, and every component is reached from a declared root.
\<close>

theorem accepted_rooted_acyclic:
  assumes "manifest_validate sha m r = None"
  shows "acyclic (provenance m) \<and>
    cr_component_id ` set (elems (mf_components m)) =
      (provenance m)\<^sup>* `` (set (elems (mf_scientific_roots m)) \<union> set (elems (mf_presentation_roots m)))"
proof -
  obtain components where set: "validate_component_set sha r (elems (mf_components m)) = Inr components"
    and roots: "validate_roots m components = None" and graph: "validate_graph r m components = None"
    using assms by (rule manifest_validE)
  let ?records = "elems (mf_components m)"
  let ?roots = "rev (elems (mf_scientific_roots m) @ elems (mf_presentation_roots m))"
  let ?reached = "reach_from components [] ?roots"
  have ids: "cr_component_id ` set ?records = fst ` set components"
    by (simp add: component_set(1) [OF set] table_of_def image_image)
  have prov: "edges components = provenance m" by (rule edges_provenance [OF set])
  have "reject_cycles ?records components = None" using graph by (simp add: validate_graph_def Let_def)
  then have "acyclic (provenance m)" using reject_cycles_iff [of ?records components] ids prov by simp
  moreover have reached: "set ?reached = (provenance m)\<^sup>* `` set ?roots"
    unfolding reach_from_iff prov ..
  have "set ?reached \<subseteq> fst ` set components"
    using reached_known [OF set roots graph] unfolding reached by auto
  moreover have "card (set ?reached) = card (fst ` set components)"
  proof -
    have "length ?reached = length components"
      using graph by (simp add: validate_graph_def Let_def reject_unreachable_def)
    moreover have "distinct (map fst components)"
      using ascending_from_distinct [OF component_set(2) [OF set]]
      by (simp add: component_set(1) [OF set] table_of_def comp_def rev_map [symmetric])
    ultimately show ?thesis
      using reach_from_distinct [of "[]" components ?roots] by (metis distinct.simps(1) distinct_card length_map set_map)
  qed
  ultimately have "set ?reached = fst ` set components" by (simp add: card_subset_eq)
  then show ?thesis using \<open>acyclic (provenance m)\<close> reached ids by auto
qed

lemma disclosing_order:
  assumes "manifest_validate sha m r = None" and "(i, j) \<in> (disclosing m)\<^sup>*"
    and "c \<in> set (elems (mf_components m))" and "cr_component_id c = i"
    and "d \<in> set (elems (mf_components m))" and "cr_component_id d = j"
  shows "visibility_rank (cr_visibility d) \<le> visibility_rank (cr_visibility c)"
proof -
  obtain components where set: "validate_component_set sha r (elems (mf_components m)) = Inr components"
    and graph: "validate_graph r m components = None"
    using assms(1) by (rule manifest_validE)
  show ?thesis
    by (rule path_order [OF _ ascending_from_distinct [OF component_set(2) [OF set]] _ _
          assms(2) [unfolded disclosing_def] assms(3-6)])
      (use validated_edge [OF set graph] edge_in_order(2) in auto, metis)
qed

text \<open>
  C2: an accepted manifest leaks nothing: whatever a component reaches over parent edges that do
  not redact or commit, through any number of components, is at most as private as the component
  itself.
\<close>

theorem accepted_no_leak:
  assumes "manifest_validate sha m r = None" and "(i, j) \<in> (disclosing m)\<^sup>*"
    and "c \<in> set (elems (mf_components m))" and "cr_component_id c = i"
    and "d \<in> set (elems (mf_components m))" and "cr_component_id d = j"
  shows "visibility_rank (cr_visibility d) \<le> visibility_rank (cr_visibility c)"
  by (rule disclosing_order [OF assms])

text \<open>
  Presentation stays outside the science: nothing a scientific component depends on, at
  any depth, is a presentation component.
\<close>

lemma accepted_science_closed:
  assumes "manifest_validate sha m r = None" and "(i, j) \<in> (provenance m)\<^sup>*"
    and "c \<in> set (elems (mf_components m))" and "cr_component_id c = i"
    and "d \<in> set (elems (mf_components m))" and "cr_component_id d = j"
    and "cr_role c \<noteq> RolePresentation"
  shows "cr_role d \<noteq> RolePresentation"
proof -
  obtain components where set: "validate_component_set sha r (elems (mf_components m)) = Inr components"
    and graph: "validate_graph r m components = None"
    using assms(1) by (rule manifest_validE)
  have path: "(i, j) \<in> ((\<lambda>(c, p). (cr_component_id c, ref_component_id p)) `
      {(c, p) \<in> internal_edges m. True})\<^sup>*"
    using assms(2) by (simp add: provenance_def)
  have "cr_role d = RolePresentation \<longrightarrow> cr_role c = RolePresentation"
    by (rule path_order [OF _ ascending_from_distinct [OF component_set(2) [OF set]] _ _ path assms(3-6)])
      (use validated_edge [OF set graph] edge_in_order(1) in auto, metis)
  with assms(7) show ?thesis by blast
qed

text \<open>
  C26: the cycle check is exact: on the components of a validated set the search reports an
  error when and only when the provenance graph has a cycle; in particular it never exhausts
  its depth and never rejects an acyclic graph.
\<close>

theorem cycle_check_exact:
  assumes "validate_component_set sha r records = Inr components"
  shows "reject_cycles records components = None \<longleftrightarrow> acyclic (edges components)"
  by (rule reject_cycles_iff) (simp add: component_set(1) [OF assms] table_of_def image_image)

section \<open>A sample manifest\<close>

definition flat_sha :: "string \<Rightarrow> string" where
  "flat_sha s = replicate 64 CHR ''0''"

definition sample_type :: component_type where
  "sample_type = \<lparr> ct_type_id = ''raw'', ct_schema_id = ''raw.v1'', ct_role = RoleObservation,
     ct_allowed_visibilities = Some [VisibilityPublic], ct_media_type = ''a/b'',
     ct_payload_profile = PayloadExactBytes, ct_validator_id = ''any'', ct_binding_validator_id = [],
     ct_parent_rules = None \<rparr>"

definition sample_document :: registry_document where
  "sample_document = \<lparr> rd_schema_version = RegistrySchemaVersion, rd_canonical_policy = CanonicalPolicy,
     rd_registry_id = ''base'', rd_base_registry_digest = [], rd_types = Some [sample_type],
     rd_digest = flat_sha [] \<rparr>"

definition sample_registry :: registry where
  "sample_registry = \<lparr> reg_document = sample_document, reg_types = [''raw'' \<mapsto> sample_type],
     reg_validators = [''any'' \<mapsto> (\<lambda>_. None)], reg_bindings = Map.empty \<rparr>"

definition sample_record :: component_record where
  "sample_record = \<lparr> cr_component_id = flat_sha [], cr_name = ''run'', cr_type_id = ''raw'',
     cr_schema_id = ''raw.v1'', cr_role = RoleObservation, cr_visibility = VisibilityPublic,
     cr_media_type = ''a/b'', cr_payload = \<lparr> pi_algorithm = DigestAlgorithm, pi_digest = flat_sha [],
       pi_bytes = 1, pi_canonicalization = PayloadExactBytes \<rparr>, cr_parents = None \<rparr>"

definition sample_manifest :: manifest where
  "sample_manifest = \<lparr> mf_schema_version = ManifestSchemaVersion, mf_canonical_policy = CanonicalPolicy,
     mf_capsule_id = flat_sha [], mf_manifest_digest = flat_sha [], mf_registry_digest = flat_sha [],
     mf_study_id = ''s'', mf_cell_id = ''c'', mf_parent_capsules = None,
     mf_scientific_roots = Some [flat_sha []], mf_presentation_roots = None,
     mf_components = Some [sample_record] \<rparr>"

lemma flat_digest: "digest flat_sha j = Inr (flat_sha []) \<longleftrightarrow> check_value (coerce j) 0 = None"
  by (auto simp: digest_def canonical_marshal_def flat_sha_def split: option.splits)

lemma flat_nonempty [simp]: "flat_sha [] \<noteq> []"
  by (simp add: flat_sha_def)

lemma flat_valid [simp]: "valid_digest (flat_sha [])"
  by (simp add: valid_digest_def flat_sha_def)

lemma flat_sha_eq: "flat_sha s = flat_sha []"
  by (simp add: flat_sha_def)

lemma utf8_zeros [simp]: "utf8_valid (flat_sha s)"
proof -
  have "utf8_valid (replicate n CHR ''0'')" for n by (induction n) auto
  then show ?thesis by (simp add: flat_sha_def)
qed

lemma sample_names:
  "valid_identifier ''run'' \<and> valid_identifier ''s'' \<and> valid_identifier ''c'' \<and> valid_identifier ''raw''"
  by code_simp

lemma sample_json:
  "check_value (coerce (component_record_json (sample_record\<lparr>cr_component_id := []\<rparr>))) 0 = None"
  "check_value (coerce (scientific_json sample_manifest)) 0 = None"
  "check_value (coerce (manifest_json (sample_manifest\<lparr>mf_manifest_digest := []\<rparr>))) 0 = None"
  by (simp_all add: component_record_json_def sample_record_def payload_identity_json_def json_slice_def
      json_int_def validate_int_text maximum_safe_json_integer_def scientific_json_def manifest_json_def
      sample_manifest_def)

lemma sample_record_valid:
  "validate_component_record flat_sha (Some sample_registry) sample_record = None"
proof -
  have "component_digest flat_sha sample_record = Inr (flat_sha [])"
    unfolding component_digest_def flat_digest by (rule sample_json)
  then show ?thesis
    using sample_names
    by (simp add: validate_component_record_def sample_registry_def registry_lookup_def sample_type_def
        sample_record_def validate_payload_identity_def payload_profile_valid_def validate_parent_refs_def)
qed

lemma sample_components:
  "validate_component_set flat_sha (Some sample_registry) [sample_record] = Inr [(flat_sha [], sample_record)]"
proof -
  have "cr_component_id sample_record = flat_sha []" by (simp add: sample_record_def)
  with sample_record_valid show ?thesis
    by (simp add: validate_component_set_def flat_sha_def)
qed

lemma sample_valid: "manifest_validate flat_sha sample_manifest (Some sample_registry) = None"
proof -
  let ?t = "[(flat_sha [], sample_record)]"
  have id: "cr_component_id sample_record = flat_sha []" "cr_role sample_record = RoleObservation"
    "elems (cr_parents sample_record) = []"
    by (simp_all add: sample_record_def)
  have parents: "internal_parents ?t i = []" for i
    by (simp add: internal_parents_def id)
  have "validate_roots sample_manifest ?t = None"
    using id by (simp add: validate_roots_def validate_root_set_def sample_manifest_def)
  moreover have "validate_graph (Some sample_registry) sample_manifest ?t = None"
    using id by (simp add: validate_graph_def sample_manifest_def reject_cycles_def reject_unreachable_def
        parents numeral_2_eq_2)
  moreover have "scientific_digest flat_sha sample_manifest = Inr (mf_capsule_id sample_manifest)"
    "manifest_digest flat_sha sample_manifest = Inr (mf_manifest_digest sample_manifest)"
    unfolding scientific_digest_def manifest_digest_def
    using sample_json flat_digest by (simp_all add: sample_manifest_def)
  ultimately show ?thesis
    using sample_components sample_names
    by (simp add: manifest_validate_def validate_manifest_structure_def sample_manifest_def
        registry_digest_of_def sample_registry_def sample_document_def validate_capsule_refs_def)
qed

lemma accepted_rooted_acyclic_witness:
  "acyclic (provenance sample_manifest) \<and>
    cr_component_id ` set (elems (mf_components sample_manifest)) =
      (provenance sample_manifest)\<^sup>* ``
        (set (elems (mf_scientific_roots sample_manifest)) \<union> set (elems (mf_presentation_roots sample_manifest)))"
  by (rule accepted_rooted_acyclic [OF sample_valid])

lemma sample_member: "sample_record \<in> set (elems (mf_components sample_manifest))"
  by (simp add: sample_manifest_def)

lemma accepted_science_closed_witness: "cr_role sample_record \<noteq> RolePresentation"
  by (rule accepted_science_closed [OF sample_valid rtrancl_refl sample_member refl sample_member refl])
    (simp add: sample_record_def)

lemma cycle_check_exact_witness:
  "reject_cycles [sample_record] [(flat_sha [], sample_record)] = None \<longleftrightarrow>
     acyclic (edges [(flat_sha [], sample_record)])"
  by (rule cycle_check_exact [OF sample_components])

end
