(* ===== verification/CapsuleIdentity.thy ===== *)
theory CapsuleIdentity
  imports CapsuleProps
begin

text \<open>
  The digests of internal/capsule bind what they are computed from: under one loaded
  registry, two accepted components with one component id are the same component, and two
  accepted manifests with one capsule id have the same scientific content, unless the two canonical
  texts the digests were computed from are a collision of the hash.
\<close>

section \<open>Fields of a canonical object\<close>

abbreviation jc :: "json \<Rightarrow> json" where
  "jc j \<equiv> canon (coerce j)"

definition fields :: "(string \<times> json) list \<Rightarrow> string \<rightharpoonup> json" where
  "fields ms = map_of (map (\<lambda>(k, v). (k, jc v)) ms)"

definition plain_keys :: "(string \<times> json) list \<Rightarrow> bool" where
  "plain_keys ms \<longleftrightarrow> distinct (map fst ms) \<and> (\<forall>k \<in> set (map fst ms). utf8_valid k)"

lemma object_fields:
  assumes "plain_keys ms" and "plain_keys ms'" and "jc (JObj ms) = jc (JObj ms')"
  shows "fields ms = fields ms'"
proof -
  have co: "coerce (JObj ns) = JObj (map (\<lambda>(k, v). (k, coerce v)) ns)" if "plain_keys ns" for ns
    using that by (auto simp: plain_keys_def)
  have dist: "distinct (map fst (map (\<lambda>(k, v). (k, coerce v)) ns))" if "plain_keys ns" for ns
    using that by (simp add: plain_keys_def comp_def case_prod_unfold)
  have all: "canon_all (map (\<lambda>(k, v). (k, coerce v)) ns) = map (\<lambda>(k, v). (k, jc v)) ns" for ns
    by (simp add: canon_all_def case_prod_unfold)
  show ?thesis
    using assms(3) canon_object_eq [OF dist [OF assms(1)] dist [OF assms(2)]]
    unfolding co [OF assms(1)] co [OF assms(2)] fields_def all by simp
qed

lemma fields_simps [simp]:
  "fields [] k = None"
  "fields ((k', v) # ms) k = (if k = k' then Some (jc v) else fields ms k)"
  "fields (omit_empty k' s @ ms) k = (if k = k' \<and> s \<noteq> [] then Some (JStr (coerce_string s)) else fields ms k)"
  "fields (omit_empty k' s) k = (if k = k' \<and> s \<noteq> [] then Some (JStr (coerce_string s)) else None)"
  by (auto simp: fields_def omit_empty_def)

lemma slice_inject:
  assumes "jc (json_slice f s) = jc (json_slice f t)"
    and "\<And>x y. x \<in> set (elems s) \<Longrightarrow> y \<in> set (elems t) \<Longrightarrow> jc (f x) = jc (f y) \<Longrightarrow> x = y"
  shows "s = t"
proof -
  have inj: "xs = ys" if "map (\<lambda>x. jc (f x)) xs = map (\<lambda>x. jc (f x)) ys"
    "\<And>x y. x \<in> set xs \<Longrightarrow> y \<in> set ys \<Longrightarrow> jc (f x) = jc (f y) \<Longrightarrow> x = y" for xs ys
    using that
  proof (induction xs arbitrary: ys)
    case (Cons x xs)
    then show ?case by (cases ys) auto
  qed simp
  show ?thesis
    using assms by (cases s; cases t) (auto simp: json_slice_def comp_def intro: inj)
qed

lemma ascii_valid: "(\<forall>c \<in> set s. ord c < 128) \<Longrightarrow> utf8_valid s"
  by (induction s) auto

lemma identifier_utf8: "valid_identifier s \<Longrightarrow> utf8_valid s"
  by (rule ascii_valid)
    (auto simp: valid_identifier_def is_lower_def is_digit_def char_between_def less_eq_char_def)

lemma digest_utf8: "valid_digest s \<Longrightarrow> utf8_valid s"
  by (rule ascii_valid) (auto simp: valid_digest_def less_char_def not_less)

lemma optional_digest_utf8: "valid_optional_digest s \<Longrightarrow> utf8_valid s"
  by (auto simp: valid_optional_digest_def digest_utf8)

lemma enum_utf8:
  "edge_kind_valid k \<Longrightarrow> utf8_valid k" "role_valid k \<Longrightarrow> utf8_valid k"
  "visibility_valid k \<Longrightarrow> utf8_valid k" "parent_resolution_valid k \<Longrightarrow> utf8_valid k"
  "payload_profile_valid k \<Longrightarrow> utf8_valid k"
  by (auto simp: edge_kind_valid_def role_valid_def visibility_valid_def parent_resolution_valid_def
      payload_profile_valid_def)

lemmas text_utf8 = identifier_utf8 digest_utf8 optional_digest_utf8 enum_utf8

section \<open>Structs\<close>

lemma parent_ref_inject:
  assumes "validate_parent_ref p = None" and "validate_parent_ref q = None"
    and "jc (parent_ref_json p) = jc (parent_ref_json q)"
  shows "p = q"
proof -
  have u: "utf8_valid (ref_kind x)" "utf8_valid (ref_component_id x)" "utf8_valid (ref_type_id x)"
    "utf8_valid (ref_role x)" "utf8_valid (ref_visibility x)" "utf8_valid (ref_resolution x)"
    "utf8_valid (ref_capsule_id x)" "utf8_valid (ref_omission_class x)" if "validate_parent_ref x = None" for x
    using that by (auto simp: validate_parent_ref_def text_utf8 parent_resolution_valid_def)
  have eq: "fields (case parent_ref_json p of JObj ms \<Rightarrow> ms) = fields (case parent_ref_json q of JObj ms \<Rightarrow> ms)"
    unfolding parent_ref_json_def json.case
    by (rule object_fields)
      (use assms(3) in \<open>auto simp: plain_keys_def omit_empty_def parent_ref_json_def\<close>)
  note at = fun_cong [OF eq, unfolded parent_ref_json_def json.case]
  have "ref_kind p = ref_kind q" using at [of "''kind''"] u assms by simp
  moreover have "ref_component_id p = ref_component_id q" using at [of "''component_id''"] u assms by simp
  moreover have "ref_type_id p = ref_type_id q" using at [of "''type_id''"] u assms by simp
  moreover have "ref_role p = ref_role q" using at [of "''role''"] u assms by simp
  moreover have "ref_visibility p = ref_visibility q" using at [of "''visibility''"] u assms by simp
  moreover have "ref_resolution p = ref_resolution q" using at [of "''resolution''"] u assms by simp
  moreover have "ref_capsule_id p = ref_capsule_id q"
    using at [of "''capsule_id''"] u assms by (simp split: if_splits)
  moreover have "ref_omission_class p = ref_omission_class q"
    using at [of "''omission_class''"] u assms by (simp split: if_splits)
  ultimately show ?thesis by simp
qed


definition payload_plain :: "payload_identity \<Rightarrow> bool" where
  "payload_plain p \<longleftrightarrow> utf8_valid (pi_algorithm p) \<and> utf8_valid (pi_digest p) \<and> utf8_valid (pi_canonicalization p)"

lemma payload_inject:
  assumes "payload_plain p" and "payload_plain q"
    and "jc (payload_identity_json p) = jc (payload_identity_json q)"
  shows "p = q"
proof -
  have eq: "fields (case payload_identity_json p of JObj ms \<Rightarrow> ms) = fields (case payload_identity_json q of JObj ms \<Rightarrow> ms)"
    unfolding payload_identity_json_def json.case
    by (rule object_fields) (use assms(3) in \<open>auto simp: plain_keys_def payload_identity_json_def\<close>)
  note at = fun_cong [OF eq, unfolded payload_identity_json_def json.case]
  have "pi_algorithm p = pi_algorithm q" using at [of "''algorithm''"] assms by (simp add: payload_plain_def)
  moreover have "pi_digest p = pi_digest q" using at [of "''digest''"] assms by (simp add: payload_plain_def)
  moreover have "pi_bytes p = pi_bytes q" using at [of "''bytes''"] by (simp add: json_int_def)
  moreover have "pi_canonicalization p = pi_canonicalization q"
    using at [of "''canonicalization''"] assms by (simp add: payload_plain_def)
  ultimately show ?thesis by simp
qed

text \<open>What validation says of a component under a registry, apart from its id.\<close>

definition component_plain :: "registry \<Rightarrow> component_record \<Rightarrow> bool" where
  "component_plain reg c \<longleftrightarrow> utf8_valid (cr_component_id c) \<and> utf8_valid (cr_name c) \<and>
     utf8_valid (cr_type_id c) \<and> utf8_valid (cr_role c) \<and> utf8_valid (cr_schema_id c) \<and>
     utf8_valid (cr_visibility c) \<and>
     map_option ct_media_type (reg_types reg (cr_type_id c)) = Some (cr_media_type c) \<and>
     payload_plain (cr_payload c) \<and> (\<forall>p \<in> set (elems (cr_parents c)). validate_parent_ref p = None)"

lemma component_inject:
  assumes "component_plain reg c" and "component_plain reg d"
    and "jc (component_record_json c) = jc (component_record_json d)"
  shows "c = d"
proof -
  have eq: "fields (case component_record_json c of JObj ms \<Rightarrow> ms) = fields (case component_record_json d of JObj ms \<Rightarrow> ms)"
    unfolding component_record_json_def json.case
    by (rule object_fields) (use assms(3) in \<open>auto simp: plain_keys_def component_record_json_def\<close>)
  note at = fun_cong [OF eq, unfolded component_record_json_def json.case]
  note plain = assms(1,2) [unfolded component_plain_def]
  have "cr_component_id c = cr_component_id d" using at [of "''component_id''"] plain by simp
  moreover have "cr_name c = cr_name d" using at [of "''name''"] plain by simp
  moreover have type: "cr_type_id c = cr_type_id d" using at [of "''type_id''"] plain by simp
  moreover have "cr_schema_id c = cr_schema_id d" using at [of "''schema_id''"] plain by simp
  moreover have "cr_role c = cr_role d" using at [of "''role''"] plain by simp
  moreover have "cr_visibility c = cr_visibility d" using at [of "''visibility''"] plain by simp
  moreover have "cr_media_type c = cr_media_type d" using plain type by auto
  moreover have "cr_payload c = cr_payload d"
    using at [of "''payload''"] plain by (intro payload_inject) simp_all
  moreover have "cr_parents c = cr_parents d"
    by (rule slice_inject [of parent_ref_json])
      (use at [of "''parents''"] plain parent_ref_inject in auto)
  ultimately show ?thesis by simp
qed

lemma capsule_ref_inject:
  assumes "utf8_valid (cap_relation p)" and "utf8_valid (cap_relation q)"
    and "utf8_valid (cap_capsule_id p)" and "utf8_valid (cap_capsule_id q)"
    and "jc (capsule_ref_json p) = jc (capsule_ref_json q)"
  shows "p = q"
proof -
  have eq: "fields (case capsule_ref_json p of JObj ms \<Rightarrow> ms) = fields (case capsule_ref_json q of JObj ms \<Rightarrow> ms)"
    unfolding capsule_ref_json_def json.case
    by (rule object_fields) (use assms(5) in \<open>auto simp: plain_keys_def capsule_ref_json_def\<close>)
  note at = fun_cong [OF eq, unfolded capsule_ref_json_def json.case]
  show ?thesis using at [of "''relation''"] at [of "''capsule_id''"] assms(1-4) by simp
qed

section \<open>The loaded registry\<close>

lemma type_table_lookup:
  "foldl (\<lambda>m t. m(ct_type_id t \<mapsto> t)) m types i = Some d \<Longrightarrow>
     d \<in> set types \<and> ct_type_id d = i \<or> m i = Some d"
  by (induction types arbitrary: m) (fastforce split: if_splits)+

definition loaded :: "(string \<Rightarrow> string) \<Rightarrow> registry \<Rightarrow> bool" where
  "loaded sha reg \<longleftrightarrow> (\<exists>document validators bindings.
     new_registry_with_bindings sha document validators bindings = Inr reg)"

lemma loadedE:
  assumes "loaded sha reg"
  obtains "registry_document_validate sha (reg_document reg) = None"
    and "reg_types reg = type_table (elems (rd_types (reg_document reg)))"
    and "\<forall>t \<in> set (elems (rd_types (reg_document reg))).
      check_functions_available (reg_validators reg) (reg_bindings reg) t = None"
    and "\<forall>t \<in> set (elems (rd_types (reg_document reg))). \<forall>rule \<in> set (elems (ct_parent_rules t)).
      check_rule (reg_types reg) t rule = None"
  using assms unfolding loaded_def new_registry_with_bindings_def
  by (auto simp: Let_def simp del: first_err.simps split: option.splits sum.splits)

lemma loaded_type:
  assumes "loaded sha reg" and "reg_types reg i = Some d"
  shows "ct_type_id d = i" and "validate_component_type d = None"
    and "d \<in> set (elems (rd_types (reg_document reg)))"
proof -
  have doc: "registry_document_validate sha (reg_document reg) = None"
    and types: "reg_types reg = type_table (elems (rd_types (reg_document reg)))"
    using loadedE [OF assms(1)] by blast+
  have d: "d \<in> set (elems (rd_types (reg_document reg))) \<and> ct_type_id d = i"
    using type_table_lookup [of Map.empty "elems (rd_types (reg_document reg))" i d] assms(2)
    unfolding types type_table_def by simp
  then show "ct_type_id d = i" and "d \<in> set (elems (rd_types (reg_document reg)))" by auto
  show "validate_component_type d = None"
    using doc d by (simp add: registry_document_validate_def)
qed

lemma validated_plain:
  assumes "loaded sha reg" and "validate_component_record sha' (Some reg) c = None"
  shows "component_plain reg c" and "component_plain reg (c\<lparr>cr_component_id := []\<rparr>)"
    and "component_digest sha' c = Inr (cr_component_id c)"
proof -
  obtain d where d: "reg_types reg (cr_type_id c) = Some d"
    using assms(2) by (auto simp: validate_component_record_def registry_lookup_def split: option.splits)
  have t: "ct_type_id d = cr_type_id c" "validate_component_type d = None"
    using loaded_type [OF assms(1) d] by auto
  have v: "valid_identifier (cr_name c)" "valid_digest (cr_component_id c)" "cr_schema_id c = ct_schema_id d"
    "cr_role c = ct_role d" "cr_media_type c = ct_media_type d"
    "pi_canonicalization (cr_payload c) = ct_payload_profile d"
    "cr_visibility c \<in> set (elems (ct_allowed_visibilities d))"
    "validate_payload_identity (cr_payload c) = None"
    "validate_parent_refs d (elems (cr_parents c)) = None"
    "component_digest sha' c = Inr (cr_component_id c)"
    using assms(2) d by (auto simp: validate_component_record_def registry_lookup_def)
  have ct: "valid_identifier (ct_type_id d)" "valid_identifier (ct_schema_id d)" "role_valid (ct_role d)"
    "\<forall>x \<in> set (elems (ct_allowed_visibilities d)). visibility_valid x"
    using t(2) by (auto simp: validate_component_type_def valid_schema_identity_def validate_visibilities_def)
  show "component_digest sha' c = Inr (cr_component_id c)" by (rule v)
  show "component_plain reg c"
    using v ct t(1) d
    by (auto simp: component_plain_def payload_plain_def validate_payload_identity_def validate_parent_refs_def
        text_utf8)
  then show "component_plain reg (c\<lparr>cr_component_id := []\<rparr>)" by (simp add: component_plain_def)
qed

section \<open>Properties\<close>

definition component_id_text :: "component_record \<Rightarrow> string" where
  "component_id_text c = digest_text (component_record_json (c\<lparr>cr_component_id := []\<rparr>))"

text \<open>
  A component id binds the component: under one loaded registry, two accepted records with
  one id are equal in every field, down to the order of their parents and whether the slice
  of parents is nil, unless their two canonical texts without the id, which the code hashes,
  are different texts with one hash.
\<close>
lemma component_id_binds:
  assumes "loaded sha reg"
    and "validate_component_record sha (Some reg) c = None"
    and "validate_component_record sha (Some reg) d = None"
    and "cr_component_id c = cr_component_id d"
  shows "c = d \<or> collides sha (component_id_text c) (component_id_text d)"
proof -
  note c = validated_plain [OF assms(1,2)] and d = validated_plain [OF assms(1,3)]
  have "jc (component_record_json (c\<lparr>cr_component_id := []\<rparr>)) =
      jc (component_record_json (d\<lparr>cr_component_id := []\<rparr>)) \<or>
      collides sha (component_id_text c) (component_id_text d)"
    using c(3) d(3) assms(4) unfolding component_digest_def component_id_text_def
    by (intro digest_inject) simp_all
  then show ?thesis
  proof
    assume "jc (component_record_json (c\<lparr>cr_component_id := []\<rparr>)) =
      jc (component_record_json (d\<lparr>cr_component_id := []\<rparr>))"
    from component_inject [OF c(2) d(2) this] assms(4) show ?thesis by (cases c; cases d) simp
  qed simp
qed


lemma sample_document_valid: "registry_document_validate flat_sha sample_document = None"
proof -
  have t: "validate_component_type sample_type = None" by code_simp
  have n: "valid_identifier ''base''" by code_simp
  have "check_value (coerce (registry_document_json (sample_document\<lparr>rd_digest := []\<rparr>))) 0 = None"
    by (simp add: registry_document_json_def sample_document_def sample_type_def component_type_json_def
        json_slice_def omit_empty_def)
  then have "registry_digest flat_sha sample_document = Inr (flat_sha [])"
    unfolding registry_digest_def flat_digest .
  moreover have "ct_type_id sample_type = ''raw''" by (simp add: sample_type_def)
  ultimately show ?thesis
    using t n by (simp add: registry_document_validate_def sample_document_def valid_optional_digest_def)
qed

lemma sample_loaded: "loaded flat_sha sample_registry"
proof -
  have n: "valid_identifier ''any''" by code_simp
  have "elems (rd_types sample_document) = [sample_type]" by (simp add: sample_document_def)
  moreover have "ct_parent_rules sample_type = None" "ct_validator_id sample_type = ''any''"
    "ct_binding_validator_id sample_type = []" "ct_type_id sample_type = ''raw''"
    by (simp_all add: sample_type_def)
  ultimately have "new_registry_with_bindings flat_sha sample_document [(''any'', Some (\<lambda>_. None))] [] =
      Inr sample_registry"
    using n sample_document_valid by (simp add: new_registry_with_bindings_def check_functions_available_def
        sample_registry_def type_table_def)
  then show ?thesis unfolding loaded_def by blast
qed

text \<open>Under a constant hash two records share an id, and the theorem finds the collision.\<close>

definition other_record :: component_record where
  "other_record = sample_record\<lparr>cr_name := ''trial''\<rparr>"

lemma other_record_valid: "validate_component_record flat_sha (Some sample_registry) other_record = None"
proof -
  have "valid_identifier ''trial''" by code_simp
  moreover have "check_value (coerce (component_record_json (other_record\<lparr>cr_component_id := []\<rparr>))) 0 = None"
    by (simp add: component_record_json_def other_record_def sample_record_def payload_identity_json_def
        json_slice_def json_int_def validate_int_text maximum_safe_json_integer_def)
  then have "component_digest flat_sha other_record = Inr (flat_sha [])"
    unfolding component_digest_def flat_digest .
  ultimately show ?thesis
    using sample_names
    by (simp add: validate_component_record_def sample_registry_def registry_lookup_def sample_type_def
        other_record_def sample_record_def validate_payload_identity_def payload_profile_valid_def
        validate_parent_refs_def)
qed

lemma component_id_binds_witness:
  "sample_record \<noteq> other_record \<and> collides flat_sha (component_id_text sample_record) (component_id_text other_record)"
proof -
  have "cr_component_id sample_record = cr_component_id other_record" "sample_record \<noteq> other_record"
    by (simp_all add: sample_record_def other_record_def)
  with component_id_binds [OF sample_loaded sample_record_valid other_record_valid this(1)] show ?thesis by blast
qed

text \<open>What the capsule id is about: the manifest without its presentation.\<close>

definition science :: "manifest \<Rightarrow> string \<times> string \<times> capsule_ref slice \<times> string slice \<times> component_record list" where
  "science m = (mf_study_id m, mf_cell_id m, mf_parent_capsules m, mf_scientific_roots m,
     filter (\<lambda>c. cr_role c \<noteq> RolePresentation) (elems (mf_components m)))"

lemma manifest_plain:
  assumes "manifest_validate sha m r = None"
  shows "utf8_valid (mf_study_id m)" "utf8_valid (mf_cell_id m)"
    "utf8_valid (mf_capsule_id m)" "utf8_valid (mf_manifest_digest m)"
    "mf_schema_version m = ManifestSchemaVersion" "mf_canonical_policy m = CanonicalPolicy"
    "mf_registry_digest m = registry_digest_of r"
    "\<forall>p \<in> set (elems (mf_parent_capsules m)). utf8_valid (cap_relation p) \<and> utf8_valid (cap_capsule_id p)"
    "\<forall>i \<in> set (elems (mf_scientific_roots m)). utf8_valid i"
    "\<forall>i \<in> set (elems (mf_presentation_roots m)). utf8_valid i"
    "\<forall>c \<in> set (elems (mf_components m)). validate_component_record sha r c = None"
proof -
  obtain components where set: "validate_component_set sha r (elems (mf_components m)) = Inr components"
    and roots: "validate_roots m components = None"
    using assms by (rule manifest_validE)
  show "\<forall>c \<in> set (elems (mf_components m)). validate_component_record sha r c = None"
    by (rule component_set(4) [OF set])
  show "\<forall>i \<in> set (elems (mf_scientific_roots m)). utf8_valid i"
    "\<forall>i \<in> set (elems (mf_presentation_roots m)). utf8_valid i"
    using roots by (auto simp: validate_roots_def validate_root_set_def text_utf8 split: option.splits)
  have "validate_manifest_structure sha r m True = None"
    using assms by (simp add: manifest_validate_def)
  then have "first_err [
         fail_if (Option.is_none r \<or> mf_schema_version m \<noteq> ManifestSchemaVersion \<or>
             mf_canonical_policy m \<noteq> CanonicalPolicy \<or> mf_registry_digest m \<noteq> registry_digest_of r \<or>
             \<not> valid_identifier (mf_study_id m) \<or> \<not> valid_identifier (mf_cell_id m)) ManifestIdentityInvalid,
         fail_if (True \<and> (\<not> valid_digest (mf_capsule_id m) \<or> \<not> valid_digest (mf_manifest_digest m)))
           ManifestDigestsMissing,
         fail_if (\<not> True \<and> (mf_capsule_id m \<noteq> [] \<or> mf_manifest_digest m \<noteq> [])) UnsealedHasDigests,
         fail_if (elems (mf_components m) = [] \<or> elems (mf_scientific_roots m) = []) ComponentsRequired,
         validate_capsule_refs (elems (mf_parent_capsules m))] = None"
    unfolding validate_manifest_structure_def by (simp del: first_err.simps split: option.splits)
  then have h: "mf_schema_version m = ManifestSchemaVersion" "mf_canonical_policy m = CanonicalPolicy"
    "mf_registry_digest m = registry_digest_of r" "valid_identifier (mf_study_id m)" "valid_identifier (mf_cell_id m)"
    "valid_digest (mf_capsule_id m)" "valid_digest (mf_manifest_digest m)"
    "validate_capsule_refs (elems (mf_parent_capsules m)) = None"
    by auto
  then show "mf_schema_version m = ManifestSchemaVersion" "mf_canonical_policy m = CanonicalPolicy"
    "mf_registry_digest m = registry_digest_of r" by auto
  show "utf8_valid (mf_study_id m)" "utf8_valid (mf_cell_id m)"
    "utf8_valid (mf_capsule_id m)" "utf8_valid (mf_manifest_digest m)"
    using h by (auto intro: text_utf8)
  show "\<forall>p \<in> set (elems (mf_parent_capsules m)). utf8_valid (cap_relation p) \<and> utf8_valid (cap_capsule_id p)"
    using h(8) by (auto simp: validate_capsule_refs_def text_utf8)
qed

text \<open>
  C4: a capsule id binds the science: two manifests accepted under one loaded registry with
  one capsule id agree on study, cell, parent capsules, scientific roots and every component
  that is not presentation, in order, unless the two canonical texts of their scientific
  projections are different texts with one hash.
\<close>

theorem capsule_id_binds:
  assumes "loaded sha reg"
    and "manifest_validate sha m (Some reg) = None" and "manifest_validate sha m' (Some reg) = None"
    and "mf_capsule_id m = mf_capsule_id m'"
  shows "science m = science m' \<or>
    collides sha (digest_text (scientific_json m)) (digest_text (scientific_json m'))"
proof -
  let ?sci = "\<lambda>m. filter (\<lambda>c. cr_role c \<noteq> RolePresentation) (elems (mf_components m))"
  let ?slice = "\<lambda>m. if ?sci m = [] then None else Some (?sci m)"
  have d: "scientific_digest sha m = Inr (mf_capsule_id m)" "scientific_digest sha m' = Inr (mf_capsule_id m')"
    using assms(2,3) by (simp_all add: manifest_validate_def)
  have num: "int_numbers (scientific_json m)" for m
    by (auto simp: scientific_json_def Let_def)
  have "jc (scientific_json m) = jc (scientific_json m') \<or>
      collides sha (digest_text (scientific_json m)) (digest_text (scientific_json m'))"
    using d assms(4) unfolding scientific_digest_def by (intro digest_inject num) simp_all
  then show ?thesis
  proof
    assume j: "jc (scientific_json m) = jc (scientific_json m')"
    have eq: "fields (case scientific_json m of JObj ms \<Rightarrow> ms) = fields (case scientific_json m' of JObj ms \<Rightarrow> ms)"
      unfolding scientific_json_def Let_def json.case
      by (rule object_fields) (use j in \<open>auto simp: plain_keys_def scientific_json_def Let_def\<close>)
    note at = fun_cong [OF eq, unfolded scientific_json_def Let_def json.case]
    note p = manifest_plain [OF assms(2)] and p' = manifest_plain [OF assms(3)]
    have "mf_study_id m = mf_study_id m'" using at [of "''study_id''"] p p' by simp
    moreover have "mf_cell_id m = mf_cell_id m'" using at [of "''cell_id''"] p p' by simp
    moreover have "mf_parent_capsules m = mf_parent_capsules m'"
      by (rule slice_inject [of capsule_ref_json])
        (use at [of "''parent_capsules''"] p(8) p'(8) capsule_ref_inject in auto)
    moreover have "mf_scientific_roots m = mf_scientific_roots m'"
      by (rule slice_inject [of JStr]) (use at [of "''scientific_roots''"] p(9) p'(9) in auto)
    moreover have "?slice m = ?slice m'"
    proof (rule slice_inject [of component_record_json])
      show "jc (json_slice component_record_json (?slice m)) = jc (json_slice component_record_json (?slice m'))"
        using at [of "''components''"] by simp
      fix x y assume "x \<in> set (elems (?slice m))" and "y \<in> set (elems (?slice m'))"
        and xy: "jc (component_record_json x) = jc (component_record_json y)"
      then have "x \<in> set (elems (mf_components m))" "y \<in> set (elems (mf_components m'))"
        by (auto split: if_splits)
      then have "component_plain reg x" "component_plain reg y"
        using p(11) p'(11) validated_plain(1) [OF assms(1)] by blast+
      then show "x = y" using component_inject xy by blast
    qed
    then have "?sci m = ?sci m'" by (auto split: if_splits)
    ultimately show ?thesis by (simp add: science_def)
  qed simp
qed

definition other_manifest :: manifest where
  "other_manifest = sample_manifest\<lparr>mf_components := Some [other_record]\<rparr>"

lemma other_valid: "manifest_validate flat_sha other_manifest (Some sample_registry) = None"
proof -
  let ?t = "[(flat_sha [], other_record)]"
  have id: "cr_component_id other_record = flat_sha []" "cr_role other_record = RoleObservation"
    "elems (cr_parents other_record) = []"
    by (simp_all add: other_record_def sample_record_def)
  have "internal_parents ?t i = []" for i by (simp add: internal_parents_def id)
  moreover have "validate_component_set flat_sha (Some sample_registry) [other_record] = Inr ?t"
    using other_record_valid id by (simp add: validate_component_set_def flat_sha_def)
  moreover have "check_value (coerce (scientific_json other_manifest)) 0 = None"
    "check_value (coerce (manifest_json (other_manifest\<lparr>mf_manifest_digest := []\<rparr>))) 0 = None"
    by (simp_all add: component_record_json_def other_record_def sample_record_def payload_identity_json_def
        json_slice_def json_int_def validate_int_text maximum_safe_json_integer_def scientific_json_def
        manifest_json_def other_manifest_def sample_manifest_def)
  then have "scientific_digest flat_sha other_manifest = Inr (mf_capsule_id other_manifest)"
    "manifest_digest flat_sha other_manifest = Inr (mf_manifest_digest other_manifest)"
    unfolding scientific_digest_def manifest_digest_def
    using flat_digest by (simp_all add: other_manifest_def sample_manifest_def)
  ultimately show ?thesis
    using sample_names id
    by (simp add: manifest_validate_def validate_manifest_structure_def other_manifest_def sample_manifest_def
        registry_digest_of_def sample_registry_def sample_document_def validate_roots_def validate_root_set_def
        validate_graph_def reject_cycles_def reject_unreachable_def numeral_2_eq_2 validate_capsule_refs_def)
qed

lemma capsule_id_binds_witness:
  "science sample_manifest \<noteq> science other_manifest \<and>
     collides flat_sha (digest_text (scientific_json sample_manifest)) (digest_text (scientific_json other_manifest))"
proof -
  have "mf_capsule_id sample_manifest = mf_capsule_id other_manifest" "science sample_manifest \<noteq> science other_manifest"
    by (simp_all add: sample_manifest_def other_manifest_def science_def other_record_def sample_record_def)
  with capsule_id_binds [OF sample_loaded sample_valid other_valid this(1)] show ?thesis by blast
qed

end
