(* ===== verification/StrictJson.thy ===== *)
theory StrictJson
  imports CapsuleIdentity "HOL-Library.Monad_Syntax"
begin

text \<open>
  protocol/canonical.go: \<open>DecodeStrict\<close>, which reads a JSON text into a Go struct after the
  canonicalizer has accepted the text, and rejects members the struct does not have.  A
  decoder of a Go type is a function from the tree of the text; \<open>struct\<close> and \<open>field\<close> follow
  \<open>encoding/json\<close>: \<open>null\<close> and a missing member leave the zero value, a value of another
  kind is an error.  Member names are matched exactly: every caller encodes the result
  again and compares the texts, which rejects a name that differs in case only.
\<close>

definition read_json :: "string \<Rightarrow> json_error + json" where
  "read_json raw =
     (if \<not> utf8_valid raw then Inl NotUtf8
      else case validate_escaped_unicode_scalars raw of
        Some e \<Rightarrow> Inl e
      | None \<Rightarrow>
          (case decode_canonical_value (read_fuel raw) 0 None raw of
             Inl e \<Rightarrow> Inl e
           | Inr (value, r) \<Rightarrow> if skip_space r \<noteq> [] then Inl TrailingToken else Inr value))"

lemma canonicalize_read: "canonicalize_json raw = map_sum id write_canonical_value (read_json raw)"
  by (simp add: canonicalize_json_def read_json_def split: option.splits sum.splits)

definition decode_strict :: "(json \<Rightarrow> 'a option) \<Rightarrow> string \<Rightarrow> 'a option" where
  "decode_strict decoder raw = (case read_json raw of Inl e \<Rightarrow> None | Inr j \<Rightarrow> decoder j)"

section \<open>Decoders\<close>

fun json_string :: "json \<Rightarrow> string option" where
  "json_string (JStr s) = Some s"
| "json_string JNull = Some []"
| "json_string _ = None"

fun json_integer :: "json \<Rightarrow> int option" where
  "json_integer (JNum l) = (case parse_big_int l of None \<Rightarrow> None | Some i \<Rightarrow> if int64 i then Some i else None)"
| "json_integer JNull = Some 0"
| "json_integer _ = None"

primrec all_some :: "'a option list \<Rightarrow> 'a list option" where
  "all_some [] = Some []"
| "all_some (x # xs) = (case x of None \<Rightarrow> None | Some a \<Rightarrow> map_option (Cons a) (all_some xs))"

fun json_array :: "(json \<Rightarrow> 'a option) \<Rightarrow> json \<Rightarrow> 'a slice option" where
  "json_array f (JArr js) = map_option Some (all_some (map f js))"
| "json_array f JNull = Some None"
| "json_array f _ = None"

definition field :: "'a \<Rightarrow> (json \<Rightarrow> 'a option) \<Rightarrow> string \<Rightarrow> (string \<times> json) list \<Rightarrow> 'a option" where
  "field zero f key members = (case map_of members key of None \<Rightarrow> Some zero | Some j \<Rightarrow> f j)"

fun struct :: "string list \<Rightarrow> ((string \<times> json) list \<Rightarrow> 'a option) \<Rightarrow> json \<Rightarrow> 'a option" where
  "struct names body (JObj members) = (if set (map fst members) \<subseteq> set names then body members else None)"
| "struct names body JNull = body []"
| "struct names body _ = None"

section \<open>Reading back what was written\<close>

lemma read_marshal:
  assumes "canonical_marshal j = Inr b" and "int_numbers j"
  shows "read_json b = Inr (jc j)"
proof -
  note w = canonical_marshal_write [OF assms]
  let ?w = "write_canonical_value (coerce j)"
  have "decode_canonical_value (read_fuel ?w) 0 None (?w @ []) = Inr (jc j, [])"
    by (rule invertsD [OF reader_inverts [OF w(1)]]) (simp_all add: delimited_def read_fuel_def)
  moreover have "canonicalize_json ?w = Inr ?w" by (rule canonicalize_write [OF w(1)])
  ultimately show ?thesis
    unfolding w(2) canonicalize_read
    by (auto simp: read_json_def skip_space_def split: if_splits option.splits)
qed

text \<open>The members of a canonical object, as \<open>fields\<close> sees them.\<close>

definition canonical_members :: "(string \<times> json) list \<Rightarrow> (string \<times> json) list" where
  "canonical_members ms = map (\<lambda>(k, v). (k, canon v)) (sort_key fst (map (\<lambda>(k, v). (k, coerce v)) ms))"

lemma jc_object:
  assumes "plain_keys ms"
  shows "jc (JObj ms) = JObj (canonical_members ms)"
    and "map_of (canonical_members ms) = fields ms"
    and "set (map fst (canonical_members ms)) = fst ` set ms"
proof -
  have co: "coerce (JObj ms) = JObj (map (\<lambda>(k, v). (k, coerce v)) ms)"
    using assms by (auto simp: plain_keys_def)
  show "jc (JObj ms) = JObj (canonical_members ms)"
    unfolding co canon_members canonical_members_def canon_all_def ..
  have d: "distinct (map fst (map (\<lambda>(k, v). (k, jc v)) ms))"
    using assms by (simp add: plain_keys_def comp_def case_prod_unfold)
  have s: "set (canonical_members ms) = set (map (\<lambda>(k, v). (k, jc v)) ms)"
    by (force simp: canonical_members_def case_prod_unfold image_image)
  have "mset (map fst (canonical_members ms)) = mset (map fst ms)"
    by (simp add: canonical_members_def case_prod_unfold comp_def image_mset.compositionality)
  then have "distinct (map fst (canonical_members ms))"
    using assms by (metis mset_eq_imp_distinct_iff plain_keys_def)
  then show "map_of (canonical_members ms) = fields ms"
    using s d unfolding fields_def by (intro map_of_inject_set [THEN iffD2]) auto
  show "set (map fst (canonical_members ms)) = fst ` set ms"
    unfolding set_map s by (force simp: case_prod_unfold image_image)
qed

lemma struct_jc:
  assumes "plain_keys ms" and "fst ` set ms \<subseteq> set names"
  shows "struct names body (jc (JObj ms)) = body (canonical_members ms)"
  using jc_object [OF assms(1)] assms(2) by simp

lemma field_jc:
  assumes "plain_keys ms"
  shows "field zero f key (canonical_members ms) = (case fields ms key of None \<Rightarrow> Some zero | Some j \<Rightarrow> f j)"
  using jc_object(2) [OF assms] by (simp add: field_def)

lemma json_integer_jc: "int64 i \<Longrightarrow> json_integer (jc (json_int i)) = Some i"
  by (simp add: json_int_def parse_int_text)

lemma all_some_map: "(\<And>x. x \<in> set xs \<Longrightarrow> f (g x) = Some x) \<Longrightarrow> all_some (map (\<lambda>x. f (g x)) xs) = Some xs"
  by (induction xs) auto

lemma json_array_jc:
  assumes "\<And>x. x \<in> set (elems s) \<Longrightarrow> f (jc (g x)) = Some x"
  shows "json_array f (jc (json_slice g s)) = Some s"
  using all_some_map [of "elems s" f "\<lambda>x. jc (g x)"] assms
  by (cases s) (simp_all add: json_slice_def comp_def)

lemma strings_jc:
  assumes "\<forall>x \<in> set (elems s). utf8_valid x"
  shows "json_array json_string (jc (json_slice JStr s)) = Some s"
  using assms by (intro json_array_jc) simp

lemma plain_omit:
  "plain_keys ((k, v) # ms) \<longleftrightarrow> utf8_valid k \<and> k \<notin> fst ` set ms \<and> plain_keys ms"
  "plain_keys []"
  "plain_keys (omit_empty k s @ ms) \<longleftrightarrow> (s \<noteq> [] \<longrightarrow> utf8_valid k \<and> k \<notin> fst ` set ms) \<and> plain_keys ms"
  "plain_keys (omit_empty k s) \<longleftrightarrow> (s \<noteq> [] \<longrightarrow> utf8_valid k)"
  by (auto simp: plain_keys_def omit_empty_def)

lemma omit_keys: "fst ` set (omit_empty k s) \<subseteq> {k}"
  by (simp add: omit_empty_def)

end
