(* ===== verification/CapsuleStore.thy ===== *)
theory CapsuleStore
  imports StrictJson "HOL-Library.AList"
begin

text \<open>
  internal/capsule/store.go and family.go: a capsule as a set of payloads, as a directory on
  disk and as one of a family.  A payload map is an association list from digests to bytes, in the
  order a range loop over it takes.  A directory is the list of its entries below the root, in the order in
  which \<open>fs.WalkDir\<close> visits them; it does not change while it is read, and what lies behind a symbolic link is
  not part of it.  \<open>ctx\<close> is the result of each poll of the context, by number.
\<close>

section \<open>State\<close>

datatype node = Directory | Regular string | Unreadable | Irregular | Broken

type_synonym disk = "(string \<times> node) list"
type_synonym payload_map = "(string \<times> string) list"
type_synonym poll = "nat \<Rightarrow> string option"

datatype store_error =
    ArgumentsRequired | ManifestRejected manifest_error | ComponentLimitExceeded
  | MaximumVisibilityInvalid | ExceedsVisibility string visibility | Interrupted string
  | ConflictingIdentities string | PayloadMissing string | PayloadIdentityError string string
  | NotCanonicalPayload string | RegistryRejected registry_error | PayloadUndeclared string
  | PayloadSizeViolated string | PayloadLimitExceeded | ByteCountInvalid string
  | RootNotDirectory | SizeLimitInvalid | NotBoundedRegular string | ReadFailed
  | RegistryUnreadable | RegistryMismatch | ManifestUnreadable | EncodingFailed json_error
  | UndeclaredDirectory string | UnsupportedFile string | UndeclaredFile string | FileDiffers string
  | WalkFailed | DeclaredFileMissing | Filesystem string
  | ChildRejected store_error | ParentRejected nat store_error | ParentWithoutRegistry nat
  | ParentRepeated string | ParentSetDiffers | ParentUnavailable string | BaseUnresolved
  | ExternalUnresolved string string | ExternalMetadataDiffers string string

record verification_options =
  vo_maximum_visibility :: visibility
  vo_limits :: verification_limits

record verification_report =
  vr_schema_version :: string
  vr_capsule_id :: string
  vr_manifest_digest :: string
  vr_registry_digest :: string
  vr_components :: int
  vr_scientific_components :: int
  vr_presentation_components :: int
  vr_visibility_counts :: "(string \<times> int) list"
  vr_offline :: bool
  vr_valid :: bool

abbreviation VerificationSchemaVersion :: string where
  "VerificationSchemaVersion \<equiv> ''evalwitness.capsule-verification.v1''"
abbreviation manifest_name :: string where "manifest_name \<equiv> ''capsule.json''"
abbreviation registry_name :: string where "registry_name \<equiv> ''registry.json''"
abbreviation checksums_name :: string where "checksums_name \<equiv> ''checksums.txt''"

section \<open>Payload sets\<close>

definition verify_payload ::
  "(string \<Rightarrow> string) \<Rightarrow> registry option \<Rightarrow> component_record \<Rightarrow> string \<Rightarrow> store_error option" where
  "verify_payload sha r record raw = first_err [
     fail_if (int (length raw) \<noteq> pi_bytes (cr_payload record) \<or>
         digest_bytes sha raw \<noteq> pi_digest (cr_payload record))
       (PayloadIdentityError (cr_name record) (pi_digest (cr_payload record))),
     fail_if (pi_canonicalization (cr_payload record) = PayloadCanonicalJSON \<and> canonicalize_json raw \<noteq> Inr raw)
       (NotCanonicalPayload (cr_name record)),
     map_err RegistryRejected (validate_payload r (cr_type_id record) raw)]"

text \<open>The three loops of \<open>validatePayloadSet\<close>; the first builds the two maps that the others use.\<close>

fun match_payloads ::
  "poll \<Rightarrow> nat \<Rightarrow> (string \<Rightarrow> string) \<Rightarrow> registry option \<Rightarrow> payload_map \<Rightarrow> (string \<rightharpoonup> payload_identity) \<Rightarrow>
   component_table \<Rightarrow> component_record list \<Rightarrow>
   store_error + (string \<rightharpoonup> payload_identity) \<times> component_table" where
  "match_payloads ctx k sha r payloads expected components [] = Inr (expected, components)"
| "match_payloads ctx k sha r payloads expected components (record # records) =
     (case ctx k of Some e \<Rightarrow> Inl (Interrupted e) | None \<Rightarrow>
      let identity = cr_payload record in
      if expected (pi_digest identity) \<noteq> None \<and> expected (pi_digest identity) \<noteq> Some identity
      then Inl (ConflictingIdentities (pi_digest identity))
      else case map_of payloads (pi_digest identity) of
        None \<Rightarrow> Inl (PayloadMissing (pi_digest identity))
      | Some raw \<Rightarrow>
          (case verify_payload sha r record raw of Some e \<Rightarrow> Inl e | None \<Rightarrow>
            match_payloads ctx (k + 1) sha r payloads (expected(pi_digest identity \<mapsto> identity))
              ((cr_component_id record, record) # components) records))"

fun bound_payloads ::
  "verification_limits \<Rightarrow> (string \<rightharpoonup> payload_identity) \<Rightarrow> int \<Rightarrow> payload_map \<Rightarrow> store_error option" where
  "bound_payloads limits expected used [] = None"
| "bound_payloads limits expected used ((d, raw) # payloads) =
     (case expected d of
        None \<Rightarrow> Some (PayloadUndeclared d)
      | Some identity \<Rightarrow>
          if int (length raw) > max_payload_bytes limits \<or> int (length raw) > max_total_bytes limits - used \<or>
            int (length raw) \<noteq> pi_bytes identity
          then Some (PayloadSizeViolated d)
          else bound_payloads limits expected (used + int (length raw)) payloads)"

definition payload_bytes :: "payload_map \<Rightarrow> string \<Rightarrow> string" where
  "payload_bytes payloads d = (case map_of payloads d of None \<Rightarrow> [] | Some raw \<Rightarrow> raw)"

definition bound_parent_of :: "payload_map \<Rightarrow> component_table \<Rightarrow> parent_ref \<Rightarrow> bound_parent" where
  "bound_parent_of payloads components reference =
     (if ref_resolution reference = ParentInternal then
        let parent = (case map_of components (ref_component_id reference) of None \<Rightarrow> empty_record | Some p \<Rightarrow> p)
        in \<lparr> bp_reference = reference, bp_record = parent,
             bp_payload = payload_bytes payloads (pi_digest (cr_payload parent)) \<rparr>
      else
        \<lparr> bp_reference = reference,
          bp_record = empty_record\<lparr>cr_component_id := ref_component_id reference,
            cr_type_id := ref_type_id reference, cr_role := ref_role reference,
            cr_visibility := ref_visibility reference\<rparr>,
          bp_payload = [] \<rparr>)"

definition binding_context_of :: "payload_map \<Rightarrow> component_table \<Rightarrow> component_record \<Rightarrow> binding_context" where
  "binding_context_of payloads components record =
     \<lparr> bc_component = record, bc_payload = payload_bytes payloads (pi_digest (cr_payload record)),
       bc_parents = map (bound_parent_of payloads components) (elems (cr_parents record)) \<rparr>"

fun bind_components ::
  "poll \<Rightarrow> nat \<Rightarrow> registry option \<Rightarrow> payload_map \<Rightarrow> component_table \<Rightarrow> component_record list \<Rightarrow> store_error option"
where
  "bind_components ctx k r payloads components [] = None"
| "bind_components ctx k r payloads components (record # records) =
     (case ctx k of Some e \<Rightarrow> Some (Interrupted e) | None \<Rightarrow>
      case validate_bindings r (binding_context_of payloads components record) of
        Some e \<Rightarrow> Some (RegistryRejected e)
      | None \<Rightarrow> bind_components ctx (k + 1) r payloads components records)"

definition validate_payload_set ::
  "poll \<Rightarrow> nat \<Rightarrow> (string \<Rightarrow> string) \<Rightarrow> registry option \<Rightarrow> manifest \<Rightarrow> payload_map \<Rightarrow> verification_limits \<Rightarrow>
   store_error option" where
  "validate_payload_set ctx k sha r m payloads limits =
     (let records = elems (mf_components m) in
      case match_payloads ctx k sha r payloads Map.empty [] records of
        Inl e \<Rightarrow> Some e
      | Inr (expected, components) \<Rightarrow> first_err [
          bound_payloads limits expected 0 payloads,
          bind_components ctx (k + length records) r payloads components records])"

section \<open>Loaded packages\<close>

definition enforce_maximum_visibility :: "manifest \<Rightarrow> visibility \<Rightarrow> store_error option" where
  "enforce_maximum_visibility m maximum =
     (if maximum = [] then None
      else if \<not> visibility_valid maximum then Some MaximumVisibilityInvalid
      else each_ok (\<lambda>record. fail_if (visibility_rank (cr_visibility record) > visibility_rank maximum)
          (ExceedsVisibility (cr_name record) maximum)) (elems (mf_components m)))"

definition count_visibility :: "(string \<times> int) list \<Rightarrow> component_record \<Rightarrow> (string \<times> int) list" where
  "count_visibility counts record = AList.map_default (cr_visibility record) 1 (\<lambda>n. n + 1) counts"

definition verification_report_of :: "manifest \<Rightarrow> verification_report" where
  "verification_report_of m =
     (let records = elems (mf_components m) in
      \<lparr> vr_schema_version = VerificationSchemaVersion, vr_capsule_id = mf_capsule_id m,
        vr_manifest_digest = mf_manifest_digest m, vr_registry_digest = mf_registry_digest m,
        vr_components = int (length records),
        vr_scientific_components = int (length (filter (\<lambda>c. cr_role c \<noteq> RolePresentation) records)),
        vr_presentation_components = int (length (filter (\<lambda>c. cr_role c = RolePresentation) records)),
        vr_visibility_counts = foldl count_visibility [] records, vr_offline = True, vr_valid = True \<rparr>)"

definition effective_limits :: "verification_options \<Rightarrow> verification_limits" where
  "effective_limits options =
     (if verification_limits_valid (vo_limits options) then vo_limits options else default_verification_limits)"

definition verify_package ::
  "poll \<Rightarrow> (string \<Rightarrow> string) \<Rightarrow> registry option \<Rightarrow> manifest \<Rightarrow> payload_map \<Rightarrow> verification_options \<Rightarrow>
   store_error + verification_report" where
  "verify_package ctx sha r m payloads options =
     (let limits = effective_limits options in
      case first_err [
        fail_if (Option.is_none r) ArgumentsRequired,
        fail_if (int (length (elems (mf_components m))) > max_components limits) ComponentLimitExceeded,
        map_err ManifestRejected (manifest_validate sha m r),
        enforce_maximum_visibility m (vo_maximum_visibility options),
        validate_payload_set ctx 0 sha r m payloads limits] of
        Some e \<Rightarrow> Inl e
      | None \<Rightarrow> Inr (verification_report_of m))"

section \<open>Files\<close>

definition read_regular_file :: "disk \<Rightarrow> string \<Rightarrow> int \<Rightarrow> store_error + string" where
  "read_regular_file files path maximum =
     (if maximum < 0 then Inl SizeLimitInvalid
      else case map_of files path of
        Some (Regular raw) \<Rightarrow> if int (length raw) > maximum then Inl (NotBoundedRegular path) else Inr raw
      | Some Unreadable \<Rightarrow> Inl ReadFailed
      | _ \<Rightarrow> Inl (NotBoundedRegular path))"

definition require_directory :: "disk \<Rightarrow> store_error option" where
  "require_directory files = fail_if (map_of files ''.'' \<noteq> Some Directory) RootNotDirectory"

definition payload_relative_path :: "string \<Rightarrow> string" where
  "payload_relative_path d = ''components/'' @ DigestAlgorithm @ ''/'' @ d"

type_synonym capsule_file = "string \<times> string"

definition checksum_line :: "(string \<Rightarrow> string) \<Rightarrow> capsule_file \<Rightarrow> string" where
  "checksum_line sha file = digest_bytes sha (snd file) @ ''  '' @ fst file @ [CHR 0x0A]"

definition checksum_document :: "(string \<Rightarrow> string) \<Rightarrow> capsule_file list \<Rightarrow> string" where
  "checksum_document sha files = concat (map (checksum_line sha) files)"

definition encoded_capsule_files ::
  "(string \<Rightarrow> string) \<Rightarrow> registry option \<Rightarrow> manifest \<Rightarrow> payload_map \<Rightarrow> store_error + capsule_file list" where
  "encoded_capsule_files sha r m payloads =
     (case canonical_marshal (manifest_json m) of Inl e \<Rightarrow> Inl (EncodingFailed e) | Inr manifest_raw \<Rightarrow>
     (case canonical_marshal (registry_document_json (registry_document_of r)) of
        Inl e \<Rightarrow> Inl (EncodingFailed e) | Inr registry_raw \<Rightarrow>
        let files = sort_key fst ([(manifest_name, manifest_raw), (registry_name, registry_raw)] @
              map (\<lambda>(d, raw). (payload_relative_path d, raw)) payloads)
        in Inr (files @ [(checksums_name, checksum_document sha files)])))"

text \<open>One step of the walk over the directory.\<close>

definition inventory_entry :: "disk \<Rightarrow> capsule_file list \<Rightarrow> string \<times> node \<Rightarrow> store_error option" where
  "inventory_entry files expected entry =
     (let (path, node) = entry in
      case node of
        Broken \<Rightarrow> Some WalkFailed
      | Directory \<Rightarrow> fail_if (path \<notin> set [''.'', ''components'', ''components/'' @ DigestAlgorithm])
          (UndeclaredDirectory path)
      | Irregular \<Rightarrow> Some (UnsupportedFile path)
      | _ \<Rightarrow>
          (case map_of expected path of
             None \<Rightarrow> Some (UndeclaredFile path)
           | Some wanted \<Rightarrow>
               fail_if (read_regular_file files path (int (length wanted)) \<noteq> Inr wanted) (FileDiffers path)))"

definition files_seen :: "disk \<Rightarrow> string list" where
  "files_seen files = remdups (map fst (filter (\<lambda>(path, node). node \<noteq> Directory) files))"

definition verify_directory_inventory ::
  "(string \<Rightarrow> string) \<Rightarrow> disk \<Rightarrow> registry option \<Rightarrow> manifest \<Rightarrow> payload_map \<Rightarrow> store_error option" where
  "verify_directory_inventory sha files r m payloads =
     (case encoded_capsule_files sha r m payloads of
        Inl e \<Rightarrow> Some e
      | Inr expected \<Rightarrow> first_err [
          each_ok (inventory_entry files expected) files,
          fail_if (length (files_seen files) \<noteq> length (remdups (map fst expected))) DeclaredFileMissing])"


section \<open>Documents\<close>

definition parent_rule_of_json :: "json \<Rightarrow> parent_rule option" where
  "parent_rule_of_json = struct [''kind'', ''parent_type'', ''minimum'', ''maximum'', ''resolutions'']
     (\<lambda>ms. do {
        kind \<leftarrow> field [] json_string ''kind'' ms;
        parent_type \<leftarrow> field [] json_string ''parent_type'' ms;
        minimum \<leftarrow> field 0 json_integer ''minimum'' ms;
        maximum \<leftarrow> field 0 json_integer ''maximum'' ms;
        resolutions \<leftarrow> field None (json_array json_string) ''resolutions'' ms;
        Some \<lparr> rule_kind = kind, rule_parent_type = parent_type, rule_minimum = minimum,
               rule_maximum = maximum, rule_resolutions = resolutions \<rparr> })"

definition component_type_of_json :: "json \<Rightarrow> component_type option" where
  "component_type_of_json = struct [''type_id'', ''schema_id'', ''role'', ''allowed_visibilities'', ''media_type'',
       ''payload_profile'', ''validator_id'', ''binding_validator_id'', ''parent_rules'']
     (\<lambda>ms. do {
        type_id \<leftarrow> field [] json_string ''type_id'' ms;
        schema_id \<leftarrow> field [] json_string ''schema_id'' ms;
        role \<leftarrow> field [] json_string ''role'' ms;
        visibilities \<leftarrow> field None (json_array json_string) ''allowed_visibilities'' ms;
        media_type \<leftarrow> field [] json_string ''media_type'' ms;
        profile \<leftarrow> field [] json_string ''payload_profile'' ms;
        validator \<leftarrow> field [] json_string ''validator_id'' ms;
        binding \<leftarrow> field [] json_string ''binding_validator_id'' ms;
        rules \<leftarrow> field None (json_array parent_rule_of_json) ''parent_rules'' ms;
        Some \<lparr> ct_type_id = type_id, ct_schema_id = schema_id, ct_role = role,
               ct_allowed_visibilities = visibilities, ct_media_type = media_type,
               ct_payload_profile = profile, ct_validator_id = validator, ct_binding_validator_id = binding,
               ct_parent_rules = rules \<rparr> })"

definition registry_document_of_json :: "json \<Rightarrow> registry_document option" where
  "registry_document_of_json = struct [''schema_version'', ''canonical_policy'', ''registry_id'',
       ''base_registry_digest'', ''types'', ''digest'']
     (\<lambda>ms. do {
        schema \<leftarrow> field [] json_string ''schema_version'' ms;
        policy \<leftarrow> field [] json_string ''canonical_policy'' ms;
        registry_id \<leftarrow> field [] json_string ''registry_id'' ms;
        base \<leftarrow> field [] json_string ''base_registry_digest'' ms;
        types \<leftarrow> field None (json_array component_type_of_json) ''types'' ms;
        d \<leftarrow> field [] json_string ''digest'' ms;
        Some \<lparr> rd_schema_version = schema, rd_canonical_policy = policy, rd_registry_id = registry_id,
               rd_base_registry_digest = base, rd_types = types, rd_digest = d \<rparr> })"

definition parent_ref_of_json :: "json \<Rightarrow> parent_ref option" where
  "parent_ref_of_json = struct [''kind'', ''component_id'', ''type_id'', ''role'', ''visibility'', ''resolution'',
       ''capsule_id'', ''omission_class'']
     (\<lambda>ms. do {
        kind \<leftarrow> field [] json_string ''kind'' ms;
        component_id \<leftarrow> field [] json_string ''component_id'' ms;
        type_id \<leftarrow> field [] json_string ''type_id'' ms;
        role \<leftarrow> field [] json_string ''role'' ms;
        visibility \<leftarrow> field [] json_string ''visibility'' ms;
        resolution \<leftarrow> field [] json_string ''resolution'' ms;
        capsule_id \<leftarrow> field [] json_string ''capsule_id'' ms;
        omission \<leftarrow> field [] json_string ''omission_class'' ms;
        Some \<lparr> ref_kind = kind, ref_component_id = component_id, ref_type_id = type_id, ref_role = role,
               ref_visibility = visibility, ref_resolution = resolution, ref_capsule_id = capsule_id,
               ref_omission_class = omission \<rparr> })"

definition payload_identity_of_json :: "json \<Rightarrow> payload_identity option" where
  "payload_identity_of_json = struct [''algorithm'', ''digest'', ''bytes'', ''canonicalization'']
     (\<lambda>ms. do {
        algorithm \<leftarrow> field [] json_string ''algorithm'' ms;
        d \<leftarrow> field [] json_string ''digest'' ms;
        bytes \<leftarrow> field 0 json_integer ''bytes'' ms;
        canonicalization \<leftarrow> field [] json_string ''canonicalization'' ms;
        Some \<lparr> pi_algorithm = algorithm, pi_digest = d, pi_bytes = bytes,
               pi_canonicalization = canonicalization \<rparr> })"

definition component_record_of_json :: "json \<Rightarrow> component_record option" where
  "component_record_of_json = struct [''component_id'', ''name'', ''type_id'', ''schema_id'', ''role'', ''visibility'',
       ''media_type'', ''payload'', ''parents'']
     (\<lambda>ms. do {
        component_id \<leftarrow> field [] json_string ''component_id'' ms;
        name \<leftarrow> field [] json_string ''name'' ms;
        type_id \<leftarrow> field [] json_string ''type_id'' ms;
        schema_id \<leftarrow> field [] json_string ''schema_id'' ms;
        role \<leftarrow> field [] json_string ''role'' ms;
        visibility \<leftarrow> field [] json_string ''visibility'' ms;
        media_type \<leftarrow> field [] json_string ''media_type'' ms;
        payload \<leftarrow> field empty_payload_identity payload_identity_of_json ''payload'' ms;
        parents \<leftarrow> field None (json_array parent_ref_of_json) ''parents'' ms;
        Some \<lparr> cr_component_id = component_id, cr_name = name, cr_type_id = type_id, cr_schema_id = schema_id,
               cr_role = role, cr_visibility = visibility, cr_media_type = media_type, cr_payload = payload,
               cr_parents = parents \<rparr> })"

definition capsule_ref_of_json :: "json \<Rightarrow> capsule_ref option" where
  "capsule_ref_of_json = struct [''relation'', ''capsule_id'']
     (\<lambda>ms. do {
        relation \<leftarrow> field [] json_string ''relation'' ms;
        capsule_id \<leftarrow> field [] json_string ''capsule_id'' ms;
        Some \<lparr> cap_relation = relation, cap_capsule_id = capsule_id \<rparr> })"

definition manifest_of_json :: "json \<Rightarrow> manifest option" where
  "manifest_of_json = struct [''schema_version'', ''canonical_policy'', ''capsule_id'', ''manifest_digest'',
       ''registry_digest'', ''study_id'', ''cell_id'', ''parent_capsules'', ''scientific_roots'',
       ''presentation_roots'', ''components'']
     (\<lambda>ms. do {
        schema \<leftarrow> field [] json_string ''schema_version'' ms;
        policy \<leftarrow> field [] json_string ''canonical_policy'' ms;
        capsule_id \<leftarrow> field [] json_string ''capsule_id'' ms;
        manifest_digest \<leftarrow> field [] json_string ''manifest_digest'' ms;
        registry_digest \<leftarrow> field [] json_string ''registry_digest'' ms;
        study_id \<leftarrow> field [] json_string ''study_id'' ms;
        cell_id \<leftarrow> field [] json_string ''cell_id'' ms;
        parents \<leftarrow> field None (json_array capsule_ref_of_json) ''parent_capsules'' ms;
        scientific \<leftarrow> field None (json_array json_string) ''scientific_roots'' ms;
        presentation \<leftarrow> field None (json_array json_string) ''presentation_roots'' ms;
        components \<leftarrow> field None (json_array component_record_of_json) ''components'' ms;
        Some \<lparr> mf_schema_version = schema, mf_canonical_policy = policy, mf_capsule_id = capsule_id,
               mf_manifest_digest = manifest_digest, mf_registry_digest = registry_digest,
               mf_study_id = study_id, mf_cell_id = cell_id, mf_parent_capsules = parents,
               mf_scientific_roots = scientific, mf_presentation_roots = presentation,
               mf_components = components \<rparr> })"

definition verify_registry_document ::
  "(string \<Rightarrow> string) \<Rightarrow> string \<Rightarrow> registry option \<Rightarrow> store_error option" where
  "verify_registry_document sha raw expected =
     (case decode_strict registry_document_of_json raw of None \<Rightarrow> Some RegistryUnreadable | Some document \<Rightarrow>
      first_err [
        fail_if (canonical_marshal (registry_document_json document) \<noteq> Inr raw) RegistryUnreadable,
        map_err RegistryRejected (registry_document_validate sha document),
        fail_if (canonical_marshal (registry_document_json (registry_document_of expected)) \<noteq> Inr raw)
          RegistryMismatch])"

definition load_capsule_documents ::
  "(string \<Rightarrow> string) \<Rightarrow> disk \<Rightarrow> registry option \<Rightarrow> verification_limits \<Rightarrow> store_error + manifest" where
  "load_capsule_documents sha files r limits =
     (case require_directory files of Some e \<Rightarrow> Inl e | None \<Rightarrow>
     (case read_regular_file files registry_name (max_registry_bytes limits) of Inl e \<Rightarrow> Inl e | Inr registry_raw \<Rightarrow>
     (case verify_registry_document sha registry_raw r of Some e \<Rightarrow> Inl e | None \<Rightarrow>
     (case read_regular_file files manifest_name (max_manifest_bytes limits) of Inl e \<Rightarrow> Inl e | Inr manifest_raw \<Rightarrow>
     (case decode_strict manifest_of_json manifest_raw of None \<Rightarrow> Inl ManifestUnreadable | Some m \<Rightarrow>
     (case first_err [
         fail_if (canonical_marshal (manifest_json m) \<noteq> Inr manifest_raw) ManifestUnreadable,
         fail_if (int (length (elems (mf_components m))) > max_components limits) ComponentLimitExceeded,
         map_err ManifestRejected (manifest_validate sha m r)] of
        Some e \<Rightarrow> Inl e
      | None \<Rightarrow> Inr m))))))"

fun load_payloads ::
  "poll \<Rightarrow> nat \<Rightarrow> disk \<Rightarrow> verification_limits \<Rightarrow> int \<Rightarrow> payload_map \<Rightarrow> component_record list \<Rightarrow>
   store_error + payload_map" where
  "load_payloads ctx k files limits used payloads [] = Inr payloads"
| "load_payloads ctx k files limits used payloads (record # records) =
     (case ctx k of Some e \<Rightarrow> Inl (Interrupted e) | None \<Rightarrow>
      let identity = cr_payload record in
      if pi_digest identity \<in> set (map fst payloads)
      then load_payloads ctx (k + 1) files limits used payloads records
      else if pi_bytes identity > max_payload_bytes limits \<or> pi_bytes identity > max_total_bytes limits - used
      then Inl PayloadLimitExceeded
      else case read_regular_file files (payload_relative_path (pi_digest identity)) (pi_bytes identity) of
        Inl e \<Rightarrow> Inl e
      | Inr raw \<Rightarrow>
          if int (length raw) \<noteq> pi_bytes identity then Inl (ByteCountInvalid (pi_digest identity))
          else load_payloads ctx (k + 1) files limits (used + int (length raw))
            (payloads @ [(pi_digest identity, raw)]) records)"

section \<open>Directories\<close>

text \<open>\<open>VerifyDirectory\<close>; the payload map it builds is given to \<open>LoadDirectory\<close> as well.\<close>

definition verify_directory ::
  "poll \<Rightarrow> (string \<Rightarrow> string) \<Rightarrow> disk \<Rightarrow> registry option \<Rightarrow> verification_options \<Rightarrow>
   store_error + verification_report" where
  "verify_directory ctx sha files r options =
     (if Option.is_none r then Inl ArgumentsRequired
      else let limits = effective_limits options in
        case load_capsule_documents sha files r limits of Inl e \<Rightarrow> Inl e | Inr m \<Rightarrow>
        (case enforce_maximum_visibility m (vo_maximum_visibility options) of Some e \<Rightarrow> Inl e | None \<Rightarrow>
        (case load_payloads ctx 0 files limits 0 [] (elems (mf_components m)) of Inl e \<Rightarrow> Inl e | Inr payloads \<Rightarrow>
        (case first_err [
            validate_payload_set ctx (length (elems (mf_components m))) sha r m payloads limits,
            verify_directory_inventory sha files r m payloads] of
           Some e \<Rightarrow> Inl e
         | None \<Rightarrow> Inr (verification_report_of m)))))"

definition load_directory ::
  "poll \<Rightarrow> poll \<Rightarrow> (string \<Rightarrow> string) \<Rightarrow> disk \<Rightarrow> registry option \<Rightarrow> verification_options \<Rightarrow>
   store_error + manifest \<times> payload_map" where
  "load_directory ctx later sha files r options =
     (case verify_directory ctx sha files r options of Inl e \<Rightarrow> Inl e | Inr _ \<Rightarrow>
      let limits = effective_limits options in
      case load_capsule_documents sha files r limits of Inl e \<Rightarrow> Inl e | Inr m \<Rightarrow>
      (case load_payloads later 0 files limits 0 [] (elems (mf_components m)) of
         Inl e \<Rightarrow> Inl e
       | Inr payloads \<Rightarrow> Inr (m, payloads)))"

definition sensitive_modes :: "int \<times> int" where "sensitive_modes = (384, 448)"
definition public_modes :: "int \<times> int" where "public_modes = (420, 493)"

definition capsule_modes :: "manifest \<Rightarrow> int \<times> int" where
  "capsule_modes m =
     (if \<exists>record \<in> set (elems (mf_components m)). cr_visibility record \<noteq> VisibilityPublic
      then sensitive_modes else public_modes)"

text \<open>
  \<open>publishDirectory\<close> with \<open>writeCapsuleFiles\<close>: the files go to a staging directory that a rename
  publishes.  \<open>before\<close> is the error of the first file operation that fails up to the rename,
  \<open>after\<close> that of the final sync.  The second component is what lies at the destination afterwards.
\<close>

definition capsule_tree :: "capsule_file list \<Rightarrow> disk" where
  "capsule_tree files =
     [(''.'', Directory), (''components'', Directory), (''components/'' @ DigestAlgorithm, Directory)] @
     map (\<lambda>(path, raw). (path, Regular raw)) files"

definition publish_directory ::
  "poll \<Rightarrow> nat \<Rightarrow> string option \<Rightarrow> string option \<Rightarrow> (string \<Rightarrow> string) \<Rightarrow> registry option \<Rightarrow> manifest \<Rightarrow> payload_map \<Rightarrow>
   store_error option \<times> disk option" where
  "publish_directory ctx k before after sha r m payloads =
     (case encoded_capsule_files sha r m payloads of
        Inl e \<Rightarrow> (Some e, None)
      | Inr files \<Rightarrow>
          (case first_err (map (\<lambda>i. map_err Interrupted (ctx (k + i))) [0..<length files] @
              [map_err Filesystem before]) of
             Some e \<Rightarrow> (Some e, None)
           | None \<Rightarrow> (map_err Filesystem after, Some (capsule_tree files))))"

definition write_directory ::
  "poll \<Rightarrow> string option \<Rightarrow> string option \<Rightarrow> (string \<Rightarrow> string) \<Rightarrow> registry option \<Rightarrow> manifest \<Rightarrow> payload_map \<Rightarrow>
   store_error option \<times> disk option" where
  "write_directory ctx before after sha r m payloads =
     (case first_err [
        fail_if (Option.is_none r) ArgumentsRequired,
        map_err ManifestRejected (manifest_validate sha m r),
        validate_payload_set ctx 0 sha r m payloads default_verification_limits] of
        Some e \<Rightarrow> (Some e, None)
      | None \<Rightarrow> publish_directory ctx (2 * length (elems (mf_components m))) before after sha r m payloads)"

section \<open>Families\<close>

record package =
  pk_registry :: "registry option"
  pk_manifest :: manifest
  pk_payloads :: payload_map

fun family_parents ::
  "(nat \<Rightarrow> poll) \<Rightarrow> (string \<Rightarrow> string) \<Rightarrow> nat \<Rightarrow> (string \<times> package) list \<Rightarrow> package list \<Rightarrow>
   store_error + (string \<times> package) list" where
  "family_parents ctx sha index known [] = Inr known"
| "family_parents ctx sha index known (parent # parents) =
     (if Option.is_none (pk_registry parent) then Inl (ParentWithoutRegistry index)
      else case verify_package (ctx index) sha (pk_registry parent) (pk_manifest parent) (pk_payloads parent)
          \<lparr> vo_maximum_visibility = [], vo_limits = \<lparr> max_components = 0, max_manifest_bytes = 0,
            max_registry_bytes = 0, max_payload_bytes = 0, max_total_bytes = 0 \<rparr> \<rparr> of
        Inl e \<Rightarrow> Inl (ParentRejected index e)
      | Inr _ \<Rightarrow>
          if mf_capsule_id (pk_manifest parent) \<in> set (map fst known)
          then Inl (ParentRepeated (mf_capsule_id (pk_manifest parent)))
          else family_parents ctx sha (index + 1) ((mf_capsule_id (pk_manifest parent), parent) # known) parents)"

fun package_component_by_id :: "component_record list \<Rightarrow> string \<Rightarrow> component_record option" where
  "package_component_by_id [] component_id = None"
| "package_component_by_id (component # components) component_id =
     (if cr_component_id component = component_id then Some component
      else package_component_by_id components component_id)"

definition resolve_external :: "(string \<times> package) list \<Rightarrow> component_record \<Rightarrow> parent_ref \<Rightarrow> store_error option" where
  "resolve_external known component reference =
     (if ref_resolution reference = ParentInternal \<or> ref_capsule_id reference = [] then None
      else
        let records = (case map_of known (ref_capsule_id reference) of
              None \<Rightarrow> [] | Some parent \<Rightarrow> elems (mf_components (pk_manifest parent)))
        in case package_component_by_id records (ref_component_id reference) of
          None \<Rightarrow> Some (ExternalUnresolved (cr_name component) (ref_component_id reference))
        | Some resolved \<Rightarrow>
            fail_if (cr_type_id resolved \<noteq> ref_type_id reference \<or> cr_role resolved \<noteq> ref_role reference \<or>
                cr_visibility resolved \<noteq> ref_visibility reference)
              (ExternalMetadataDiffers (cr_name component) (ref_capsule_id reference)))"

definition verify_package_family ::
  "poll \<Rightarrow> (nat \<Rightarrow> poll) \<Rightarrow> (string \<Rightarrow> string) \<Rightarrow> package \<Rightarrow> package list \<Rightarrow> verification_options \<Rightarrow>
   store_error + verification_report" where
  "verify_package_family ctx parent_ctx sha child parents options =
     (if Option.is_none (pk_registry child) then Inl ArgumentsRequired
      else case verify_package ctx sha (pk_registry child) (pk_manifest child) (pk_payloads child) options of
        Inl e \<Rightarrow> Inl (ChildRejected e)
      | Inr report \<Rightarrow>
      (case family_parents parent_ctx sha 0 [] parents of Inl e \<Rightarrow> Inl e | Inr known \<Rightarrow>
        let declared = elems (mf_parent_capsules (pk_manifest child));
            base = rd_base_registry_digest (registry_document_of (pk_registry child))
        in case first_err [
            fail_if (length known \<noteq> length declared) ParentSetDiffers,
            each_ok (\<lambda>reference. fail_if (cap_capsule_id reference \<notin> set (map fst known))
              (ParentUnavailable (cap_capsule_id reference))) declared,
            fail_if (base \<noteq> [] \<and> length (filter (\<lambda>p. registry_digest_of (pk_registry p) = base) parents) \<noteq> 1)
              BaseUnresolved,
            each_ok (\<lambda>component. each_ok (resolve_external known component) (elems (cr_parents component)))
              (elems (mf_components (pk_manifest child)))] of
          Some e \<Rightarrow> Inl e
        | None \<Rightarrow> Inr report))"

end
