(* ===== verification/CapsuleRead.thy ===== *)
theory CapsuleRead
  imports CapsuleStore
begin

text \<open>
  Reading back what was written: each decoder of a capsule document inverts the encoder on
  validated values, so canonical documents determine their values.
\<close>

lemma omit_fst: "fst ` set (omit_empty k s) = (if s = [] then {} else {k})"
  by (simp add: omit_empty_def)

lemmas read_object = struct_jc field_jc plain_omit omit_fst image_Un

lemma parent_ref_read:
  assumes "validate_parent_ref p = None"
  shows "parent_ref_of_json (jc (parent_ref_json p)) = Some p"
proof -
  have "utf8_valid (ref_kind p)" "utf8_valid (ref_component_id p)" "utf8_valid (ref_type_id p)"
    "utf8_valid (ref_role p)" "utf8_valid (ref_visibility p)" "utf8_valid (ref_resolution p)"
    "utf8_valid (ref_capsule_id p)" "utf8_valid (ref_omission_class p)"
    using assms by (auto simp: validate_parent_ref_def text_utf8 parent_resolution_valid_def)
  then show ?thesis
    by (simp add: parent_ref_json_def parent_ref_of_json_def read_object del: canon.simps(6) coerce.simps(6))
qed

lemma payload_identity_read:
  assumes "payload_plain p" and "int64 (pi_bytes p)"
  shows "payload_identity_of_json (jc (payload_identity_json p)) = Some p"
  using assms
  by (simp add: payload_identity_json_def payload_identity_of_json_def payload_plain_def read_object json_integer_jc
      del: canon.simps(6) coerce.simps(6))

definition component_text :: "component_record \<Rightarrow> bool" where
  "component_text c \<longleftrightarrow> utf8_valid (cr_component_id c) \<and> utf8_valid (cr_name c) \<and> utf8_valid (cr_type_id c) \<and>
     utf8_valid (cr_role c) \<and> utf8_valid (cr_schema_id c) \<and> utf8_valid (cr_visibility c) \<and>
     utf8_valid (cr_media_type c) \<and> payload_plain (cr_payload c) \<and> int64 (pi_bytes (cr_payload c)) \<and>
     (\<forall>p \<in> set (elems (cr_parents c)). validate_parent_ref p = None)"

lemma component_read:
  assumes "component_text c"
  shows "component_record_of_json (jc (component_record_json c)) = Some c"
proof -
  have "json_array parent_ref_of_json (jc (json_slice parent_ref_json (cr_parents c))) = Some (cr_parents c)"
    using assms by (intro json_array_jc parent_ref_read) (simp add: component_text_def)
  then show ?thesis
    using assms
    by (simp add: component_record_json_def component_record_of_json_def component_text_def read_object
        payload_identity_read del: canon.simps(6) coerce.simps(6))
qed

lemma capsule_ref_read:
  assumes "utf8_valid (cap_relation p)" and "utf8_valid (cap_capsule_id p)"
  shows "capsule_ref_of_json (jc (capsule_ref_json p)) = Some p"
  using assms
  by (simp add: capsule_ref_json_def capsule_ref_of_json_def read_object del: canon.simps(6) coerce.simps(6))

definition manifest_text :: "manifest \<Rightarrow> bool" where
  "manifest_text m \<longleftrightarrow> utf8_valid (mf_schema_version m) \<and> utf8_valid (mf_canonical_policy m) \<and>
     utf8_valid (mf_capsule_id m) \<and> utf8_valid (mf_manifest_digest m) \<and> utf8_valid (mf_registry_digest m) \<and>
     utf8_valid (mf_study_id m) \<and> utf8_valid (mf_cell_id m) \<and>
     (\<forall>p \<in> set (elems (mf_parent_capsules m)). utf8_valid (cap_relation p) \<and> utf8_valid (cap_capsule_id p)) \<and>
     (\<forall>i \<in> set (elems (mf_scientific_roots m)). utf8_valid i) \<and>
     (\<forall>i \<in> set (elems (mf_presentation_roots m)). utf8_valid i) \<and>
     (\<forall>c \<in> set (elems (mf_components m)). component_text c)"

lemma manifest_read:
  assumes "manifest_text m"
  shows "manifest_of_json (jc (manifest_json m)) = Some m"
proof -
  have "json_array capsule_ref_of_json (jc (json_slice capsule_ref_json (mf_parent_capsules m))) =
      Some (mf_parent_capsules m)"
    using assms by (intro json_array_jc capsule_ref_read) (simp_all add: manifest_text_def)
  moreover have "json_array component_record_of_json (jc (json_slice component_record_json (mf_components m))) =
      Some (mf_components m)"
    using assms by (intro json_array_jc component_read) (simp add: manifest_text_def)
  moreover have "json_array json_string (jc (json_slice JStr (mf_scientific_roots m))) = Some (mf_scientific_roots m)"
    "json_array json_string (jc (json_slice JStr (mf_presentation_roots m))) = Some (mf_presentation_roots m)"
    using assms by (simp_all add: strings_jc manifest_text_def)
  ultimately show ?thesis
    using assms
    by (simp add: manifest_json_def manifest_of_json_def manifest_text_def read_object
        del: canon.simps(6) coerce.simps(6))
qed

section \<open>Registry documents\<close>

definition rule_text :: "parent_rule \<Rightarrow> bool" where
  "rule_text r \<longleftrightarrow> validate_parent_rule r = None \<and> int64 (rule_minimum r) \<and> int64 (rule_maximum r)"

lemma rule_read:
  assumes "rule_text r"
  shows "parent_rule_of_json (jc (parent_rule_json r)) = Some r"
proof -
  have "utf8_valid (rule_kind r)" "utf8_valid (rule_parent_type r)"
    "\<forall>x \<in> set (elems (rule_resolutions r)). utf8_valid x"
    using assms by (auto simp: rule_text_def validate_parent_rule_def text_utf8)
  then show ?thesis
    using assms
    by (simp add: parent_rule_json_def parent_rule_of_json_def rule_text_def read_object json_integer_jc strings_jc
        del: canon.simps(6) coerce.simps(6))
qed

definition type_text :: "component_type \<Rightarrow> bool" where
  "type_text t \<longleftrightarrow> validate_component_type t = None \<and> utf8_valid (ct_media_type t) \<and> utf8_valid (ct_schema_id t) \<and>
     (\<forall>r \<in> set (elems (ct_parent_rules t)). rule_text r)"

lemma type_read:
  assumes "type_text t"
  shows "component_type_of_json (jc (component_type_json t)) = Some t"
proof -
  have "utf8_valid (ct_type_id t)" "utf8_valid (ct_role t)" "utf8_valid (ct_payload_profile t)"
    "utf8_valid (ct_validator_id t)" "utf8_valid (ct_binding_validator_id t)"
    "\<forall>x \<in> set (elems (ct_allowed_visibilities t)). utf8_valid x"
    using assms
    by (auto simp: type_text_def validate_component_type_def validate_visibilities_def text_utf8)
  moreover have "json_array parent_rule_of_json (jc (json_slice parent_rule_json (ct_parent_rules t))) =
      Some (ct_parent_rules t)"
    using assms by (intro json_array_jc rule_read) (simp add: type_text_def)
  ultimately show ?thesis
    using assms
    by (simp add: component_type_json_def component_type_of_json_def type_text_def read_object strings_jc
        del: canon.simps(6) coerce.simps(6))
qed

definition document_text :: "registry_document \<Rightarrow> bool" where
  "document_text d \<longleftrightarrow> utf8_valid (rd_schema_version d) \<and> utf8_valid (rd_canonical_policy d) \<and>
     utf8_valid (rd_registry_id d) \<and> utf8_valid (rd_base_registry_digest d) \<and> utf8_valid (rd_digest d) \<and>
     (\<forall>t \<in> set (elems (rd_types d)). type_text t)"

lemma document_read:
  assumes "document_text d"
  shows "registry_document_of_json (jc (registry_document_json d)) = Some d"
proof -
  have "json_array component_type_of_json (jc (json_slice component_type_json (rd_types d))) = Some (rd_types d)"
    using assms by (intro json_array_jc type_read) (simp add: document_text_def)
  then show ?thesis
    using assms
    by (simp add: registry_document_json_def registry_document_of_json_def document_text_def read_object
        del: canon.simps(6) coerce.simps(6))
qed

text \<open>A canonical text that a document was written to decodes to the document.\<close>

lemma decode_written:
  assumes "canonical_marshal j = Inr raw" and "int_numbers j" and "decoder (jc j) = Some x"
  shows "decode_strict decoder raw = Some x"
  using read_marshal [OF assms(1,2)] assms(3) by (simp add: decode_strict_def)

end
