(* ===== verification/CapsuleStoreFacts.thy ===== *)
theory CapsuleStoreFacts
  imports CapsuleRead
begin

text \<open>
  When a payload set is accepted, what reading the payloads of a directory gives, and what the
  inventory of a directory says: the facts that the properties of packages, directories and
  families share.
\<close>

section \<open>Payload sets\<close>

definition matched :: "(string \<Rightarrow> string) \<Rightarrow> registry option \<Rightarrow> (string \<rightharpoonup> string) \<Rightarrow> component_record \<Rightarrow> bool" where
  "matched sha r payloads c \<longleftrightarrow>
     (\<exists>raw. payloads (pi_digest (cr_payload c)) = Some raw \<and> verify_payload sha r c raw = None)"

text \<open>The identities that the components declare, and that no two of them conflict.\<close>

definition declared :: "(string \<rightharpoonup> payload_identity) \<Rightarrow> component_record list \<Rightarrow> (string \<rightharpoonup> payload_identity)" where
  "declared expected records =
     foldl (\<lambda>m c. m(pi_digest (cr_payload c) \<mapsto> cr_payload c)) expected records"

fun agreeing :: "(string \<rightharpoonup> payload_identity) \<Rightarrow> component_record list \<Rightarrow> bool" where
  "agreeing expected [] = True"
| "agreeing expected (c # cs) =
     (expected (pi_digest (cr_payload c)) \<in> {None, Some (cr_payload c)} \<and>
      agreeing (expected(pi_digest (cr_payload c) \<mapsto> cr_payload c)) cs)"

definition component_entries :: "component_record list \<Rightarrow> component_table" where
  "component_entries records = rev (map (\<lambda>c. (cr_component_id c, c)) records)"

lemma all_less_Suc: "(\<forall>i < Suc n. P i) \<longleftrightarrow> P 0 \<and> (\<forall>i < n. P (Suc i))"
  using less_Suc_eq_0_disj by auto

lemma match_payloads_iff:
  "match_payloads ctx k sha r payloads expected components records = Inr (expected', components') \<longleftrightarrow>
     (\<forall>i < length records. ctx (k + i) = None) \<and> (\<forall>c \<in> set records. matched sha r (map_of payloads) c) \<and>
     agreeing expected records \<and> expected' = declared expected records \<and>
     components' = component_entries records @ components"
proof (induction records arbitrary: k expected components)
  case (Cons c records)
  have "agreeing expected (c # records) \<longleftrightarrow>
      \<not> (expected (pi_digest (cr_payload c)) \<noteq> None \<and> expected (pi_digest (cr_payload c)) \<noteq> Some (cr_payload c)) \<and>
      agreeing (expected(pi_digest (cr_payload c) \<mapsto> cr_payload c)) records" by auto
  then show ?case
    by (auto simp: Cons.IH Let_def matched_def all_less_Suc declared_def component_entries_def
        fun_upd_def split: option.splits)
qed (auto simp: declared_def component_entries_def)

definition total_bytes :: "payload_map \<Rightarrow> int" where
  "total_bytes payloads = (\<Sum>(d, raw) \<leftarrow> payloads. int (length raw))"

lemma total_bytes_simps [simp]:
  "total_bytes [] = 0" "total_bytes ((d, raw) # ps) = int (length raw) + total_bytes ps"
  "total_bytes (ps @ qs) = total_bytes ps + total_bytes qs"
  by (simp_all add: total_bytes_def)

lemma total_bytes_nonneg [simp]: "0 \<le> total_bytes ps"
  by (induction ps) auto

definition sized :: "verification_limits \<Rightarrow> (string \<rightharpoonup> payload_identity) \<Rightarrow> string \<times> string \<Rightarrow> bool" where
  "sized limits expected p \<longleftrightarrow> int (length (snd p)) \<le> max_payload_bytes limits \<and>
     map_option pi_bytes (expected (fst p)) = Some (int (length (snd p)))"

lemma bound_payloads_iff:
  "bound_payloads limits expected used payloads = None \<longleftrightarrow>
     (\<forall>p \<in> set payloads. sized limits expected p) \<and>
     (payloads \<noteq> [] \<longrightarrow> used + total_bytes payloads \<le> max_total_bytes limits)"
proof (induction payloads arbitrary: used)
  case (Cons p payloads)
  obtain d raw where p: "p = (d, raw)" by force
  show ?case
    using total_bytes_nonneg [of payloads]
    by (cases "payloads = []") (auto simp: p Cons.IH sized_def simp del: total_bytes_nonneg split: option.splits)
qed simp

lemma bind_components_iff:
  "bind_components ctx k r payloads components records = None \<longleftrightarrow>
     (\<forall>i < length records. ctx (k + i) = None) \<and>
     (\<forall>c \<in> set records. validate_bindings r (binding_context_of payloads components c) = None)"
  by (induction records arbitrary: k) (auto simp: all_less_Suc split: option.splits)

lemma validate_payload_set_iff:
  "validate_payload_set ctx k sha r m payloads limits = None \<longleftrightarrow>
     (let records = elems (mf_components m) in
      (\<forall>i < 2 * length records. ctx (k + i) = None) \<and>
      (\<forall>c \<in> set records. matched sha r (map_of payloads) c) \<and> agreeing Map.empty records \<and>
      (\<forall>p \<in> set payloads. sized limits (declared Map.empty records) p) \<and>
      (payloads \<noteq> [] \<longrightarrow> total_bytes payloads \<le> max_total_bytes limits) \<and>
      (\<forall>c \<in> set records. validate_bindings r (binding_context_of payloads (component_entries records) c) = None))"
proof -
  let ?rs = "elems (mf_components m)" and ?n = "length (elems (mf_components m))"
  have polls: "(\<forall>i < 2 * ?n. P (k + i)) \<longleftrightarrow> (\<forall>i < ?n. P (k + i)) \<and> (\<forall>i < ?n. P (k + ?n + i))" for P
  proof (intro iffI allI impI conjI)
    fix i assume *: "(\<forall>i < ?n. P (k + i)) \<and> (\<forall>i < ?n. P (k + ?n + i))" and i: "i < 2 * ?n"
    show "P (k + i)"
    proof (cases "i < ?n")
      case False
      with i have "i - ?n < ?n" by simp
      with * have "P (k + ?n + (i - ?n))" by blast
      with False show ?thesis by simp
    qed (use * in simp)
  qed (auto simp: add.assoc)
  note polls = polls [of "\<lambda>i. ctx i = None"]
  show ?thesis
  proof (cases "match_payloads ctx k sha r payloads Map.empty [] ?rs")
    case (Inl e)
    then have "\<not> (\<exists>x y. match_payloads ctx k sha r payloads Map.empty [] ?rs = Inr (x, y))" by simp
    then have "\<not> ((\<forall>i < ?n. ctx (k + i) = None) \<and> (\<forall>c \<in> set ?rs. matched sha r (map_of payloads) c) \<and>
        agreeing Map.empty ?rs)" unfolding match_payloads_iff by blast
    with Inl show ?thesis unfolding validate_payload_set_def Let_def polls by auto
  next
    case (Inr x)
    obtain e c where x: "x = (e, c)" by force
    note ok = match_payloads_iff [THEN iffD1, OF Inr [unfolded x]]
    from Inr x ok show ?thesis
      unfolding validate_payload_set_def Let_def polls
      by (auto simp: bound_payloads_iff bind_components_iff)
  qed
qed

lemma same_map_same_set:
  assumes "map_of ps = map_of qs" and "distinct (map fst ps)" and "distinct (map fst qs)"
  shows "set ps = set qs"
  using assms by (metis map_of_inject_set)

lemma total_bytes_sum: "distinct (map fst ps) \<Longrightarrow> total_bytes ps = (\<Sum>p \<in> set ps. int (length (snd p)))"
  by (induction ps) (force simp: sum.insert_if)+

lemma validate_payload_set_order:
  assumes "map_of ps = map_of qs" and "distinct (map fst ps)" and "distinct (map fst qs)"
    and "validate_payload_set ctx k sha r m ps limits = None" and "\<And>i. ctx' i = None"
  shows "validate_payload_set ctx' k' sha r m qs limits = None"
proof -
  note s = same_map_same_set [OF assms(1-3)]
  have t: "total_bytes ps = total_bytes qs"
    using assms(2,3) s by (simp add: total_bytes_sum)
  have e: "ps = [] \<longleftrightarrow> qs = []" using s by (metis set_empty)
  have c: "binding_context_of ps = binding_context_of qs"
    using assms(1) by (intro ext) (simp add: binding_context_of_def bound_parent_of_def [abs_def] payload_bytes_def)
  show ?thesis
    using assms(4,5) unfolding validate_payload_set_iff Let_def assms(1) s t e c by simp
qed


section \<open>Payloads read from a directory\<close>

lemma read_regular_iff:
  "read_regular_file files path maximum = Inr raw \<longleftrightarrow>
     map_of files path = Some (Regular raw) \<and> int (length raw) \<le> maximum"
  by (auto simp: read_regular_file_def split: option.splits node.splits)

lemma load_payloads_reads:
  "load_payloads ctx k files limits used acc records = Inr payloads \<Longrightarrow> distinct (map fst acc) \<Longrightarrow>
     \<forall>(d, raw) \<in> set acc. map_of files (payload_relative_path d) = Some (Regular raw) \<Longrightarrow>
     distinct (map fst payloads) \<and>
     (\<forall>(d, raw) \<in> set payloads. map_of files (payload_relative_path d) = Some (Regular raw))"
proof (induction records arbitrary: k used acc)
  case (Cons c records)
  let ?d = "pi_digest (cr_payload c)"
  show ?case
  proof (cases "?d \<in> set (map fst acc)")
    case True
    with Cons.prems show ?thesis by (intro Cons.IH [of "k + 1" used acc]) (auto split: option.splits)
  next
    case False
    with Cons.prems(1) obtain raw where
      "read_regular_file files (payload_relative_path ?d) (pi_bytes (cr_payload c)) = Inr raw"
      and "load_payloads ctx (k + 1) files limits (used + int (length raw)) (acc @ [(?d, raw)]) records = Inr payloads"
      by (auto simp: Let_def split: option.splits if_splits sum.splits)
    with Cons.prems(2,3) False show ?thesis
      by (intro Cons.IH [of "k + 1" "used + int (length raw)" "acc @ [(?d, raw)]"]) (auto simp: read_regular_iff)
  qed
qed auto

lemma load_payloads_from:
  assumes "\<And>i. ctx i = None"
    and "\<forall>c \<in> set records. \<exists>raw. contents (pi_digest (cr_payload c)) = Some raw \<and>
      int (length raw) = pi_bytes (cr_payload c) \<and> int (length raw) \<le> max_payload_bytes limits \<and>
      map_of files (payload_relative_path (pi_digest (cr_payload c))) = Some (Regular raw)"
    and "\<And>qs. distinct (map fst qs) \<Longrightarrow> map_of qs \<subseteq>\<^sub>m contents \<Longrightarrow> total_bytes qs \<le> max_total_bytes limits"
    and "distinct (map fst acc)" and "map_of acc \<subseteq>\<^sub>m contents"
  shows "\<exists>qs. load_payloads ctx k files limits (total_bytes acc) acc records = Inr qs \<and> distinct (map fst qs) \<and>
    map_of qs \<subseteq>\<^sub>m contents \<and>
    set (map fst qs) = set (map fst acc) \<union> (\<lambda>c. pi_digest (cr_payload c)) ` set records"
  using assms(2,4,5)
proof (induction records arbitrary: k acc)
  case (Cons c records)
  let ?d = "pi_digest (cr_payload c)"
  obtain raw where raw: "contents ?d = Some raw" "int (length raw) = pi_bytes (cr_payload c)"
    "int (length raw) \<le> max_payload_bytes limits"
    "map_of files (payload_relative_path ?d) = Some (Regular raw)"
    using Cons.prems(1) by auto
  show ?case
  proof (cases "?d \<in> set (map fst acc)")
    case True
    then have "load_payloads ctx k files limits (total_bytes acc) acc (c # records) =
        load_payloads ctx (k + 1) files limits (total_bytes acc) acc records"
      using assms(1) by (simp add: Let_def)
    moreover have "set (map fst acc) \<union> (\<lambda>c. pi_digest (cr_payload c)) ` set (c # records) =
        set (map fst acc) \<union> (\<lambda>c. pi_digest (cr_payload c)) ` set records" using True by auto
    ultimately show ?thesis using Cons.IH [of acc "k + 1"] Cons.prems by simp
  next
    case False
    let ?acc = "acc @ [(?d, raw)]"
    have d: "distinct (map fst ?acc)" using Cons.prems(2) False by auto
    have "map_of acc ?d = None" using False by (simp add: map_of_eq_None_iff)
    then have m: "map_of ?acc \<subseteq>\<^sub>m contents"
      using Cons.prems(3) raw(1) by (auto simp: map_le_def dom_def map_add_Some_iff)
    have t: "total_bytes ?acc \<le> max_total_bytes limits" by (rule assms(3) [OF d m])
    have r: "read_regular_file files (payload_relative_path ?d) (pi_bytes (cr_payload c)) = Inr raw"
      using raw by (simp add: read_regular_iff)
    have "load_payloads ctx k files limits (total_bytes acc) acc (c # records) =
        load_payloads ctx (k + 1) files limits (total_bytes ?acc) ?acc records"
      using assms(1) False raw(2,3) t r by (simp add: Let_def add.commute)
    then show ?thesis using Cons.IH [of ?acc "k + 1"] Cons.prems(1) d m by auto
  qed
qed auto

section \<open>The inventory\<close>

lemma payload_path_names [simp]:
  "payload_relative_path d \<noteq> manifest_name" "payload_relative_path d \<noteq> registry_name"
  "payload_relative_path d \<noteq> checksums_name"
  "payload_relative_path d \<noteq> ''.''" "payload_relative_path d \<noteq> ''components''"
  "payload_relative_path d \<noteq> ''components/sha256''"
  "manifest_name \<noteq> payload_relative_path d" "registry_name \<noteq> payload_relative_path d"
  "payload_relative_path d = payload_relative_path d' \<longleftrightarrow> d = d'"
  by (simp_all add: payload_relative_path_def)

lemma encoded_files:
  assumes "encoded_capsule_files sha r m payloads = Inr expected" and "distinct (map fst payloads)"
  obtains manifest_raw registry_raw files where
    "canonical_marshal (manifest_json m) = Inr manifest_raw"
    and "canonical_marshal (registry_document_json (registry_document_of r)) = Inr registry_raw"
    and "files = sort_key fst ([(manifest_name, manifest_raw), (registry_name, registry_raw)] @
      map (\<lambda>(d, raw). (payload_relative_path d, raw)) payloads)"
    and "expected = files @ [(checksums_name, checksum_document sha files)]"
    and "distinct (map fst expected)"
    and "\<forall>p \<in> set expected. fst p \<notin> {''.'', ''components'', ''components/sha256''}"
proof -
  obtain manifest_raw registry_raw where
    raw: "canonical_marshal (manifest_json m) = Inr manifest_raw"
      "canonical_marshal (registry_document_json (registry_document_of r)) = Inr registry_raw"
    using assms(1) by (auto simp: encoded_capsule_files_def split: sum.splits)
  define named where "named = [(manifest_name, manifest_raw), (registry_name, registry_raw)] @
      map (\<lambda>(d, raw). (payload_relative_path d, raw)) payloads"
  define files where "files = sort_key fst named"
  have e: "expected = files @ [(checksums_name, checksum_document sha files)]"
    using assms(1) raw by (simp add: encoded_capsule_files_def files_def named_def Let_def)
  have set_files: "set files = {(manifest_name, manifest_raw), (registry_name, registry_raw)} \<union>
      (\<lambda>(d, raw). (payload_relative_path d, raw)) ` set payloads"
    unfolding files_def set_sort by (simp add: named_def)
  have "map fst (map (\<lambda>(d, raw). (payload_relative_path d, raw)) payloads) =
      map payload_relative_path (map fst payloads)" by (simp add: case_prod_unfold)
  moreover have "distinct (map payload_relative_path (map fst payloads))"
    using assms(2) by (subst distinct_map) (auto intro: inj_onI)
  ultimately have "map fst named = manifest_name # registry_name # map payload_relative_path (map fst payloads)"
    "distinct (map payload_relative_path (map fst payloads))" by (simp_all add: named_def)
  then have "distinct (map fst named)" by auto
  moreover have "mset (map fst files) = mset (map fst named)" by (simp add: files_def)
  ultimately have "distinct (map fst files)" by (metis mset_eq_imp_distinct_iff)
  then have "distinct (map fst expected)"
    by (auto simp: e set_files payload_relative_path_def)
  moreover have "\<forall>p \<in> set expected. fst p \<notin> {''.'', ''components'', ''components/sha256''}"
    by (auto simp: e set_files payload_relative_path_def)
  ultimately show ?thesis using that raw files_def [unfolded named_def] e by blast
qed

lemma inventory_node:
  assumes "inventory_entry files expected (path, node) = None" and "map_of files path = Some node"
  shows "node = Directory \<and> path \<in> {''.'', ''components'', ''components/sha256''} \<or>
    (\<exists>raw. node = Regular raw \<and> map_of expected path = Some raw)"
  using assms by (cases node) (auto simp: inventory_entry_def read_regular_iff split: option.splits)

lemma inventory_exact:
  assumes "verify_directory_inventory sha files r m payloads = None" and "distinct (map fst files)"
    and "distinct (map fst payloads)"
  obtains expected where "encoded_capsule_files sha r m payloads = Inr expected"
    and "\<forall>path raw. map_of files path = Some (Regular raw) \<longleftrightarrow> map_of expected path = Some raw"
    and "\<forall>(path, node) \<in> set files. node = Directory \<and> path \<in> {''.'', ''components'', ''components/sha256''} \<or>
      (\<exists>raw. node = Regular raw)"
proof -
  obtain expected where e: "encoded_capsule_files sha r m payloads = Inr expected"
    and entries: "\<forall>x \<in> set files. inventory_entry files expected x = None"
    and count: "length (files_seen files) = length (remdups (map fst expected))"
    using assms(1) by (auto simp: verify_directory_inventory_def split: sum.splits)
  have dist: "distinct (map fst expected)" by (rule encoded_files [OF e assms(3)])
  have node: "node = Directory \<and> path \<in> {''.'', ''components'', ''components/sha256''} \<or>
      (\<exists>raw. node = Regular raw \<and> map_of expected path = Some raw)" if "map_of files path = Some node" for path node
    using inventory_node [OF bspec [OF entries map_of_SomeD [OF that]] that] .
  have seen: "set (files_seen files) = {path. \<exists>raw. map_of files path = Some (Regular raw)}"
  proof -
    have "path \<in> set (files_seen files) \<longleftrightarrow> (\<exists>node. map_of files path = Some node \<and> node \<noteq> Directory)" for path
      using assms(2) by (force simp: files_seen_def)
    then show ?thesis using node by fastforce
  qed
  have "set (files_seen files) \<subseteq> set (map fst expected)"
  proof
    fix path
    assume "path \<in> set (files_seen files)"
    then obtain raw where "map_of files path = Some (Regular raw)" unfolding seen by blast
    with node have "map_of expected path = Some raw" by fastforce
    then show "path \<in> set (map fst expected)" by (force dest: map_of_SomeD)
  qed
  moreover have "card (set (files_seen files)) = length (files_seen files)"
    by (rule distinct_card) (simp add: files_seen_def)
  moreover have "card (set (map fst expected)) = length (map fst expected)" by (rule distinct_card [OF dist])
  ultimately have same: "set (files_seen files) = set (map fst expected)"
    using count dist by (intro card_subset_eq) (simp_all add: distinct_remdups_id)
  have "map_of files path = Some (Regular raw) \<longleftrightarrow> map_of expected path = Some raw" for path raw
  proof
    assume "map_of files path = Some (Regular raw)"
    then show "map_of expected path = Some raw" using node by fastforce
  next
    assume x: "map_of expected path = Some raw"
    then have "path \<in> set (files_seen files)" unfolding same by (force dest: map_of_SomeD)
    then obtain raw' where "map_of files path = Some (Regular raw')" using seen by auto
    with node x show "map_of files path = Some (Regular raw)" by fastforce
  qed
  moreover have "\<forall>(path, node) \<in> set files. node = Directory \<and> path \<in> {''.'', ''components'', ''components/sha256''} \<or>
      (\<exists>raw. node = Regular raw)"
  proof clarify
    fix path node
    assume "(path, node) \<in> set files" and "\<nexists>raw. node = Regular raw"
    with node [of path node] assms(2)
    show "node = Directory \<and> path \<in> {''.'', ''components'', ''components/sha256''}" by simp
  qed
  ultimately show ?thesis using that e by blast
qed

lemma tree_lookup:
  assumes "\<forall>p \<in> set expected. fst p \<notin> {''.'', ''components'', ''components/sha256''}"
  shows "map_of (capsule_tree expected) path = Some (Regular raw) \<longleftrightarrow> map_of expected path = Some raw"
    and "map_of (capsule_tree expected) ''.'' = Some Directory"
proof -
  have m: "map_of (map (\<lambda>(path, raw). (path, Regular raw)) expected) path = map_option Regular (map_of expected path)"
    by (induction expected) auto
  have "map_of expected path = Some raw \<Longrightarrow> path \<notin> {''.'', ''components'', ''components/sha256''}"
    using assms by (force dest: map_of_SomeD)
  then show "map_of (capsule_tree expected) path = Some (Regular raw) \<longleftrightarrow> map_of expected path = Some raw"
    by (auto simp: capsule_tree_def m)
qed (simp add: capsule_tree_def)

lemma tree_inventory:
  assumes "encoded_capsule_files sha r m payloads = Inr expected" and "distinct (map fst payloads)"
  shows "verify_directory_inventory sha (capsule_tree expected) r m payloads = None"
proof -
  have dist: "distinct (map fst expected)"
    and names: "\<forall>p \<in> set expected. fst p \<notin> {''.'', ''components'', ''components/sha256''}"
    by (rule encoded_files [OF assms]; blast)+
  have "inventory_entry (capsule_tree expected) expected x = None" if x: "x \<in> set (capsule_tree expected)" for x
  proof -
    consider path where "x = (path, Directory)" "path \<in> {''.'', ''components'', ''components/sha256''}"
      | path raw where "x = (path, Regular raw)" "(path, raw) \<in> set expected"
      using x unfolding capsule_tree_def by fastforce
    then show ?thesis
    proof cases
      case 2
      then have "map_of expected path = Some raw" using dist by simp
      then show ?thesis using 2 by (simp add: inventory_entry_def read_regular_iff tree_lookup(1) [OF names])
    qed (auto simp: inventory_entry_def)
  qed
  moreover have "files_seen (capsule_tree expected) = map fst expected"
    using dist by (simp add: files_seen_def capsule_tree_def filter_map comp_def case_prod_unfold
        distinct_remdups_id)
  ultimately show ?thesis
    using dist by (simp add: verify_directory_inventory_def assms(1) distinct_remdups_id)
qed

end
