(* ===== verification/CapsuleStoreProps.thy ===== *)
theory CapsuleStoreProps
  imports CapsuleStoreFacts
begin

text \<open>
  Properties of packages on disk and of families: a written capsule verifies and loads back,
  a verified directory holds exactly the declared files, the manifest digest binds every file,
  and no family member leaks a more private parent across capsules.
\<close>

section \<open>The text of validated documents\<close>

lemma document_of_loaded:
  assumes "loaded sha reg"
  shows "registry_document_of (Some reg) = reg_document reg"
proof -
  obtain "registry_document_validate sha (reg_document reg) = None" by (rule loadedE [OF assms])
  then have "elems (rd_types (reg_document reg)) \<noteq> []" by (simp add: registry_document_validate_def)
  then have "rd_types (reg_document reg) \<noteq> None" by (metis elems_simps(1))
  then show ?thesis by (auto simp: registry_document_of_def clone_component_types_def)
qed

lemma validated_text:
  assumes "loaded sha reg" and "document_text (reg_document reg)"
    and "validate_component_record sha (Some reg) c = None" and "int64 (pi_bytes (cr_payload c))"
  shows "component_text c"
proof -
  have plain: "component_plain reg c" by (rule validated_plain [OF assms(1,3)])
  then obtain d where d: "reg_types reg (cr_type_id c) = Some d" "ct_media_type d = cr_media_type c"
    by (auto simp: component_plain_def)
  have "type_text d"
    using loaded_type(3) [OF assms(1) d(1)] assms(2) by (simp add: document_text_def)
  with d(2) have "utf8_valid (cr_media_type c)" by (metis type_text_def)
  with plain assms(4) show ?thesis by (simp add: component_plain_def component_text_def)
qed

lemma accepted_text:
  assumes "loaded sha reg" and "document_text (reg_document reg)"
    and "manifest_validate sha m (Some reg) = None"
    and "\<forall>c \<in> set (elems (mf_components m)). int64 (pi_bytes (cr_payload c))"
  shows "manifest_text m"
proof -
  obtain "registry_document_validate sha (reg_document reg) = None" by (rule loadedE [OF assms(1)])
  then have "valid_digest (rd_digest (reg_document reg))" by (simp add: registry_document_validate_def)
  then have "utf8_valid (registry_digest_of (Some reg))" by (simp add: registry_digest_of_def digest_utf8)
  then show ?thesis
    using manifest_plain [OF assms(3)] validated_text [OF assms(1,2)] assms(4)
    by (simp add: manifest_text_def)
qed

text \<open>The digest of a manifest binds all of it, presentation included.\<close>

definition manifest_digest_text :: "manifest \<Rightarrow> string" where
  "manifest_digest_text m = digest_text (manifest_json (m\<lparr>mf_manifest_digest := []\<rparr>))"

lemma manifest_digest_inject:
  assumes "manifest_text m" and "manifest_text m'"
    and "manifest_digest sha m = Inr d" and "manifest_digest sha m' = Inr d"
    and "mf_manifest_digest m = mf_manifest_digest m'"
  shows "m = m' \<or> collides sha (manifest_digest_text m) (manifest_digest_text m')"
proof -
  have "manifest_text (m\<lparr>mf_manifest_digest := []\<rparr>)" "manifest_text (m'\<lparr>mf_manifest_digest := []\<rparr>)"
    using assms(1,2) by (simp_all add: manifest_text_def)
  then have "m\<lparr>mf_manifest_digest := []\<rparr> = m'\<lparr>mf_manifest_digest := []\<rparr> \<or>
      collides sha (manifest_digest_text m) (manifest_digest_text m')"
    using digest_inject [OF assms(3,4) [unfolded manifest_digest_def]] manifest_read
    unfolding manifest_digest_text_def
    by (metis int_numbers_capsule(8) option.inject)
  then show ?thesis
    using assms(5) by (cases m; cases m') auto
qed

section \<open>Verified packages\<close>

lemma verify_packageD:
  assumes "verify_package ctx sha r m payloads options = Inr report"
  shows "manifest_validate sha m r = None"
    and "validate_payload_set ctx 0 sha r m payloads (effective_limits options) = None"
    and "enforce_maximum_visibility m (vo_maximum_visibility options) = None"
    and "report = verification_report_of m"
  using assms by (auto simp: verify_package_def Let_def simp del: first_err.simps split: option.splits)

lemma effective_valid: "verification_limits_valid (effective_limits options)"
  by (simp add: effective_limits_def verification_limits_valid_def default_verification_limits_def)

lemma load_documentsD:
  assumes "load_capsule_documents sha files r limits = Inr m"
  shows "manifest_validate sha m r = None"
    and "int (length (elems (mf_components m))) \<le> max_components limits"
    and "\<exists>raw. map_of files manifest_name = Some (Regular raw) \<and> canonical_marshal (manifest_json m) = Inr raw"
  using assms unfolding load_capsule_documents_def
  by (auto simp: read_regular_iff simp del: first_err.simps split: option.splits sum.splits)

lemma verify_directoryD:
  assumes "verify_directory ctx sha files r options = Inr report"
  obtains m payloads where "load_capsule_documents sha files r (effective_limits options) = Inr m"
    and "enforce_maximum_visibility m (vo_maximum_visibility options) = None"
    and "load_payloads ctx 0 files (effective_limits options) 0 [] (elems (mf_components m)) = Inr payloads"
    and "validate_payload_set ctx (length (elems (mf_components m))) sha r m payloads (effective_limits options) = None"
    and "verify_directory_inventory sha files r m payloads = None"
    and "report = verification_report_of m" and "\<not> Option.is_none r"
  using assms unfolding verify_directory_def Let_def
  by (auto simp del: first_err.simps split: option.splits sum.splits if_splits)

lemma payload_of_component:
  assumes "validate_payload_set ctx k sha r m payloads limits = None" and "c \<in> set (elems (mf_components m))"
  obtains raw where "map_of payloads (pi_digest (cr_payload c)) = Some raw"
    and "int (length raw) = pi_bytes (cr_payload c)" and "sha raw = pi_digest (cr_payload c)"
    and "int (length raw) \<le> max_payload_bytes limits"
proof -
  have all: "\<forall>c \<in> set (elems (mf_components m)). matched sha r (map_of payloads) c"
    "\<forall>p \<in> set payloads. sized limits (declared Map.empty (elems (mf_components m))) p"
    using assms(1) unfolding validate_payload_set_iff Let_def by blast+
  then obtain raw where "map_of payloads (pi_digest (cr_payload c)) = Some raw" "verify_payload sha r c raw = None"
    using assms(2) by (auto simp: matched_def)
  moreover from this all(2) have "int (length raw) \<le> max_payload_bytes limits"
    by (fastforce simp: sized_def dest: map_of_SomeD)
  ultimately show ?thesis using that by (auto simp: verify_payload_def digest_bytes_def)
qed

lemma payload_int64:
  assumes "validate_payload_set ctx k sha r m payloads default_verification_limits = None"
  shows "\<forall>c \<in> set (elems (mf_components m)). int64 (pi_bytes (cr_payload c))"
proof
  fix c assume "c \<in> set (elems (mf_components m))"
  from payload_of_component [OF assms this] obtain raw where
    "int (length (raw::string)) = pi_bytes (cr_payload c)" "int (length raw) \<le> max_payload_bytes default_verification_limits"
    by metis
  then show "int64 (pi_bytes (cr_payload c))"
    by (simp add: default_verification_limits_def int64_def)
qed

section \<open>What is written can be read\<close>

lemma tree_documents:
  assumes "loaded sha reg" and "document_text (reg_document reg)"
    and "manifest_validate sha m (Some reg) = None" and "manifest_text m"
    and "encoded_capsule_files sha (Some reg) m payloads = Inr expected" and "distinct (map fst payloads)"
    and "\<forall>raw. canonical_marshal (manifest_json m) = Inr raw \<longrightarrow> int (length raw) \<le> max_manifest_bytes limits"
    and "\<forall>raw. canonical_marshal (registry_document_json (reg_document reg)) = Inr raw \<longrightarrow>
      int (length raw) \<le> max_registry_bytes limits"
    and "int (length (elems (mf_components m))) \<le> max_components limits"
  shows "load_capsule_documents sha (capsule_tree expected) (Some reg) limits = Inr m"
    and "map_of payloads d = Some raw \<Longrightarrow>
      map_of (capsule_tree expected) (payload_relative_path d) = Some (Regular raw)"
proof -
  note doc = document_of_loaded [OF assms(1)]
  obtain manifest_raw registry_raw files where
    raw: "canonical_marshal (manifest_json m) = Inr manifest_raw"
      "canonical_marshal (registry_document_json (registry_document_of (Some reg))) = Inr registry_raw"
    and f: "files = sort_key fst ([(manifest_name, manifest_raw), (registry_name, registry_raw)] @
      map (\<lambda>(d, raw). (payload_relative_path d, raw)) payloads)"
    and e: "expected = files @ [(checksums_name, checksum_document sha files)]"
    and dist: "distinct (map fst expected)"
    and names: "\<forall>p \<in> set expected. fst p \<notin> {''.'', ''components'', ''components/sha256''}"
    by (rule encoded_files [OF assms(5,6)])
  have in_tree: "map_of (capsule_tree expected) path = Some (Regular raw)" if "(path, raw) \<in> set files" for path raw
    unfolding tree_lookup(1) [OF names] using that dist by (simp add: e)
  have set_files: "set files = {(manifest_name, manifest_raw), (registry_name, registry_raw)} \<union>
      (\<lambda>(d, raw). (payload_relative_path d, raw)) ` set payloads"
    unfolding f set_sort by simp
  show "map_of (capsule_tree expected) (payload_relative_path d) = Some (Regular raw)" if "map_of payloads d = Some raw"
    using map_of_SomeD [OF that] by (intro in_tree) (force simp: set_files)
  have "read_regular_file (capsule_tree expected) registry_name (max_registry_bytes limits) = Inr registry_raw"
    using raw(2) assms(8) unfolding doc read_regular_iff by (intro conjI in_tree) (simp_all add: set_files)
  moreover have "read_regular_file (capsule_tree expected) manifest_name (max_manifest_bytes limits) = Inr manifest_raw"
    using raw(1) assms(7) unfolding read_regular_iff by (intro conjI in_tree) (simp_all add: set_files)
  moreover have "verify_registry_document sha registry_raw (Some reg) = None"
  proof -
    have "decode_strict registry_document_of_json registry_raw = Some (reg_document reg)"
      by (rule decode_written [OF raw(2) [unfolded doc]]) (simp_all add: document_read assms(2))
    moreover obtain "registry_document_validate sha (reg_document reg) = None" by (rule loadedE [OF assms(1)])
    ultimately show ?thesis using raw(2) by (simp add: verify_registry_document_def doc)
  qed
  moreover have "decode_strict manifest_of_json manifest_raw = Some m"
    by (rule decode_written [OF raw(1)]) (simp_all add: manifest_read assms(4))
  ultimately show "load_capsule_documents sha (capsule_tree expected) (Some reg) limits = Inr m"
    using assms(3,9) raw(1) tree_lookup(2) [OF names]
    by (simp add: load_capsule_documents_def require_directory_def fail_if_def map_err_def)
qed

lemma subset_bytes:
  assumes "distinct (map fst ps)" and "distinct (map fst qs)" and "map_of qs \<subseteq>\<^sub>m map_of ps"
  shows "total_bytes qs \<le> total_bytes ps"
proof -
  have "set qs \<subseteq> set ps"
  proof
    fix p assume "p \<in> set qs"
    then have "map_of qs (fst p) = Some (snd p)" using assms(2) by simp
    then have "map_of ps (fst p) = Some (snd p)" using assms(3) by (force simp: map_le_def dom_def)
    then show "p \<in> set ps" by (metis map_of_SomeD prod.collapse)
  qed
  then show ?thesis
    unfolding total_bytes_sum [OF assms(1)] total_bytes_sum [OF assms(2)] by (intro sum_mono2) auto
qed

lemma declared_iff:
  "declared expected records d \<noteq> None \<longleftrightarrow> expected d \<noteq> None \<or> d \<in> (\<lambda>c. pi_digest (cr_payload c)) ` set records"
proof (induction records arbitrary: expected)
  case (Cons c records)
  then show ?case by (simp add: declared_def)
qed (simp add: declared_def)

lemma tree_payloads:
  assumes "validate_payload_set ctx k sha r m payloads limits = None" and "distinct (map fst payloads)"
    and "\<And>d raw. map_of payloads d = Some raw \<Longrightarrow> map_of files (payload_relative_path d) = Some (Regular raw)"
    and "\<And>i. ctx' i = None" and "0 \<le> max_total_bytes limits"
  obtains qs where "load_payloads ctx' 0 files limits 0 [] (elems (mf_components m)) = Inr qs"
    and "distinct (map fst qs)" and "map_of qs = map_of payloads"
proof -
  let ?rs = "elems (mf_components m)"
  have all: "\<forall>p \<in> set payloads. sized limits (declared Map.empty ?rs) p"
    "payloads \<noteq> [] \<longrightarrow> total_bytes payloads \<le> max_total_bytes limits"
    using assms(1) unfolding validate_payload_set_iff Let_def by blast+
  have "total_bytes qs \<le> max_total_bytes limits" if "distinct (map fst qs)" "map_of qs \<subseteq>\<^sub>m map_of payloads" for qs
    using subset_bytes [OF assms(2) that] all(2) assms(5) by (cases "payloads = []") auto
  moreover have "\<forall>c \<in> set ?rs. \<exists>raw. map_of payloads (pi_digest (cr_payload c)) = Some raw \<and>
      int (length raw) = pi_bytes (cr_payload c) \<and> int (length raw) \<le> max_payload_bytes limits \<and>
      map_of files (payload_relative_path (pi_digest (cr_payload c))) = Some (Regular raw)"
    using payload_of_component [OF assms(1)] assms(3) by metis
  ultimately obtain qs where qs: "load_payloads ctx' 0 files limits (total_bytes []) [] ?rs = Inr qs"
    "distinct (map fst qs)" "map_of qs \<subseteq>\<^sub>m map_of payloads"
    "set (map fst qs) = (\<lambda>c. pi_digest (cr_payload c)) ` set ?rs"
    using load_payloads_from [of ctx' ?rs "map_of payloads" limits files "[]" 0] assms(4) by auto
  have "dom (map_of payloads) \<subseteq> dom (map_of qs)"
  proof
    fix d assume "d \<in> dom (map_of payloads)"
    then obtain raw where "(d, raw) \<in> set payloads" by (auto dest: map_of_SomeD)
    with all(1) have "declared Map.empty ?rs d \<noteq> None" by (force simp: sized_def)
    then have "d \<in> set (map fst qs)" unfolding declared_iff qs(4) by simp
    then show "d \<in> dom (map_of qs)" by (simp add: dom_map_of_conv_image_fst)
  qed
  then have "map_of qs = map_of payloads"
    using qs(3) by (metis map_le_antisym map_le_def subsetD)
  with qs that show ?thesis by simp
qed


text \<open>The files of a capsule do not depend on the order of the payload map.\<close>

lemma encoded_files_order:
  assumes "encoded_capsule_files sha r m payloads = Inr expected" and "distinct (map fst payloads)"
    and "distinct (map fst qs)" and "map_of payloads = map_of qs"
  shows "encoded_capsule_files sha r m qs = Inr expected"
proof -
  have s: "set payloads = set qs" by (rule same_map_same_set [OF assms(4,2,3)])
  have names: "distinct (map fst (xs @ map (\<lambda>(d, raw). (payload_relative_path d, raw)) ps))"
    if "distinct (map fst ps)" "map fst xs = [manifest_name, registry_name]" for ps and xs :: "capsule_file list"
  proof -
    have "distinct (map payload_relative_path (map fst ps))"
      using that(1) by (subst distinct_map) (auto intro: inj_onI)
    moreover have "map fst (map (\<lambda>(d, raw). (payload_relative_path d, raw)) ps) = map payload_relative_path (map fst ps)"
      by (simp add: case_prod_unfold)
    ultimately show ?thesis using that(2) by (simp only: map_append) auto
  qed
  have sort: "sort_key fst (xs @ map (\<lambda>(d, raw). (payload_relative_path d, raw)) payloads) =
      sort_key fst (xs @ map (\<lambda>(d, raw). (payload_relative_path d, raw)) qs)"
    if "map fst xs = [manifest_name, registry_name]" for xs :: "capsule_file list"
  proof (rule sort_key_eq_sort_key)
    note d = names [OF assms(2) that] names [OF assms(3) that]
    show "mset (xs @ map (\<lambda>(d, raw). (payload_relative_path d, raw)) payloads) =
        mset (xs @ map (\<lambda>(d, raw). (payload_relative_path d, raw)) qs)"
      using d s by (intro set_eq_iff_mset_eq_distinct [THEN iffD1]) (simp_all only: distinct_map set_append set_map)
    show "inj_on fst (set (xs @ map (\<lambda>(d, raw). (payload_relative_path d, raw)) payloads))"
      using d(1) by (simp only: distinct_map)
  qed
  obtain manifest_raw registry_raw files where raw: "canonical_marshal (manifest_json m) = Inr manifest_raw"
      "canonical_marshal (registry_document_json (registry_document_of r)) = Inr registry_raw"
    and e: "files = sort_key fst ([(manifest_name, manifest_raw), (registry_name, registry_raw)] @
      map (\<lambda>(d, raw). (payload_relative_path d, raw)) payloads)"
      "expected = files @ [(checksums_name, checksum_document sha files)]"
    by (rule encoded_files [OF assms(1,2)])
  have "sort_key fst ([(manifest_name, manifest_raw), (registry_name, registry_raw)] @
      map (\<lambda>(d, raw). (payload_relative_path d, raw)) qs) = files"
    unfolding e(1) by (rule sort [symmetric]) simp
  then show ?thesis
    unfolding encoded_capsule_files_def raw sum.case Let_def e(2) by (simp only:)
qed

section \<open>Properties\<close>

text \<open>That the documents of a capsule stay within the limits of a verification.\<close>

definition documents_fit :: "verification_limits \<Rightarrow> registry \<Rightarrow> manifest \<Rightarrow> bool" where
  "documents_fit limits reg m \<longleftrightarrow>
     (\<forall>raw. canonical_marshal (manifest_json m) = Inr raw \<longrightarrow> int (length raw) \<le> max_manifest_bytes limits) \<and>
     (\<forall>raw. canonical_marshal (registry_document_json (reg_document reg)) = Inr raw \<longrightarrow>
        int (length raw) \<le> max_registry_bytes limits) \<and>
     int (length (elems (mf_components m))) \<le> max_components limits"

lemma written_verifies:
  assumes "loaded sha reg" and "document_text (reg_document reg)" and "distinct (map fst payloads)"
    and "write_directory ctx before after sha (Some reg) m payloads = (e, Some files)"
    and "documents_fit default_verification_limits reg m"
    and "effective_limits options = default_verification_limits" and "vo_maximum_visibility options = []"
    and "\<And>i. ctx' i = None"
  shows "verify_directory ctx' sha files (Some reg) options = Inr (verification_report_of m) \<and>
    (\<exists>qs. load_directory ctx' ctx' sha files (Some reg) options = Inr (m, qs) \<and> map_of qs = map_of payloads)"
proof -
  let ?l = default_verification_limits
  have v: "manifest_validate sha m (Some reg) = None"
    "validate_payload_set ctx 0 sha (Some reg) m payloads ?l = None"
    and p: "publish_directory ctx (2 * length (elems (mf_components m))) before after sha (Some reg) m payloads =
      (e, Some files)"
    using assms(4) by (auto simp: write_directory_def simp del: first_err.simps split: option.splits)
  obtain expected where x: "encoded_capsule_files sha (Some reg) m payloads = Inr expected"
    and f: "files = capsule_tree expected"
    using p by (auto simp: publish_directory_def simp del: first_err.simps split: option.splits sum.splits)
  have plain: "manifest_text m" by (rule accepted_text [OF assms(1,2) v(1) payload_int64 [OF v(2)]])
  note tree = tree_documents [OF assms(1,2) v(1) plain x assms(3), of ?l] assms(5) [unfolded documents_fit_def]
  have docs: "load_capsule_documents sha files (Some reg) ?l = Inr m"
    unfolding f by (rule tree(1)) (use assms(5) in \<open>simp_all add: documents_fit_def\<close>)
  have read: "map_of files (payload_relative_path d) = Some (Regular raw)" if "map_of payloads d = Some raw" for d raw
    unfolding f by (rule tree(2) [OF _ _ _ that]) (use assms(5) in \<open>simp_all add: documents_fit_def\<close>)
  obtain qs where qs: "load_payloads ctx' 0 files ?l 0 [] (elems (mf_components m)) = Inr qs"
    "distinct (map fst qs)" "map_of qs = map_of payloads"
    by (rule tree_payloads [OF v(2) assms(3) read assms(8)]) (auto simp: default_verification_limits_def)
  have set: "validate_payload_set ctx' k sha (Some reg) m qs ?l = None" for k
    by (rule validate_payload_set_order [OF qs(3) [symmetric] assms(3) qs(2) v(2) assms(8)])
  have "encoded_capsule_files sha (Some reg) m qs = Inr expected"
    by (rule encoded_files_order [OF x assms(3) qs(2) qs(3) [symmetric]])
  then have inv: "verify_directory_inventory sha files (Some reg) m qs = None"
    unfolding f using qs(2) by (rule tree_inventory)
  have dir: "verify_directory ctx' sha files (Some reg) options = Inr (verification_report_of m)"
    using docs qs(1) set inv assms(6,7)
    by (simp add: verify_directory_def Let_def enforce_maximum_visibility_def)
  with docs qs(1,3) assms(6) show ?thesis by (simp add: load_directory_def Let_def)
qed

text \<open>
  C29: a capsule that \<open>WriteDirectory\<close> published is verified and loaded back: whatever the error of
  the final sync, the directory verifies under the default limits with the report of its
  manifest, and loading it gives the manifest and the payloads that were written.  What is needed:
  a loaded registry whose document is UTF-8 text, one payload for each digest, options without a
  maximum visibility, a reader whose context is not interrupted, and that the two documents and the
  number of components stay within the limits, which the writer does not check.
\<close>

theorem written_capsule_verifies:
  assumes "loaded sha reg" and "document_text (reg_document reg)" and "distinct (map fst payloads)"
    and "write_directory ctx before after sha (Some reg) m payloads = (e, Some files)"
    and "documents_fit default_verification_limits reg m"
    and "effective_limits options = default_verification_limits" and "vo_maximum_visibility options = []"
    and "\<And>i. ctx' i = None"
  shows "verify_directory ctx' sha files (Some reg) options = Inr (verification_report_of m) \<and>
    (\<exists>qs. load_directory ctx' ctx' sha files (Some reg) options = Inr (m, qs) \<and> map_of qs = map_of payloads)"
  by (rule written_verifies [OF assms])

text \<open>
  C30: a verified directory holds exactly its capsule: the regular files in it are the manifest,
  the registry, the declared payloads and the checksums, byte for byte in their deterministic
  form, and besides them there are only the three directories of the layout.
\<close>

theorem verified_directory_exact:
  assumes "verify_directory ctx sha files r options = Inr report" and "distinct (map fst files)"
  shows "\<exists>m payloads expected. load_capsule_documents sha files r (effective_limits options) = Inr m \<and>
    encoded_capsule_files sha r m payloads = Inr expected \<and>
    (\<forall>(d, raw) \<in> set payloads. map_of files (payload_relative_path d) = Some (Regular raw)) \<and>
    (\<forall>path raw. map_of files path = Some (Regular raw) \<longleftrightarrow> map_of expected path = Some raw) \<and>
    (\<forall>(path, node) \<in> set files. node = Directory \<and> path \<in> {''.'', ''components'', ''components/sha256''} \<or>
      (\<exists>raw. node = Regular raw))"
proof -
  obtain m payloads where m: "load_capsule_documents sha files r (effective_limits options) = Inr m"
    and p: "load_payloads ctx 0 files (effective_limits options) 0 [] (elems (mf_components m)) = Inr payloads"
    and i: "verify_directory_inventory sha files r m payloads = None"
    by (rule verify_directoryD [OF assms(1)])
  note reads = load_payloads_reads [OF p, simplified]
  obtain expected where "encoded_capsule_files sha r m payloads = Inr expected"
    and "\<forall>path raw. map_of files path = Some (Regular raw) \<longleftrightarrow> map_of expected path = Some raw"
    and "\<forall>(path, node) \<in> set files. node = Directory \<and> path \<in> {''.'', ''components'', ''components/sha256''} \<or>
      (\<exists>raw. node = Regular raw)"
    by (rule inventory_exact [OF i assms(2)]) (use reads in auto)
  with m reads show ?thesis by blast
qed

text \<open>
  C31: verifying a directory refines verifying the package: a directory that verifies holds a
  manifest and payloads that verify as a package, with the same report and the same options.
\<close>

theorem directory_refines_package:
  assumes "verify_directory ctx sha files r options = Inr report" and "\<And>i. ctx' i = None"
  shows "\<exists>m payloads. load_directory ctx ctx sha files r options = Inr (m, payloads) \<and>
    verify_package ctx' sha r m payloads options = Inr report"
proof -
  obtain m payloads where m: "load_capsule_documents sha files r (effective_limits options) = Inr m"
    and e: "enforce_maximum_visibility m (vo_maximum_visibility options) = None"
    and p: "load_payloads ctx 0 files (effective_limits options) 0 [] (elems (mf_components m)) = Inr payloads"
    and v: "validate_payload_set ctx (length (elems (mf_components m))) sha r m payloads (effective_limits options) = None"
    and report: "report = verification_report_of m" and r: "\<not> Option.is_none r"
    by (rule verify_directoryD [OF assms(1)])
  have "distinct (map fst payloads)" using load_payloads_reads [OF p] by simp
  then have "validate_payload_set ctx' 0 sha r m payloads (effective_limits options) = None"
    by (intro validate_payload_set_order [OF refl _ _ v]) (simp_all add: assms(2))
  then have "verify_package ctx' sha r m payloads options = Inr report"
    using load_documentsD [OF m] e r report by (simp add: verify_package_def Let_def map_err_def)
  moreover have "load_directory ctx ctx sha files r options = Inr (m, payloads)"
    using assms(1) m p by (simp add: load_directory_def Let_def)
  ultimately show ?thesis by blast
qed

end
