(* ===== verification/CapsuleFamilyProps.thy ===== *)
theory CapsuleFamilyProps
  imports CapsuleStoreProps
begin

text \<open>
  What a manifest digest binds on disk, what a verification report counts, and what verifying a
  family adds: references across capsules resolve, and privacy is kept across them.
\<close>

section \<open>The manifest digest binds the files\<close>

lemma marshal_bounds:
  assumes "canonical_marshal (manifest_json m) = Inr raw" and "c \<in> set (elems (mf_components m))"
  shows "int64 (pi_bytes (cr_payload c))"
proof -
  have "check_value (coerce (manifest_json m)) 0 = None"
    using assms(1) by (auto simp: canonical_marshal_def split: option.splits)
  then have "\<forall>x \<in> set (elems (mf_components m)). check_value (coerce (component_record_json x)) 2 = None"
    by (cases "mf_components m")
      (auto simp: manifest_json_def json_slice_def check_members_None numeral_2_eq_2)
  then have "check_value (coerce (component_record_json c)) 2 = None" using assms(2) by blast
  then have "validate_canonical_integer (int_text (pi_bytes (cr_payload c))) = None"
    by (auto simp: component_record_json_def payload_identity_json_def json_int_def check_members_None)
  then have "\<bar>pi_bytes (cr_payload c)\<bar> \<le> 9007199254740991"
    by (simp add: validate_int_text maximum_safe_json_integer_def)
  then show ?thesis by (simp add: int64_def abs_le_iff)
qed

lemma loaded_payload_keys:
  assumes "load_payloads ctx k files limits used [] (elems (mf_components m)) = Inr payloads"
    and "validate_payload_set ctx' k' sha r m payloads limits' = None"
  shows "set (map fst payloads) = (\<lambda>c. pi_digest (cr_payload c)) ` set (elems (mf_components m))"
proof -
  have "\<forall>p \<in> set payloads. sized limits' (declared Map.empty (elems (mf_components m))) p"
    using assms(2) unfolding validate_payload_set_iff Let_def by blast
  then have "declared Map.empty (elems (mf_components m)) d \<noteq> None" if "d \<in> set (map fst payloads)" for d
    using that by (force simp: sized_def)
  then have "set (map fst payloads) \<subseteq> (\<lambda>c. pi_digest (cr_payload c)) ` set (elems (mf_components m))"
    unfolding declared_iff by auto
  moreover have "pi_digest (cr_payload c) \<in> set (map fst payloads)" if c: "c \<in> set (elems (mf_components m))" for c
  proof -
    obtain raw where "map_of payloads (pi_digest (cr_payload c)) = Some raw"
      by (rule payload_of_component [OF assms(2) c])
    then show ?thesis by (force dest: map_of_SomeD)
  qed
  ultimately show ?thesis by auto
qed

text \<open>Two directories hold, at one path, different files with one hash.\<close>

definition files_collide :: "(string \<Rightarrow> string) \<Rightarrow> disk \<Rightarrow> disk \<Rightarrow> bool" where
  "files_collide sha files files' \<longleftrightarrow> (\<exists>path raw raw'. map_of files path = Some (Regular raw) \<and>
     map_of files' path = Some (Regular raw') \<and> collides sha raw raw')"

lemma same_payloads:
  assumes ps: "load_payloads ctx k files limits used [] (elems (mf_components m)) = Inr ps"
    and v: "validate_payload_set ctx1 k1 sha r m ps limits1 = None"
    and qs: "load_payloads ctx' k' files' limits' used' [] (elems (mf_components m)) = Inr qs"
    and w: "validate_payload_set ctx2 k2 sha r m qs limits2 = None"
  shows "map_of ps = map_of qs \<or> files_collide sha files files'"
proof (rule disjCI)
  assume apart: "\<not> files_collide sha files files'"
  show "map_of ps = map_of qs"
  proof
    fix d
    note keys = loaded_payload_keys [OF ps v] loaded_payload_keys [OF qs w]
    show "map_of ps d = map_of qs d"
    proof (cases "d \<in> (\<lambda>c. pi_digest (cr_payload c)) ` set (elems (mf_components m))")
      case True
      then obtain c where c: "c \<in> set (elems (mf_components m))" "d = pi_digest (cr_payload c)" by blast
      obtain raw where p: "map_of ps d = Some raw" "sha raw = d"
        using payload_of_component [OF v c(1)] c(2) by metis
      obtain raw' where q: "map_of qs d = Some raw'" "sha raw' = d"
        using payload_of_component [OF w c(1)] c(2) by metis
      have "map_of files (payload_relative_path d) = Some (Regular raw)"
        "map_of files' (payload_relative_path d) = Some (Regular raw')"
        using load_payloads_reads [OF ps] load_payloads_reads [OF qs] map_of_SomeD [OF p(1)] map_of_SomeD [OF q(1)]
        by force+
      then have "raw = raw'" using apart p(2) q(2) unfolding files_collide_def collides_def by metis
      with p(1) q(1) show ?thesis by simp
    next
      case False
      then have "map_of ps d = None" "map_of qs d = None"
        unfolding map_of_eq_None_iff using keys by (simp_all flip: set_map)
      then show ?thesis by simp
    qed
  qed
qed

text \<open>The manifests that two directories load are different texts with one digest.\<close>

definition manifests_collide :: "(string \<Rightarrow> string) \<Rightarrow> disk \<Rightarrow> disk \<Rightarrow> registry \<Rightarrow> bool" where
  "manifests_collide sha files files' reg \<longleftrightarrow> (\<exists>limits limits' m m'.
     load_capsule_documents sha files (Some reg) limits = Inr m \<and>
     load_capsule_documents sha files' (Some reg) limits' = Inr m' \<and>
     collides sha (manifest_digest_text m) (manifest_digest_text m'))"

text \<open>
  C32: the manifest digest binds every byte: two directories that verify against one loaded
  registry and report one manifest digest hold the same files with the same contents, unless a
  collision of the hash is on the disks: the texts of the two manifests that the digest was
  computed from, or the contents of one payload path in both.
\<close>

theorem manifest_digest_binds_files:
  assumes "loaded sha reg" and "document_text (reg_document reg)"
    and "verify_directory ctx sha files (Some reg) options = Inr report" and "distinct (map fst files)"
    and "verify_directory ctx' sha files' (Some reg) options' = Inr report'" and "distinct (map fst files')"
    and "vr_manifest_digest report = vr_manifest_digest report'"
  shows "(\<forall>path raw. map_of files path = Some (Regular raw) \<longleftrightarrow> map_of files' path = Some (Regular raw)) \<or>
    manifests_collide sha files files' reg \<or> files_collide sha files files'"
proof (cases "manifests_collide sha files files' reg \<or> files_collide sha files files'")
  case False
  obtain m ps where m: "load_capsule_documents sha files (Some reg) (effective_limits options) = Inr m"
    and p: "load_payloads ctx 0 files (effective_limits options) 0 [] (elems (mf_components m)) = Inr ps"
    and v: "validate_payload_set ctx (length (elems (mf_components m))) sha (Some reg) m ps (effective_limits options) = None"
    and i: "verify_directory_inventory sha files (Some reg) m ps = None" and r: "report = verification_report_of m"
    by (rule verify_directoryD [OF assms(3)])
  obtain m' qs where m': "load_capsule_documents sha files' (Some reg) (effective_limits options') = Inr m'"
    and q: "load_payloads ctx' 0 files' (effective_limits options') 0 [] (elems (mf_components m')) = Inr qs"
    and w: "validate_payload_set ctx' (length (elems (mf_components m'))) sha (Some reg) m' qs (effective_limits options') = None"
    and j: "verify_directory_inventory sha files' (Some reg) m' qs = None" and r': "report' = verification_report_of m'"
    by (rule verify_directoryD [OF assms(5)])
  note docs = load_documentsD [OF m] load_documentsD [OF m']
  have plain: "manifest_text m" "manifest_text m'"
    using docs(1,4) docs(3,6) marshal_bounds by (auto intro!: accepted_text [OF assms(1,2)])
  have "mf_manifest_digest m = mf_manifest_digest m'"
    using assms(7) by (simp add: r r' verification_report_of_def Let_def)
  moreover have "manifest_digest sha m = Inr (mf_manifest_digest m)" "manifest_digest sha m' = Inr (mf_manifest_digest m')"
    using docs(1,4) by (simp_all add: manifest_validate_def)
  ultimately have same: "m = m'"
    using manifest_digest_inject [OF plain] False m m' unfolding manifests_collide_def by metis
  have dist: "distinct (map fst ps)" "distinct (map fst qs)"
    using load_payloads_reads [OF p] load_payloads_reads [OF q] by simp_all
  have "map_of ps = map_of qs" 
    using same_payloads [OF p v q [folded same] w [folded same]] False by blast
  moreover obtain expected where e: "encoded_capsule_files sha (Some reg) m ps = Inr expected"
    and x: "\<forall>path raw. map_of files path = Some (Regular raw) \<longleftrightarrow> map_of expected path = Some raw"
    by (rule inventory_exact [OF i assms(4) dist(1)])
  ultimately have "encoded_capsule_files sha (Some reg) m qs = Inr expected"
    using encoded_files_order dist by metis
  moreover obtain expected' where "encoded_capsule_files sha (Some reg) m qs = Inr expected'"
    and "\<forall>path raw. map_of files' path = Some (Regular raw) \<longleftrightarrow> map_of expected' path = Some raw"
    by (rule inventory_exact [OF j [folded same] assms(6) dist(2)])
  ultimately show ?thesis using x by simp
qed blast

section \<open>Reports\<close>

lemma count_visibility_from:
  assumes "distinct (map fst counts)" and "\<forall>n \<in> snd ` set counts. 0 < n"
  shows "distinct (map fst (foldl count_visibility counts records)) \<and>
    map_of (foldl count_visibility counts records) v =
      (let n = int (length (filter (\<lambda>c. cr_visibility c = v) records)) + (case map_of counts v of None \<Rightarrow> 0 | Some k \<Rightarrow> k)
       in if n = 0 then None else Some n)"
  using assms
proof (induction records arbitrary: counts)
  case Nil
  then show ?case by (force simp: Let_def split: option.splits dest: map_of_SomeD)
next
  case (Cons c records)
  let ?counts = "count_visibility counts c"
  have m: "map_of ?counts x = (if x = cr_visibility c then
      Some (case map_of counts x of None \<Rightarrow> 1 | Some k \<Rightarrow> k + 1) else map_of counts x)" for x
    unfolding count_visibility_def by (induction counts) (auto split: option.splits)
  have d: "distinct (map fst ?counts)"
    using Cons.prems(1) unfolding count_visibility_def by (rule distinct_map_default)
  have "0 < n" if n: "n \<in> snd ` set ?counts" for n
  proof -
    obtain x where "(x, n) \<in> set ?counts" using n by auto
    then have "map_of ?counts x = Some n" using d by simp
    then show ?thesis using m Cons.prems by (force split: if_splits option.splits dest: map_of_SomeD)
  qed
  with Cons.IH [OF d] show ?case using Cons.prems(2)
    by (force simp: m Let_def split: option.splits dest: map_of_SomeD)
qed

text \<open>
  A verification report counts what is there: for every visibility the number of components
  that have it, with no entry for a visibility that no component has, and every component either as
  scientific or as presentation.
\<close>

lemma report_counts_exact:
  "map_of (vr_visibility_counts (verification_report_of m)) v =
      (let n = int (length (filter (\<lambda>c. cr_visibility c = v) (elems (mf_components m)))) in if n = 0 then None else Some n) \<and>
   vr_scientific_components (verification_report_of m) + vr_presentation_components (verification_report_of m) =
      vr_components (verification_report_of m)"
proof -
  have "length (filter (\<lambda>c. cr_role c \<noteq> RolePresentation) cs) + length (filter (\<lambda>c. cr_role c = RolePresentation) cs) =
      length cs" for cs
    by (induction cs) auto
  then show ?thesis
    using count_visibility_from [of "[]" "elems (mf_components m)" v]
    by (simp add: verification_report_of_def Let_def flip: of_nat_add)
qed

section \<open>Families\<close>

lemma family_parents_known:
  assumes "family_parents ctx sha index known parents = Inr known'"
    and "\<forall>(i, p) \<in> set known. P i p"
    and "\<And>k p. p \<in> set parents \<Longrightarrow> verify_package (ctx k) sha (pk_registry p) (pk_manifest p) (pk_payloads p)
      \<lparr> vo_maximum_visibility = [], vo_limits = \<lparr> max_components = 0, max_manifest_bytes = 0,
        max_registry_bytes = 0, max_payload_bytes = 0, max_total_bytes = 0 \<rparr> \<rparr> \<in> range Inr \<Longrightarrow>
      P (mf_capsule_id (pk_manifest p)) p"
  shows "\<forall>(i, p) \<in> set known'. P i p"
  using assms
proof (induction parents arbitrary: index known)
  case (Cons p parents)
  from Cons.prems(1) have v: "verify_package (ctx index) sha (pk_registry p) (pk_manifest p) (pk_payloads p)
      \<lparr> vo_maximum_visibility = [], vo_limits = \<lparr> max_components = 0, max_manifest_bytes = 0,
        max_registry_bytes = 0, max_payload_bytes = 0, max_total_bytes = 0 \<rparr> \<rparr> \<in> range Inr"
    and rest: "family_parents ctx sha (index + 1) ((mf_capsule_id (pk_manifest p), p) # known) parents = Inr known'"
    by (auto split: if_splits sum.splits)
  have "P (mf_capsule_id (pk_manifest p)) p" using Cons.prems(3) [OF _ v] by simp
  with Cons.prems(2,3) show ?case by (intro Cons.IH [OF rest]) auto
qed auto

lemma package_component_find:
  "package_component_by_id cs i = Some d \<Longrightarrow> d \<in> set cs \<and> cr_component_id d = i"
  by (induction cs) (auto split: if_splits)

text \<open>
  C33: privacy holds across a family: where a component of a verified child refers to a parent in
  another capsule without redacting or committing to it, that capsule is one of the given
  parents, it is itself valid, the component exists there with the declared type and role,
  and neither it nor anything it discloses further up is more private than the component of the
  child that refers to it.
\<close>

theorem family_discloses_no_private_parent:
  assumes "verify_package_family ctx parent_ctx sha child parents options = Inr report"
    and "c \<in> set (elems (mf_components (pk_manifest child)))" and "p \<in> set (elems (cr_parents c))"
    and "ref_resolution p \<noteq> ParentInternal" and "ref_capsule_id p \<noteq> []"
    and "\<not> privacy_projection (ref_kind p)"
  shows "\<exists>parent \<in> set parents. mf_capsule_id (pk_manifest parent) = ref_capsule_id p \<and>
    manifest_validate sha (pk_manifest parent) (pk_registry parent) = None \<and>
    (\<exists>d \<in> set (elems (mf_components (pk_manifest parent))). cr_component_id d = ref_component_id p \<and>
      cr_type_id d = ref_type_id p \<and> cr_role d = ref_role p \<and>
      (\<forall>a \<in> set (elems (mf_components (pk_manifest parent))).
        (cr_component_id d, cr_component_id a) \<in> (disclosing (pk_manifest parent))\<^sup>* \<longrightarrow>
        visibility_rank (cr_visibility a) \<le> visibility_rank (cr_visibility c)))"
proof -
  obtain rep known where child: "verify_package ctx sha (pk_registry child) (pk_manifest child) (pk_payloads child) options = Inr rep"
    and known: "family_parents parent_ctx sha 0 [] parents = Inr known"
    and resolved: "\<forall>component \<in> set (elems (mf_components (pk_manifest child))).
      \<forall>reference \<in> set (elems (cr_parents component)). resolve_external known component reference = None"
    using assms(1) unfolding verify_package_family_def
    by (auto simp: Let_def simp del: first_err.simps split: if_splits sum.splits option.splits)
  have "\<forall>(i, q) \<in> set known. i = mf_capsule_id (pk_manifest q) \<and> q \<in> set parents \<and>
      manifest_validate sha (pk_manifest q) (pk_registry q) = None"
    by (rule family_parents_known [OF known]) (auto dest: verify_packageD(1))
  then have table: "mf_capsule_id (pk_manifest q) = i \<and> q \<in> set parents \<and>
      manifest_validate sha (pk_manifest q) (pk_registry q) = None" if "map_of known i = Some q" for i q
    using map_of_SomeD [OF that] by auto
  obtain parent d where q: "map_of known (ref_capsule_id p) = Some parent"
    and d: "package_component_by_id (elems (mf_components (pk_manifest parent))) (ref_component_id p) = Some d"
      "cr_type_id d = ref_type_id p" "cr_role d = ref_role p" "cr_visibility d = ref_visibility p"
    using resolved assms(2-5)
    by (fastforce simp: resolve_external_def Let_def split: option.splits)
  note found = package_component_find [OF d(1)]
  obtain components where "validate_component_set sha (pk_registry child) (elems (mf_components (pk_manifest child))) = Inr components"
    and "validate_graph (pk_registry child) (pk_manifest child) components = None"
    by (rule manifest_validE [OF verify_packageD(1) [OF child]])
  then have "validate_parent (pk_registry child) (map cap_capsule_id (elems (mf_parent_capsules (pk_manifest child))))
      components c p = None"
    using assms(2,3) by (auto simp: validate_graph_def Let_def)
  then have "validate_edge c (empty_record\<lparr>cr_component_id := ref_component_id p, cr_type_id := ref_type_id p,
      cr_role := ref_role p, cr_visibility := ref_visibility p\<rparr>) p = None"
    using assms(4) by (auto simp: validate_parent_def resolve_parent_def split: if_splits)
  from edge_in_order(2) [OF this assms(6)]
  have "visibility_rank (ref_visibility p) \<le> visibility_rank (cr_visibility c)" by simp
  moreover have "visibility_rank (cr_visibility a) \<le> visibility_rank (cr_visibility d)"
    if "a \<in> set (elems (mf_components (pk_manifest parent)))"
      "(cr_component_id d, cr_component_id a) \<in> (disclosing (pk_manifest parent))\<^sup>*" for a
    using disclosing_order [OF _ that(2) _ refl that(1) refl] table [OF q] found by blast
  ultimately show ?thesis
    using table [OF q] found d by (intro bexI [of _ parent] conjI bexI [of _ d]) force+
qed

section \<open>A written sample\<close>

text \<open>A bound on the length of canonical text that is easy to evaluate.\<close>

primrec weight :: "json \<Rightarrow> nat" where
  "weight JNull = 4"
| "weight (JBool b) = 5"
| "weight (JNum literal) = length literal"
| "weight (JStr s) = 6 * length s + 2"
| "weight (JArr items) = 2 + sum_list (map (\<lambda>w. w + 1) (map weight items))"
| "weight (JObj members) = 2 + sum_list (map (\<lambda>(k, w). 6 * length k + w + 4) (map (map_prod id weight) members))"

lemma escape_length: "length (escape_ascii c) \<le> 6"
  by (simp add: escape_ascii_def)

lemma encode_rune_length: "length (encode_rune r) \<le> (case r of None \<Rightarrow> 6 | Some u \<Rightarrow> max 6 (length u))"
  using escape_length by (cases r) (simp_all add: encode_rune_def le_max_iff_disj)

lemma encode_runes_length: "length (concat (map encode_rune (runes s))) \<le> 6 * length s"
proof (induction s rule: runes.induct)
  case (2 a s)
  show ?case
  proof (cases "rune_len (a # s) = 0")
    case True
    with 2(1) show ?thesis using encode_rune_length [of None] by (simp add: runes.simps(2))
  next
    case False
    define n where "n = rune_len (a # s)"
    have IH: "length (concat (map encode_rune (runes (drop n (a # s))))) \<le> 6 * length (drop n (a # s))"
      using 2(2) False by (simp add: n_def)
    have l: "1 \<le> length (take n (a # s))" using False by (cases n) (auto simp: n_def)
    have "length (encode_rune (Some (take n (a # s)))) \<le> 6 * length (take n (a # s))"
      using encode_rune_length [of "Some (take n (a # s))"] l by (simp del: length_take)
    moreover have "length (take n (a # s)) + length (drop n (a # s)) = length (a # s)" by simp
    moreover have "runes (a # s) = Some (take n (a # s)) # runes (drop n (a # s))"
      using False by (simp add: runes.simps(2) n_def)
    ultimately show ?thesis using IH by simp
  qed
qed simp

lemma encode_string_length: "length (encode_json_string s) \<le> 6 * length s + 2"
  using encode_runes_length [of s] by (simp add: encode_json_string_def)

lemma join_length: "length (join_with '','' ws) \<le> sum_list (map (\<lambda>w. length w + 1) ws)"
  by (induction "'',''" ws rule: join_with.induct) auto

lemma sum_list_sort: "sum_list (map f (sort_key k xs)) = (sum_list (map f xs) :: nat)"
  by (metis mset_map mset_sort sum_mset_sum_list)

lemma write_length: "length (write_canonical_value j) \<le> weight j"
proof (induction j)
  case (JStr s)
  then show ?case using encode_string_length by simp
next
  case (JArr items)
  have "sum_list (map (\<lambda>w. length w + 1) (map write_canonical_value items)) \<le>
      sum_list (map (\<lambda>w. w + 1) (map weight items))"
    unfolding map_map comp_def by (rule sum_list_mono) (simp add: JArr.IH)
  with join_length [of "map write_canonical_value items"] show ?case by simp
next
  case (JObj ms)
  let ?ms = "map (map_prod id write_canonical_value) ms"
  have m: "length (member_text m) + 1 \<le> 6 * length (fst m) + length (snd m) + 4" for m
    using encode_string_length [of "fst m"] by (simp add: member_text_def)
  have "length (join_with '','' (map member_text (sort_key fst ?ms))) \<le>
      sum_list (map (\<lambda>m. length (member_text m) + 1) (sort_key fst ?ms))"
    using join_length [of "map member_text (sort_key fst ?ms)"] by (simp add: comp_def)
  also have "\<dots> = sum_list (map (\<lambda>m. length (member_text m) + 1) ?ms)" by (rule sum_list_sort)
  also have "\<dots> \<le> sum_list (map (\<lambda>m. 6 * length (fst m) + length (snd m) + 4) ?ms)"
    by (rule sum_list_mono) (rule m)
  also have "\<dots> \<le> sum_list (map (\<lambda>(k, w). 6 * length k + w + 4) (map (map_prod id weight) ms))"
    unfolding map_map comp_def using JObj.IH by (intro sum_list_mono) (force simp: snds.simps)
  finally show ?case by simp
qed simp_all

lemma json_weight:
  "weight (coerce (json_int 0)) = 1" "weight (coerce (json_int 1)) = 1"
  by (simp_all add: json_int_def int_text_def nat_text.simps)

lemma flat_length [simp]: "length (flat_sha s) = 64"
  by (simp add: flat_sha_def)

lemma sample_weight:
  "weight (coerce (manifest_json sample_manifest)) \<le> 100000"
  "weight (coerce (registry_document_json sample_document)) \<le> 100000"
  by (simp_all add: manifest_json_def sample_manifest_def json_slice_def component_record_json_def
      sample_record_def payload_identity_json_def json_weight registry_document_json_def sample_document_def
      component_type_json_def sample_type_def omit_empty_def)


definition one_payload :: "char \<Rightarrow> payload_map" where
  "one_payload c = [(flat_sha [], [c])]"

definition files_holding :: "char \<Rightarrow> disk" where
  "files_holding c = the (snd (write_directory (\<lambda>_. None) None None flat_sha (Some sample_registry) sample_manifest
     (one_payload c)))"

abbreviation sample_payloads :: payload_map where
  "sample_payloads \<equiv> one_payload (CHR ''x'')"

abbreviation sample_files :: disk where
  "sample_files \<equiv> files_holding (CHR ''x'')"

definition default_options :: verification_options where
  "default_options = \<lparr> vo_maximum_visibility = [], vo_limits = default_verification_limits \<rparr>"

lemma default_effective: "effective_limits default_options = default_verification_limits"
  by (simp add: effective_limits_def default_options_def)

lemma sample_marshal:
  "canonical_marshal (manifest_json sample_manifest) = Inr (write_canonical_value (coerce (manifest_json sample_manifest)))"
  "canonical_marshal (registry_document_json sample_document) =
     Inr (write_canonical_value (coerce (registry_document_json sample_document)))"
proof -
  have "check_value (coerce (manifest_json sample_manifest)) 0 = None"
    by (simp add: component_record_json_def sample_record_def payload_identity_json_def json_slice_def
        json_int_def validate_int_text maximum_safe_json_integer_def manifest_json_def sample_manifest_def)
  moreover have "check_value (coerce (registry_document_json sample_document)) 0 = None"
    by (simp add: registry_document_json_def sample_document_def sample_type_def component_type_json_def
        json_slice_def omit_empty_def)
  ultimately show "canonical_marshal (manifest_json sample_manifest) =
      Inr (write_canonical_value (coerce (manifest_json sample_manifest)))"
    "canonical_marshal (registry_document_json sample_document) =
      Inr (write_canonical_value (coerce (registry_document_json sample_document)))"
    by (simp_all add: canonical_marshal_def)
qed

lemma sample_reg_document: "reg_document sample_registry = sample_document"
  by (simp add: sample_registry_def)

lemma sample_fit: "documents_fit default_verification_limits sample_registry sample_manifest"
proof -
  have "length (write_canonical_value (coerce (manifest_json sample_manifest))) \<le> 100000"
    "length (write_canonical_value (coerce (registry_document_json sample_document))) \<le> 100000"
    by (rule order_trans [OF write_length sample_weight(1)], rule order_trans [OF write_length sample_weight(2)])
  then show ?thesis
    unfolding documents_fit_def sample_reg_document sample_marshal
    by (simp add: default_verification_limits_def sample_manifest_def)
qed

lemma sample_document_text: "document_text (reg_document sample_registry)"
proof -
  have "validate_component_type sample_type = None" by code_simp
  then have "type_text sample_type" by (simp add: type_text_def sample_type_def)
  then show ?thesis by (simp add: sample_reg_document document_text_def sample_document_def)
qed

lemma sample_payload_set:
  "validate_payload_set (\<lambda>_. None) k flat_sha (Some sample_registry) sample_manifest (one_payload c)
     default_verification_limits = None"
  unfolding validate_payload_set_iff Let_def
  by (simp add: matched_def declared_def sized_def sample_manifest_def sample_record_def one_payload_def
      verify_payload_def digest_bytes_def flat_sha_eq [of "[c]" for c] validate_payload_def registry_lookup_def
      sample_registry_def sample_type_def default_verification_limits_def validate_bindings_def binding_context_of_def)

lemma sample_written:
  "write_directory (\<lambda>_. None) None None flat_sha (Some sample_registry) sample_manifest (one_payload c) =
     (None, Some (files_holding c))"
proof -
  have "registry_document_of (Some sample_registry) = sample_document"
    using document_of_loaded [OF sample_loaded] sample_reg_document by simp
  then obtain files where "encoded_capsule_files flat_sha (Some sample_registry) sample_manifest (one_payload c) = Inr files"
    using sample_marshal by (simp add: encoded_capsule_files_def Let_def)
  moreover have "first_err (map (\<lambda>i. None) [0..<length files] @ [None]) = (None :: store_error option)" for files :: "capsule_file list"
    by (auto simp: first_err_None_iff)
  ultimately have "\<exists>d. write_directory (\<lambda>_. None) None None flat_sha (Some sample_registry) sample_manifest (one_payload c) =
      (None, Some d)"
    using sample_valid sample_payload_set
    by (simp add: write_directory_def publish_directory_def map_err_def fail_if_def)
  then show ?thesis by (auto simp: files_holding_def)
qed

lemma sample_distinct: "distinct (map fst (one_payload c))"
  by (simp add: one_payload_def)


theorem written_capsule_verifies_witness:
  "verify_directory (\<lambda>_. None) flat_sha sample_files (Some sample_registry) default_options =
     Inr (verification_report_of sample_manifest)"
  using written_capsule_verifies [OF sample_loaded sample_document_text sample_distinct sample_written sample_fit
      default_effective, of "\<lambda>_. None"]
  by (simp add: default_options_def)

lemma sample_verified:
  "verify_directory (\<lambda>_. None) flat_sha (files_holding c) (Some sample_registry) default_options =
     Inr (verification_report_of sample_manifest)"
  using written_verifies [OF sample_loaded sample_document_text sample_distinct sample_written sample_fit
      default_effective, of "\<lambda>_. None"]
  by (simp add: default_options_def)

lemma holding_encoded:
  obtains expected where
    "encoded_capsule_files flat_sha (Some sample_registry) sample_manifest (one_payload c) = Inr expected"
    and "files_holding c = capsule_tree expected"
  using sample_written [of c]
  by (auto simp: write_directory_def publish_directory_def simp del: first_err.simps split: option.splits sum.splits)

lemma sample_files_distinct: "distinct (map fst (files_holding c))"
proof -
  obtain expected where x: "encoded_capsule_files flat_sha (Some sample_registry) sample_manifest (one_payload c) = Inr expected"
    and f: "files_holding c = capsule_tree expected"
    by (rule holding_encoded)
  have "distinct (map fst expected)" "\<forall>p \<in> set expected. fst p \<notin> {''.'', ''components'', ''components/sha256''}"
    by (rule encoded_files [OF x sample_distinct]; blast)+
  then show ?thesis unfolding f capsule_tree_def by (auto simp: comp_def case_prod_unfold)
qed

lemma sample_payload_file: "map_of (files_holding c) (payload_relative_path (flat_sha [])) = Some (Regular [c])"
proof (rule map_of_is_SomeI [OF sample_files_distinct])
  obtain expected where x: "encoded_capsule_files flat_sha (Some sample_registry) sample_manifest (one_payload c) = Inr expected"
    and f: "files_holding c = capsule_tree expected"
    by (rule holding_encoded)
  have "(payload_relative_path (flat_sha []), [c]) \<in> set expected"
    using x by (auto simp: encoded_capsule_files_def Let_def one_payload_def split: sum.splits)
  then show "(payload_relative_path (flat_sha []), Regular [c]) \<in> set (files_holding c)"
    unfolding f capsule_tree_def by force
qed

theorem verified_directory_exact_witness:
  "\<exists>m payloads expected. load_capsule_documents flat_sha sample_files (Some sample_registry)
      (effective_limits default_options) = Inr m \<and>
    encoded_capsule_files flat_sha (Some sample_registry) m payloads = Inr expected"
  using verified_directory_exact [OF sample_verified [of "CHR ''x''"] sample_files_distinct]
  by (elim exE conjE) (rule exI conjI | assumption)+

theorem directory_refines_package_witness:
  "\<exists>m payloads. verify_package (\<lambda>_. None) flat_sha (Some sample_registry) m payloads default_options =
     Inr (verification_report_of sample_manifest)"
  using directory_refines_package [OF sample_verified [of "CHR ''x''"], of "\<lambda>_. None"] by blast

theorem manifest_digest_binds_files_witness:
  "manifests_collide flat_sha sample_files (files_holding (CHR ''y'')) sample_registry \<or>
   files_collide flat_sha sample_files (files_holding (CHR ''y''))"
proof -
  let ?path = "payload_relative_path (flat_sha [])"
  have at: "map_of (files_holding c) ?path = Some (Regular [c])" for c
    by (rule sample_payload_file)
  have "(\<forall>path raw. map_of sample_files path = Some (Regular raw) \<longleftrightarrow>
      map_of (files_holding (CHR ''y'')) path = Some (Regular raw)) \<or>
    manifests_collide flat_sha sample_files (files_holding (CHR ''y'')) sample_registry \<or>
    files_collide flat_sha sample_files (files_holding (CHR ''y''))"
    by (rule manifest_digest_binds_files [OF sample_loaded sample_document_text sample_verified sample_files_distinct
          sample_verified sample_files_distinct refl])
  moreover have "\<not> (map_of sample_files ?path = Some (Regular ''x'') \<longleftrightarrow>
      map_of (files_holding (CHR ''y'')) ?path = Some (Regular ''x''))"
    using at by simp
  ultimately show ?thesis by blast
qed

section \<open>A sample family\<close>

definition derived_type :: component_type where
  "derived_type = \<lparr> ct_type_id = ''derived'', ct_schema_id = ''derived.v1'', ct_role = RoleDerivation,
     ct_allowed_visibilities = Some [VisibilityPublic], ct_media_type = ''a/b'',
     ct_payload_profile = PayloadExactBytes, ct_validator_id = ''any'', ct_binding_validator_id = [],
     ct_parent_rules = Some [\<lparr> rule_kind = EdgeDerivedFrom, rule_parent_type = ''raw'', rule_minimum = 1,
       rule_maximum = 1, rule_resolutions = Some [ParentExternal] \<rparr>] \<rparr>"

definition child_registry :: registry where
  "child_registry = \<lparr> reg_document = sample_document\<lparr>rd_types := Some [derived_type, sample_type]\<rparr>,
     reg_types = [''raw'' \<mapsto> sample_type, ''derived'' \<mapsto> derived_type],
     reg_validators = [''any'' \<mapsto> (\<lambda>_. None)], reg_bindings = Map.empty \<rparr>"

definition child_reference :: parent_ref where
  "child_reference = \<lparr> ref_kind = EdgeDerivedFrom, ref_component_id = flat_sha [], ref_type_id = ''raw'',
     ref_role = RoleObservation, ref_visibility = VisibilityPublic, ref_resolution = ParentExternal,
     ref_capsule_id = flat_sha [], ref_omission_class = [] \<rparr>"

definition child_record :: component_record where
  "child_record = sample_record\<lparr>cr_type_id := ''derived'', cr_schema_id := ''derived.v1'', cr_role := RoleDerivation,
     cr_parents := Some [child_reference]\<rparr>"

definition child_manifest :: manifest where
  "child_manifest = sample_manifest\<lparr>mf_parent_capsules := Some [\<lparr> cap_relation = ''base'', cap_capsule_id = flat_sha [] \<rparr>],
     mf_components := Some [child_record]\<rparr>"

definition child_package :: package where
  "child_package = \<lparr> pk_registry = Some child_registry, pk_manifest = child_manifest, pk_payloads = sample_payloads \<rparr>"

definition base_package :: package where
  "base_package = \<lparr> pk_registry = Some sample_registry, pk_manifest = sample_manifest, pk_payloads = sample_payloads \<rparr>"

lemmas child_defs = child_record_def sample_record_def child_reference_def

lemma child_names: "valid_identifier ''derived'' \<and> valid_identifier ''base'' \<and> valid_identifier ''run'' \<and>
    valid_identifier ''raw'' \<and> valid_identifier ''s'' \<and> valid_identifier ''c''"
  by code_simp

lemma child_json:
  "check_value (coerce (component_record_json (child_record\<lparr>cr_component_id := []\<rparr>))) 0 = None"
  "check_value (coerce (scientific_json child_manifest)) 0 = None"
  "check_value (coerce (manifest_json (child_manifest\<lparr>mf_manifest_digest := []\<rparr>))) 0 = None"
  by (simp_all add: component_record_json_def child_defs payload_identity_json_def json_slice_def
      json_int_def validate_int_text maximum_safe_json_integer_def scientific_json_def manifest_json_def
      child_manifest_def sample_manifest_def parent_ref_json_def omit_empty_def capsule_ref_json_def)

lemma child_record_valid: "validate_component_record flat_sha (Some child_registry) child_record = None"
proof -
  have "component_digest flat_sha child_record = Inr (flat_sha [])"
    unfolding component_digest_def flat_digest by (rule child_json)
  then show ?thesis
    using child_names
    by (simp add: validate_component_record_def child_registry_def registry_lookup_def derived_type_def
        child_defs validate_payload_identity_def payload_profile_valid_def validate_parent_refs_def
        validate_parent_ref_def edge_kind_valid_def role_valid_def visibility_valid_def parent_resolution_valid_def
        parent_ref_key_def rule_matches_def)
qed

lemma child_valid: "manifest_validate flat_sha child_manifest (Some child_registry) = None"
proof -
  let ?t = "[(flat_sha [], child_record)]"
  have c: "cr_component_id child_record = flat_sha []" "cr_role child_record = RoleDerivation"
    "elems (cr_parents child_record) = [child_reference]" "cr_visibility child_record = VisibilityPublic"
    by (simp_all add: child_defs)
  have p: "ref_resolution child_reference = ParentExternal" "ref_kind child_reference = EdgeDerivedFrom"
    "ref_capsule_id child_reference = flat_sha []" "ref_type_id child_reference = ''raw''"
    "ref_role child_reference = RoleObservation" "ref_visibility child_reference = VisibilityPublic"
    by (simp_all add: child_reference_def)
  have parents: "internal_parents ?t i = []" for i
    by (simp add: internal_parents_def c p)
  have "validate_component_set flat_sha (Some child_registry) [child_record] = Inr ?t"
    using child_record_valid c by (simp add: validate_component_set_def flat_sha_def)
  moreover have "validate_roots child_manifest ?t = None"
    using c by (simp add: validate_roots_def validate_root_set_def child_manifest_def sample_manifest_def)
  moreover have "validate_graph (Some child_registry) child_manifest ?t = None"
    using c p by (simp add: validate_graph_def child_manifest_def sample_manifest_def reject_cycles_def
        reject_unreachable_def parents numeral_2_eq_2 validate_parent_def resolve_parent_def registry_lookup_def
        child_registry_def validate_edge_def role_edge_allowed_def privacy_projection_def)
  moreover have "scientific_digest flat_sha child_manifest = Inr (mf_capsule_id child_manifest)"
    "manifest_digest flat_sha child_manifest = Inr (mf_manifest_digest child_manifest)"
    unfolding scientific_digest_def manifest_digest_def
    using child_json flat_digest by (simp_all add: child_manifest_def sample_manifest_def)
  moreover have "validate_capsule_refs [\<lparr> cap_relation = ''base'', cap_capsule_id = flat_sha [] \<rparr>] = None"
    using child_names by (simp add: validate_capsule_refs_def capsule_ref_key_def)
  ultimately show ?thesis
    using child_names
    by (simp add: manifest_validate_def validate_manifest_structure_def child_manifest_def sample_manifest_def
        registry_digest_of_def child_registry_def sample_document_def)
qed

lemma child_payload_set:
  "validate_payload_set (\<lambda>_. None) k flat_sha (Some child_registry) child_manifest sample_payloads
     default_verification_limits = None"
  unfolding validate_payload_set_iff Let_def
  by (simp add: matched_def declared_def sized_def child_manifest_def child_defs one_payload_def
      verify_payload_def digest_bytes_def flat_sha_eq [of "''x''"] validate_payload_def registry_lookup_def
      child_registry_def derived_type_def default_verification_limits_def validate_bindings_def binding_context_of_def)

lemma sample_family:
  "verify_package_family (\<lambda>_. None) (\<lambda>_ _. None) flat_sha child_package [base_package] default_options =
     Inr (verification_report_of child_manifest)"
proof -
  have "effective_limits \<lparr> vo_maximum_visibility = [], vo_limits = \<lparr> max_components = 0, max_manifest_bytes = 0,
        max_registry_bytes = 0, max_payload_bytes = 0, max_total_bytes = 0 \<rparr> \<rparr> = default_verification_limits"
    by (simp add: effective_limits_def verification_limits_valid_def)
  then have "verify_package (\<lambda>_. None) flat_sha (Some sample_registry) sample_manifest sample_payloads
      \<lparr> vo_maximum_visibility = [], vo_limits = \<lparr> max_components = 0, max_manifest_bytes = 0,
        max_registry_bytes = 0, max_payload_bytes = 0, max_total_bytes = 0 \<rparr> \<rparr> =
      Inr (verification_report_of sample_manifest)"
    using sample_valid sample_payload_set [of 0]
    by (simp add: verify_package_def Let_def enforce_maximum_visibility_def default_verification_limits_def
        sample_manifest_def map_err_def fail_if_def)
  moreover have "verify_package (\<lambda>_. None) flat_sha (Some child_registry) child_manifest sample_payloads default_options =
      Inr (verification_report_of child_manifest)"
    using child_valid child_payload_set [of 0] default_effective
    by (simp add: verify_package_def Let_def enforce_maximum_visibility_def default_options_def
        default_verification_limits_def child_manifest_def sample_manifest_def map_err_def fail_if_def)
  moreover have "resolve_external [(flat_sha [], base_package)] child_record child_reference = None"
    by (simp add: resolve_external_def child_reference_def base_package_def sample_manifest_def sample_record_def fail_if_def)
  ultimately show ?thesis
    by (simp add: verify_package_family_def child_package_def base_package_def Let_def registry_document_of_def
        child_registry_def sample_document_def fail_if_def child_manifest_def sample_manifest_def child_record_def)
qed

theorem family_discloses_no_private_parent_witness:
  "\<exists>parent \<in> set [base_package]. mf_capsule_id (pk_manifest parent) = flat_sha [] \<and>
     manifest_validate flat_sha (pk_manifest parent) (pk_registry parent) = None"
proof -
  have "child_record \<in> set (elems (mf_components (pk_manifest child_package)))"
    "child_reference \<in> set (elems (cr_parents child_record))"
    "ref_resolution child_reference \<noteq> ParentInternal" "ref_capsule_id child_reference = flat_sha []"
    "\<not> privacy_projection (ref_kind child_reference)"
    by (simp_all add: child_package_def child_manifest_def child_defs privacy_projection_def)
  from family_discloses_no_private_parent [OF sample_family this(1-3) _ this(5)] this(4)
  show ?thesis by auto
qed

end
