(* ===== verification/Statement.thy ===== *)
theory Statement
  imports CapsuleFamilyProps
begin

text \<open>
  internal/capsule/statement.go: the in-toto statement about a capsule.  It is built from an
  accepted manifest, encoded canonically, and decoded against the manifest it is about.  Go
  maps are association lists with distinct keys; a statement keeps its counts in the order of the keys.
\<close>

section \<open>State\<close>

record in_toto_subject =
  is_name :: string
  is_digest :: "(string \<times> string) list"

record capsule_predicate =
  cp_schema_version :: string
  cp_capsule_id :: string
  cp_manifest_digest :: string
  cp_registry_digest :: string
  cp_study_id :: string
  cp_cell_id :: string
  cp_scientific_roots :: "string slice"
  cp_scientific_components :: int
  cp_presentation_components :: int
  cp_visibility_counts :: "(string \<times> int) list"

record in_toto_statement =
  st_type :: string
  st_subject :: "in_toto_subject slice"
  st_predicate_type :: string
  st_predicate :: capsule_predicate

datatype statement_error =
    StatementIdentityInvalid | SubjectUnbound | PredicateMismatch | StatementUnreadable
  | StatementManifest manifest_error

abbreviation InTotoStatementType :: string where
  "InTotoStatementType \<equiv> ''https://in-toto.io/Statement/v1''"
abbreviation CapsulePredicateType :: string where
  "CapsulePredicateType \<equiv> ''https://evalwitness.dev/attestation/capsule/v1''"
abbreviation CapsulePredicateVersion :: string where
  "CapsulePredicateVersion \<equiv> ''evalwitness.in-toto-capsule-predicate.v1''"

section \<open>Operations\<close>

text \<open>\<open>strings.ToLower\<close> on the letters of a hexadecimal id.\<close>

definition lower_char :: "char \<Rightarrow> char" where
  "lower_char c = (if is_upper c then chr (ord c + 32) else c)"

definition scientific_subject_name :: "string \<Rightarrow> string" where
  "scientific_subject_name capsule_id = ''evalwitness-scientific-capsule/'' @ map lower_char capsule_id"

definition count_at :: "(string \<times> int) list \<Rightarrow> string \<Rightarrow> int" where
  "count_at counts key = (case map_of counts key of None \<Rightarrow> 0 | Some n \<Rightarrow> n)"

definition equal_counts :: "(string \<times> int) list \<Rightarrow> (string \<times> int) list \<Rightarrow> bool" where
  "equal_counts left right \<longleftrightarrow>
     length left = length right \<and> (\<forall>(key, value) \<in> set left. count_at right key = value)"

definition statement_validate :: "in_toto_statement \<Rightarrow> manifest \<Rightarrow> statement_error option" where
  "statement_validate s m =
     (case elems (st_subject s) of
        [subject] \<Rightarrow>
          let expected = verification_report_of m; predicate = st_predicate s in first_err [
            fail_if (st_type s \<noteq> InTotoStatementType \<or> st_predicate_type s \<noteq> CapsulePredicateType)
              StatementIdentityInvalid,
            fail_if (is_name subject \<noteq> scientific_subject_name (mf_capsule_id m) \<or> length (is_digest subject) \<noteq> 1 \<or>
                (case map_of (is_digest subject) DigestAlgorithm of None \<Rightarrow> [] | Some d \<Rightarrow> d) \<noteq> mf_capsule_id m)
              SubjectUnbound,
            fail_if (cp_schema_version predicate \<noteq> CapsulePredicateVersion \<or>
                cp_capsule_id predicate \<noteq> mf_capsule_id m \<or>
                cp_manifest_digest predicate \<noteq> mf_manifest_digest m \<or>
                cp_registry_digest predicate \<noteq> mf_registry_digest m \<or>
                cp_study_id predicate \<noteq> mf_study_id m \<or> cp_cell_id predicate \<noteq> mf_cell_id m \<or>
                elems (cp_scientific_roots predicate) \<noteq> elems (mf_scientific_roots m) \<or>
                cp_scientific_components predicate \<noteq> vr_scientific_components expected \<or>
                cp_presentation_components predicate \<noteq> vr_presentation_components expected \<or>
                \<not> equal_counts (cp_visibility_counts predicate) (vr_visibility_counts expected))
              PredicateMismatch]
      | _ \<Rightarrow> Some StatementIdentityInvalid)"

definition statement_of :: "manifest \<Rightarrow> in_toto_statement" where
  "statement_of m =
     (let report = verification_report_of m in
      \<lparr> st_type = InTotoStatementType,
        st_subject = Some [\<lparr> is_name = scientific_subject_name (mf_capsule_id m),
          is_digest = [(DigestAlgorithm, mf_capsule_id m)] \<rparr>],
        st_predicate_type = CapsulePredicateType,
        st_predicate = \<lparr> cp_schema_version = CapsulePredicateVersion, cp_capsule_id = mf_capsule_id m,
          cp_manifest_digest = mf_manifest_digest m, cp_registry_digest = mf_registry_digest m,
          cp_study_id = mf_study_id m, cp_cell_id = mf_cell_id m,
          cp_scientific_roots = mf_scientific_roots m,
          cp_scientific_components = vr_scientific_components report,
          cp_presentation_components = vr_presentation_components report,
          cp_visibility_counts = sort_key fst (vr_visibility_counts report) \<rparr> \<rparr>)"

definition build_statement ::
  "(string \<Rightarrow> string) \<Rightarrow> manifest \<Rightarrow> registry option \<Rightarrow> statement_error + in_toto_statement" where
  "build_statement sha m r =
     (case first_err [map_err StatementManifest (manifest_validate sha m r), statement_validate (statement_of m) m] of
        Some e \<Rightarrow> Inl e
      | None \<Rightarrow> Inr (statement_of m))"

definition map_json :: "('a \<Rightarrow> json) \<Rightarrow> (string \<times> 'a) list \<Rightarrow> json" where
  "map_json f kvs = JObj (map (\<lambda>(k, v). (k, f v)) kvs)"

definition subject_json :: "in_toto_subject \<Rightarrow> json" where
  "subject_json s = JObj [(''name'', JStr (is_name s)), (''digest'', map_json JStr (is_digest s))]"

definition predicate_json :: "capsule_predicate \<Rightarrow> json" where
  "predicate_json p = JObj [
     (''schema_version'', JStr (cp_schema_version p)), (''capsule_id'', JStr (cp_capsule_id p)),
     (''manifest_digest'', JStr (cp_manifest_digest p)), (''registry_digest'', JStr (cp_registry_digest p)),
     (''study_id'', JStr (cp_study_id p)), (''cell_id'', JStr (cp_cell_id p)),
     (''scientific_roots'', json_slice JStr (cp_scientific_roots p)),
     (''scientific_components'', json_int (cp_scientific_components p)),
     (''presentation_components'', json_int (cp_presentation_components p)),
     (''visibility_counts'', map_json json_int (cp_visibility_counts p))]"

definition statement_json :: "in_toto_statement \<Rightarrow> json" where
  "statement_json s = JObj [
     (''_type'', JStr (st_type s)), (''subject'', json_slice subject_json (st_subject s)),
     (''predicateType'', JStr (st_predicate_type s)), (''predicate'', predicate_json (st_predicate s))]"

definition encode_statement :: "in_toto_statement \<Rightarrow> json_error + string" where
  "encode_statement s = canonical_marshal (statement_json s)"

text \<open>Reading a Go map: the members in the order of the text.\<close>

fun json_map :: "(json \<Rightarrow> 'a option) \<Rightarrow> json \<Rightarrow> (string \<times> 'a) list option" where
  "json_map f (JObj ms) = all_some (map (\<lambda>(k, j). map_option (Pair k) (f j)) ms)"
| "json_map f JNull = Some []"
| "json_map f _ = None"

definition subject_of_json :: "json \<Rightarrow> in_toto_subject option" where
  "subject_of_json = struct [''name'', ''digest''] (\<lambda>ms. do {
     name \<leftarrow> field [] json_string ''name'' ms;
     d \<leftarrow> field [] (json_map json_string) ''digest'' ms;
     Some \<lparr> is_name = name, is_digest = d \<rparr> })"

definition empty_predicate :: capsule_predicate where
  "empty_predicate = \<lparr> cp_schema_version = [], cp_capsule_id = [], cp_manifest_digest = [],
     cp_registry_digest = [], cp_study_id = [], cp_cell_id = [], cp_scientific_roots = None,
     cp_scientific_components = 0, cp_presentation_components = 0, cp_visibility_counts = [] \<rparr>"

definition predicate_of_json :: "json \<Rightarrow> capsule_predicate option" where
  "predicate_of_json = struct [''schema_version'', ''capsule_id'', ''manifest_digest'', ''registry_digest'',
       ''study_id'', ''cell_id'', ''scientific_roots'', ''scientific_components'', ''presentation_components'',
       ''visibility_counts''] (\<lambda>ms. do {
     schema \<leftarrow> field [] json_string ''schema_version'' ms;
     capsule_id \<leftarrow> field [] json_string ''capsule_id'' ms;
     manifest_digest \<leftarrow> field [] json_string ''manifest_digest'' ms;
     registry_digest \<leftarrow> field [] json_string ''registry_digest'' ms;
     study_id \<leftarrow> field [] json_string ''study_id'' ms;
     cell_id \<leftarrow> field [] json_string ''cell_id'' ms;
     roots \<leftarrow> field None (json_array json_string) ''scientific_roots'' ms;
     scientific \<leftarrow> field 0 json_integer ''scientific_components'' ms;
     presentation \<leftarrow> field 0 json_integer ''presentation_components'' ms;
     counts \<leftarrow> field [] (json_map json_integer) ''visibility_counts'' ms;
     Some \<lparr> cp_schema_version = schema, cp_capsule_id = capsule_id, cp_manifest_digest = manifest_digest,
       cp_registry_digest = registry_digest, cp_study_id = study_id, cp_cell_id = cell_id,
       cp_scientific_roots = roots, cp_scientific_components = scientific,
       cp_presentation_components = presentation, cp_visibility_counts = counts \<rparr> })"

definition statement_of_json :: "json \<Rightarrow> in_toto_statement option" where
  "statement_of_json = struct [''_type'', ''subject'', ''predicateType'', ''predicate''] (\<lambda>ms. do {
     kind \<leftarrow> field [] json_string ''_type'' ms;
     subject \<leftarrow> field None (json_array subject_of_json) ''subject'' ms;
     predicate_type \<leftarrow> field [] json_string ''predicateType'' ms;
     predicate \<leftarrow> field empty_predicate predicate_of_json ''predicate'' ms;
     Some \<lparr> st_type = kind, st_subject = subject, st_predicate_type = predicate_type, st_predicate = predicate \<rparr> })"

definition decode_statement :: "string \<Rightarrow> manifest \<Rightarrow> statement_error + in_toto_statement" where
  "decode_statement raw m =
     (case decode_strict statement_of_json raw of None \<Rightarrow> Inl StatementUnreadable | Some s \<Rightarrow>
      (case first_err [fail_if (encode_statement s \<noteq> Inr raw) StatementUnreadable, statement_validate s m] of
         Some e \<Rightarrow> Inl e
       | None \<Rightarrow> Inr s))"

section \<open>Facts\<close>

lemma int_numbers_statement [simp]:
  "(\<And>x. x \<in> snd ` set kvs \<Longrightarrow> int_numbers (f x)) \<Longrightarrow> int_numbers (map_json f kvs)"
  "int_numbers (subject_json s)" "int_numbers (predicate_json p)"
  by (force simp: map_json_def subject_json_def predicate_json_def)+

lemma int_numbers_statement_json [simp]: "int_numbers (statement_json t)"
  by (simp add: statement_json_def)

lemma distinct_keys: "distinct (map fst kvs) \<Longrightarrow> distinct kvs"
  by (simp add: distinct_map)

lemma map_read:
  assumes "distinct (map fst kvs)" and "\<forall>k \<in> fst ` set kvs. utf8_valid k"
    and "\<And>v. v \<in> snd ` set kvs \<Longrightarrow> g (jc (f v)) = Some v"
  shows "json_map g (jc (map_json f kvs)) = Some (sort_key fst kvs)"
proof -
  have "coerce (map_json f kvs) = JObj (map (\<lambda>(k, v). (k, coerce (f v))) kvs)"
    using assms(2) by (force simp: map_json_def)
  then have "jc (map_json f kvs) =
      JObj (sort_key fst (map (map_prod id canon) (map (\<lambda>(k, v). (k, coerce (f v))) kvs)))"
    by simp
  also have "map (map_prod id canon) (map (\<lambda>(k, v). (k, coerce (f v))) kvs) = map (\<lambda>p. (fst p, jc (f (snd p)))) kvs"
    by auto
  also have "sort_key fst (map (\<lambda>p. (fst p, jc (f (snd p)))) kvs) = map (\<lambda>p. (fst p, jc (f (snd p)))) (sort_key fst kvs)"
    by (rule sort_key_map_same) simp
  finally have j: "jc (map_json f kvs) = JObj (map (\<lambda>p. (fst p, jc (f (snd p)))) (sort_key fst kvs))" .
  have all: "all_some (map (\<lambda>p. map_option (Pair (fst p)) (g (jc (f (snd p))))) ps) = Some ps"
    if "\<forall>p \<in> set ps. g (jc (f (snd p))) = Some (snd p)" for ps
    using that by (induction ps) auto
  have "\<forall>p \<in> set (sort_key fst kvs). g (jc (f (snd p))) = Some (snd p)" using assms(3) by force
  from all [OF this] show ?thesis unfolding j by (simp add: comp_def case_prod_unfold)
qed

lemma equal_counts_maps:
  assumes "distinct (map fst left)" and "distinct (map fst right)" and "0 \<notin> snd ` set left"
  shows "equal_counts left right \<longleftrightarrow> map_of left = map_of right"
proof
  assume e: "equal_counts left right"
  have in_right: "map_of right k = Some n" if "(k, n) \<in> set left" for k n
    using e that assms(3) by (force simp: equal_counts_def count_at_def split: option.splits)
  then have "set left \<subseteq> set right" by (auto dest: map_of_SomeD)
  moreover have "card (set left) = card (set right)"
    using e assms(1,2) by (simp add: equal_counts_def distinct_card distinct_keys)
  ultimately have "set left = set right" by (simp add: card_subset_eq)
  then show "map_of left = map_of right" using assms(1,2) by (metis map_of_inject_set)
next
  assume m: "map_of left = map_of right"
  then have s: "set left = set right" using assms(1,2) by (metis map_of_inject_set)
  have "length left = length right"
    using s assms(1,2) by (metis distinct_card distinct_keys)
  moreover have "count_at right k = n" if "(k, n) \<in> set left" for k n
    using m that assms(1) by (simp add: count_at_def flip: m)
  ultimately show "equal_counts left right" by (auto simp: equal_counts_def)
qed

lemma report_counts_plain:
  "distinct (map fst (vr_visibility_counts (verification_report_of m)))"
  "0 \<notin> snd ` set (vr_visibility_counts (verification_report_of m))"
proof -
  let ?c = "vr_visibility_counts (verification_report_of m)"
  have c: "?c = foldl count_visibility [] (elems (mf_components m))"
    by (simp add: verification_report_of_def Let_def)
  show d: "distinct (map fst ?c)" unfolding c using count_visibility_from [of "[]"] by simp
  show "0 \<notin> snd ` set ?c"
  proof
    assume "0 \<in> snd ` set ?c"
    then obtain v where "map_of ?c v = Some 0" using d by force
    then show False unfolding c using count_visibility_from [of "[]" "elems (mf_components m)" v]
      by (auto simp: Let_def split: if_splits)
  qed
qed


lemma subject_read:
  assumes "utf8_valid (is_name s)" and "distinct (map fst (is_digest s))"
    and "\<forall>p \<in> set (is_digest s). utf8_valid (fst p) \<and> utf8_valid (snd p)"
  shows "subject_of_json (jc (subject_json s)) = Some (s\<lparr>is_digest := sort_key fst (is_digest s)\<rparr>)"
proof -
  have "json_map json_string (jc (map_json JStr (is_digest s))) = Some (sort_key fst (is_digest s))"
    using assms by (intro map_read) auto
  then show ?thesis
    using assms(1) by (simp add: subject_json_def subject_of_json_def read_object del: canon.simps(6) coerce.simps(6))
qed

lemma predicate_read:
  assumes "utf8_valid (cp_schema_version p)" "utf8_valid (cp_capsule_id p)" "utf8_valid (cp_manifest_digest p)"
    "utf8_valid (cp_registry_digest p)" "utf8_valid (cp_study_id p)" "utf8_valid (cp_cell_id p)"
    "\<forall>x \<in> set (elems (cp_scientific_roots p)). utf8_valid x"
    and "int64 (cp_scientific_components p)" "int64 (cp_presentation_components p)"
    and "distinct (map fst (cp_visibility_counts p))"
    and "\<forall>x \<in> set (cp_visibility_counts p). utf8_valid (fst x) \<and> int64 (snd x)"
  shows "predicate_of_json (jc (predicate_json p)) =
    Some (p\<lparr>cp_visibility_counts := sort_key fst (cp_visibility_counts p)\<rparr>)"
proof -
  have "json_map json_integer (jc (map_json json_int (cp_visibility_counts p))) =
      Some (sort_key fst (cp_visibility_counts p))"
    using assms(10,11) by (intro map_read json_integer_jc) auto
  then show ?thesis
    using assms(1-9)
    by (simp add: predicate_json_def predicate_of_json_def read_object strings_jc json_integer_jc
        del: canon.simps(6) coerce.simps(6))
qed

lemma sort_same_map:
  assumes "distinct (map fst kvs)"
  shows "map_of (sort_key fst kvs) = map_of kvs" and "distinct (map fst (sort_key fst kvs))"
proof -
  have "mset (map fst (sort_key fst kvs)) = mset (map fst kvs)" by simp
  then show d: "distinct (map fst (sort_key fst kvs))" using assms by (metis mset_eq_imp_distinct_iff)
  show "map_of (sort_key fst kvs) = map_of kvs"
    by (rule map_of_inject_set [THEN iffD2, OF d assms]) simp
qed

lemma safe_integer: "validate_canonical_integer (int_text i) = None \<Longrightarrow> int64 i"
  by (simp add: validate_int_text maximum_safe_json_integer_def int64_def abs_le_iff)

lemma statement_bounds:
  assumes "encode_statement s = Inr raw"
  shows "int64 (cp_scientific_components (st_predicate s))" "int64 (cp_presentation_components (st_predicate s))"
    "\<forall>x \<in> set (cp_visibility_counts (st_predicate s)). int64 (snd x)"
proof -
  have "check_value (coerce (statement_json s)) 0 = None"
    using assms by (auto simp: encode_statement_def canonical_marshal_def split: option.splits)
  then have "check_value (coerce (predicate_json (st_predicate s))) 1 = None"
    by (auto simp: statement_json_def check_members_None)
  then show "int64 (cp_scientific_components (st_predicate s))" "int64 (cp_presentation_components (st_predicate s))"
    "\<forall>x \<in> set (cp_visibility_counts (st_predicate s)). int64 (snd x)"
    by (fastforce simp: predicate_json_def check_members_None json_int_def map_json_def intro!: safe_integer)+
qed

lemma statement_accepts: "statement_validate (statement_of m) m = None"
proof -
  let ?c = "vr_visibility_counts (verification_report_of m)"
  note sorted = sort_same_map [OF report_counts_plain(1)]
  have "0 \<notin> snd ` set (sort_key fst ?c)" using report_counts_plain(2) by simp
  then have "equal_counts (sort_key fst ?c) ?c"
    using equal_counts_maps [OF sorted(2) report_counts_plain(1)] sorted(1) by simp
  then show ?thesis by (simp add: statement_validate_def statement_of_def Let_def)
qed

lemma subject_name_text:
  assumes "valid_digest d"
  shows "utf8_valid (scientific_subject_name d)"
proof (rule ascii_valid)
  have "ord (lower_char c) < 128" if "ord c < 128" for c
    using that by (auto simp: lower_char_def is_upper_def char_between_def less_eq_char_def)
  moreover have "\<forall>c \<in> set d. ord c < 128"
    using assms by (auto simp: valid_digest_def less_char_def not_less)
  ultimately show "\<forall>c \<in> set (scientific_subject_name d). ord c < 128"
    by (auto simp: scientific_subject_name_def)
qed

lemma accepted_ids:
  assumes "manifest_validate sha m r = None"
  shows "valid_digest (mf_capsule_id m)"
proof -
  have "validate_manifest_structure sha r m True = None" using assms by (simp add: manifest_validate_def)
  then have "fail_if (True \<and> (\<not> valid_digest (mf_capsule_id m) \<or> \<not> valid_digest (mf_manifest_digest m)))
      ManifestDigestsMissing = None"
    unfolding validate_manifest_structure_def by (simp del: first_err.simps split: option.splits)
  then show ?thesis by simp
qed

section \<open>Properties\<close>

lemma statement_survives:
  assumes "loaded sha reg" and "build_statement sha m (Some reg) = Inr s" and "encode_statement s = Inr raw"
  shows "decode_statement raw m = Inr s"
proof -
  have v: "manifest_validate sha m (Some reg) = None" and s: "s = statement_of m"
    using assms(2) by (auto simp: build_statement_def simp del: first_err.simps split: option.splits)
  obtain "registry_document_validate sha (reg_document reg) = None" by (rule loadedE [OF assms(1)])
  then have reg: "utf8_valid (mf_registry_digest m)"
    using manifest_plain(7) [OF v] by (simp add: registry_document_validate_def registry_digest_of_def digest_utf8)
  have vis: "utf8_valid (cr_visibility c)" if "c \<in> set (elems (mf_components m))" for c
    using manifest_plain(11) [OF v] validated_plain(1) [OF assms(1)] that by (auto simp: component_plain_def)
  let ?c = "vr_visibility_counts (verification_report_of m)"
  have keys: "utf8_valid k" if "(k, n) \<in> set ?c" for k n
  proof -
    have "map_of ?c k = Some n" using that report_counts_plain(1) by simp
    then have "filter (\<lambda>c. cr_visibility c = k) (elems (mf_components m)) \<noteq> []"
      using count_visibility_from [of "[]" "elems (mf_components m)" k]
      by (auto simp: verification_report_of_def Let_def)
    then obtain c where "c \<in> set (elems (mf_components m))" "cr_visibility c = k"
      by (auto simp: filter_empty_conv)
    then show ?thesis using vis by blast
  qed
  note counts = sort_same_map(2) [OF report_counts_plain(1)]
  have p: "predicate_of_json (jc (predicate_json (st_predicate s))) = Some (st_predicate s)"
    using manifest_plain [OF v] reg statement_bounds [OF assms(3)] keys counts
    by (subst predicate_read) (auto simp: s statement_of_def Let_def)
  have "json_array subject_of_json (jc (json_slice subject_json (st_subject s))) = Some (st_subject s)"
    using subject_name_text [OF accepted_ids [OF v]] manifest_plain(3) [OF v]
    by (intro json_array_jc) (auto simp: s statement_of_def Let_def subject_read)
  then have "statement_of_json (jc (statement_json s)) = Some s"
    using p by (simp add: statement_json_def statement_of_json_def read_object s statement_of_def Let_def
        del: canon.simps(6) coerce.simps(6))
  then have "decode_strict statement_of_json raw = Some s"
    by (intro decode_written [OF assms(3) [unfolded encode_statement_def]]) simp_all
  then show ?thesis
    using assms(3) statement_accepts s by (simp add: decode_statement_def)
qed

text \<open>
  C34: a statement survives its encoding: what was built for an accepted manifest and encoded
  decodes to itself against the same manifest.
\<close>

theorem statement_round_trip:
  assumes "loaded sha reg" and "build_statement sha m (Some reg) = Inr s" and "encode_statement s = Inr raw"
  shows "decode_statement raw m = Inr s"
  by (rule statement_survives [OF assms])

theorem statement_round_trip_witness:
  "decode_statement (write_canonical_value (coerce (statement_json (statement_of sample_manifest)))) sample_manifest =
     Inr (statement_of sample_manifest)"
proof (rule statement_round_trip [OF sample_loaded])
  show "build_statement flat_sha sample_manifest (Some sample_registry) = Inr (statement_of sample_manifest)"
    using sample_valid statement_accepts by (simp add: build_statement_def map_err_def)
  have "check_value (coerce (statement_json (statement_of sample_manifest))) 0 = None"
    by (simp add: statement_json_def statement_of_def Let_def json_slice_def subject_json_def predicate_json_def
        map_json_def json_int_def validate_int_text maximum_safe_json_integer_def verification_report_of_def
        sample_manifest_def sample_record_def count_visibility_def)
  then show "encode_statement (statement_of sample_manifest) =
      Inr (write_canonical_value (coerce (statement_json (statement_of sample_manifest))))"
    by (simp add: encode_statement_def canonical_marshal_def)
qed

text \<open>
  A statement that validates against a manifest, and whose visibility counts have no entry of
  zero, says of the manifest exactly what is true: every field of its predicate is the
  manifest's, and its counts are, for each visibility, the number of components that have it.
\<close>

lemma statement_binds_manifest:
  assumes "statement_validate s m = None" and "distinct (map fst (cp_visibility_counts (st_predicate s)))"
    and "0 \<notin> snd ` set (cp_visibility_counts (st_predicate s))"
  shows "cp_capsule_id (st_predicate s) = mf_capsule_id m \<and>
    cp_manifest_digest (st_predicate s) = mf_manifest_digest m \<and>
    cp_registry_digest (st_predicate s) = mf_registry_digest m \<and>
    elems (cp_scientific_roots (st_predicate s)) = elems (mf_scientific_roots m) \<and>
    cp_scientific_components (st_predicate s) =
      int (length (filter (\<lambda>c. cr_role c \<noteq> RolePresentation) (elems (mf_components m)))) \<and>
    map_of (cp_visibility_counts (st_predicate s)) v =
      (let n = int (length (filter (\<lambda>c. cr_visibility c = v) (elems (mf_components m)))) in if n = 0 then None else Some n)"
proof -
  let ?c = "vr_visibility_counts (verification_report_of m)"
  obtain subject where "elems (st_subject s) = [subject]"
    using assms(1) by (auto simp: statement_validate_def split: list.splits)
  with assms(1) have p: "cp_capsule_id (st_predicate s) = mf_capsule_id m"
    "cp_manifest_digest (st_predicate s) = mf_manifest_digest m"
    "cp_registry_digest (st_predicate s) = mf_registry_digest m"
    "elems (cp_scientific_roots (st_predicate s)) = elems (mf_scientific_roots m)"
    "cp_scientific_components (st_predicate s) = vr_scientific_components (verification_report_of m)"
    "equal_counts (cp_visibility_counts (st_predicate s)) ?c"
    by (simp_all add: statement_validate_def Let_def)
  have "map_of (cp_visibility_counts (st_predicate s)) = map_of ?c"
    using equal_counts_maps [OF assms(2) report_counts_plain(1) assms(3)] p(6) by simp
  moreover have "map_of ?c v =
      (let n = int (length (filter (\<lambda>c. cr_visibility c = v) (elems (mf_components m)))) in if n = 0 then None else Some n)"
    using count_visibility_from [of "[]" "elems (mf_components m)" v]
    by (simp add: verification_report_of_def Let_def)
  ultimately show ?thesis using p by (simp add: verification_report_of_def Let_def)
qed

theorem statement_binds_manifest_witness:
  "cp_capsule_id (st_predicate (statement_of sample_manifest)) = flat_sha []"
  using statement_binds_manifest [OF statement_accepts, of sample_manifest]
  by (simp add: statement_of_def Let_def verification_report_of_def sample_manifest_def sample_record_def
      count_visibility_def)

definition forged_statement :: in_toto_statement where
  "forged_statement = (statement_of sample_manifest)\<lparr>st_predicate :=
     (st_predicate (statement_of sample_manifest))\<lparr>cp_visibility_counts := [(VisibilityPrivate, 0)]\<rparr>\<rparr>"

text \<open>
  The check of the visibility counts misses entries of zero: a statement that declares no
  public component validates against a manifest whose only component is public, because
  \<open>equalCounts\<close> compares the number of entries and the values at the keys of the left map only.
\<close>

lemma forged_counts_accepted:
  "statement_validate forged_statement sample_manifest = None \<and>
   map_of (cp_visibility_counts (st_predicate forged_statement)) VisibilityPublic = None \<and>
   map_of (vr_visibility_counts (verification_report_of sample_manifest)) VisibilityPublic = Some 1"
  by (simp add: forged_statement_def statement_validate_def statement_of_def Let_def equal_counts_def count_at_def
      verification_report_of_def sample_manifest_def sample_record_def count_visibility_def)

end
