(* ===== verification/Base64.thy ===== *)
theory Base64
  imports Utf8
begin

text \<open>
  Go's \<open>base64.StdEncoding\<close>: encoding in groups of three bytes, and the strict decoder, which
  skips line breaks, requires the padding and rejects trailing bits that are not zero.
\<close>

definition base64_digit :: "nat \<Rightarrow> char" where
  "base64_digit n =
     (if n < 26 then chr (65 + n) else if n < 52 then chr (71 + n) else if n < 62 then chr (n - 4)
      else if n = 62 then CHR ''+'' else CHR ''/'')"

definition base64_value :: "char \<Rightarrow> nat option" where
  "base64_value c =
     (if is_upper c then Some (ord c - 65) else if is_lower c then Some (ord c - 71)
      else if is_digit c then Some (ord c + 4)
      else if c = CHR ''+'' then Some 62 else if c = CHR ''/'' then Some 63 else None)"

fun base64_encode :: "string \<Rightarrow> string" where
  "base64_encode [] = []"
| "base64_encode [a] =
     [base64_digit (ord a div 4), base64_digit (ord a mod 4 * 16), CHR ''='', CHR ''='']"
| "base64_encode [a, b] =
     [base64_digit (ord a div 4), base64_digit (ord a mod 4 * 16 + ord b div 16),
      base64_digit (ord b mod 16 * 4), CHR ''='']"
| "base64_encode (a # b # c # s) =
     base64_digit (ord a div 4) # base64_digit (ord a mod 4 * 16 + ord b div 16) #
     base64_digit (ord b mod 16 * 4 + ord c div 64) # base64_digit (ord c mod 64) # base64_encode s"

definition quantum3 :: "nat \<Rightarrow> nat \<Rightarrow> nat \<Rightarrow> nat \<Rightarrow> string" where
  "quantum3 p q r t = [chr (p * 4 + q div 16), chr (q mod 16 * 16 + r div 4), chr (r mod 4 * 64 + t)]"

definition last_quantum :: "char \<Rightarrow> char \<Rightarrow> char \<Rightarrow> char \<Rightarrow> string option" where
  "last_quantum a b c d =
     (case (base64_value a, base64_value b) of
        (Some p, Some q) \<Rightarrow>
          if c = CHR ''='' then (if d = CHR ''='' \<and> q mod 16 = 0 then Some [chr (p * 4 + q div 16)] else None)
          else (case base64_value c of
             None \<Rightarrow> None
           | Some r \<Rightarrow>
               if d = CHR ''='' then
                 (if r mod 4 = 0 then Some [chr (p * 4 + q div 16), chr (q mod 16 * 16 + r div 4)] else None)
               else map_option (quantum3 p q r) (base64_value d))
      | _ \<Rightarrow> None)"

definition full_quantum :: "char \<Rightarrow> char \<Rightarrow> char \<Rightarrow> char \<Rightarrow> string option" where
  "full_quantum a b c d =
     (case (base64_value a, base64_value b, base64_value c, base64_value d) of
        (Some p, Some q, Some r, Some t) \<Rightarrow> Some (quantum3 p q r t)
      | _ \<Rightarrow> None)"

fun decode_quanta :: "string \<Rightarrow> string option" where
  "decode_quanta [] = Some []"
| "decode_quanta [a, b, c, d] = last_quantum a b c d"
| "decode_quanta (a # b # c # d # s) =
     (case full_quantum a b c d of None \<Rightarrow> None | Some u \<Rightarrow> map_option ((@) u) (decode_quanta s))"
| "decode_quanta _ = None"

definition line_break :: "char \<Rightarrow> bool" where
  "line_break c \<longleftrightarrow> ord c = 10 \<or> ord c = 13"

definition base64_decode :: "string \<Rightarrow> string option" where
  "base64_decode s = decode_quanta (filter (\<lambda>c. \<not> line_break c) s)"

section \<open>Decoding inverts encoding\<close>

lemma digit_values:
  "\<forall>n \<in> set [0..<64]. base64_value (base64_digit n) = Some n \<and> base64_digit n \<noteq> CHR ''='' \<and>
     \<not> line_break (base64_digit n)"
  by code_simp

lemma base64_digit_simps [simp]:
  assumes "n < 64"
  shows "base64_value (base64_digit n) = Some n" "base64_digit n \<noteq> CHR ''=''" "\<not> line_break (base64_digit n)"
  using digit_values assms by auto

lemma byte_bound [simp]: "ord (c :: char) < 256"
  by (metis of_char_mod_256 mod_less_divisor zero_less_numeral)

lemma no_break_pad [simp]: "\<not> line_break CHR ''=''"
  by (simp add: line_break_def)

lemma sextets:
  assumes "x < (256::nat)" and "y < 256" and "z < 256"
  shows "x div 4 < 64" "x mod 4 * 16 < 64" "x mod 4 * 16 + y div 16 < 64" "y mod 16 * 4 < 64"
    "y mod 16 * 4 + z div 64 < 64" "z mod 64 < 64"
    "x div 4 * 4 + (x mod 4 * 16 + y div 16) div 16 = x"
    "(x mod 4 * 16 + y div 16) mod 16 * 16 + (y mod 16 * 4 + z div 64) div 4 = y"
    "(y mod 16 * 4 + z div 64) mod 4 * 64 + z mod 64 = z"
    "(x mod 4 * 16) mod 16 = 0" "x div 4 * 4 + (x mod 4 * 16) div 16 = x"
    "(y mod 16 * 4) mod 4 = 0" "(x mod 4 * 16 + y div 16) mod 16 * 16 + (y mod 16 * 4) div 4 = y"
proof -
  have y: "y div 16 < 16" and z: "z div 64 < 4" using assms by auto
  have "(x mod 4 * 16 + y div 16) div 16 = x mod 4" "(x mod 4 * 16 + y div 16) mod 16 = y div 16"
    using y by simp_all
  moreover have "(y mod 16 * 4 + z div 64) div 4 = y mod 16" "(y mod 16 * 4 + z div 64) mod 4 = z div 64"
    using z by simp_all
  moreover have "x mod 4 < 4" "y mod 16 < 16" by simp_all
  ultimately show "x div 4 < 64" "x mod 4 * 16 < 64" "x mod 4 * 16 + y div 16 < 64" "y mod 16 * 4 < 64"
    "y mod 16 * 4 + z div 64 < 64" "z mod 64 < 64"
    "x div 4 * 4 + (x mod 4 * 16 + y div 16) div 16 = x"
    "(x mod 4 * 16 + y div 16) mod 16 * 16 + (y mod 16 * 4 + z div 64) div 4 = y"
    "(y mod 16 * 4 + z div 64) mod 4 * 64 + z mod 64 = z"
    "(x mod 4 * 16) mod 16 = 0" "x div 4 * 4 + (x mod 4 * 16) div 16 = x"
    "(y mod 16 * 4) mod 4 = 0" "(x mod 4 * 16 + y div 16) mod 16 * 16 + (y mod 16 * 4) div 4 = y"
    using assms y z by (simp_all add: div_mult_mod_eq)
qed

lemma encode_no_breaks: "filter (\<lambda>c. \<not> line_break c) (base64_encode s) = base64_encode s"
proof (induction s rule: base64_encode.induct)
  case (2 a)
  then show ?case using sextets(1,2) [OF byte_bound byte_bound byte_bound, of a] by simp
next
  case (3 a b)
  then show ?case using sextets(1,3,4) [of "ord a" "ord b" "ord b", OF byte_bound byte_bound byte_bound] by simp
next
  case (4 a b c s)
  then show ?case using sextets(1,3,5,6) [of "ord a" "ord b" "ord c", OF byte_bound byte_bound byte_bound] by simp
qed simp


lemma quantum_bytes:
  "quantum3 (ord a div 4) (ord a mod 4 * 16 + ord b div 16) (ord b mod 16 * 4 + ord c div 64) (ord c mod 64) = [a, b, c]"
  using sextets [of "ord a" "ord b" "ord c", OF byte_bound byte_bound byte_bound] by (simp add: quantum3_def)

lemma decode_full:
  "decode_quanta (base64_encode (a # b # c # s)) = map_option ((@) [a, b, c]) (decode_quanta (base64_encode s))"
proof -
  note six = sextets(1,3,5,6) [of "ord a" "ord b" "ord c", OF byte_bound byte_bound byte_bound]
  let ?q = "[base64_digit (ord a div 4), base64_digit (ord a mod 4 * 16 + ord b div 16),
    base64_digit (ord b mod 16 * 4 + ord c div 64), base64_digit (ord c mod 64)]"
  have full: "full_quantum (?q ! 0) (?q ! 1) (?q ! 2) (?q ! 3) = Some [a, b, c]"
    using six by (simp add: full_quantum_def quantum_bytes numeral_3_eq_3)
  have last: "last_quantum (?q ! 0) (?q ! 1) (?q ! 2) (?q ! 3) = Some [a, b, c]"
    using six by (simp add: last_quantum_def quantum_bytes numeral_3_eq_3)
  show ?thesis
  proof (cases "base64_encode s")
    case Nil
    then have "s = []" by (cases s rule: base64_encode.cases) simp_all
    then show ?thesis using last by (simp add: numeral_3_eq_3)
  next
    case (Cons x xs)
    then show ?thesis using full by (simp add: numeral_3_eq_3)
  qed
qed

lemma base64_round_trip: "base64_decode (base64_encode s) = Some s"
proof -
  have "decode_quanta (base64_encode s) = Some s"
  proof (induction s rule: base64_encode.induct)
    case (2 a)
    then show ?case
      using sextets(1,2,10,11) [of "ord a" "ord a" "ord a", OF byte_bound byte_bound byte_bound] by (simp add: last_quantum_def)
  next
    case (3 a b)
    then show ?case
      using sextets(1,3,4,7,12,13) [of "ord a" "ord b" "ord b", OF byte_bound byte_bound byte_bound] by (simp add: last_quantum_def)
  next
    case (4 a b c s)
    then show ?case unfolding decode_full by simp
  qed simp
  then show ?thesis by (simp add: base64_decode_def encode_no_breaks)
qed

end
