(* ===== verification/Dsse.thy ===== *)
theory Dsse
  imports Statement Base64
begin

text \<open>
  internal/capsule/dsse.go: signed envelopes over a statement.  SHA-256 (\<open>sha\<close>) and Ed25519
  (\<open>verify\<close>, \<open>sign\<close>, \<open>public\<close>) are parameters; keys, messages and signatures are byte
  strings.  A Go map of keys is an association list whose first entry for a key counts.
\<close>

section \<open>State\<close>

record dsse_signature =
  ds_key_id :: string
  ds_sig :: string

record dsse_envelope =
  de_payload_type :: string
  de_payload :: string
  de_signatures :: "dsse_signature list"

record trusted_key =
  tk_key_id :: string
  tk_algorithm :: string
  tk_public_key :: string

record trust_root =
  tr_schema_version :: string
  tr_keys :: "trusted_key slice"
  tr_digest :: string

record signature_policy =
  sp_allowed_key_ids :: "string list"
  sp_minimum_signatures :: int

record dsse_report =
  dr_schema_version :: string
  dr_capsule_id :: string
  dr_payload_digest :: string
  dr_trust_root_digest :: string
  dr_trust_mode :: string
  dr_verified_key_ids :: "string list"
  dr_valid :: bool

datatype dsse_error =
    PublicKeyInvalid | PrivateKeyInvalid | TrustRootIdentityInvalid | TrustRootKeysInvalid | TrustRootDigestInvalid
  | TrustEncoding json_error | PayloadRequired | EnvelopeIdentityInvalid | PayloadNotBase64 | PayloadDiffers
  | ThresholdInvalid | PolicyKeysInvalid | PolicyKeyUntrusted string | DuplicateSignature string
  | SignatureInvalid string | ThresholdMissed | StatementRejected statement_error
  | TrustedKeyIdentityInvalid | TrustedKeyInvalid | StatementEncoding json_error

abbreviation DSSEPayloadType :: string where "DSSEPayloadType \<equiv> ''application/vnd.in-toto+json''"
abbreviation TrustRootSchemaVersion :: string where "TrustRootSchemaVersion \<equiv> ''evalwitness.dsse-trusted-keys.v1''"
abbreviation DSSEVerificationVersion :: string where "DSSEVerificationVersion \<equiv> ''evalwitness.dsse-verification.v1''"
abbreviation ExplicitEd25519TrustMode :: string where "ExplicitEd25519TrustMode \<equiv> ''explicit_ed25519_keys''"

section \<open>Keys and trust roots\<close>

definition ed25519_key_id :: "(string \<Rightarrow> string) \<Rightarrow> string \<Rightarrow> string" where
  "ed25519_key_id sha public_key = DigestAlgorithm @ '':'' @ digest_bytes sha public_key"

definition valid_key_id :: "string \<Rightarrow> bool" where
  "valid_key_id value \<longleftrightarrow> prefix (DigestAlgorithm @ '':'') value \<and>
     valid_digest (drop (length (DigestAlgorithm @ '':'')) value)"

definition dsse_pae :: "string \<Rightarrow> string \<Rightarrow> string" where
  "dsse_pae payload_type payload =
     ''DSSEv1 '' @ nat_text (length payload_type) @ '' '' @ payload_type @ '' '' @
     nat_text (length payload) @ '' '' @ payload"

definition decode_trusted_key :: "trusted_key \<Rightarrow> dsse_error + string" where
  "decode_trusted_key key =
     (if tk_algorithm key \<noteq> ''ed25519'' \<or> \<not> valid_key_id (tk_key_id key) then Inl TrustedKeyIdentityInvalid
      else case base64_decode (tk_public_key key) of
        None \<Rightarrow> Inl TrustedKeyInvalid
      | Some raw \<Rightarrow> if length raw \<noteq> 32 then Inl TrustedKeyInvalid else Inr raw)"

definition trusted_key_json :: "trusted_key \<Rightarrow> json" where
  "trusted_key_json k = JObj [(''key_id'', JStr (tk_key_id k)), (''algorithm'', JStr (tk_algorithm k)),
     (''public_key'', JStr (tk_public_key k))]"

definition trust_root_digest :: "(string \<Rightarrow> string) \<Rightarrow> trust_root \<Rightarrow> json_error + string" where
  "trust_root_digest sha root = digest sha (JObj [
     (''schema_version'', JStr (tr_schema_version root)),
     (''keys'', json_slice trusted_key_json (tr_keys root)), (''digest'', JStr [])])"

definition check_trusted_key :: "(string \<Rightarrow> string) \<Rightarrow> trusted_key \<Rightarrow> dsse_error option" where
  "check_trusted_key sha key =
     (case decode_trusted_key key of
        Inl e \<Rightarrow> Some TrustRootKeysInvalid
      | Inr public_key \<Rightarrow> fail_if (tk_key_id key \<noteq> ed25519_key_id sha public_key) TrustRootKeysInvalid)"

definition trust_root_validate :: "(string \<Rightarrow> string) \<Rightarrow> trust_root \<Rightarrow> dsse_error option" where
  "trust_root_validate sha root = first_err [
     fail_if (tr_schema_version root \<noteq> TrustRootSchemaVersion \<or> \<not> valid_digest (tr_digest root) \<or>
       elems (tr_keys root) = []) TrustRootIdentityInvalid,
     scan_from (check_trusted_key sha) TrustRootKeysInvalid tk_key_id [] (elems (tr_keys root)),
     fail_if (trust_root_digest sha root \<noteq> Inr (tr_digest root)) TrustRootDigestInvalid]"

definition trusted_key_of :: "(string \<Rightarrow> string) \<Rightarrow> string \<Rightarrow> trusted_key" where
  "trusted_key_of sha public_key =
     \<lparr> tk_key_id = ed25519_key_id sha public_key, tk_algorithm = ''ed25519'',
       tk_public_key = base64_encode public_key \<rparr>"

definition seal_trust_root :: "(string \<Rightarrow> string) \<Rightarrow> string list \<Rightarrow> dsse_error + trust_root" where
  "seal_trust_root sha public_keys =
     (if \<exists>k \<in> set public_keys. length k \<noteq> 32 then Inl PublicKeyInvalid
      else
        let keys = map (trusted_key_of sha) public_keys;
            root = \<lparr> tr_schema_version = TrustRootSchemaVersion,
              tr_keys = (if keys = [] then None else Some (sort_key tk_key_id keys)), tr_digest = [] \<rparr>
        in case trust_root_digest sha root of
          Inl e \<Rightarrow> Inl (TrustEncoding e)
        | Inr d \<Rightarrow>
            (case trust_root_validate sha (root\<lparr>tr_digest := d\<rparr>) of
               Some e \<Rightarrow> Inl e
             | None \<Rightarrow> Inr (root\<lparr>tr_digest := d\<rparr>)))"

fun policy_keys :: "string list \<Rightarrow> string \<Rightarrow> string list \<Rightarrow> dsse_error option" where
  "policy_keys trusted previous [] = None"
| "policy_keys trusted previous (key_id # key_ids) = first_err [
     fail_if (\<not> valid_key_id key_id \<or> key_id \<le> previous) PolicyKeysInvalid,
     fail_if (key_id \<notin> set trusted) (PolicyKeyUntrusted key_id),
     policy_keys trusted key_id key_ids]"

definition signature_policy_validate :: "signature_policy \<Rightarrow> trust_root \<Rightarrow> dsse_error option" where
  "signature_policy_validate p root = first_err [
     fail_if (sp_minimum_signatures p < 1 \<or> sp_minimum_signatures p > int (length (sp_allowed_key_ids p)))
       ThresholdInvalid,
     policy_keys (map tk_key_id (elems (tr_keys root))) [] (sp_allowed_key_ids p)]"

definition trusted_keys :: "trust_root \<Rightarrow> (string \<times> string) list" where
  "trusted_keys root = concat (map (\<lambda>key. case decode_trusted_key key of
       Inl e \<Rightarrow> [] | Inr public_key \<Rightarrow> [(tk_key_id key, public_key)]) (rev (elems (tr_keys root))))"

section \<open>Envelopes\<close>

fun check_signatures ::
  "(string \<Rightarrow> string \<Rightarrow> string \<Rightarrow> bool) \<Rightarrow> (string \<times> string) list \<Rightarrow> string list \<Rightarrow> string \<Rightarrow> string list \<Rightarrow>
   dsse_signature list \<Rightarrow> dsse_error + string list" where
  "check_signatures verify trusted allowed pae verified [] = Inr verified"
| "check_signatures verify trusted allowed pae verified (signature # signatures) =
     (if ds_key_id signature \<in> set verified then Inl (DuplicateSignature (ds_key_id signature))
      else case (map_of trusted (ds_key_id signature), base64_decode (ds_sig signature)) of
        (Some public_key, Some raw) \<Rightarrow>
          if ds_key_id signature \<notin> set allowed \<or> length raw \<noteq> 64 \<or> \<not> verify public_key pae raw
          then Inl (SignatureInvalid (ds_key_id signature))
          else check_signatures verify trusted allowed pae (verified @ [ds_key_id signature]) signatures
      | _ \<Rightarrow> Inl (SignatureInvalid (ds_key_id signature)))"

definition verify_signatures ::
  "(string \<Rightarrow> string \<Rightarrow> string \<Rightarrow> bool) \<Rightarrow> dsse_envelope \<Rightarrow> string \<Rightarrow> trust_root \<Rightarrow> signature_policy \<Rightarrow>
   dsse_error + string list" where
  "verify_signatures verify envelope payload root policy =
     (case check_signatures verify (trusted_keys root) (sp_allowed_key_ids policy)
         (dsse_pae (de_payload_type envelope) payload) [] (de_signatures envelope) of
        Inl e \<Rightarrow> Inl e
      | Inr verified \<Rightarrow>
          if int (length verified) < sp_minimum_signatures policy then Inl ThresholdMissed
          else Inr (sort verified))"

definition verify_payload_signatures ::
  "(string \<Rightarrow> string) \<Rightarrow> (string \<Rightarrow> string \<Rightarrow> string \<Rightarrow> bool) \<Rightarrow> dsse_envelope \<Rightarrow> string \<Rightarrow> string \<Rightarrow> trust_root \<Rightarrow>
   signature_policy \<Rightarrow> dsse_error + string list" where
  "verify_payload_signatures sha verify envelope expected_type expected_payload root policy =
     (case first_err [
        fail_if (expected_type = [] \<or> expected_payload = [] \<or> de_payload_type envelope \<noteq> expected_type \<or>
          de_signatures envelope = []) EnvelopeIdentityInvalid,
        trust_root_validate sha root,
        signature_policy_validate policy root] of
        Some e \<Rightarrow> Inl e
      | None \<Rightarrow>
          (case base64_decode (de_payload envelope) of
             None \<Rightarrow> Inl PayloadNotBase64
           | Some payload \<Rightarrow>
               if payload \<noteq> expected_payload then Inl PayloadDiffers
               else verify_signatures verify envelope payload root policy))"

definition verify_envelope ::
  "(string \<Rightarrow> string) \<Rightarrow> (string \<Rightarrow> string \<Rightarrow> string \<Rightarrow> bool) \<Rightarrow> dsse_envelope \<Rightarrow> manifest \<Rightarrow> trust_root \<Rightarrow>
   signature_policy \<Rightarrow> dsse_error + dsse_report" where
  "verify_envelope sha verify envelope m root policy =
     (case first_err [
        fail_if (de_payload_type envelope \<noteq> DSSEPayloadType \<or> de_signatures envelope = []) EnvelopeIdentityInvalid,
        trust_root_validate sha root,
        signature_policy_validate policy root] of
        Some e \<Rightarrow> Inl e
      | None \<Rightarrow>
          (case base64_decode (de_payload envelope) of None \<Rightarrow> Inl PayloadNotBase64 | Some payload \<Rightarrow>
          (case decode_statement payload m of Inl e \<Rightarrow> Inl (StatementRejected e) | Inr _ \<Rightarrow>
          (case verify_payload_signatures sha verify envelope DSSEPayloadType payload root policy of
             Inl e \<Rightarrow> Inl e
           | Inr verified \<Rightarrow> Inr \<lparr> dr_schema_version = DSSEVerificationVersion, dr_capsule_id = mf_capsule_id m,
               dr_payload_digest = digest_bytes sha payload, dr_trust_root_digest = tr_digest root,
               dr_trust_mode = ExplicitEd25519TrustMode, dr_verified_key_ids = verified, dr_valid = True \<rparr>))))"

definition sign_payload ::
  "(string \<Rightarrow> string) \<Rightarrow> (string \<Rightarrow> string \<Rightarrow> string) \<Rightarrow> (string \<Rightarrow> string) \<Rightarrow> string \<Rightarrow> string \<Rightarrow> string \<Rightarrow>
   dsse_error + dsse_envelope" where
  "sign_payload sha sign public payload_type payload private_key =
     (if payload_type = [] \<or> payload = [] then Inl PayloadRequired
      else if length private_key \<noteq> 64 then Inl PrivateKeyInvalid
      else Inr \<lparr> de_payload_type = payload_type, de_payload = base64_encode payload,
        de_signatures = [\<lparr> ds_key_id = ed25519_key_id sha (public private_key),
          ds_sig = base64_encode (sign private_key (dsse_pae payload_type payload)) \<rparr>] \<rparr>)"

definition sign_statement ::
  "(string \<Rightarrow> string) \<Rightarrow> (string \<Rightarrow> string \<Rightarrow> string) \<Rightarrow> (string \<Rightarrow> string) \<Rightarrow> in_toto_statement \<Rightarrow> manifest \<Rightarrow> string \<Rightarrow>
   dsse_error + dsse_envelope" where
  "sign_statement sha sign public s m private_key =
     (case statement_validate s m of Some e \<Rightarrow> Inl (StatementRejected e) | None \<Rightarrow>
     (case encode_statement s of Inl e \<Rightarrow> Inl (StatementEncoding e) | Inr payload \<Rightarrow>
        sign_payload sha sign public DSSEPayloadType payload private_key))"

section \<open>The encoding that is signed\<close>

lemma length_digits_only: "\<forall>c \<in> set (nat_text n). is_digit c"
proof (induction n rule: nat_text.induct)
  case (1 n)
  have d: "is_digit (chr (48 + k))" if "k < 10" for k
    using that by (simp add: is_digit_iff)
  then show ?case using 1 by (subst nat_text.simps) (auto simp: d)
qed

lemma nat_text_int: "nat_text n = int_text (int n)"
  by (simp add: int_text_def)

lemma nat_text_space:
  assumes "nat_text n @ '' '' @ s = nat_text n' @ '' '' @ s'"
  shows "n = n' \<and> s = s'"
proof -
  have t: "takeWhile is_digit (nat_text k @ '' '' @ r) = nat_text k" for k r
    using length_digits_only [of k] by (simp add: takeWhile_append2 is_digit_iff)
  have "nat_text n = nat_text n'" using t [of n s] t [of n' s'] assms by metis
  then have "n = n'" by (simp add: nat_text_int)
  with assms show ?thesis by simp
qed

lemma pae_inject:
  assumes "dsse_pae t p = dsse_pae t' p'"
  shows "t = t' \<and> p = p'"
proof -
  have "nat_text (length t) @ '' '' @ (t @ '' '' @ nat_text (length p) @ '' '' @ p) =
      nat_text (length t') @ '' '' @ (t' @ '' '' @ nat_text (length p') @ '' '' @ p')"
    using assms by (simp add: dsse_pae_def)
  from nat_text_space [OF this] have l: "length t = length t'"
    and "t @ '' '' @ nat_text (length p) @ '' '' @ p = t' @ '' '' @ nat_text (length p') @ '' '' @ p'" by auto
  then have "t = t'" and "nat_text (length p) @ '' '' @ p = nat_text (length p') @ '' '' @ p'" by auto
  with nat_text_space show ?thesis by blast
qed

section \<open>Signatures\<close>

lemma check_signatures_ok:
  assumes "check_signatures verify trusted allowed pae verified signatures = Inr result" and "distinct verified"
  shows "result = verified @ map ds_key_id signatures \<and> distinct result \<and>
    (\<forall>x \<in> set signatures. ds_key_id x \<in> set allowed \<and>
      (\<exists>public_key raw. map_of trusted (ds_key_id x) = Some public_key \<and> base64_decode (ds_sig x) = Some raw \<and>
        verify public_key pae raw))"
  using assms
proof (induction signatures arbitrary: verified)
  case (Cons x signatures)
  from Cons.prems(1) obtain public_key raw where
    x: "ds_key_id x \<notin> set verified" "map_of trusted (ds_key_id x) = Some public_key"
      "base64_decode (ds_sig x) = Some raw" "ds_key_id x \<in> set allowed" "verify public_key pae raw"
    and rest: "check_signatures verify trusted allowed pae (verified @ [ds_key_id x]) signatures = Inr result"
    by (auto split: if_splits option.splits)
  have "distinct (verified @ [ds_key_id x])" using Cons.prems(2) x(1) by simp
  from Cons.IH [OF rest this] x show ?case by auto blast
qed simp

lemma trusted_keys_bound:
  assumes "trust_root_validate sha root = None" and "map_of (trusted_keys root) k = Some public_key"
  shows "k = ed25519_key_id sha public_key \<and> (\<exists>key \<in> set (elems (tr_keys root)). tk_key_id key = k)"
proof -
  have "(k, public_key) \<in> set (trusted_keys root)" by (rule map_of_SomeD [OF assms(2)])
  then obtain key where key: "key \<in> set (elems (tr_keys root))" "decode_trusted_key key = Inr public_key" "tk_key_id key = k"
    by (auto simp: trusted_keys_def split: sum.splits)
  moreover have "check_trusted_key sha key = None"
    using assms(1) key(1) by (simp add: trust_root_validate_def)
  ultimately show ?thesis by (auto simp: check_trusted_key_def)
qed


section \<open>Properties\<close>

text \<open>
  The bytes that are signed determine the payload type and the payload.
\<close>

lemma pae_binds: "dsse_pae t p = dsse_pae t' p' \<longleftrightarrow> t = t' \<and> p = p'"
  using pae_inject by blast

text \<open>
  C35: an envelope that verifies carries enough real signatures: its payload is the encoding of a
  statement about the manifest, and at least the number of different keys that the policy asks for
  have signed exactly this payload, each of them allowed by the policy and in the trust root, and each
  named by the digest of the public key that verified its signature.
\<close>

theorem verified_envelope_threshold:
  assumes "verify_envelope sha verify envelope m root policy = Inr report"
  shows "\<exists>payload s. base64_decode (de_payload envelope) = Some payload \<and> decode_statement payload m = Inr s \<and>
    distinct (dr_verified_key_ids report) \<and> 1 \<le> sp_minimum_signatures policy \<and>
    sp_minimum_signatures policy \<le> int (length (dr_verified_key_ids report)) \<and>
    (\<forall>k \<in> set (dr_verified_key_ids report). k \<in> set (sp_allowed_key_ids policy) \<and>
      k \<in> tk_key_id ` set (elems (tr_keys root)) \<and>
      (\<exists>public_key raw. k = ed25519_key_id sha public_key \<and>
        verify public_key (dsse_pae DSSEPayloadType payload) raw \<and>
        (\<exists>x \<in> set (de_signatures envelope). ds_key_id x = k \<and> base64_decode (ds_sig x) = Some raw)))"
proof -
  obtain payload s verified where p: "base64_decode (de_payload envelope) = Some payload"
    and s: "decode_statement payload m = Inr s"
    and v: "verify_payload_signatures sha verify envelope DSSEPayloadType payload root policy = Inr verified"
    and r: "dr_verified_key_ids report = verified"
    using assms unfolding verify_envelope_def
    by (auto simp del: first_err.simps split: option.splits sum.splits)
  then have t: "de_payload_type envelope = DSSEPayloadType" and root: "trust_root_validate sha root = None"
    and min: "1 \<le> sp_minimum_signatures policy"
    and vs: "verify_signatures verify envelope payload root policy = Inr verified"
    using v unfolding verify_payload_signatures_def
    by (auto simp: signature_policy_validate_def simp del: first_err.simps split: option.splits if_splits)
  obtain keys where c: "check_signatures verify (trusted_keys root) (sp_allowed_key_ids policy)
      (dsse_pae DSSEPayloadType payload) [] (de_signatures envelope) = Inr keys"
    and n: "sp_minimum_signatures policy \<le> int (length keys)" and sorted: "verified = sort keys"
    using vs unfolding verify_signatures_def t by (auto split: sum.splits if_splits)
  note ok = check_signatures_ok [OF c, simplified]
  have "k \<in> set (sp_allowed_key_ids policy) \<and> k \<in> tk_key_id ` set (elems (tr_keys root)) \<and>
      (\<exists>public_key raw. k = ed25519_key_id sha public_key \<and>
        verify public_key (dsse_pae DSSEPayloadType payload) raw \<and>
        (\<exists>x \<in> set (de_signatures envelope). ds_key_id x = k \<and> base64_decode (ds_sig x) = Some raw))"
    if "k \<in> set verified" for k
  proof -
    from that ok sorted obtain x where x: "x \<in> set (de_signatures envelope)" "ds_key_id x = k" by auto
    with ok obtain public_key raw where "map_of (trusted_keys root) k = Some public_key"
      "base64_decode (ds_sig x) = Some raw" "verify public_key (dsse_pae DSSEPayloadType payload) raw"
      "k \<in> set (sp_allowed_key_ids policy)" by auto
    with x trusted_keys_bound [OF root this(1)] show ?thesis by (auto intro: rev_image_eqI)
  qed
  moreover have "distinct verified" "sp_minimum_signatures policy \<le> int (length verified)"
    using ok n unfolding sorted by (auto simp: distinct_sort)
  ultimately show ?thesis using p s min unfolding r by (intro exI [of _ payload] exI [of _ s]) simp
qed

lemma signed_verifies:
  assumes "\<And>msg. verify (public sk) msg (sign sk msg)" and "\<And>msg. length (sign sk msg) = 64"
    and "decode_statement payload m = Inr s" and "encode_statement s = Inr payload"
    and "sign_statement sha sign public s m sk = Inr envelope"
    and "seal_trust_root sha [public sk] = Inr root"
    and "policy = \<lparr> sp_allowed_key_ids = [ed25519_key_id sha (public sk)], sp_minimum_signatures = 1 \<rparr>"
  shows "\<exists>report. verify_envelope sha verify envelope m root policy = Inr report \<and>
    dr_verified_key_ids report = [ed25519_key_id sha (public sk)]"
proof -
  let ?k = "ed25519_key_id sha (public sk)"
  have env: "payload \<noteq> []" "de_payload_type envelope = DSSEPayloadType" "de_payload envelope = base64_encode payload"
    "de_signatures envelope = [\<lparr> ds_key_id = ?k, ds_sig = base64_encode (sign sk (dsse_pae DSSEPayloadType payload)) \<rparr>]"
    using assms(4,5) by (auto simp: sign_statement_def sign_payload_def split: option.splits if_splits)
  have root: "trust_root_validate sha root = None" "elems (tr_keys root) = [trusted_key_of sha (public sk)]"
    using assms(6) by (auto simp: seal_trust_root_def Let_def simp del: first_err.simps split: option.splits sum.splits if_splits)
  have "check_trusted_key sha (trusted_key_of sha (public sk)) = None" and k: "?k \<noteq> []"
    using root by (simp_all add: trust_root_validate_def ed25519_key_id_def)
  then have key: "decode_trusted_key (trusted_key_of sha (public sk)) = Inr (public sk)"
    by (auto simp: check_trusted_key_def decode_trusted_key_def trusted_key_of_def base64_round_trip split: sum.splits if_splits)
  have id: "tk_key_id (trusted_key_of sha (public sk)) = ?k" by (simp add: trusted_key_of_def)
  then have valid: "valid_key_id ?k" using key by (auto simp: decode_trusted_key_def split: if_splits)
  have trusted: "trusted_keys root = [(?k, public sk)]" by (simp add: trusted_keys_def root(2) key id)
  have "signature_policy_validate policy root = None"
    using valid k by (simp add: signature_policy_validate_def assms(7) root(2) id)
  moreover have "verify_signatures verify envelope payload root policy = Inr [?k]"
    using assms(1,2) by (simp add: verify_signatures_def env trusted assms(7) base64_round_trip)
  ultimately show ?thesis
    using env root(1) assms(3)
    by (simp add: verify_envelope_def verify_payload_signatures_def base64_round_trip fail_if_def)
qed

text \<open>
  C36: what is signed verifies: with a signature scheme that accepts its own signatures, the
  envelope that \<open>SignStatement\<close> makes for the statement of an accepted manifest verifies
  under the trust root that is sealed over the signer's key and the policy that asks for it.
\<close>

theorem signed_statement_verifies:
  assumes "\<And>msg. verify (public sk) msg (sign sk msg)" and "\<And>msg. length (sign sk msg) = 64"
    and "loaded sha reg" and "build_statement sha m (Some reg) = Inr s"
    and "sign_statement sha sign public s m sk = Inr envelope"
    and "seal_trust_root sha [public sk] = Inr root"
    and "policy = \<lparr> sp_allowed_key_ids = [ed25519_key_id sha (public sk)], sp_minimum_signatures = 1 \<rparr>"
  shows "\<exists>report. verify_envelope sha verify envelope m root policy = Inr report \<and>
    dr_verified_key_ids report = [ed25519_key_id sha (public sk)]"
proof -
  obtain payload where e: "encode_statement s = Inr payload"
    using assms(5) by (auto simp: sign_statement_def split: option.splits sum.splits)
  have "decode_statement payload m = Inr s" by (rule statement_survives [OF assms(3,4) e])
  then show ?thesis by (rule signed_verifies [where verify = verify and sign = sign and public = public and sk = sk and sha = sha,
        OF assms(1,2) _ e assms(5-7)])
qed

section \<open>A sample envelope\<close>

definition toy_signature :: string where "toy_signature = replicate 64 CHR ''s''"
definition toy_key :: string where "toy_key = replicate 32 CHR ''k''"

definition sample_payload :: string where
  "sample_payload = write_canonical_value (coerce (statement_json (statement_of sample_manifest)))"

definition sample_envelope :: dsse_envelope where
  "sample_envelope = \<lparr> de_payload_type = DSSEPayloadType, de_payload = base64_encode sample_payload,
     de_signatures = [\<lparr> ds_key_id = ed25519_key_id flat_sha toy_key, ds_sig = base64_encode toy_signature \<rparr>] \<rparr>"

definition sample_root :: trust_root where
  "sample_root = \<lparr> tr_schema_version = TrustRootSchemaVersion,
     tr_keys = Some [trusted_key_of flat_sha toy_key], tr_digest = flat_sha [] \<rparr>"

definition sample_policy :: signature_policy where
  "sample_policy = \<lparr> sp_allowed_key_ids = [ed25519_key_id flat_sha toy_key], sp_minimum_signatures = 1 \<rparr>"

lemma sample_encoded: "encode_statement (statement_of sample_manifest) = Inr sample_payload"
  "build_statement flat_sha sample_manifest (Some sample_registry) = Inr (statement_of sample_manifest)"
proof -
  have "check_value (coerce (statement_json (statement_of sample_manifest))) 0 = None"
    by (simp add: statement_json_def statement_of_def Let_def json_slice_def subject_json_def predicate_json_def
        map_json_def json_int_def validate_int_text maximum_safe_json_integer_def verification_report_of_def
        sample_manifest_def sample_record_def count_visibility_def)
  then show "encode_statement (statement_of sample_manifest) = Inr sample_payload"
    by (simp add: encode_statement_def canonical_marshal_def sample_payload_def)
  show "build_statement flat_sha sample_manifest (Some sample_registry) = Inr (statement_of sample_manifest)"
    using sample_valid statement_accepts by (simp add: build_statement_def map_err_def)
qed

lemma write_opens: "write_canonical_value (JObj ms) \<noteq> []"
  by simp

lemma sample_signed:
  "sign_statement flat_sha (\<lambda>_ _. toy_signature) (\<lambda>_. toy_key) (statement_of sample_manifest) sample_manifest
     (replicate 64 CHR ''k'') = Inr sample_envelope"
proof -
  have "sample_payload \<noteq> []" by (simp add: sample_payload_def statement_json_def)
  then show ?thesis
    using statement_accepts [of sample_manifest] sample_encoded(1)
    by (simp add: sign_statement_def sign_payload_def sample_envelope_def)
qed

lemma sample_sealed: "seal_trust_root flat_sha [toy_key] = Inr sample_root"
proof -
  have "valid_key_id (ed25519_key_id flat_sha toy_key)"
    using flat_valid flat_sha_eq [of toy_key] by (simp add: valid_key_id_def ed25519_key_id_def digest_bytes_def)
  then have "check_trusted_key flat_sha (trusted_key_of flat_sha toy_key) = None"
    by (simp add: check_trusted_key_def decode_trusted_key_def trusted_key_of_def base64_round_trip toy_key_def)
  moreover have "tk_key_id (trusted_key_of flat_sha toy_key) \<noteq> []"
    by (simp add: trusted_key_of_def ed25519_key_id_def)
  moreover have "trust_root_digest flat_sha r = Inr (flat_sha [])"
    if "tr_keys r = Some [trusted_key_of flat_sha toy_key]" "tr_schema_version r = TrustRootSchemaVersion" for r
    unfolding trust_root_digest_def flat_digest using that
    by (simp add: json_slice_def trusted_key_json_def)
  ultimately show ?thesis
    by (simp add: seal_trust_root_def trust_root_validate_def sample_root_def toy_key_def Let_def)
qed

theorem signed_statement_verifies_witness:
  "\<exists>report. verify_envelope flat_sha (\<lambda>_ _ raw. raw = toy_signature) sample_envelope sample_manifest sample_root
     sample_policy = Inr report \<and> dr_verified_key_ids report = [ed25519_key_id flat_sha toy_key]"
  by (rule signed_statement_verifies [where verify = "\<lambda>_ _ raw. raw = toy_signature" and
        sign = "\<lambda>_ _. toy_signature" and public = "\<lambda>_. toy_key", OF _ _ sample_loaded sample_encoded(2) sample_signed sample_sealed sample_policy_def])
    (simp_all add: toy_signature_def)

theorem verified_envelope_threshold_witness:
  "\<exists>payload s. base64_decode (de_payload sample_envelope) = Some payload \<and>
     decode_statement payload sample_manifest = Inr s"
proof -
  have "decode_statement sample_payload sample_manifest = Inr (statement_of sample_manifest)"
    by (rule statement_survives [OF sample_loaded sample_encoded(2,1)])
  then obtain report where "verify_envelope flat_sha (\<lambda>_ _ raw. raw = toy_signature) sample_envelope sample_manifest
      sample_root sample_policy = Inr report"
    using signed_verifies [where verify = "\<lambda>_ _ raw. raw = toy_signature" and sign = "\<lambda>_ _. toy_signature" and
        public = "\<lambda>_. toy_key", OF _ _ _ sample_encoded(1) sample_signed sample_sealed sample_policy_def]
    by (auto simp: toy_signature_def)
  from verified_envelope_threshold [OF this] show ?thesis by blast
qed

end
