(* ===== verification/Float64.thy ===== *)
theory Float64
  imports GoBase Complex_Main
begin

text \<open>
  Go's \<open>float64\<close> arithmetic on rationals: a finite value is the rational it stands for, and each
  operation rounds the exact result to the nearest value with 53 bits of precision, ties to
  even, with gradual underflow below \<open>2 powr - 1022\<close> and overflow to infinity.  The two
  zeros are one value, which no comparison of the program tells apart.
\<close>

datatype f64 = NaN | Infinite bool | Finite rat

function int_log2 :: "int \<Rightarrow> int" where
  "int_log2 n = (if n < 2 then 0 else 1 + int_log2 (n div 2))"
  by pat_completeness auto
termination
  by (relation "measure nat") auto

declare int_log2.simps [simp del]

definition pow2 :: "int \<Rightarrow> rat" where
  "pow2 k = (if 0 \<le> k then 2 ^ nat k else 1 / 2 ^ nat (- k))"

text \<open>The exponent of the leading bit of a positive rational.\<close>

definition floor_log2 :: "rat \<Rightarrow> int" where
  "floor_log2 q =
     (let (a, b) = quotient_of q;
          k = int_log2 a - int_log2 b
      in if pow2 k \<le> q then k else k - 1)"

definition round_half_even :: "rat \<Rightarrow> int" where
  "round_half_even q =
     (let n = \<lfloor>q\<rfloor>; r = q - of_int n in
      if r < 1 / 2 then n else if r > 1 / 2 then n + 1 else if even n then n else n + 1)"

definition round_positive :: "rat \<Rightarrow> rat" where
  "round_positive q =
     (let unit = pow2 (max (floor_log2 q - 52) (- 1074)) in of_int (round_half_even (q / unit)) * unit)"

definition round64 :: "rat \<Rightarrow> f64" where
  "round64 q =
     (if q = 0 then Finite 0
      else let r = round_positive \<bar>q\<bar> in
        if pow2 1024 \<le> r then Infinite (q < 0) else Finite (if q < 0 then - r else r))"

definition f64_of_int :: "int \<Rightarrow> f64" where
  "f64_of_int i = round64 (of_int i)"

fun fadd :: "f64 \<Rightarrow> f64 \<Rightarrow> f64" where
  "fadd NaN b = NaN"
| "fadd a NaN = NaN"
| "fadd (Infinite s) (Infinite t) = (if s = t then Infinite s else NaN)"
| "fadd (Infinite s) b = Infinite s"
| "fadd a (Infinite t) = Infinite t"
| "fadd (Finite p) (Finite q) = round64 (p + q)"

fun fneg :: "f64 \<Rightarrow> f64" where
  "fneg NaN = NaN"
| "fneg (Infinite s) = Infinite (\<not> s)"
| "fneg (Finite q) = Finite (- q)"

definition fsub :: "f64 \<Rightarrow> f64 \<Rightarrow> f64" where
  "fsub a b = fadd a (fneg b)"

fun fdiv_finite :: "f64 \<Rightarrow> rat \<Rightarrow> f64" where
  "fdiv_finite (Finite p) d = round64 (p / d)"
| "fdiv_finite NaN d = NaN"
| "fdiv_finite (Infinite s) d = Infinite (s \<noteq> (d < 0))"

fun flt :: "f64 \<Rightarrow> f64 \<Rightarrow> bool" where
  "flt NaN b = False"
| "flt a NaN = False"
| "flt (Infinite s) (Infinite t) = (s \<and> \<not> t)"
| "flt (Infinite s) (Finite q) = s"
| "flt (Finite p) (Infinite t) = (\<not> t)"
| "flt (Finite p) (Finite q) = (p < q)"

definition feq :: "f64 \<Rightarrow> f64 \<Rightarrow> bool" where
  "feq a b \<longleftrightarrow> a = b \<and> a \<noteq> NaN"

abbreviation fzero :: f64 where "fzero \<equiv> Finite 0"

section \<open>Facts\<close>

lemma round_half_even_nonneg: "0 \<le> q \<Longrightarrow> 0 \<le> round_half_even q"
  by (simp add: round_half_even_def Let_def)

lemma pow2_pos [simp]: "0 < pow2 k"
  by (simp add: pow2_def)

lemma round_positive_nonneg: "0 \<le> q \<Longrightarrow> 0 \<le> round_positive q"
  by (simp add: round_positive_def Let_def round_half_even_nonneg less_imp_le [OF pow2_pos])

text \<open>Rounding never changes the sign, so sums of nonnegative costs are never negative.\<close>

lemma round64_sign: "0 \<le> q \<Longrightarrow> \<not> flt (round64 q) fzero"
  using round_positive_nonneg [of q] by (auto simp: round64_def Let_def)

lemma fadd_nonneg:
  assumes "\<not> flt a fzero" and "\<not> flt b fzero"
  shows "\<not> flt (fadd a b) fzero"
  using assms by (cases a; cases b) (auto simp: not_less round64_sign add_nonneg_nonneg)

lemma flt_irrefl [simp]: "\<not> flt a a"
  by (cases a) auto

lemma flt_trans: "flt a b \<Longrightarrow> flt b c \<Longrightarrow> flt a c"
  by (cases a; cases b; cases c) auto


section \<open>The rounding exponent\<close>

lemma pow2_add: "pow2 (j + k) = pow2 j * pow2 k"
proof -
  have "pow2 k = 2 powi k" for k
    by (simp add: pow2_def power_int_def inverse_eq_divide power_one_over)
  then show ?thesis by (simp add: power_int_add)
qed

lemma pow2_mono: "j \<le> k \<Longrightarrow> pow2 j \<le> pow2 k"
proof -
  assume "j \<le> k"
  then have "pow2 k = pow2 j * pow2 (k - j)" by (simp add: pow2_add [symmetric])
  moreover have "1 \<le> pow2 (k - j)" using \<open>j \<le> k\<close> by (simp add: pow2_def)
  then have "pow2 j * 1 \<le> pow2 j * pow2 (k - j)" by (intro mult_left_mono) (simp_all add: less_imp_le)
  ultimately show ?thesis by simp
qed

lemma pow2_less: "pow2 j < pow2 k \<Longrightarrow> j < k"
  using pow2_mono [of k j] by (cases "k \<le> j") auto

lemma int_log2_bounds:
  "0 < n \<Longrightarrow> 0 \<le> int_log2 n \<and> pow2 (int_log2 n) \<le> of_int n \<and> of_int n < pow2 (int_log2 n + 1)"
proof (induction n rule: int_log2.induct)
  case (1 n)
  show ?case
  proof (cases "n < 2")
    case True
    with 1(2) have "n = 1" by simp
    then show ?thesis by (simp add: int_log2.simps pow2_def)
  next
    case False
    then have IH: "0 \<le> int_log2 (n div 2)" "pow2 (int_log2 (n div 2)) \<le> of_int (n div 2)"
      "of_int (n div 2) < pow2 (int_log2 (n div 2) + 1)" using 1(1) by auto
    define k where "k = nat (int_log2 (n div 2))"
    have k: "int_log2 (n div 2) = int k" using IH(1) by (simp add: k_def)
    have nat: "pow2 (int j) = of_int (2 ^ j)" for j by (simp add: pow2_def)
    have "of_int (2 ^ k) \<le> (of_int (n div 2) :: rat)"
      using IH(2) unfolding k nat .
    moreover have "(of_int (n div 2) :: rat) < of_int (2 ^ (k + 1))"
      using IH(3) nat [of "k + 1"] unfolding k by (simp add: add.commute)
    ultimately have "2 ^ k \<le> n div 2" "n div 2 < 2 ^ (k + 1)" by (simp_all only: of_int_le_iff of_int_less_iff)
    then have n: "2 ^ (k + 1) \<le> n" "n < 2 ^ (k + 2)" by auto
    have l: "int_log2 n = int (k + 1)" using False k by (simp add: int_log2.simps)
    have "pow2 (int_log2 n) \<le> of_int n"
      unfolding l nat using n(1) by (simp only: of_int_le_iff)
    moreover have "of_int n < pow2 (int (k + 2))"
      unfolding nat using n(2) by (simp only: of_int_less_iff)
    then have "of_int n < pow2 (int_log2 n + 1)" unfolding l by simp
    ultimately show ?thesis unfolding l by simp
  qed
qed

lemma floor_log2_bounds:
  assumes "0 < q"
  shows "pow2 (floor_log2 q) \<le> q \<and> q < pow2 (floor_log2 q + 1)"
proof -
  obtain a b where ab: "quotient_of q = (a, b)" by force
  have b: "0 < b" by (rule quotient_of_denom_pos [OF ab])
  have q: "q = of_int a / of_int b" by (rule quotient_of_div [OF ab])
  have "(0::rat) < of_int a" using assms b unfolding q by (simp add: zero_less_divide_iff)
  then have a: "0 < a" by simp
  let ?k = "int_log2 a - int_log2 b"
  have A: "pow2 (int_log2 a) \<le> of_int a" "of_int a < pow2 (int_log2 a + 1)"
    and B: "pow2 (int_log2 b) \<le> of_int b" "of_int b < pow2 (int_log2 b + 1)"
    using int_log2_bounds a b by auto
  have "q < pow2 (?k + 1)"
  proof -
    have "of_int a < pow2 (?k + 1) * pow2 (int_log2 b)"
      using A(2) by (simp add: pow2_add [symmetric])
    also have "\<dots> \<le> pow2 (?k + 1) * of_int b" using B(1) by simp
    finally show ?thesis using b unfolding q by (simp add: pos_divide_less_eq)
  qed
  moreover have "pow2 (?k - 1) \<le> q"
  proof -
    have "pow2 (?k - 1) * of_int b \<le> pow2 (?k - 1) * pow2 (int_log2 b + 1)" using B(2) by simp
    also have "\<dots> = pow2 (int_log2 a)" by (simp add: pow2_add [symmetric])
    finally show ?thesis using A(1) b unfolding q by (simp add: pos_le_divide_eq)
  qed
  ultimately show ?thesis unfolding floor_log2_def ab by (auto simp: Let_def not_le)
qed

lemma floor_log2_eq:
  assumes "pow2 e \<le> q" and "q < pow2 (e + 1)"
  shows "floor_log2 q = e"
proof -
  have "0 < q" using assms(1) pow2_pos [of e] by linarith
  note b = floor_log2_bounds [OF this]
  have "pow2 (floor_log2 q) < pow2 (e + 1)" "pow2 e < pow2 (floor_log2 q + 1)" using b assms by auto
  then have "floor_log2 q < e + 1" "e < floor_log2 q + 1" by (blast dest: pow2_less)+
  then show ?thesis by simp
qed

text \<open>A rounding by hand: the binade, the integer mantissa, the result.\<close>

lemma round64_eq:
  assumes "pow2 e \<le> q" and "q < pow2 (e + 1)" and "- 1022 \<le> e" and "e < 1023"
    and "round_half_even (q / pow2 (e - 52)) = n" and "of_int n * pow2 (e - 52) < pow2 1024"
  shows "round64 q = Finite (of_int n * pow2 (e - 52))"
proof -
  have "0 < q" using assms(1) pow2_pos [of e] by linarith
  moreover have "max (floor_log2 q - 52) (- 1074) = e - 52"
    using floor_log2_eq [OF assms(1,2)] assms(3) by simp
  ultimately show ?thesis using assms(5,6) by (simp add: round64_def round_positive_def Let_def)
qed

lemma floor_rat_numeral [simp]: "\<lfloor>numeral a / numeral b :: rat\<rfloor> = numeral a div numeral b"
  by (metis floor_divide_of_int_eq of_int_numeral)

lemma tenth: "round64 (1 / 10) = Finite (7205759403792794 / 2 ^ 56)"
  by (subst round64_eq [of "- 4" _ 7205759403792794]) (simp_all add: pow2_def round_half_even_def Let_def)

lemma round64_neg: "0 < q \<Longrightarrow> round64 (- q) = fneg (round64 q)"
  by (auto simp: round64_def Let_def)

end
