(* ===== verification/RunBudget.thy ===== *)
theory RunBudget
  imports GoBase Float64 "HOL-Library.Multiset"
begin

text \<open>
  internal/mode/budget.go: the run budget that every provider attempt draws on.  Each
  operation is the code under its mutex as a function of the budget, the clock reading
  \<open>now\<close> (nanoseconds) and the outcome \<open>fault\<close> of writing the state file; the file itself is
  \<open>disk\<close>, which an atomic rename replaces only on success.  Counters are 64-bit, costs are
  float64.  \<open>step\<close> interleaves the phases of concurrent attempts: taking a slot of the
  channel, reserving under the lock, releasing under the lock, giving the slot back.
\<close>

section \<open>State\<close>

record budget_limits =
  max_calls :: int
  max_attempts :: int
  max_estimated_input_tokens :: int
  max_reserved_output_tokens :: int
  max_concurrent :: int
  max_cost_usd :: f64
  max_duration :: int

record budget_snapshot =
  us_calls :: int
  us_attempts :: int
  us_estimated_input_tokens :: int
  us_reserved_output_tokens :: int
  us_peak_concurrent :: int
  us_estimated_cost_usd :: f64
  us_elapsed_seconds :: f64

record attempt_reservation =
  ar_estimated_input_tokens :: int
  ar_max_output_tokens :: int
  ar_estimated_cost_usd :: f64

record attempt_actual =
  aa_input_tokens :: int
  aa_output_tokens :: int
  aa_cost_usd :: "f64 option"
  aa_usage_observed :: bool

datatype budget_error =
    Exceeded string f64 f64 f64
  | NegativeReservation | NegativeActual | Cancelled
  | PersistFailed string
  | Joined "budget_error list"
  | StatePathRequired | StateUnreadable string | StateMalformed string | SchemaUnsupported int
  | NoStartTime | LimitsChanged | NegativeUsage | RestoredExceeds string | StateUnsecured string

record persisted_budget_limits =
  pl_max_calls :: int
  pl_max_attempts :: int
  pl_max_estimated_input_tokens :: int
  pl_max_reserved_output_tokens :: int
  pl_max_concurrent :: int
  pl_max_cost_usd :: f64
  pl_max_duration_seconds :: int

record persisted_budget_state =
  ps_schema_version :: int
  ps_started_at :: "int option"
  ps_limits :: persisted_budget_limits
  ps_usage :: budget_snapshot

text \<open>\<open>rb_deadline\<close> is \<open>None\<close> for the zero time, \<open>rb_slots\<close> counts the tokens in the channel.\<close>

record run_budget =
  rb_limits :: budget_limits
  rb_started :: int
  rb_deadline :: "int option"
  rb_usage :: budget_snapshot
  rb_state_path :: string
  rb_slots :: int
  rb_active :: int
  rb_disk :: "persisted_budget_state option"

definition run_budget_state_schema_version :: int where
  "run_budget_state_schema_version = 2"

definition second :: int where
  "second = 1000000000"

text \<open>\<open>Duration.Seconds\<close>.\<close>

definition seconds :: "int \<Rightarrow> f64" where
  "seconds d = fadd (f64_of_int (go_div d second)) (fdiv_finite (f64_of_int (go_mod d second)) 1000000000)"

definition zero_snapshot :: budget_snapshot where
  "zero_snapshot = \<lparr> us_calls = 0, us_attempts = 0, us_estimated_input_tokens = 0,
     us_reserved_output_tokens = 0, us_peak_concurrent = 0, us_estimated_cost_usd = fzero,
     us_elapsed_seconds = fzero \<rparr>"

definition new_run_budget :: "int \<Rightarrow> budget_limits \<Rightarrow> run_budget" where
  "new_run_budget now limits =
     \<lparr> rb_limits = limits, rb_started = now,
       rb_deadline = (if max_duration limits > 0 then Some (now + max_duration limits) else None),
       rb_usage = zero_snapshot, rb_state_path = [], rb_slots = 0, rb_active = 0, rb_disk = None \<rparr>"

definition persisted_limits :: "budget_limits \<Rightarrow> persisted_budget_limits" where
  "persisted_limits limits =
     \<lparr> pl_max_calls = max_calls limits, pl_max_attempts = max_attempts limits,
       pl_max_estimated_input_tokens = max_estimated_input_tokens limits,
       pl_max_reserved_output_tokens = max_reserved_output_tokens limits,
       pl_max_concurrent = max_concurrent limits, pl_max_cost_usd = max_cost_usd limits,
       pl_max_duration_seconds = go_div (max_duration limits) second \<rparr>"

text \<open>Comparing two structs compares their floats, so a NaN limit differs from itself.\<close>

definition same_limits :: "persisted_budget_limits \<Rightarrow> persisted_budget_limits \<Rightarrow> bool" where
  "same_limits a b \<longleftrightarrow> a = b \<and> feq (pl_max_cost_usd a) (pl_max_cost_usd b)"

section \<open>Persistence\<close>

text \<open>\<open>persistLocked\<close>: the result of writing the candidate file and renaming it is \<open>fault\<close>.\<close>

definition persist_locked :: "int \<Rightarrow> string option \<Rightarrow> run_budget \<Rightarrow> budget_error option \<times> run_budget" where
  "persist_locked now fault b =
     (if rb_state_path b = [] then (None, b)
      else case fault of
        Some e \<Rightarrow> (Some (PersistFailed e), b)
      | None \<Rightarrow> (None, b\<lparr>rb_disk := Some
          \<lparr> ps_schema_version = run_budget_state_schema_version, ps_started_at = Some (rb_started b),
            ps_limits = persisted_limits (rb_limits b),
            ps_usage = (rb_usage b)\<lparr>us_elapsed_seconds := seconds (now - rb_started b)\<rparr> \<rparr>\<rparr>))"

definition validate_restored_budget :: "budget_snapshot \<Rightarrow> budget_limits \<Rightarrow> budget_error option" where
  "validate_restored_budget usage limits = first_err [
     fail_if (us_calls usage < 0 \<or> us_attempts usage < 0 \<or> us_estimated_input_tokens usage < 0 \<or>
       us_reserved_output_tokens usage < 0 \<or> flt (us_estimated_cost_usd usage) fzero) NegativeUsage,
     fail_if (max_calls limits > 0 \<and> us_calls usage > max_calls limits) (RestoredExceeds ''calls''),
     fail_if (max_attempts limits > 0 \<and> us_attempts usage > max_attempts limits) (RestoredExceeds ''attempts''),
     fail_if (max_estimated_input_tokens limits > 0 \<and>
       us_estimated_input_tokens usage > max_estimated_input_tokens limits) (RestoredExceeds ''input''),
     fail_if (max_reserved_output_tokens limits > 0 \<and>
       us_reserved_output_tokens usage > max_reserved_output_tokens limits) (RestoredExceeds ''output''),
     fail_if (max_concurrent limits > 0 \<and> us_peak_concurrent usage > max_concurrent limits)
       (RestoredExceeds ''peak concurrency''),
     fail_if (flt fzero (max_cost_usd limits) \<and> flt (max_cost_usd limits) (us_estimated_cost_usd usage))
       (RestoredExceeds ''cost'')]"

text \<open>What reading the state file gave: no file, an error, or the decoded state.\<close>

datatype state_file = Missing | Unreadable string | Malformed string | Stored persisted_budget_state

definition new_persistent_run_budget ::
  "int \<Rightarrow> string option \<Rightarrow> string option \<Rightarrow> budget_limits \<Rightarrow> string \<Rightarrow> state_file \<Rightarrow> budget_error + run_budget"
where
  "new_persistent_run_budget now fault chmod_fault limits state_path file =
     (if state_path = [] then Inl StatePathRequired
      else let budget = (new_run_budget now limits)\<lparr>rb_state_path := state_path\<rparr> in
        case file of
          Missing \<Rightarrow>
            (case persist_locked now fault budget of
               (Some e, _) \<Rightarrow> Inl e
             | (None, budget') \<Rightarrow> Inr budget')
        | Unreadable e \<Rightarrow> Inl (StateUnreadable e)
        | Malformed e \<Rightarrow> Inl (StateMalformed e)
        | Stored state \<Rightarrow>
            if ps_schema_version state \<noteq> run_budget_state_schema_version
            then Inl (SchemaUnsupported (ps_schema_version state))
            else (case ps_started_at state of None \<Rightarrow> Inl NoStartTime | Some started \<Rightarrow>
              if \<not> same_limits (ps_limits state) (persisted_limits limits) then Inl LimitsChanged
              else case validate_restored_budget (ps_usage state) limits of Some e \<Rightarrow> Inl e | None \<Rightarrow>
              case chmod_fault of Some e \<Rightarrow> Inl (StateUnsecured e) | None \<Rightarrow>
                Inr (budget\<lparr>rb_started := started,
                  rb_usage := (ps_usage state)\<lparr>us_elapsed_seconds := fzero\<rparr>,
                  rb_deadline := (if max_duration limits > 0 then Some (started + max_duration limits)
                    else rb_deadline budget),
                  rb_disk := Some state\<rparr>)))"

section \<open>Operations under the lock\<close>

definition check_deadline_locked :: "int \<Rightarrow> run_budget \<Rightarrow> budget_error option" where
  "check_deadline_locked now b =
     (case rb_deadline b of
        None \<Rightarrow> None
      | Some d \<Rightarrow> fail_if (\<not> now < d)
          (Exceeded ''duration_seconds'' (seconds (now - rb_started b)) fzero (seconds (max_duration (rb_limits b)))))"

definition add_calls :: "int \<Rightarrow> run_budget \<Rightarrow> run_budget" where
  "add_calls n b = b\<lparr>rb_usage := (rb_usage b)\<lparr>us_calls := add64 (us_calls (rb_usage b)) n\<rparr>\<rparr>"

definition reserve_call_locked :: "int \<Rightarrow> run_budget \<Rightarrow> budget_error option \<times> run_budget" where
  "reserve_call_locked now b =
     (case first_err [
         check_deadline_locked now b,
         fail_if (max_calls (rb_limits b) > 0 \<and> add64 (us_calls (rb_usage b)) 1 > max_calls (rb_limits b))
           (Exceeded ''calls'' (f64_of_int (us_calls (rb_usage b))) (f64_of_int 1)
             (f64_of_int (max_calls (rb_limits b))))] of
        Some e \<Rightarrow> (Some e, b)
      | None \<Rightarrow> (None, add_calls 1 b))"

definition attempt_check :: "int \<Rightarrow> attempt_reservation \<Rightarrow> run_budget \<Rightarrow> budget_error option" where
  "attempt_check now r b =
     (let l = rb_limits b; u = rb_usage b in first_err [
        check_deadline_locked now b,
        fail_if (max_attempts l > 0 \<and> add64 (us_attempts u) 1 > max_attempts l)
          (Exceeded ''attempts'' (f64_of_int (us_attempts u)) (f64_of_int 1) (f64_of_int (max_attempts l))),
        fail_if (max_estimated_input_tokens l > 0 \<and>
            add64 (us_estimated_input_tokens u) (ar_estimated_input_tokens r) > max_estimated_input_tokens l)
          (Exceeded ''estimated_input_tokens'' (f64_of_int (us_estimated_input_tokens u))
            (f64_of_int (ar_estimated_input_tokens r)) (f64_of_int (max_estimated_input_tokens l))),
        fail_if (max_reserved_output_tokens l > 0 \<and>
            add64 (us_reserved_output_tokens u) (ar_max_output_tokens r) > max_reserved_output_tokens l)
          (Exceeded ''reserved_output_tokens'' (f64_of_int (us_reserved_output_tokens u))
            (f64_of_int (ar_max_output_tokens r)) (f64_of_int (max_reserved_output_tokens l))),
        fail_if (flt fzero (max_cost_usd l) \<and>
            flt (max_cost_usd l) (fadd (us_estimated_cost_usd u) (ar_estimated_cost_usd r)))
          (Exceeded ''estimated_cost_usd'' (us_estimated_cost_usd u) (ar_estimated_cost_usd r) (max_cost_usd l))])"

definition charge_attempt :: "attempt_reservation \<Rightarrow> budget_snapshot \<Rightarrow> budget_snapshot" where
  "charge_attempt r u = u\<lparr>us_attempts := add64 (us_attempts u) 1,
     us_estimated_input_tokens := add64 (us_estimated_input_tokens u) (ar_estimated_input_tokens r),
     us_reserved_output_tokens := add64 (us_reserved_output_tokens u) (ar_max_output_tokens r),
     us_estimated_cost_usd := fadd (us_estimated_cost_usd u) (ar_estimated_cost_usd r)\<rparr>"

definition reserve_attempt_locked ::
  "int \<Rightarrow> attempt_reservation \<Rightarrow> run_budget \<Rightarrow> budget_error option \<times> run_budget" where
  "reserve_attempt_locked now r b =
     (case attempt_check now r b of
        Some e \<Rightarrow> (Some e, b)
      | None \<Rightarrow> (None, b\<lparr>rb_usage := charge_attempt r (rb_usage b)\<rparr>))"

definition rollback_attempt_locked :: "attempt_reservation \<Rightarrow> run_budget \<Rightarrow> run_budget" where
  "rollback_attempt_locked r b =
     (let u = rb_usage b in b\<lparr>rb_usage := u\<lparr>us_attempts := sub64 (us_attempts u) 1,
        us_estimated_input_tokens := sub64 (us_estimated_input_tokens u) (ar_estimated_input_tokens r),
        us_reserved_output_tokens := sub64 (us_reserved_output_tokens u) (ar_max_output_tokens r),
        us_estimated_cost_usd := fsub (us_estimated_cost_usd u) (ar_estimated_cost_usd r)\<rparr>\<rparr>)"

text \<open>\<open>errors.Join\<close>: nil when every argument is nil.\<close>

definition join_errors :: "budget_error option list \<Rightarrow> budget_error option" where
  "join_errors es = (let some = map the (filter (\<lambda>e. e \<noteq> None) es) in
     if some = [] then None else Some (Joined some))"

definition reconcile_attempt_locked ::
  "attempt_reservation \<Rightarrow> attempt_actual \<Rightarrow> run_budget \<Rightarrow> budget_error option \<times> run_budget" where
  "reconcile_attempt_locked r a b =
     (if aa_input_tokens a < 0 \<or> aa_output_tokens a < 0 \<or>
         (case aa_cost_usd a of None \<Rightarrow> False | Some c \<Rightarrow> flt c fzero)
      then (Some NegativeActual, b)
      else
        let l = rb_limits b; u = rb_usage b;
            input_before = sub64 (us_estimated_input_tokens u) (ar_estimated_input_tokens r);
            input = add64 input_before (aa_input_tokens a);
            output_before = sub64 (us_reserved_output_tokens u) (ar_max_output_tokens r);
            output = add64 output_before (aa_output_tokens a);
            cost_before = fsub (us_estimated_cost_usd u) (ar_estimated_cost_usd r);
            cost = (case aa_cost_usd a of None \<Rightarrow> us_estimated_cost_usd u | Some c \<Rightarrow> fadd cost_before c)
        in (join_errors [
              fail_if (max_estimated_input_tokens l > 0 \<and> input > max_estimated_input_tokens l)
                (Exceeded ''actual_input_tokens'' (f64_of_int input_before) (f64_of_int (aa_input_tokens a))
                  (f64_of_int (max_estimated_input_tokens l))),
              fail_if (max_reserved_output_tokens l > 0 \<and> output > max_reserved_output_tokens l)
                (Exceeded ''actual_output_tokens'' (f64_of_int output_before) (f64_of_int (aa_output_tokens a))
                  (f64_of_int (max_reserved_output_tokens l))),
              (case aa_cost_usd a of
                 None \<Rightarrow> None
               | Some c \<Rightarrow> fail_if (flt fzero (max_cost_usd l) \<and> flt (max_cost_usd l) cost)
                   (Exceeded ''actual_cost_usd'' cost_before c (max_cost_usd l)))],
            b\<lparr>rb_usage := u\<lparr>us_estimated_input_tokens := input, us_reserved_output_tokens := output,
              us_estimated_cost_usd := cost\<rparr>\<rparr>))"


section \<open>Operations\<close>

definition reserve :: "int \<Rightarrow> string option \<Rightarrow> int \<Rightarrow> f64 \<Rightarrow> run_budget \<Rightarrow> budget_error option \<times> run_budget" where
  "reserve now fault tokens cost b =
     (case reserve_call_locked now b of
        (Some e, b1) \<Rightarrow> (Some e, b1)
      | (None, b1) \<Rightarrow>
          let r = \<lparr> ar_estimated_input_tokens = tokens, ar_max_output_tokens = 0, ar_estimated_cost_usd = cost \<rparr>
          in case reserve_attempt_locked now r b1 of
            (Some e, b2) \<Rightarrow> (Some e, add_calls (- 1) b2)
          | (None, b2) \<Rightarrow>
              (case persist_locked now fault b2 of
                 (None, b3) \<Rightarrow> (None, b3)
               | (Some e, b3) \<Rightarrow>
                   let u = rb_usage b3 in
                   (Some e, b3\<lparr>rb_usage := u\<lparr>us_calls := sub64 (us_calls u) 1,
                      us_attempts := sub64 (us_attempts u) 1,
                      us_estimated_input_tokens := sub64 (us_estimated_input_tokens u) tokens,
                      us_estimated_cost_usd := fsub (us_estimated_cost_usd u) cost\<rparr>\<rparr>)))"

definition reserve_call :: "int \<Rightarrow> string option \<Rightarrow> run_budget \<Rightarrow> budget_error option \<times> run_budget" where
  "reserve_call now fault b =
     (case reserve_call_locked now b of
        (Some e, b1) \<Rightarrow> (Some e, b1)
      | (None, b1) \<Rightarrow>
          (case persist_locked now fault b1 of
             (None, b2) \<Rightarrow> (None, b2)
           | (Some e, b2) \<Rightarrow> (Some e, add_calls (- 1) b2)))"

text \<open>
  \<open>AcquireAttempt\<close> in its phases: the check of the arguments, the send on the channel (which
  blocks while it is full; a nil channel is skipped), and the part under the lock.
\<close>

definition reservation_check :: "attempt_reservation \<Rightarrow> budget_error option" where
  "reservation_check r =
     fail_if (ar_estimated_input_tokens r < 0 \<or> ar_max_output_tokens r < 0 \<or> flt (ar_estimated_cost_usd r) fzero)
       NegativeReservation"

definition slot_free :: "run_budget \<Rightarrow> bool" where
  "slot_free b \<longleftrightarrow> max_concurrent (rb_limits b) > 0 \<longrightarrow> rb_slots b < max_concurrent (rb_limits b)"

definition take_slot :: "run_budget \<Rightarrow> run_budget" where
  "take_slot b = (if max_concurrent (rb_limits b) > 0 then b\<lparr>rb_slots := rb_slots b + 1\<rparr> else b)"

definition release_slot :: "run_budget \<Rightarrow> run_budget" where
  "release_slot b = (if max_concurrent (rb_limits b) > 0 then b\<lparr>rb_slots := rb_slots b - 1\<rparr> else b)"

definition acquire_locked ::
  "int \<Rightarrow> string option \<Rightarrow> attempt_reservation \<Rightarrow> run_budget \<Rightarrow> budget_error option \<times> run_budget" where
  "acquire_locked now fault r b =
     (case reserve_attempt_locked now r b of
        (Some e, b1) \<Rightarrow> (Some e, b1)
      | (None, b1) \<Rightarrow>
          let b2 = b1\<lparr>rb_active := rb_active b1 + 1\<rparr>;
              b3 = (if rb_active b2 > us_peak_concurrent (rb_usage b2)
                    then b2\<lparr>rb_usage := (rb_usage b2)\<lparr>us_peak_concurrent := rb_active b2\<rparr>\<rparr> else b2)
          in case persist_locked now fault b3 of
            (None, b4) \<Rightarrow> (None, b4)
          | (Some e, b4) \<Rightarrow> (Some e, rollback_attempt_locked r (b4\<lparr>rb_active := rb_active b4 - 1\<rparr>)))"

text \<open>The function that \<open>AcquireAttempt\<close> returns, on its first call, up to the slot.\<close>

definition release_locked ::
  "int \<Rightarrow> string option \<Rightarrow> attempt_reservation \<Rightarrow> attempt_actual \<Rightarrow> run_budget \<Rightarrow> budget_error option \<times> run_budget"
where
  "release_locked now fault r a b =
     (let b1 = b\<lparr>rb_active := rb_active b - 1\<rparr>;
          (err, b2) = (if aa_usage_observed a then reconcile_attempt_locked r a b1 else (None, b1))
      in case persist_locked now fault b2 of
        (None, b3) \<Rightarrow> (err, b3)
      | (Some e, b3) \<Rightarrow> (join_errors [err, Some e], b3))"

text \<open>
  \<open>AcquireAttempt\<close> run without interference; \<open>cancelled\<close> says that the select takes the branch of
  the context.  The result is \<open>None\<close> where the call blocks: the channel is full.
\<close>

definition acquire_attempt ::
  "int \<Rightarrow> string option \<Rightarrow> bool \<Rightarrow> attempt_reservation \<Rightarrow> run_budget \<Rightarrow>
   (budget_error option \<times> run_budget) option" where
  "acquire_attempt now fault cancelled r b =
     (case reservation_check r of
        Some e \<Rightarrow> Some (Some e, b)
      | None \<Rightarrow>
          if max_concurrent (rb_limits b) > 0 \<and> cancelled then Some (Some Cancelled, b)
          else if \<not> slot_free b then None
          else (case acquire_locked now fault r (take_slot b) of
            (Some e, b1) \<Rightarrow> Some (Some e, release_slot b1)
          | (None, b1) \<Rightarrow> Some (None, b1)))"

definition release_attempt ::
  "int \<Rightarrow> string option \<Rightarrow> attempt_reservation \<Rightarrow> attempt_actual \<Rightarrow> run_budget \<Rightarrow> budget_error option \<times> run_budget"
where
  "release_attempt now fault r a b =
     (let (e, b1) = release_locked now fault r a b in (e, release_slot b1))"

definition snapshot :: "int \<Rightarrow> run_budget option \<Rightarrow> budget_snapshot" where
  "snapshot now budget = (case budget of
       None \<Rightarrow> zero_snapshot
     | Some b \<Rightarrow> (rb_usage b)\<lparr>us_elapsed_seconds := seconds (now - rb_started b)\<rparr>)"

definition deadline :: "run_budget option \<Rightarrow> int option" where
  "deadline budget = (case budget of None \<Rightarrow> None | Some b \<Rightarrow> rb_deadline b)"

section \<open>Interleavings\<close>

text \<open>
  A run: the budget, the attempts that hold a slot and wait for the lock, the attempts that
  are live, the number that are about to give their slot back, and what has been settled so
  far, which is no state of the code but what its counters should say.
\<close>

record world =
  w_budget :: run_budget
  w_waiting :: "attempt_reservation multiset"
  w_live :: "attempt_reservation multiset"
  w_leaving :: int
  w_settled_input :: int
  w_settled_output :: int

definition start :: "run_budget \<Rightarrow> world" where
  "start b = \<lparr> w_budget = b, w_waiting = {#}, w_live = {#}, w_leaving = 0,
     w_settled_input = us_estimated_input_tokens (rb_usage b),
     w_settled_output = us_reserved_output_tokens (rb_usage b) \<rparr>"

text \<open>What a release leaves charged: the actual usage when it is observed and valid.\<close>

definition actual_valid :: "attempt_actual \<Rightarrow> bool" where
  "actual_valid a \<longleftrightarrow> \<not> (aa_input_tokens a < 0 \<or> aa_output_tokens a < 0 \<or>
     (case aa_cost_usd a of None \<Rightarrow> False | Some c \<Rightarrow> flt c fzero))"

definition settles_input :: "attempt_reservation \<Rightarrow> attempt_actual \<Rightarrow> int" where
  "settles_input r a = (if aa_usage_observed a \<and> actual_valid a then aa_input_tokens a
     else ar_estimated_input_tokens r)"

definition settles_output :: "attempt_reservation \<Rightarrow> attempt_actual \<Rightarrow> int" where
  "settles_output r a = (if aa_usage_observed a \<and> actual_valid a then aa_output_tokens a
     else ar_max_output_tokens r)"

inductive step :: "world \<Rightarrow> world \<Rightarrow> bool" where
  call: "reserve_call now fault (w_budget w) = (e, b) \<Longrightarrow> step w (w\<lparr>w_budget := b\<rparr>)"
| reserve: "reserve now fault tokens cost (w_budget w) = (None, b) \<Longrightarrow>
    step w (w\<lparr>w_budget := b, w_settled_input := w_settled_input w + tokens\<rparr>)"
| refuse: "reserve now fault tokens cost (w_budget w) = (Some e, b) \<Longrightarrow> step w (w\<lparr>w_budget := b\<rparr>)"
| slot: "reservation_check r = None \<Longrightarrow> slot_free (w_budget w) \<Longrightarrow>
    step w (w\<lparr>w_budget := take_slot (w_budget w), w_waiting := add_mset r (w_waiting w)\<rparr>)"
| acquire: "r \<in># w_waiting w \<Longrightarrow> acquire_locked now fault r (w_budget w) = (None, b) \<Longrightarrow>
    step w (w\<lparr>w_budget := b, w_waiting := w_waiting w - {#r#}, w_live := add_mset r (w_live w)\<rparr>)"
| reject: "r \<in># w_waiting w \<Longrightarrow> acquire_locked now fault r (w_budget w) = (Some e, b) \<Longrightarrow>
    step w (w\<lparr>w_budget := b, w_waiting := w_waiting w - {#r#}, w_leaving := w_leaving w + 1\<rparr>)"
| release: "r \<in># w_live w \<Longrightarrow> release_locked now fault r a (w_budget w) = (e, b) \<Longrightarrow>
    step w (w\<lparr>w_budget := b, w_live := w_live w - {#r#}, w_leaving := w_leaving w + 1,
      w_settled_input := w_settled_input w + settles_input r a,
      w_settled_output := w_settled_output w + settles_output r a\<rparr>)"
| leave: "w_leaving w > 0 \<Longrightarrow>
    step w (w\<lparr>w_budget := release_slot (w_budget w), w_leaving := w_leaving w - 1\<rparr>)"

inductive_cases step_elim: "step w w'"

end
