(* ===== verification/RunBudgetProps.thy ===== *)
theory RunBudgetProps
  imports RunBudget
begin

text \<open>
  What the run budget guarantees under every interleaving of its operations: no limit on
  calls, attempts or concurrency is ever exceeded, the token counters are exactly what has been
  settled plus what is live, a failed reservation leaves every counter as it was, and a
  persisted budget is restored.
\<close>

section \<open>What each operation changes\<close>

lemma persist_same:
  assumes "persist_locked now fault b = (e, b')"
  shows "rb_limits b' = rb_limits b" "rb_usage b' = rb_usage b" "rb_slots b' = rb_slots b"
    "rb_active b' = rb_active b" "rb_state_path b' = rb_state_path b" "rb_started b' = rb_started b"
    "rb_deadline b' = rb_deadline b"
  using assms by (auto simp: persist_locked_def split: if_splits option.splits)

lemma reserve_call_locked_ok:
  "reserve_call_locked now b = (None, b') \<longleftrightarrow> check_deadline_locked now b = None \<and>
     \<not> (max_calls (rb_limits b) > 0 \<and> add64 (us_calls (rb_usage b)) 1 > max_calls (rb_limits b)) \<and>
     b' = add_calls 1 b"
  by (auto simp: reserve_call_locked_def split: option.splits if_splits)

lemma reserve_call_locked_err: "reserve_call_locked now b = (Some e, b') \<Longrightarrow> b' = b"
  by (auto simp: reserve_call_locked_def split: option.splits)

lemma reserve_attempt_locked_ok:
  "reserve_attempt_locked now r b = (None, b') \<longleftrightarrow> attempt_check now r b = None \<and>
     b' = b\<lparr>rb_usage := charge_attempt r (rb_usage b)\<rparr>"
  by (auto simp: reserve_attempt_locked_def split: option.splits)

lemma reserve_attempt_locked_err: "reserve_attempt_locked now r b = (Some e, b') \<Longrightarrow> b' = b"
  by (auto simp: reserve_attempt_locked_def split: option.splits)

lemma add_calls_simps [simp]:
  "rb_limits (add_calls n b) = rb_limits b" "rb_slots (add_calls n b) = rb_slots b"
  "rb_active (add_calls n b) = rb_active b" "rb_state_path (add_calls n b) = rb_state_path b"
  "us_calls (rb_usage (add_calls n b)) = add64 (us_calls (rb_usage b)) n"
  "us_attempts (rb_usage (add_calls n b)) = us_attempts (rb_usage b)"
  "us_estimated_input_tokens (rb_usage (add_calls n b)) = us_estimated_input_tokens (rb_usage b)"
  "us_reserved_output_tokens (rb_usage (add_calls n b)) = us_reserved_output_tokens (rb_usage b)"
  "us_peak_concurrent (rb_usage (add_calls n b)) = us_peak_concurrent (rb_usage b)"
  "us_estimated_cost_usd (rb_usage (add_calls n b)) = us_estimated_cost_usd (rb_usage b)"
  by (simp_all add: add_calls_def)

text \<open>The counters that the operations guard, all of them machine integers.\<close>

definition machine :: "budget_snapshot \<Rightarrow> bool" where
  "machine u \<longleftrightarrow> int64 (us_calls u) \<and> int64 (us_attempts u) \<and> int64 (us_estimated_input_tokens u) \<and>
     int64 (us_reserved_output_tokens u)"

definition same_counters :: "budget_snapshot \<Rightarrow> budget_snapshot \<Rightarrow> bool" where
  "same_counters u v \<longleftrightarrow> us_calls u = us_calls v \<and> us_attempts u = us_attempts v \<and>
     us_estimated_input_tokens u = us_estimated_input_tokens v \<and>
     us_reserved_output_tokens u = us_reserved_output_tokens v"

definition same_frame :: "run_budget \<Rightarrow> run_budget \<Rightarrow> bool" where
  "same_frame b b' \<longleftrightarrow> rb_limits b' = rb_limits b \<and> rb_slots b' = rb_slots b \<and>
     rb_state_path b' = rb_state_path b"

lemma undo_add64 [simp]: "int64 a \<Longrightarrow> add64 (add64 a 1) (- 1) = a"
  using sub64_add64 [of a 1] by (simp add: add64_def sub64_def)

lemma reserve_call_effect:
  assumes "reserve_call now fault b = (e, b')" and "machine (rb_usage b)"
  shows "same_frame b b' \<and> rb_active b' = rb_active b \<and>
    us_peak_concurrent (rb_usage b') = us_peak_concurrent (rb_usage b) \<and>
    (case e of
       Some _ \<Rightarrow> same_counters (rb_usage b') (rb_usage b)
     | None \<Rightarrow> same_counters (rb_usage b') ((rb_usage b)\<lparr>us_calls := add64 (us_calls (rb_usage b)) 1\<rparr>) \<and>
         (max_calls (rb_limits b) > 0 \<longrightarrow> add64 (us_calls (rb_usage b)) 1 \<le> max_calls (rb_limits b)))"
proof (cases "reserve_call_locked now b")
  case (Pair e1 b1)
  show ?thesis
  proof (cases e1)
    case (Some x)
    with assms Pair reserve_call_locked_err [OF Pair [unfolded Some]] show ?thesis
      by (auto simp: reserve_call_def same_frame_def same_counters_def)
  next
    case None
    note ok = reserve_call_locked_ok [THEN iffD1, OF Pair [unfolded None]]
    obtain e2 b2 where p: "persist_locked now fault b1 = (e2, b2)" by force
    note s = persist_same [OF p]
    show ?thesis
      using assms Pair None p s ok
      by (cases e2) (auto simp: reserve_call_def same_frame_def same_counters_def machine_def not_less)
  qed
qed

lemma attempt_check_None:
  assumes "attempt_check now r b = None"
  shows "max_attempts (rb_limits b) > 0 \<Longrightarrow> add64 (us_attempts (rb_usage b)) 1 \<le> max_attempts (rb_limits b)"
    and "max_estimated_input_tokens (rb_limits b) > 0 \<Longrightarrow> add64 (us_estimated_input_tokens (rb_usage b))
      (ar_estimated_input_tokens r) \<le> max_estimated_input_tokens (rb_limits b)"
    and "max_reserved_output_tokens (rb_limits b) > 0 \<Longrightarrow> add64 (us_reserved_output_tokens (rb_usage b))
      (ar_max_output_tokens r) \<le> max_reserved_output_tokens (rb_limits b)"
    and "flt fzero (max_cost_usd (rb_limits b)) \<Longrightarrow> \<not> flt (max_cost_usd (rb_limits b))
      (fadd (us_estimated_cost_usd (rb_usage b)) (ar_estimated_cost_usd r))"
    and "check_deadline_locked now b = None"
  using assms by (simp_all add: attempt_check_def Let_def not_less)

lemma reserve_effect:
  assumes "reserve now fault tokens cost b = (e, b')" and "machine (rb_usage b)"
  shows "same_frame b b' \<and> rb_active b' = rb_active b \<and>
    us_peak_concurrent (rb_usage b') = us_peak_concurrent (rb_usage b) \<and>
    (case e of
       Some _ \<Rightarrow> same_counters (rb_usage b') (rb_usage b)
     | None \<Rightarrow> same_counters (rb_usage b') ((rb_usage b)\<lparr>us_calls := add64 (us_calls (rb_usage b)) 1,
           us_attempts := add64 (us_attempts (rb_usage b)) 1,
           us_estimated_input_tokens := add64 (us_estimated_input_tokens (rb_usage b)) tokens\<rparr>) \<and>
         (max_calls (rb_limits b) > 0 \<longrightarrow> add64 (us_calls (rb_usage b)) 1 \<le> max_calls (rb_limits b)) \<and>
         (max_attempts (rb_limits b) > 0 \<longrightarrow> add64 (us_attempts (rb_usage b)) 1 \<le> max_attempts (rb_limits b)) \<and>
         (max_estimated_input_tokens (rb_limits b) > 0 \<longrightarrow>
            add64 (us_estimated_input_tokens (rb_usage b)) tokens \<le> max_estimated_input_tokens (rb_limits b)))"
proof (cases "reserve_call_locked now b")
  case (Pair e1 b1)
  let ?r = "\<lparr> ar_estimated_input_tokens = tokens, ar_max_output_tokens = 0, ar_estimated_cost_usd = cost \<rparr>"
  show ?thesis
  proof (cases e1)
    case (Some x)
    with assms Pair reserve_call_locked_err [OF Pair [unfolded Some]] show ?thesis
      by (auto simp: reserve_def same_frame_def same_counters_def)
  next
    case None
    note ok = reserve_call_locked_ok [THEN iffD1, OF Pair [unfolded None]]
    obtain e2 b2 where a: "reserve_attempt_locked now ?r b1 = (e2, b2)" by force
    show ?thesis
    proof (cases e2)
      case (Some x)
      with assms Pair None a ok reserve_attempt_locked_err [OF a [unfolded Some]] show ?thesis
        by (auto simp: reserve_def same_frame_def same_counters_def machine_def)
    next
      case None2: None
      note ok2 = reserve_attempt_locked_ok [THEN iffD1, OF a [unfolded None2]]
      obtain e3 b3 where p: "persist_locked now fault b2 = (e3, b3)" by force
      note s = persist_same [OF p]
      have zero: "add64 x 0 = x" if "int64 x" for x using that by (simp add: add64_def)
      define b4 where "b4 = add_calls 1 b"
      have b4: "b1 = b4" "rb_limits b4 = rb_limits b" "us_attempts (rb_usage b4) = us_attempts (rb_usage b)"
        "us_estimated_input_tokens (rb_usage b4) = us_estimated_input_tokens (rb_usage b)"
        using ok by (simp_all add: b4_def)
      note bounds = attempt_check_None(1,2) [OF conjunct1 [OF ok2], unfolded b4, simplified]
      have R: "reserve now fault tokens cost b = (case (e3, b3) of (None, b3) \<Rightarrow> (None, b3)
          | (Some e, b3) \<Rightarrow> let u = rb_usage b3 in
              (Some e, b3\<lparr>rb_usage := u\<lparr>us_calls := sub64 (us_calls u) 1, us_attempts := sub64 (us_attempts u) 1,
                us_estimated_input_tokens := sub64 (us_estimated_input_tokens u) tokens,
                us_estimated_cost_usd := fsub (us_estimated_cost_usd u) cost\<rparr>\<rparr>))"
        unfolding reserve_def Pair None prod.case option.case Let_def a None2 p ..
      have U: "same_counters (rb_usage b3) ((rb_usage b)\<lparr>us_calls := add64 (us_calls (rb_usage b)) 1,
           us_attempts := add64 (us_attempts (rb_usage b)) 1,
           us_estimated_input_tokens := add64 (us_estimated_input_tokens (rb_usage b)) tokens\<rparr>)"
        "same_frame b b3" "rb_active b3 = rb_active b"
        "us_peak_concurrent (rb_usage b3) = us_peak_concurrent (rb_usage b)"
        using s ok ok2 assms(2) zero by (auto simp: same_counters_def same_frame_def charge_attempt_def machine_def)
      show ?thesis
      proof (cases e3)
        case None3: None
        then have "e = None" "b' = b3" using assms(1) R by auto
        then show ?thesis using U bounds ok by auto
      next
        case (Some x)
        then have "e = Some x" "rb_usage b' = (rb_usage b3)\<lparr>us_calls := sub64 (us_calls (rb_usage b3)) 1,
            us_attempts := sub64 (us_attempts (rb_usage b3)) 1,
            us_estimated_input_tokens := sub64 (us_estimated_input_tokens (rb_usage b3)) tokens,
            us_estimated_cost_usd := fsub (us_estimated_cost_usd (rb_usage b3)) cost\<rparr>"
          "same_frame b3 b'" "rb_active b' = rb_active b3"
          using assms(1) R by (auto simp: Let_def same_frame_def)
        then show ?thesis using U assms(2) by (auto simp: same_counters_def same_frame_def machine_def)
      qed
    qed
  qed
qed

lemma acquire_effect:
  assumes "acquire_locked now fault r b = (e, b')" and "machine (rb_usage b)"
  shows "same_frame b b' \<and> us_calls (rb_usage b') = us_calls (rb_usage b) \<and>
    us_peak_concurrent (rb_usage b) \<le> us_peak_concurrent (rb_usage b') \<and>
    (us_peak_concurrent (rb_usage b') = us_peak_concurrent (rb_usage b) \<or>
      us_peak_concurrent (rb_usage b') = rb_active b + 1) \<and>
    (case e of
       Some _ \<Rightarrow> same_counters (rb_usage b') (rb_usage b) \<and> rb_active b' = rb_active b
     | None \<Rightarrow> same_counters (rb_usage b') (charge_attempt r (rb_usage b)) \<and>
         rb_active b' = rb_active b + 1 \<and> attempt_check now r b = None \<and>
         rb_active b' \<le> us_peak_concurrent (rb_usage b'))"
proof (cases "reserve_attempt_locked now r b")
  case (Pair e1 b1)
  show ?thesis
  proof (cases e1)
    case (Some x)
    with assms Pair reserve_attempt_locked_err [OF Pair [unfolded Some]] show ?thesis
      by (auto simp: acquire_locked_def same_frame_def same_counters_def)
  next
    case None
    note ok = reserve_attempt_locked_ok [THEN iffD1, OF Pair [unfolded None]]
    define b2 where "b2 = b1\<lparr>rb_active := rb_active b1 + 1\<rparr>"
    define b3 where "b3 = (if rb_active b2 > us_peak_concurrent (rb_usage b2)
        then b2\<lparr>rb_usage := (rb_usage b2)\<lparr>us_peak_concurrent := rb_active b2\<rparr>\<rparr> else b2)"
    obtain e4 b4 where p: "persist_locked now fault b3 = (e4, b4)" by force
    note s = persist_same [OF p]
    have A: "acquire_locked now fault r b = (case (e4, b4) of (None, b4) \<Rightarrow> (None, b4)
        | (Some e, b4) \<Rightarrow> (Some e, rollback_attempt_locked r (b4\<lparr>rb_active := rb_active b4 - 1\<rparr>)))"
      unfolding acquire_locked_def Pair None prod.case option.case Let_def
      unfolding b2_def [symmetric] b3_def [symmetric] p by (cases e4) simp_all
    have B: "rb_limits b3 = rb_limits b" "rb_slots b3 = rb_slots b" "rb_state_path b3 = rb_state_path b"
      "rb_active b3 = rb_active b + 1" "same_counters (rb_usage b3) (charge_attempt r (rb_usage b))"
      "us_peak_concurrent (rb_usage b3) = max (us_peak_concurrent (rb_usage b)) (rb_active b + 1)"
      using ok by (auto simp: b3_def b2_def charge_attempt_def same_counters_def)
    show ?thesis
    proof (cases e4)
      case None4: None
      then have "e = None" "b' = b4" using assms(1) A by auto
      then show ?thesis using s B ok
        by (auto simp: same_frame_def same_counters_def charge_attempt_def)
    next
      case (Some x)
      then have "e = Some x" "b' = rollback_attempt_locked r (b4\<lparr>rb_active := rb_active b4 - 1\<rparr>)"
        using assms(1) A by auto
      then show ?thesis using s B assms(2)
        by (auto simp: same_frame_def same_counters_def charge_attempt_def rollback_attempt_locked_def
            Let_def machine_def)
    qed
  qed
qed


lemma reconcile_effect:
  assumes "reconcile_attempt_locked r a b = (e, b')"
  shows "same_frame b b' \<and> rb_active b' = rb_active b \<and> us_calls (rb_usage b') = us_calls (rb_usage b) \<and>
    us_attempts (rb_usage b') = us_attempts (rb_usage b) \<and>
    us_peak_concurrent (rb_usage b') = us_peak_concurrent (rb_usage b) \<and>
    (if actual_valid a
     then us_estimated_input_tokens (rb_usage b') =
         add64 (sub64 (us_estimated_input_tokens (rb_usage b)) (ar_estimated_input_tokens r)) (aa_input_tokens a) \<and>
       us_reserved_output_tokens (rb_usage b') =
         add64 (sub64 (us_reserved_output_tokens (rb_usage b)) (ar_max_output_tokens r)) (aa_output_tokens a)
     else b' = b)"
  using assms unfolding reconcile_attempt_locked_def actual_valid_def Let_def
  by (auto simp: same_frame_def split: if_splits)

lemma release_effect:
  assumes "release_locked now fault r a b = (e, b')"
  shows "same_frame b b' \<and> rb_active b' = rb_active b - 1 \<and> us_calls (rb_usage b') = us_calls (rb_usage b) \<and>
    us_attempts (rb_usage b') = us_attempts (rb_usage b) \<and>
    us_peak_concurrent (rb_usage b') = us_peak_concurrent (rb_usage b) \<and>
    (if aa_usage_observed a \<and> actual_valid a
     then us_estimated_input_tokens (rb_usage b') =
         add64 (sub64 (us_estimated_input_tokens (rb_usage b)) (ar_estimated_input_tokens r)) (aa_input_tokens a) \<and>
       us_reserved_output_tokens (rb_usage b') =
         add64 (sub64 (us_reserved_output_tokens (rb_usage b)) (ar_max_output_tokens r)) (aa_output_tokens a)
     else us_estimated_input_tokens (rb_usage b') = us_estimated_input_tokens (rb_usage b) \<and>
       us_reserved_output_tokens (rb_usage b') = us_reserved_output_tokens (rb_usage b))"
proof -
  let ?b1 = "b\<lparr>rb_active := rb_active b - 1\<rparr>"
  obtain err b2 where r: "(if aa_usage_observed a then reconcile_attempt_locked r a ?b1 else (None, ?b1)) = (err, b2)"
    by force
  obtain e3 b3 where p: "persist_locked now fault b2 = (e3, b3)" by force
  have b': "b' = b3"
    using assms by (cases e3) (auto simp: release_locked_def Let_def r p)
  show ?thesis
  proof (cases "aa_usage_observed a")
    case True
    then have "reconcile_attempt_locked r a ?b1 = (err, b2)" using r by simp
    from reconcile_effect [OF this] persist_same [OF p] True show ?thesis
      unfolding b' by (auto simp: same_frame_def split: if_splits)
  next
    case False
    then have "b2 = ?b1" using r by simp
    with persist_same [OF p] False show ?thesis unfolding b' by (simp add: same_frame_def)
  qed
qed

section \<open>The invariant of all interleavings\<close>

definition limits_sane :: "budget_limits \<Rightarrow> bool" where
  "limits_sane l \<longleftrightarrow> max_calls l < 2 ^ 63 - 1 \<and> max_attempts l < 2 ^ 63 - 1"

definition within_limits :: "budget_limits \<Rightarrow> world \<Rightarrow> bool" where
  "within_limits l w \<longleftrightarrow> (let b = w_budget w; u = rb_usage b in
     rb_limits b = l \<and> machine u \<and> 0 \<le> w_leaving w \<and> rb_active b = int (size (w_live w)) \<and>
     (max_calls l > 0 \<longrightarrow> 0 \<le> us_calls u \<and> us_calls u \<le> max_calls l) \<and>
     (max_attempts l > 0 \<longrightarrow> 0 \<le> us_attempts u \<and> us_attempts u \<le> max_attempts l) \<and>
     (max_concurrent l > 0 \<longrightarrow>
        rb_slots b = int (size (w_waiting w)) + int (size (w_live w)) + w_leaving w \<and>
        rb_slots b \<le> max_concurrent l \<and> us_peak_concurrent u \<le> max_concurrent l) \<and>
     int (size (w_live w)) \<le> us_peak_concurrent u)"

definition books_balance :: "world \<Rightarrow> bool" where
  "books_balance w \<longleftrightarrow> (let u = rb_usage (w_budget w) in
     us_estimated_input_tokens u =
       wrap64 (w_settled_input w + (\<Sum>r \<in># w_live w. ar_estimated_input_tokens r)) \<and>
     us_reserved_output_tokens u =
       wrap64 (w_settled_output w + (\<Sum>r \<in># w_live w. ar_max_output_tokens r)))"

definition sound_world :: "budget_limits \<Rightarrow> world \<Rightarrow> bool" where
  "sound_world l w \<longleftrightarrow> within_limits l w \<and> books_balance w"

lemma add64_one: "0 \<le> a \<Longrightarrow> a < 2 ^ 63 - 1 \<Longrightarrow> add64 a 1 = a + 1"
  by (rule add64_exact) (simp add: int64_def)

lemma slot_simps [simp]:
  "rb_limits (take_slot b) = rb_limits b" "rb_usage (take_slot b) = rb_usage b"
  "rb_active (take_slot b) = rb_active b"
  "rb_limits (release_slot b) = rb_limits b" "rb_usage (release_slot b) = rb_usage b"
  "rb_active (release_slot b) = rb_active b"
  "max_concurrent (rb_limits b) > 0 \<Longrightarrow> rb_slots (take_slot b) = rb_slots b + 1"
  "max_concurrent (rb_limits b) > 0 \<Longrightarrow> rb_slots (release_slot b) = rb_slots b - 1"
  by (simp_all add: take_slot_def release_slot_def)

lemma size_remove: "r \<in># M \<Longrightarrow> int (size (M - {#r#})) = int (size M) - 1"
proof -
  assume "r \<in># M"
  then have "size M = Suc (size (M - {#r#}))" by (metis insert_DiffM size_add_mset)
  then show ?thesis by simp
qed

lemma step_within:
  assumes sane: "limits_sane l" and inv: "within_limits l w" and st: "step w w'"
  shows "within_limits l w'"
  using st
proof cases
  case (call now fault e b)
  from inv reserve_call_effect [OF call(2)] sane show ?thesis
    unfolding call(1)
    by (cases e) (auto simp: within_limits_def Let_def same_frame_def same_counters_def machine_def
        limits_sane_def add64_one)
next
  case (reserve now fault tokens cost b)
  from inv reserve_effect [OF reserve(2)] sane show ?thesis
    unfolding reserve(1)
    by (auto simp: within_limits_def Let_def same_frame_def same_counters_def machine_def limits_sane_def add64_one)
next
  case (refuse now fault tokens cost e b)
  from inv reserve_effect [OF refuse(2)] sane show ?thesis
    unfolding refuse(1)
    by (auto simp: within_limits_def Let_def same_frame_def same_counters_def machine_def)
next
  case (slot r)
  from inv slot show ?thesis
    by (auto simp: within_limits_def Let_def slot_free_def)
next
  case (acquire r now fault b)
  have m: "machine (rb_usage (w_budget w))" using inv by (simp add: within_limits_def Let_def)
  note eff = acquire_effect [OF acquire(3) m]
  then have chk: "attempt_check now r (w_budget w) = None" by simp
  note bound = attempt_check_None(1) [OF chk]
  have pos: "1 \<le> int (size (w_waiting w))" using size_remove [OF acquire(2)] by simp
  from inv eff bound pos sane acquire(2) show ?thesis
    unfolding acquire(1)
    by (auto simp: within_limits_def Let_def same_frame_def same_counters_def machine_def limits_sane_def
        charge_attempt_def size_remove add64_one)
next
  case (reject r now fault e b)
  have pos: "1 \<le> int (size (w_waiting w))" using size_remove [OF reject(2)] by simp
  from inv acquire_effect [OF reject(3)] pos reject(2) show ?thesis
    unfolding reject(1)
    by (auto simp: within_limits_def Let_def same_frame_def same_counters_def machine_def size_remove)
next
  case (release r now fault a e b)
  from inv release_effect [OF release(3)] release(2) show ?thesis
    unfolding release(1)
    by (auto simp: within_limits_def Let_def same_frame_def machine_def size_remove split: if_splits)
next
  case leave
  from inv leave show ?thesis by (auto simp: within_limits_def Let_def)
qed


lemma books_machine: "within_limits l w \<Longrightarrow> machine (rb_usage (w_budget w))"
  by (simp add: within_limits_def Let_def)

lemma sum_remove: "r \<in># M \<Longrightarrow> (\<Sum>x \<in># M. f x) = f r + (\<Sum>x \<in># M - {#r#}. (f x :: int))"
  by (metis image_mset_add_mset insert_DiffM sum_mset.add_mset)

lemma step_books:
  assumes m: "machine (rb_usage (w_budget w))" and inv: "books_balance w" and st: "step w w'"
  shows "books_balance w'"
  using st
proof cases
  case (call now fault e b)
  from inv reserve_call_effect [OF call(2) m] show ?thesis
    unfolding call(1) by (cases e) (auto simp: books_balance_def Let_def same_counters_def)
next
  case (reserve now fault tokens cost b)
  from inv reserve_effect [OF reserve(2) m] show ?thesis
    unfolding reserve(1)
    by (auto simp: books_balance_def Let_def same_counters_def add64_def algebra_simps)
next
  case (refuse now fault tokens cost e b)
  from inv reserve_effect [OF refuse(2) m] show ?thesis
    unfolding refuse(1) by (auto simp: books_balance_def Let_def same_counters_def)
next
  case (slot r)
  with inv show ?thesis by (auto simp: books_balance_def Let_def)
next
  case (acquire r now fault b)
  from inv acquire_effect [OF acquire(3) m] show ?thesis
    unfolding acquire(1)
    by (auto simp: books_balance_def Let_def same_counters_def charge_attempt_def add64_def algebra_simps)
next
  case (reject r now fault e b)
  from inv acquire_effect [OF reject(3) m] show ?thesis
    unfolding reject(1) by (auto simp: books_balance_def Let_def same_counters_def)
next
  case (release r now fault a e b)
  from inv release_effect [OF release(3)] show ?thesis
    unfolding release(1)
    by (auto simp: books_balance_def Let_def settles_input_def settles_output_def add64_def sub64_def
        sum_remove [OF release(2)] algebra_simps)
next
  case leave
  with inv show ?thesis by (auto simp: books_balance_def Let_def)
qed

interpretation budget_runs: preserved step "\<lambda>w. limits_sane l \<and> sound_world l w" for l
  by unfold_locales (auto simp: sound_world_def intro: step_within step_books books_machine)

text \<open>A budget at the start of a run: nothing is live, and usage is within the limits.\<close>

definition fresh :: "budget_limits \<Rightarrow> run_budget \<Rightarrow> bool" where
  "fresh l b \<longleftrightarrow> rb_limits b = l \<and> rb_slots b = 0 \<and> rb_active b = 0 \<and> machine (rb_usage b) \<and>
     validate_restored_budget (rb_usage b) l = None \<and> 0 \<le> us_peak_concurrent (rb_usage b)"

lemma fresh_sound: "fresh l b \<Longrightarrow> sound_world l (start b)"
  by (auto simp: fresh_def sound_world_def within_limits_def books_balance_def start_def Let_def
      machine_def validate_restored_budget_def)


section \<open>A run to look at\<close>

definition sample_limits :: budget_limits where
  "sample_limits = \<lparr> max_calls = 1, max_attempts = 2, max_estimated_input_tokens = 100,
     max_reserved_output_tokens = 0, max_concurrent = 1, max_cost_usd = fzero, max_duration = 0 \<rparr>"

definition sample_attempt :: attempt_reservation where
  "sample_attempt = \<lparr> ar_estimated_input_tokens = 5, ar_max_output_tokens = 7, ar_estimated_cost_usd = fzero \<rparr>"

definition sample_actual :: attempt_actual where
  "sample_actual = \<lparr> aa_input_tokens = 4, aa_output_tokens = 3, aa_cost_usd = None, aa_usage_observed = True \<rparr>"

definition sample_budget :: run_budget where
  "sample_budget = new_run_budget 0 sample_limits"

definition sample_waiting :: world where
  "sample_waiting = (start sample_budget)\<lparr>w_budget := take_slot sample_budget, w_waiting := {#sample_attempt#}\<rparr>"

definition sample_live :: world where
  "sample_live = sample_waiting\<lparr>w_budget := snd (acquire_locked 0 None sample_attempt (take_slot sample_budget)),
     w_waiting := {#}, w_live := {#sample_attempt#}\<rparr>"

definition sample_done :: world where
  "sample_done = sample_live\<lparr>w_budget := snd (release_locked 0 None sample_attempt sample_actual (w_budget sample_live)),
     w_live := {#}, w_leaving := 1, w_settled_input := 4, w_settled_output := 3\<rparr>"

lemma round64_0 [simp]: "round64 0 = Finite 0"
  by (simp add: round64_def)

lemmas sample_defs = sample_limits_def sample_attempt_def sample_actual_def sample_budget_def
  new_run_budget_def zero_snapshot_def

lemmas acquire_defs = acquire_locked_def reserve_attempt_locked_def attempt_check_def
  check_deadline_locked_def charge_attempt_def persist_locked_def Let_def

lemmas release_defs = release_locked_def reconcile_attempt_locked_def persist_locked_def join_errors_def Let_def

lemma sample_fresh: "fresh sample_limits sample_budget"
  by (simp add: fresh_def sample_defs machine_def int64_def validate_restored_budget_def)

lemma sample_sane: "limits_sane sample_limits"
  by (simp add: limits_sane_def sample_limits_def)

lemma sample_acquired: "fst (acquire_locked 0 None sample_attempt (take_slot sample_budget)) = None"
  by (simp add: sample_defs take_slot_def acquire_defs add64_exact int64_def)

lemma sample_run: "step\<^sup>*\<^sup>* (start sample_budget) sample_done"
proof -
  have "step (start sample_budget) sample_waiting"
    using step.slot [of sample_attempt "start sample_budget"]
    by (simp add: sample_waiting_def start_def reservation_check_def slot_free_def sample_defs)
  moreover have "step sample_waiting sample_live"
    using step.acquire [of sample_attempt sample_waiting 0 None
        "snd (acquire_locked 0 None sample_attempt (take_slot sample_budget))"] sample_acquired
    by (simp add: sample_live_def sample_waiting_def start_def prod_eq_iff)
  moreover have "step sample_live sample_done"
    using step.release [of sample_attempt sample_live 0 None sample_actual
        "fst (release_locked 0 None sample_attempt sample_actual (w_budget sample_live))"
        "snd (release_locked 0 None sample_attempt sample_actual (w_budget sample_live))"]
    by (simp add: sample_done_def sample_live_def sample_waiting_def start_def settles_input_def
        settles_output_def actual_valid_def sample_defs)
  ultimately show ?thesis by simp
qed

section \<open>Properties\<close>

text \<open>
  C23: under every interleaving of \<open>Reserve\<close>, \<open>ReserveCall\<close> and the phases of concurrent
  \<open>AcquireAttempt\<close> calls and releases, whatever the clock and the state file do, the run never
  exceeds its limits on calls, attempts and concurrency: \<open>PeakConcurrent\<close> bounds the attempts that
  are live, and the channel holds exactly one token for each attempt between its send and its receive.
\<close>

theorem budget_limits_hold:
  assumes "step\<^sup>*\<^sup>* (start b) w" and "fresh l b" and "limits_sane l"
  shows "(max_calls l > 0 \<longrightarrow> us_calls (rb_usage (w_budget w)) \<le> max_calls l) \<and>
    (max_attempts l > 0 \<longrightarrow> us_attempts (rb_usage (w_budget w)) \<le> max_attempts l) \<and>
    (max_concurrent l > 0 \<longrightarrow> us_peak_concurrent (rb_usage (w_budget w)) \<le> max_concurrent l \<and>
      rb_slots (w_budget w) = int (size (w_waiting w)) + int (size (w_live w)) + w_leaving w \<and>
      rb_slots (w_budget w) \<le> max_concurrent l) \<and>
    int (size (w_live w)) \<le> us_peak_concurrent (rb_usage (w_budget w)) \<and>
    rb_active (w_budget w) = int (size (w_live w))"
  using budget_runs.run_inv [OF assms(1), of l] fresh_sound [OF assms(2)] assms(3)
  by (auto simp: sound_world_def within_limits_def Let_def)

theorem budget_limits_hold_witness:
  "us_calls (rb_usage (w_budget sample_done)) \<le> 1 \<and> us_attempts (rb_usage (w_budget sample_done)) \<le> 2 \<and>
   us_peak_concurrent (rb_usage (w_budget sample_done)) \<le> 1"
  using budget_limits_hold [OF sample_run sample_fresh sample_sane] by (simp add: sample_limits_def)

text \<open>
  C24: the token counters are exact under every interleaving: they hold the usage that was settled,
  which is the actual usage where it was observed and valid and the reservation otherwise, plus
  the reservations of the attempts that are live, modulo the width of the integers.
\<close>

theorem budget_books_exact:
  assumes "step\<^sup>*\<^sup>* (start b) w" and "fresh l b" and "limits_sane l"
  shows "us_estimated_input_tokens (rb_usage (w_budget w)) =
      wrap64 (w_settled_input w + (\<Sum>r \<in># w_live w. ar_estimated_input_tokens r)) \<and>
    us_reserved_output_tokens (rb_usage (w_budget w)) =
      wrap64 (w_settled_output w + (\<Sum>r \<in># w_live w. ar_max_output_tokens r))"
  using budget_runs.run_inv [OF assms(1), of l] fresh_sound [OF assms(2)] assms(3)
  by (auto simp: sound_world_def books_balance_def Let_def)

theorem budget_books_exact_witness:
  "us_estimated_input_tokens (rb_usage (w_budget sample_done)) = 4 \<and>
   us_reserved_output_tokens (rb_usage (w_budget sample_done)) = 3"
  using budget_books_exact [OF sample_run sample_fresh sample_sane]
  by (simp add: sample_done_def int64_def)

text \<open>
  An operation that fails, on a limit, on the deadline, on a negative value or because the
  state file could not be written, leaves the call, attempt and token counters, the number of
  active attempts and the tokens in the channel as they were.
\<close>

lemma refused_changes_nothing:
  assumes "machine (rb_usage b)"
    and "reserve now fault tokens cost b = (Some e, b') \<or> reserve_call now fault b = (Some e, b') \<or>
      acquire_attempt now fault cancelled r b = Some (Some e, b')"
  shows "us_calls (rb_usage b') = us_calls (rb_usage b) \<and> us_attempts (rb_usage b') = us_attempts (rb_usage b) \<and>
    us_estimated_input_tokens (rb_usage b') = us_estimated_input_tokens (rb_usage b) \<and>
    us_reserved_output_tokens (rb_usage b') = us_reserved_output_tokens (rb_usage b) \<and>
    rb_active b' = rb_active b \<and> rb_slots b' = rb_slots b"
proof -
  have same: "same_counters (rb_usage b') (rb_usage b) \<and> rb_active b' = rb_active b \<and> rb_slots b' = rb_slots b"
    using assms(2)
  proof (elim disjE)
    assume "reserve now fault tokens cost b = (Some e, b')"
    from reserve_effect [OF this assms(1)] show ?thesis by (auto simp: same_frame_def)
  next
    assume "reserve_call now fault b = (Some e, b')"
    from reserve_call_effect [OF this assms(1)] show ?thesis by (auto simp: same_frame_def)
  next
    assume a: "acquire_attempt now fault cancelled r b = Some (Some e, b')"
    obtain e1 b1 where l: "acquire_locked now fault r (take_slot b) = (e1, b1)" by force
    from acquire_effect [OF l] assms(1)
    have "same_frame (take_slot b) b1 \<and> (case e1 of None \<Rightarrow> True
        | Some _ \<Rightarrow> same_counters (rb_usage b1) (rb_usage b) \<and> rb_active b1 = rb_active b)"
      by (auto split: option.splits)
    with a l show ?thesis
      by (auto simp: acquire_attempt_def same_frame_def same_counters_def take_slot_def release_slot_def
          split: option.splits if_splits)
  qed
  then show ?thesis by (simp add: same_counters_def)
qed

theorem refused_changes_nothing_witness:
  "us_attempts (rb_usage (snd (reserve 0 (Some ''disk full'') 5 fzero (sample_budget\<lparr>rb_state_path := ''s''\<rparr>)))) = 0"
  using refused_changes_nothing [of "sample_budget\<lparr>rb_state_path := ''s''\<rparr>" 0 "Some ''disk full''" 5 fzero
      "PersistFailed ''disk full''" "snd (reserve 0 (Some ''disk full'') 5 fzero (sample_budget\<lparr>rb_state_path := ''s''\<rparr>))"]
  by (simp add: sample_defs machine_def int64_def reserve_def reserve_call_locked_def acquire_defs add64_exact
      add_calls_def)

text \<open>
  A budget that was persisted is restored: reading back the state file that \<open>persistLocked\<close>
  wrote, with the same limits, gives the usage, the start and the deadline of the budget, so that
  a resumed run goes on with what is left, provided the usage passes the checks on restored usage.
\<close>

lemma persisted_budget_restored:
  assumes "rb_state_path b \<noteq> []" and "validate_restored_budget (rb_usage b) (rb_limits b) = None"
    and "max_cost_usd (rb_limits b) \<noteq> NaN"
    and "rb_deadline b = (if max_duration (rb_limits b) > 0 then Some (rb_started b + max_duration (rb_limits b)) else None)"
    and "persist_locked now None b = (e, b')" and "rb_disk b' = Some state"
  shows "e = None \<and> (\<exists>r. new_persistent_run_budget later fault None (rb_limits b) (rb_state_path b) (Stored state) = Inr r \<and>
    rb_usage r = (rb_usage b)\<lparr>us_elapsed_seconds := fzero\<rparr> \<and> rb_started r = rb_started b \<and>
    rb_deadline r = rb_deadline b \<and> rb_limits r = rb_limits b \<and> rb_state_path r = rb_state_path b)"
proof -
  have "validate_restored_budget (rb_usage b\<lparr>us_elapsed_seconds := s\<rparr>) (rb_limits b) = None" for s
    using assms(2) by (simp add: validate_restored_budget_def)
  with assms show ?thesis
    by (auto simp: persist_locked_def new_persistent_run_budget_def Let_def same_limits_def feq_def
        persisted_limits_def new_run_budget_def run_budget_state_schema_version_def)
qed

theorem persisted_budget_restored_witness:
  "\<exists>r. new_persistent_run_budget 9 None None sample_limits ''s''
     (Stored (the (rb_disk (snd (persist_locked 3 None (sample_budget\<lparr>rb_state_path := ''s''\<rparr>)))))) = Inr r \<and>
   rb_started r = 0"
  using persisted_budget_restored [of "sample_budget\<lparr>rb_state_path := ''s''\<rparr>" 3 None
      "snd (persist_locked 3 None (sample_budget\<lparr>rb_state_path := ''s''\<rparr>))"
      "the (rb_disk (snd (persist_locked 3 None (sample_budget\<lparr>rb_state_path := ''s''\<rparr>))))" 9 None]
  by (auto simp: sample_defs validate_restored_budget_def persist_locked_def)

section \<open>Float drift\<close>

text \<open>
  Two attempts, estimated at 0.1 and 0.7 dollars, both settled at an actual cost of 0: the float
  subtractions leave a cost of minus \<open>1 / 2 ^ 55\<close>.
\<close>

definition cents :: "rat \<Rightarrow> attempt_reservation" where
  "cents c = \<lparr> ar_estimated_input_tokens = 0, ar_max_output_tokens = 0, ar_estimated_cost_usd = round64 c \<rparr>"

definition free_of_charge :: attempt_actual where
  "free_of_charge = \<lparr> aa_input_tokens = 0, aa_output_tokens = 0, aa_cost_usd = Some fzero, aa_usage_observed = True \<rparr>"

definition unlimited :: budget_limits where
  "unlimited = \<lparr> max_calls = 0, max_attempts = 0, max_estimated_input_tokens = 0,
     max_reserved_output_tokens = 0, max_concurrent = 0, max_cost_usd = fzero, max_duration = 0 \<rparr>"

definition drift_acquired :: run_budget where
  "drift_acquired = snd (acquire_locked 0 None (cents (7 / 10))
     (snd (acquire_locked 0 None (cents (1 / 10)) ((new_run_budget 0 unlimited)\<lparr>rb_state_path := ''s''\<rparr>))))"

definition drifted :: run_budget where
  "drifted = snd (release_locked 0 None (cents (1 / 10)) free_of_charge
     (snd (release_locked 0 None (cents (7 / 10)) free_of_charge drift_acquired)))"

lemma round_normal:
  assumes "2 ^ 52 \<le> n" and "n < 2 ^ 53" and "q = of_int n * pow2 k" and "- 1074 \<le> k" and "k < 971"
  shows "round64 q = Finite q"
proof -
  have p: "pow2 (k + 52) = 2 ^ 52 * pow2 k" "pow2 (k + 53) = 2 ^ 53 * pow2 k"
    unfolding pow2_add by (simp_all add: pow2_def)
  have n: "(2 ^ 52 :: rat) \<le> of_int n" "of_int n < (2 ^ 53 :: rat)"
    using assms(1,2) by simp_all
  have "round64 q = Finite (of_int n * pow2 (k + 52 - 52))"
  proof (rule round64_eq)
    show "pow2 (k + 52) \<le> q" unfolding p assms(3) using n(1) by (simp add: mult_right_mono less_imp_le)
    show "q < pow2 (k + 52 + 1)" using n(2) unfolding assms(3) by (simp add: p add.assoc)
    show "- 1022 \<le> k + 52" "k + 52 < 1023" using assms(4,5) by auto
    show "round_half_even (q / pow2 (k + 52 - 52)) = n"
      using pow2_pos [of k, THEN less_imp_neq, THEN not_sym] by (simp add: assms(3) round_half_even_def Let_def)
    have "of_int n * pow2 k < pow2 (k + 53)" using n(2) unfolding p by simp
    also have "\<dots> \<le> pow2 1024" using assms(5) by (intro pow2_mono) simp
    finally show "of_int n * pow2 (k + 52 - 52) < pow2 1024" by simp
  qed
  then show ?thesis by (simp add: assms(3))
qed

lemma seven_tenths: "round64 (7 / 10) = Finite (3152519739159347 / 2 ^ 52)"
  by (subst round64_eq [of "- 1" _ 6305039478318694]) (simp_all add: pow2_def round_half_even_def Let_def)


lemma tenth_again: "round64 (7205759403792794 / 2 ^ 56) = Finite (7205759403792794 / 2 ^ 56)"
  by (rule round_normal [of 7205759403792794 _ "- 56"]) (simp_all add: pow2_def)

lemma seven_again: "round64 (3152519739159347 / 2 ^ 52) = Finite (3152519739159347 / 2 ^ 52)"
  by (rule round_normal [of 6305039478318694 _ "- 53"]) (simp_all add: pow2_def)

lemma eight_tenths:
  "round64 (7205759403792794 / 2 ^ 56 + 3152519739159347 / 2 ^ 52) = Finite (7205759403792793 / 2 ^ 53)"
  by (subst round64_eq [of "- 1" _ 7205759403792793]) (simp_all add: pow2_def round_half_even_def Let_def)

lemma drift_one:
  "round64 (7205759403792793 / 2 ^ 53 - 3152519739159347 / 2 ^ 52) = Finite (900719925474099 / 2 ^ 53)"
  "round64 (900719925474099 / 2 ^ 53) = Finite (900719925474099 / 2 ^ 53)"
  by (subst round_normal [of 7205759403792792 _ "- 56"]; simp add: pow2_def)+

lemma drift_two:
  "round64 (900719925474099 / 2 ^ 53 - 7205759403792794 / 2 ^ 56) = Finite (- 1 / 2 ^ 55)"
  "round64 (- 1 / 2 ^ 55) = Finite (- 1 / 2 ^ 55)"
proof -
  have *: "round64 (1 / 2 ^ 55) = Finite (1 / 2 ^ 55)"
    by (rule round_normal [of "2 ^ 52" _ "- 107"]) (simp_all add: pow2_def)
  show n: "round64 (- 1 / 2 ^ 55) = Finite (- 1 / 2 ^ 55)"
    using round64_neg [of "1 / 2 ^ 55"] * by simp
  have "900719925474099 / 2 ^ 53 - 7205759403792794 / 2 ^ 56 = (- 1 / 2 ^ 55 :: rat)" by simp
  then show "round64 (900719925474099 / 2 ^ 53 - 7205759403792794 / 2 ^ 56) = Finite (- 1 / 2 ^ 55)"
    by (simp only: n)
qed

lemma drift_costs:
  "fadd fzero (round64 (1 / 10)) = round64 (1 / 10)"
  "fadd (round64 (1 / 10)) (round64 (7 / 10)) = Finite (7205759403792793 / 2 ^ 53)"
  "fadd (fsub (Finite (7205759403792793 / 2 ^ 53)) (round64 (7 / 10))) fzero = Finite (900719925474099 / 2 ^ 53)"
  "fadd (fsub (Finite (900719925474099 / 2 ^ 53)) (round64 (1 / 10))) fzero = Finite (- 1 / 2 ^ 55)"
  unfolding tenth seven_tenths fsub_def fneg.simps fadd.simps
  by (simp_all only: add_0 add_0_right add_uminus_conv_diff tenth_again eight_tenths drift_one drift_two fadd.simps)

text \<open>
  C28: the estimated cost of a run can become negative: after two attempts that were estimated at
  0.1 and 0.7 dollars and both settled at an actual cost of 0, the counter is minus \<open>1 / 2 ^ 55\<close>
  through the rounding of the subtractions, and the state file that the budget itself wrote is
  refused on the next start as negative usage.
\<close>

theorem settled_budget_refused:
  "us_estimated_cost_usd (rb_usage drifted) = Finite (- 1 / 2 ^ 55) \<and>
   (\<exists>state. rb_disk drifted = Some state \<and>
     new_persistent_run_budget later fault None unlimited ''s'' (Stored state) = Inl NegativeUsage)"
proof -
  define c1 where "c1 = round64 (1 / 10)"
  define c2 where "c2 = round64 (7 / 10)"
  note costs = drift_costs [folded c1_def c2_def]
  have A: "rb_usage drift_acquired = zero_snapshot\<lparr>us_attempts := 2, us_peak_concurrent := 2,
      us_estimated_cost_usd := Finite (7205759403792793 / 2 ^ 53)\<rparr>"
    "rb_limits drift_acquired = unlimited" "rb_state_path drift_acquired = ''s''" "rb_started drift_acquired = 0"
    by (simp_all only: drift_acquired_def cents_def c1_def [symmetric] c2_def [symmetric])
      (simp_all add: costs unlimited_def new_run_budget_def zero_snapshot_def acquire_defs add64_exact int64_def)
  have D: "rb_usage drifted = zero_snapshot\<lparr>us_attempts := 2, us_peak_concurrent := 2,
      us_estimated_cost_usd := Finite (- 1 / 2 ^ 55)\<rparr>"
    "\<exists>s. rb_disk drifted = Some \<lparr> ps_schema_version = 2, ps_started_at = Some 0,
       ps_limits = persisted_limits unlimited, ps_usage = zero_snapshot\<lparr>us_attempts := 2, us_peak_concurrent := 2,
      us_estimated_cost_usd := Finite (- 1 / 2 ^ 55), us_elapsed_seconds := s\<rparr> \<rparr>"
    using A
    by (simp_all only: drifted_def cents_def c1_def [symmetric] c2_def [symmetric])
      (simp_all add: costs [simplified] free_of_charge_def release_defs add64_def sub64_def unlimited_def
        zero_snapshot_def run_budget_state_schema_version_def int64_def)
  from D(2) obtain s where d: "rb_disk drifted = Some \<lparr> ps_schema_version = 2, ps_started_at = Some 0,
       ps_limits = persisted_limits unlimited, ps_usage = zero_snapshot\<lparr>us_attempts := 2, us_peak_concurrent := 2,
      us_estimated_cost_usd := Finite (- 1 / 2 ^ 55), us_elapsed_seconds := s\<rparr> \<rparr>" by blast
  show ?thesis
    unfolding D(1) d
    by (simp add: new_persistent_run_budget_def run_budget_state_schema_version_def same_limits_def
        feq_def persisted_limits_def validate_restored_budget_def unlimited_def)
qed

end
