(* ===== verification/Fallback.thy ===== *)
theory Fallback
  imports RunBudgetProps
begin

text \<open>
  internal/calibration/fallback.go: what happens when a selective decision abstains.  The cost of a
  fallback is reserved on a budget that the code reaches through the interface
  \<open>BudgetReserver\<close>; \<open>budget_reserver\<close> is its contract, and the run budget of internal/mode
  fulfils it.  A reserver takes the number of the reservation, which stands for the moment it is made.
\<close>

section \<open>State\<close>

type_synonym fallback_kind = string
abbreviation FallbackNone :: fallback_kind where "FallbackNone \<equiv> ''none''"
abbreviation FallbackJudge :: fallback_kind where "FallbackJudge \<equiv> ''judge''"
abbreviation FallbackHuman :: fallback_kind where "FallbackHuman \<equiv> ''human_review_handoff''"
abbreviation FallbackNoAction :: fallback_kind where "FallbackNoAction \<equiv> ''no_action''"

record fallback_policy =
  fp_kind :: fallback_kind
  fp_cost_calls :: int
  fp_cost_tokens :: int
  fp_cost_latency_ms :: int

record applicability =
  ap_applicable :: bool
  ap_reason :: string
  ap_route_scope :: string
  ap_domain_scope :: string
  ap_policy_version :: string

record selective_decision =
  sd_select :: bool
  sd_abstain_reason :: string
  sd_estimated_correct :: f64
  sd_threshold :: f64
  sd_calibration_version :: string
  sd_applicability :: applicability
  sd_fallback :: fallback_policy
  sd_fallback_accounted :: bool

datatype 'e fallback_error =
    HiddenCost fallback_kind | CallRequired fallback_kind | NegativeCost | UnknownKind string
  | BudgetMissing | ReservationFailed 'e

section \<open>Operations\<close>

definition validate_fallback_policy :: "fallback_policy \<Rightarrow> 'e fallback_error option" where
  "validate_fallback_policy policy =
     (if fp_kind policy = FallbackNone \<or> fp_kind policy = FallbackNoAction then
        fail_if (fp_cost_calls policy \<noteq> 0 \<or> fp_cost_tokens policy \<noteq> 0) (HiddenCost (fp_kind policy))
      else if fp_kind policy = FallbackJudge \<or> fp_kind policy = FallbackHuman then first_err [
        fail_if (fp_cost_calls policy < 1) (CallRequired (fp_kind policy)),
        fail_if (fp_cost_tokens policy < 0 \<or> fp_cost_latency_ms policy < 0) NegativeCost]
      else Some (UnknownKind (fp_kind policy)))"

definition no_fallback :: fallback_policy where
  "no_fallback = \<lparr> fp_kind = FallbackNone, fp_cost_calls = 0, fp_cost_tokens = 0, fp_cost_latency_ms = 0 \<rparr>"

definition decision ::
  "bool \<Rightarrow> string \<Rightarrow> f64 \<Rightarrow> f64 \<Rightarrow> applicability \<Rightarrow> fallback_policy \<Rightarrow> selective_decision" where
  "decision selected reason estimate threshold applicability fallback =
     \<lparr> sd_select = selected, sd_abstain_reason = reason, sd_estimated_correct = estimate,
       sd_threshold = threshold, sd_calibration_version = [], sd_applicability = applicability,
       sd_fallback = fallback, sd_fallback_accounted = False \<rparr>"

definition select_with_fallback ::
  "f64 \<Rightarrow> f64 \<Rightarrow> applicability \<Rightarrow> fallback_policy \<Rightarrow> selective_decision" where
  "select_with_fallback threshold estimate applicability fallback =
     (let (abstain, reason) =
        (if \<not> ap_applicable applicability then (True, ap_reason applicability)
         else if flt estimate threshold then (True, ''below_threshold'') else (False, []))
      in if \<not> abstain then decision True [] estimate threshold applicability no_fallback
         else case (validate_fallback_policy fallback :: unit fallback_error option) of
           Some _ \<Rightarrow> decision False ''invalid_fallback'' estimate threshold applicability no_fallback
         | None \<Rightarrow> decision False reason estimate threshold applicability fallback)"

text \<open>The loop of \<open>ChargeFallback\<close>: \<open>left\<close> reservations are left, the next one has number \<open>i\<close>.\<close>

fun reserve_calls ::
  "(nat \<Rightarrow> int \<Rightarrow> f64 \<Rightarrow> 'b \<Rightarrow> 'e option \<times> 'b) \<Rightarrow> int \<Rightarrow> int \<Rightarrow> nat \<Rightarrow> nat \<Rightarrow> 'b \<Rightarrow> 'e option \<times> 'b" where
  "reserve_calls reserver tokens_per_call remainder i 0 budget = (None, budget)"
| "reserve_calls reserver tokens_per_call remainder i (Suc left) budget =
     (let tokens = (if i = 0 then add64 tokens_per_call remainder else tokens_per_call) in
      case reserver i tokens fzero budget of
        (Some e, budget') \<Rightarrow> (Some e, budget')
      | (None, budget') \<Rightarrow> reserve_calls reserver tokens_per_call remainder (i + 1) left budget')"

definition charge_fallback ::
  "(nat \<Rightarrow> int \<Rightarrow> f64 \<Rightarrow> 'b \<Rightarrow> 'e option \<times> 'b) \<Rightarrow> fallback_policy \<Rightarrow> 'b option \<Rightarrow> 'e fallback_error option \<times> 'b option"
where
  "charge_fallback reserver policy budget =
     (case validate_fallback_policy policy of Some e \<Rightarrow> (Some e, budget) | None \<Rightarrow>
      if fp_cost_calls policy = 0 then (None, budget)
      else case budget of None \<Rightarrow> (Some BudgetMissing, None) | Some b \<Rightarrow>
        let tokens_per_call = go_div (fp_cost_tokens policy) (fp_cost_calls policy);
            remainder = go_mod (fp_cost_tokens policy) (fp_cost_calls policy);
            (e, b') = reserve_calls reserver tokens_per_call remainder 0 (nat (fp_cost_calls policy)) b
        in (map_err ReservationFailed e, Some b'))"

definition account_fallback ::
  "(nat \<Rightarrow> int \<Rightarrow> f64 \<Rightarrow> 'b \<Rightarrow> 'e option \<times> 'b) \<Rightarrow> 'b option \<Rightarrow> selective_decision option \<Rightarrow>
   'e fallback_error option \<times> 'b option \<times> selective_decision option" where
  "account_fallback reserver budget outcome =
     (case outcome of None \<Rightarrow> (None, budget, None) | Some d \<Rightarrow>
      if sd_select d then (None, budget, Some d)
      else case charge_fallback reserver (sd_fallback d) budget of
        (Some e, budget') \<Rightarrow> (Some e, budget', Some d)
      | (None, budget') \<Rightarrow> (None, budget', Some (d\<lparr>sd_fallback_accounted := fp_cost_calls (sd_fallback d) > 0\<rparr>)))"

lemma wrap64_inner [simp]: "wrap64 (a + (wrap64 b + c)) = wrap64 (a + (b + c))"
  by (metis add.left_commute wrap64_add(1))

section \<open>The contract of the budget\<close>

text \<open>
  What \<open>ChargeFallback\<close> needs from a budget: a reservation that succeeds charges one call and the
  tokens that were asked for, one that fails charges nothing, both modulo the width of the counters.
\<close>

locale budget_reserver =
  fixes reserver :: "nat \<Rightarrow> int \<Rightarrow> f64 \<Rightarrow> 'b \<Rightarrow> 'e option \<times> 'b"
    and sound :: "'b \<Rightarrow> bool" and calls :: "'b \<Rightarrow> int" and tokens :: "'b \<Rightarrow> int"
  assumes reserved: "sound b \<Longrightarrow> reserver i t c b = (None, b') \<Longrightarrow>
      sound b' \<and> calls b' = add64 (calls b) 1 \<and> tokens b' = add64 (tokens b) t"
    and refused: "sound b \<Longrightarrow> reserver i t c b = (Some e, b') \<Longrightarrow>
      sound b' \<and> calls b' = calls b \<and> tokens b' = tokens b"
    and range: "sound b \<Longrightarrow> int64 (calls b) \<and> int64 (tokens b)"
begin

lemma reserve_calls_charges:
  assumes "sound b" and "reserve_calls reserver per rest i n b = (e, b')"
  shows "\<exists>k \<le> n. (e = None \<longrightarrow> k = n) \<and> calls b' = wrap64 (calls b + int k) \<and>
    tokens b' = wrap64 (tokens b + int k * per + (if i = 0 \<and> k > 0 then rest else 0))"
  using assms
proof (induction n arbitrary: i b)
  case 0
  then show ?case using range by (intro exI [of _ 0]) auto
next
  case (Suc n)
  define t where "t = (if i = 0 then add64 per rest else per)"
  obtain e1 b1 where r: "reserver i t fzero b = (e1, b1)" by force
  show ?case
  proof (cases e1)
    case (Some x)
    with Suc.prems r have "e = Some x" "b' = b1" by (simp_all add: t_def)
    with refused [OF Suc.prems(1) r [unfolded Some]] range [OF Suc.prems(1)] show ?thesis
      by (intro exI [of _ 0]) simp
  next
    case None
    with Suc.prems(2) r have rest': "reserve_calls reserver per rest (i + 1) n b1 = (e, b')"
      by (simp add: t_def)
    note one = reserved [OF Suc.prems(1) r [unfolded None]]
    obtain k where k: "k \<le> n" "e = None \<longrightarrow> k = n" "calls b' = wrap64 (calls b1 + int k)"
      "tokens b' = wrap64 (tokens b1 + int k * per)"
      using Suc.IH [OF conjunct1 [OF one] rest'] by auto
    have "calls b' = wrap64 (calls b + int (Suc k))"
      using one k(3) by (simp add: add64_def algebra_simps)
    moreover have "tokens b' = wrap64 (tokens b + int (Suc k) * per + (if i = 0 then rest else 0))"
      using one k(4) by (simp add: add64_def t_def algebra_simps)
    ultimately show ?thesis using k(1,2) by (intro exI [of _ "Suc k"]) simp
  qed
qed

text \<open>A valid policy that is charged in full costs exactly its calls and its tokens.\<close>

lemma charge_exact:
  assumes "sound b" and "charge_fallback reserver policy (Some b) = (e, Some b')"
  shows "\<exists>k \<le> nat (fp_cost_calls policy). calls b' = wrap64 (calls b + int k) \<and>
    (e = None \<longrightarrow> int k = fp_cost_calls policy \<and> tokens b' = wrap64 (tokens b + fp_cost_tokens policy)) \<and>
    (k = 0 \<longrightarrow> b' = b \<or> tokens b' = tokens b)"
proof (cases "validate_fallback_policy policy = (None :: 'e fallback_error option) \<and> fp_cost_calls policy \<noteq> 0")
  case False
  then have "b' = b" and "e = None \<longrightarrow> fp_cost_calls policy = 0 \<and> fp_cost_tokens policy = 0"
    using assms(2)
    by (auto simp: charge_fallback_def validate_fallback_policy_def fail_if_def split: option.splits if_splits)
  then show ?thesis using range [OF assms(1)] by (intro exI [of _ 0]) auto
next
  case True
  then have pos: "1 \<le> fp_cost_calls policy" "0 \<le> fp_cost_tokens policy"
    by (auto simp: validate_fallback_policy_def split: if_splits)
  let ?c = "fp_cost_calls policy" and ?t = "fp_cost_tokens policy"
  obtain e1 where r: "reserve_calls reserver (go_div ?t ?c) (go_mod ?t ?c) 0 (nat ?c) b = (e1, b')"
    and e: "e = map_err ReservationFailed e1"
    using assms(2) True by (auto simp: charge_fallback_def split: prod.splits)
  from reserve_calls_charges [OF assms(1) r] obtain k where k: "k \<le> nat ?c" "e1 = None \<longrightarrow> k = nat ?c"
    "calls b' = wrap64 (calls b + int k)"
    "tokens b' = wrap64 (tokens b + int k * go_div ?t ?c + (if k > 0 then go_mod ?t ?c else 0))" by auto
  have "?c * go_div ?t ?c + go_mod ?t ?c = ?t"
    using pos by (simp add: go_div_def go_mod_def)
  with k pos e range [OF assms(1)] show ?thesis
    by (intro exI [of _ k]) (auto simp: add.assoc)
qed

end

section \<open>The run budget fulfils the contract\<close>

text \<open>\<open>RunBudget.Reserve\<close> at the moments that \<open>clock\<close> gives, with the fault of each write.\<close>

definition run_reserver ::
  "(nat \<Rightarrow> int \<times> string option) \<Rightarrow> nat \<Rightarrow> int \<Rightarrow> f64 \<Rightarrow> run_budget \<Rightarrow> budget_error option \<times> run_budget" where
  "run_reserver clock i tokens cost b = reserve (fst (clock i)) (snd (clock i)) tokens cost b"

interpretation run_budget_reserver: budget_reserver "run_reserver clock" "\<lambda>b. machine (rb_usage b)"
  "\<lambda>b. us_calls (rb_usage b)" "\<lambda>b. us_estimated_input_tokens (rb_usage b)" for clock
proof unfold_locales
  fix b b' :: run_budget and i t c
  assume m: "machine (rb_usage b)"
  show "machine (rb_usage b') \<and> us_calls (rb_usage b') = add64 (us_calls (rb_usage b)) 1 \<and>
      us_estimated_input_tokens (rb_usage b') = add64 (us_estimated_input_tokens (rb_usage b)) t"
    if "run_reserver clock i t c b = (None, b')"
    using reserve_effect [OF that [unfolded run_reserver_def] m] m by (simp add: same_counters_def machine_def)
  show "machine (rb_usage b') \<and> us_calls (rb_usage b') = us_calls (rb_usage b) \<and>
      us_estimated_input_tokens (rb_usage b') = us_estimated_input_tokens (rb_usage b)"
    if "run_reserver clock i t c b = (Some e, b')" for e
    using reserve_effect [OF that [unfolded run_reserver_def] m] m by (simp add: same_counters_def machine_def)
qed (simp add: machine_def)

section \<open>Properties\<close>

text \<open>
  C37: charging a fallback on the run budget is exact: when it succeeds the budget has been charged
  exactly the calls and the tokens of the policy, the remainder of the division included; when it
  fails, the calls that were charged are a prefix of those of the policy, and they stay charged.
\<close>

theorem fallback_charged_exactly:
  assumes "machine (rb_usage b)" and "charge_fallback (run_reserver clock) policy (Some b) = (e, Some b')"
  shows "\<exists>k \<le> nat (fp_cost_calls policy). us_calls (rb_usage b') = wrap64 (us_calls (rb_usage b) + int k) \<and>
    (e = None \<longrightarrow> int k = fp_cost_calls policy \<and> us_estimated_input_tokens (rb_usage b') =
      wrap64 (us_estimated_input_tokens (rb_usage b) + fp_cost_tokens policy))"
  using run_budget_reserver.charge_exact [OF assms] by blast

definition sample_scope :: applicability where
  "sample_scope = \<lparr> ap_applicable = True, ap_reason = [], ap_route_scope = ''r'', ap_domain_scope = ''d'',
     ap_policy_version = ''v1'' \<rparr>"

definition sample_fallback :: fallback_policy where
  "sample_fallback = \<lparr> fp_kind = FallbackJudge, fp_cost_calls = 1, fp_cost_tokens = 7, fp_cost_latency_ms = 0 \<rparr>"

theorem fallback_charged_exactly_witness:
  "us_estimated_input_tokens (rb_usage (the (snd (charge_fallback (run_reserver (\<lambda>_. (0, None))) sample_fallback
     (Some sample_budget))))) = 7"
proof -
  let ?r = "charge_fallback (run_reserver (\<lambda>_. (0, None))) sample_fallback (Some sample_budget)"
  have "fst ?r = None \<and> (\<exists>b'. snd ?r = Some b')"
    by (simp add: charge_fallback_def sample_fallback_def validate_fallback_policy_def fail_if_def run_reserver_def
        reserve_def reserve_call_locked_def acquire_defs add_calls_def sample_defs add64_exact int64_def numeral_eq_Suc)
  then obtain b' where r: "?r = (None, Some b')" by (metis prod.collapse)
  have m: "machine (rb_usage sample_budget)" by (simp add: sample_defs machine_def int64_def)
  from fallback_charged_exactly [OF m r] r show ?thesis
    by (auto simp: sample_fallback_def sample_defs int64_def)
qed

text \<open>
  A decision is never recorded as accounted unless its fallback has been charged: accounting
  that fails leaves the decision as it was, and a decision that becomes accounted has a valid policy
  with at least one call, all of whose calls and tokens the run budget has been charged.
\<close>

lemma accounted_means_charged:
  assumes "machine (rb_usage b)" and "\<not> sd_fallback_accounted d"
    and "account_fallback (run_reserver clock) (Some b) (Some d) = (e, Some b', Some d')"
  shows "(e \<noteq> None \<longrightarrow> d' = d) \<and> (sd_fallback_accounted d' \<longrightarrow> \<not> sd_select d \<and>
    us_calls (rb_usage b') = wrap64 (us_calls (rb_usage b) + fp_cost_calls (sd_fallback d)) \<and>
    us_estimated_input_tokens (rb_usage b') =
      wrap64 (us_estimated_input_tokens (rb_usage b) + fp_cost_tokens (sd_fallback d)))"
proof (cases "sd_select d")
  case True
  with assms show ?thesis by (auto simp: account_fallback_def)
next
  case False
  obtain e1 b1 where c: "charge_fallback (run_reserver clock) (sd_fallback d) (Some b) = (e1, b1)" by force
  with False assms(3) have "b1 = Some b'" "e1 = e" by (auto simp: account_fallback_def split: option.splits)
  note r = run_budget_reserver.charge_exact [OF assms(1) c [unfolded this]]
  with False assms(2,3) c show ?thesis
    by (auto simp: account_fallback_def split: option.splits)
qed

theorem accounted_means_charged_witness:
  "\<exists>b' d'. account_fallback (run_reserver (\<lambda>_. (0, None))) (Some sample_budget)
      (Some (decision False ''below_threshold'' fzero fzero sample_scope sample_fallback)) = (None, Some b', Some d') \<and>
    us_calls (rb_usage b') = 1"
proof -
  let ?d = "decision False ''below_threshold'' fzero fzero sample_scope sample_fallback"
  let ?r = "charge_fallback (run_reserver (\<lambda>_. (0, None))) sample_fallback (Some sample_budget)"
  have "fst ?r = None \<and> (\<exists>b'. snd ?r = Some b')"
    by (simp add: charge_fallback_def sample_fallback_def validate_fallback_policy_def fail_if_def run_reserver_def
        reserve_def reserve_call_locked_def acquire_defs add_calls_def sample_defs add64_exact int64_def numeral_eq_Suc)
  then obtain b' where r: "?r = (None, Some b')" by (metis prod.collapse)
  let ?d' = "?d\<lparr>sd_fallback_accounted := True\<rparr>"
  have a: "account_fallback (run_reserver (\<lambda>_. (0, None))) (Some sample_budget) (Some ?d) = (None, Some b', Some ?d')"
    using r by (simp add: account_fallback_def decision_def sample_fallback_def)
  have m: "machine (rb_usage sample_budget)" by (simp add: sample_defs machine_def int64_def)
  have "us_calls (rb_usage b') = wrap64 (us_calls (rb_usage sample_budget) + fp_cost_calls sample_fallback)"
    using accounted_means_charged [OF m _ a] by (simp add: decision_def)
  with a show ?thesis by (auto simp: sample_fallback_def sample_defs int64_def)
qed

text \<open>
  A decision selects only within its scope, and, as the comparison with the threshold is false for
  a NaN, an estimate that is not a number is selected like one above the threshold.
\<close>

lemma selects_iff:
  "(sd_select (select_with_fallback threshold estimate applicability fallback) \<longleftrightarrow>
      ap_applicable applicability \<and> \<not> flt estimate threshold) \<and>
   (sd_select (select_with_fallback threshold NaN applicability fallback) \<longleftrightarrow> ap_applicable applicability)"
  by (auto simp: select_with_fallback_def decision_def Let_def split: option.splits)

end
