(* ===== verification/RegistryProps.thy ===== *)
theory RegistryProps
  imports CapsuleIdentity
begin

text \<open>
  Sealing and validation of internal/capsule agree: what validation accepts, sealing
  reproduces; a loaded registry can always run its validators; an extension is conservative
  over its base.
\<close>

section \<open>Canonical entries\<close>

interpretation type_entries: canonical_entries ct_type_id "\<lambda>t. validate_component_type t = None"
  by unfold_locales (auto simp: validate_component_type_def)

interpretation rule_entries: canonical_entries rule_key "\<lambda>rule. validate_parent_rule rule = None"
  by unfold_locales (auto simp: rule_key_def)

interpretation ref_entries: canonical_entries parent_ref_key "\<lambda>p. validate_parent_ref p = None"
  by unfold_locales (auto simp: parent_ref_key_def)

interpretation component_entries: canonical_entries cr_component_id "\<lambda>c. valid_digest (cr_component_id c)"
  by unfold_locales auto

interpretation root_entries: canonical_entries id valid_digest
  by unfold_locales auto

interpretation capsule_entries: canonical_entries capsule_ref_key "\<lambda>p. valid_identifier (cap_relation p)"
  by unfold_locales (auto simp: capsule_ref_key_def)

interpretation resolution_entries: canonical_entries id parent_resolution_valid
  by unfold_locales (auto simp: parent_resolution_valid_def)

section \<open>Normal forms\<close>

lemma normalize_validated:
  assumes "validate_component_type t = None"
  shows "normalize_component_type t = t"
proof -
  have vis: "sort_slice visibility_rank (ct_allowed_visibilities t) = ct_allowed_visibilities t"
  proof -
    have "ascending_from (- 1) visibility_rank (elems (ct_allowed_visibilities t))"
      using assms by (simp add: validate_component_type_def validate_visibilities_def)
    then show ?thesis
      by (cases "ct_allowed_visibilities t")
        (simp_all add: sort_slice_def ascending_from_sorted sort_key_id_if_sorted)
  qed
  have rules: "sort_slice rule_key (ct_parent_rules t) = ct_parent_rules t"
    using assms by (intro sort_slice_id) (simp add: validate_component_type_def)
  have "rule\<lparr>rule_resolutions := sort_slice id (rule_resolutions rule)\<rparr> = rule"
    if "rule \<in> set (elems (ct_parent_rules t))" for rule
  proof -
    have "validate_parent_rule rule = None" using assms that by (simp add: validate_component_type_def)
    then have "sort_slice id (rule_resolutions rule) = rule_resolutions rule"
      by (intro sort_slice_id) (simp add: validate_parent_rule_def)
    then show ?thesis by simp
  qed
  then have "slice_map (\<lambda>rule. rule\<lparr>rule_resolutions := sort_slice id (rule_resolutions rule)\<rparr>) (ct_parent_rules t) =
      ct_parent_rules t"
    by (cases "ct_parent_rules t") (auto simp: slice_map_def intro: map_idI)
  with vis rules show ?thesis by (simp add: normalize_component_type_def)
qed

lemma map_normalize:
  "\<forall>t \<in> set types. validate_component_type t = None \<Longrightarrow> map normalize_component_type types = types"
  by (rule map_idI) (simp add: normalize_validated)

text \<open>
  Sealing is the inverse of validation: sealing the types of a validated registry
  document reproduces the document, digest included.
\<close>

lemma seal_validated:
  assumes "registry_document_validate sha d = None"
  shows "seal_registry sha (rd_registry_id d) (rd_base_registry_digest d) (rd_types d) = Inr d"
proof -
  have v: "rd_schema_version d = RegistrySchemaVersion" "rd_canonical_policy d = CanonicalPolicy"
    "elems (rd_types d) \<noteq> []" "\<forall>t \<in> set (elems (rd_types d)). validate_component_type t = None"
    "ascending_from [] ct_type_id (elems (rd_types d))" "registry_digest sha d = Inr (rd_digest d)"
    using assms by (auto simp: registry_document_validate_def)
  then obtain types where types: "rd_types d = Some types" by (cases "rd_types d") auto
  have "slice_map normalize_component_type (sort_slice ct_type_id (clone_component_types (rd_types d))) = rd_types d"
    using v(4) type_entries.scan_sorted_id [of types] v(5) types
    by (simp add: clone_component_types_def sort_slice_def slice_map_def map_normalize)
  then have document: "\<lparr> rd_schema_version = RegistrySchemaVersion, rd_canonical_policy = CanonicalPolicy,
      rd_registry_id = rd_registry_id d, rd_base_registry_digest = rd_base_registry_digest d,
      rd_types = slice_map normalize_component_type (sort_slice ct_type_id (clone_component_types (rd_types d))),
      rd_digest = [] \<rparr> = d\<lparr>rd_digest := []\<rparr>"
    using v(1,2) by simp
  have "registry_digest sha (d\<lparr>rd_digest := []\<rparr>) = Inr (rd_digest d)"
    using v(6) by (simp add: registry_digest_def)
  with assms show ?thesis unfolding seal_registry_def document by (simp add: Let_def)
qed

lemma seal_validated_witness:
  "seal_registry flat_sha (rd_registry_id sample_document) (rd_base_registry_digest sample_document)
     (rd_types sample_document) = Inr sample_document"
  by (rule seal_validated [OF sample_document_valid])

definition manifest_input_of :: "manifest \<Rightarrow> manifest_input" where
  "manifest_input_of m = \<lparr> mi_study_id = mf_study_id m, mi_cell_id = mf_cell_id m,
     mi_parent_capsules = mf_parent_capsules m, mi_scientific_roots = mf_scientific_roots m,
     mi_presentation_roots = mf_presentation_roots m, mi_components = mf_components m \<rparr>"

lemma structure_unsealed:
  assumes "validate_manifest_structure sha r m True = None"
  shows "validate_manifest_structure sha r (m\<lparr>mf_capsule_id := [], mf_manifest_digest := []\<rparr>) False = None"
  using assms unfolding validate_manifest_structure_def
  by (auto simp: validate_roots_def validate_graph_def reject_unreachable_def Let_def simp del: first_err.simps
      split: option.splits sum.splits)

lemma normalize_valid_manifest:
  assumes "manifest_validate sha m r = None"
  shows "normalize_manifest m = m"
proof -
  obtain components where set: "validate_component_set sha r (elems (mf_components m)) = Inr components"
    and roots: "validate_roots m components = None"
    using assms by (rule manifest_validE)
  have "validate_capsule_refs (elems (mf_parent_capsules m)) = None"
    using assms by (auto simp: manifest_validate_def validate_manifest_structure_def split: if_splits option.splits)
  then have "sort_slice capsule_ref_key (mf_parent_capsules m) = mf_parent_capsules m"
    by (intro sort_slice_id) (simp add: validate_capsule_refs_def)
  moreover have "sort_slice id (mf_scientific_roots m) = mf_scientific_roots m"
    "sort_slice id (mf_presentation_roots m) = mf_presentation_roots m"
    using roots by (auto intro!: sort_slice_id simp: validate_roots_def validate_root_set_def)
  moreover have "sort_slice cr_component_id (mf_components m) = mf_components m"
    using component_set(2) [OF set] by (rule sort_slice_id)
  ultimately show ?thesis by (simp add: normalize_manifest_def)
qed

text \<open>
  Building is the inverse of validation: building a manifest from the parts of an
  accepted one reproduces it, capsule id and manifest digest included.
\<close>

lemma build_validated:
  assumes "manifest_validate sha m r = None"
  shows "build_manifest sha r (manifest_input_of m) = Inr m"
proof -
  have s: "validate_manifest_structure sha r m True = None"
    and d: "scientific_digest sha m = Inr (mf_capsule_id m)" "manifest_digest sha m = Inr (mf_manifest_digest m)"
    using assms by (simp_all add: manifest_validate_def)
  have r: "\<not> Option.is_none r" and ne: "elems (mf_components m) \<noteq> []"
    using s by (auto simp: validate_manifest_structure_def split: if_splits)
  note p = manifest_plain [OF assms]
  let ?m = "m\<lparr>mf_capsule_id := [], mf_manifest_digest := []\<rparr>"
  have norm: "normalize_manifest ?m = ?m"
    using normalize_valid_manifest [OF assms] by (simp add: normalize_manifest_def) (cases m, simp)
  have comps: "Some (elems (mf_components m)) = mf_components m" using ne by (cases "mf_components m") auto
  have start: "normalize_manifest
      \<lparr> mf_schema_version = ManifestSchemaVersion, mf_canonical_policy = CanonicalPolicy, mf_capsule_id = [],
        mf_manifest_digest = [], mf_registry_digest = registry_digest_of r,
        mf_study_id = mi_study_id (manifest_input_of m), mf_cell_id = mi_cell_id (manifest_input_of m),
        mf_parent_capsules = mi_parent_capsules (manifest_input_of m),
        mf_scientific_roots = mi_scientific_roots (manifest_input_of m),
        mf_presentation_roots = mi_presentation_roots (manifest_input_of m),
        mf_components = Some (elems (mi_components (manifest_input_of m))) \<rparr> = ?m"
    (is "normalize_manifest ?raw = _")
  proof -
    have "?raw = ?m" using p(5-7) comps by (cases m) (simp add: manifest_input_of_def)
    then show ?thesis by (simp only: norm)
  qed
  have "scientific_digest sha ?m = Inr (mf_capsule_id m)"
    using d(1) by (simp add: scientific_digest_def scientific_json_def)
  moreover have "manifest_digest sha (?m\<lparr>mf_capsule_id := mf_capsule_id m\<rparr>) = Inr (mf_manifest_digest m)"
    using d(2) by (simp add: manifest_digest_def)
  moreover have "?m\<lparr>mf_capsule_id := mf_capsule_id m, mf_manifest_digest := mf_manifest_digest m\<rparr> = m"
    by simp
  ultimately show ?thesis
    using r structure_unsealed [OF s] assms unfolding build_manifest_def start by (simp add: Let_def)
qed


lemma build_validated_witness:
  "build_manifest flat_sha (Some sample_registry) (manifest_input_of sample_manifest) = Inr sample_manifest"
  by (rule build_validated [OF sample_valid])

section \<open>Loaded registries\<close>

lemma loaded_validator:
  assumes "loaded sha reg" and "registry_lookup (Some reg) t = Some d"
  obtains v where "reg_validators reg (ct_validator_id d) = Some v"
proof -
  have "reg_types reg t = Some d" using assms(2) by (simp add: registry_lookup_def)
  from loaded_type(3) [OF assms(1) this] loadedE [OF assms(1)]
  have "check_functions_available (reg_validators reg) (reg_bindings reg) d = None" by blast
  then show thesis using that by (auto simp: check_functions_available_def)
qed

text \<open>
  C25: a loaded registry is closed: the validator of every registered type is available, so
  a payload of a registered type gets the verdict of its validator and nothing else, and every
  parent rule names a registered type that the role discipline allows as a parent.
\<close>

theorem loaded_registry_closed:
  assumes "loaded sha reg" and "registry_lookup (Some reg) t = Some d"
  shows "(\<exists>v. reg_validators reg (ct_validator_id d) = Some v \<and>
      validate_payload (Some reg) t payload = map_err (PayloadRejected t) (v payload)) \<and>
    (\<forall>rule \<in> set (elems (ct_parent_rules d)). \<exists>parent. registry_lookup (Some reg) (rule_parent_type rule) = Some parent \<and>
      role_edge_allowed (empty_record\<lparr>cr_type_id := ct_type_id d, cr_role := ct_role d\<rparr>)
        (empty_record\<lparr>cr_type_id := ct_type_id parent, cr_role := ct_role parent\<rparr>) (rule_kind rule))"
proof -
  have d: "reg_types reg t = Some d" using assms(2) by (simp add: registry_lookup_def)
  note m = loaded_type(3) [OF assms(1) d]
  have rules: "\<forall>rule \<in> set (elems (ct_parent_rules d)). check_rule (reg_types reg) d rule = None"
    using loadedE [OF assms(1)] m by blast
  obtain v where "reg_validators reg (ct_validator_id d) = Some v"
    using assms by (rule loaded_validator)
  then have "\<exists>v. reg_validators reg (ct_validator_id d) = Some v \<and>
      validate_payload (Some reg) t payload = map_err (PayloadRejected t) (v payload)"
    using assms(2) by (simp add: validate_payload_def)
  moreover have "\<exists>parent. registry_lookup (Some reg) (rule_parent_type rule) = Some parent \<and>
      role_edge_allowed (empty_record\<lparr>cr_type_id := ct_type_id d, cr_role := ct_role d\<rparr>)
        (empty_record\<lparr>cr_type_id := ct_type_id parent, cr_role := ct_role parent\<rparr>) (rule_kind rule)"
    if "rule \<in> set (elems (ct_parent_rules d))" for rule
    using rules that by (auto simp: check_rule_def registry_lookup_def split: option.splits)
  ultimately show ?thesis by blast
qed

lemma loaded_registry_closed_witness:
  "validate_payload (Some sample_registry) ''raw'' ''x'' = None"
  using loaded_registry_closed [OF sample_loaded, of "''raw''" sample_type "''x''"]
  by (auto simp: registry_lookup_def sample_registry_def sample_type_def)

text \<open>The presentation role never appears above another role in the rules of a registry.\<close>

lemma role_edge_presentation:
  "role_edge_allowed c p kind \<Longrightarrow> cr_role p = RolePresentation \<Longrightarrow>
     kind = EdgeSupersedes \<and> cr_role c = RolePresentation"
  by (auto simp: role_edge_allowed_def split: if_splits)

section \<open>Extensions\<close>

lemma load_functions_lookup:
  "load_functions bad fs = Inr m \<Longrightarrow> m i = (case map_of fs i of None \<Rightarrow> None | Some f \<Rightarrow> f)"
  by (induction fs arbitrary: m) (auto split: if_splits option.splits sum.splits)

lemma merge_functions_append: "merge_functions replaced a b = Inr c \<Longrightarrow> c = a @ b"
  by (induction b arbitrary: a) (fastforce split: if_splits)+

lemma extend_types_append:
  "extend_types known a b = Inr c \<Longrightarrow> c = a @ b \<and> (\<forall>t \<in> set b. known (ct_type_id t) = None)"
  by (induction b arbitrary: a) (fastforce split: if_splits)+

lemma functions_of_lookup: "map_of (functions_of keys m) i = (if i \<in> set keys then Some (m i) else None)"
  by (induction keys) (auto simp: functions_of_def)

lemma type_table_map_of:
  "distinct (map ct_type_id types) \<Longrightarrow> d \<in> set types \<Longrightarrow> type_table types (ct_type_id d) = Some d"
proof (induction types rule: rev_induct)
  case (snoc t types)
  have "ct_type_id t \<notin> ct_type_id ` set types" using snoc.prems(1) by simp
  then have "ct_type_id d \<noteq> ct_type_id t" if "d \<in> set types" using that by (metis imageI)
  with snoc show ?case by (auto simp: type_table_def)
qed simp

lemma sealed_types:
  assumes "seal_registry sha registry_id base types = Inr d"
  shows "set (elems (rd_types d)) = normalize_component_type ` set (elems types)"
    and "registry_document_validate sha d = None" and "rd_base_registry_digest d = base"
  using assms by (auto simp: seal_registry_def Let_def clone_component_types_def split: sum.splits option.splits)

text \<open>
  An extension is conservative: it binds the digest of its base, keeps every type of the
  base under its id, and gives every payload of such a type the verdict the base gave.
\<close>

lemma extension_conservative:
  assumes "loaded sha base" and "set keys = dom (reg_validators base)"
    and "extend_registry_with_bindings sha (Some base) keys binding_keys extension validators bindings = Inr reg"
    and "registry_lookup (Some base) t = Some d"
  shows "rd_base_registry_digest (reg_document reg) = rd_digest (reg_document base) \<and>
    registry_lookup (Some reg) t = Some d \<and>
    validate_payload (Some reg) t payload = validate_payload (Some base) t payload"
proof -
  obtain types merged bound document where
    types: "extend_types (reg_types base) (elems (rd_types (reg_document base))) (elems (rd_types extension)) = Inr types"
    and merged: "merge_functions ValidatorReplaced (functions_of keys (reg_validators base)) validators = Inr merged"
    and seal: "seal_registry sha (rd_registry_id extension) (rd_digest (reg_document base)) (Some types) = Inr document"
    and new: "new_registry_with_bindings sha document merged bound = Inr reg"
    using assms(3) by (auto simp: extend_registry_with_bindings_def split: option.splits sum.splits if_splits)
  note s = sealed_types [OF seal]
  have d: "reg_types base t = Some d" using assms(4) by (simp add: registry_lookup_def)
  note bd = loaded_type [OF assms(1) d]
  have reg: "reg_document reg = document" "reg_types reg = type_table (elems (rd_types document))"
    and funs: "load_functions ValidatorInvalid merged = Inr (reg_validators reg)"
    using new by (auto simp: new_registry_with_bindings_def Let_def simp del: first_err.simps
        split: option.splits sum.splits)
  have "d \<in> set types" using extend_types_append [OF types] bd(3) by simp
  then have "normalize_component_type d \<in> set (elems (rd_types document))" using s(1) by simp
  then have "d \<in> set (elems (rd_types document))" using normalize_validated [OF bd(2)] by simp
  moreover have "distinct (map ct_type_id (elems (rd_types document)))"
    using s(2) ascending_from_distinct by (auto simp: registry_document_validate_def)
  ultimately have look: "registry_lookup (Some reg) t = Some d"
    using type_table_map_of bd(1) reg(2) by (auto simp: registry_lookup_def)
  obtain v where v: "reg_validators base (ct_validator_id d) = Some v"
    using assms(1,4) by (rule loaded_validator)
  have "merged = functions_of keys (reg_validators base) @ validators"
    by (rule merge_functions_append [OF merged])
  then have "reg_validators reg (ct_validator_id d) = Some v"
    using load_functions_lookup [OF funs, of "ct_validator_id d"] v assms(2)
    by (auto simp: map_add_def functions_of_lookup domI)
  then have "validate_payload (Some reg) t payload = validate_payload (Some base) t payload"
    using look assms(4) v by (simp add: validate_payload_def)
  with look s(3) reg(1) show ?thesis by simp
qed


definition extra_type :: component_type where
  "extra_type = sample_type\<lparr>ct_type_id := ''more''\<rparr>"

definition extra_document :: registry_document where
  "extra_document = sample_document\<lparr>rd_registry_id := ''ext'', rd_base_registry_digest := flat_sha [],
     rd_types := Some [extra_type]\<rparr>"

definition extended_document :: registry_document where
  "extended_document = extra_document\<lparr>rd_types := Some [extra_type, sample_type]\<rparr>"

lemma sample_types:
  "validate_component_type sample_type = None" "validate_component_type extra_type = None"
  "ct_type_id sample_type = ''raw''" "ct_type_id extra_type = ''more''"
  by code_simp+

lemma extended_valid:
  "registry_document_validate flat_sha extra_document = None"
  "registry_document_validate flat_sha extended_document = None"
  "registry_digest flat_sha (extended_document\<lparr>rd_digest := []\<rparr>) = Inr (flat_sha [])"
proof -
  have n: "valid_identifier ''ext''" by code_simp
  have j: "check_value (coerce (registry_document_json (extra_document\<lparr>rd_digest := []\<rparr>))) 0 = None"
    "check_value (coerce (registry_document_json (extended_document\<lparr>rd_digest := []\<rparr>))) 0 = None"
    by (simp_all add: registry_document_json_def extra_document_def extended_document_def sample_document_def
        sample_type_def extra_type_def component_type_json_def json_slice_def omit_empty_def)
  then have d: "registry_digest flat_sha extra_document = Inr (flat_sha [])"
    "registry_digest flat_sha extended_document = Inr (flat_sha [])"
    unfolding registry_digest_def flat_digest by simp_all
  then show "registry_digest flat_sha (extended_document\<lparr>rd_digest := []\<rparr>) = Inr (flat_sha [])"
    by (simp add: registry_digest_def)
  have "''more'' < ''raw''" by simp
  then show "registry_document_validate flat_sha extra_document = None"
    "registry_document_validate flat_sha extended_document = None"
    using d n sample_types
    by (simp_all add: registry_document_validate_def extra_document_def extended_document_def
        sample_document_def valid_optional_digest_def)
qed

lemma extension_sealed:
  "seal_registry flat_sha ''ext'' (flat_sha []) (Some [sample_type, extra_type]) = Inr extended_document"
proof -
  have "\<not> ''raw'' \<le> ''more''" by simp
  then have sorted: "sort_key ct_type_id [sample_type, extra_type] = [extra_type, sample_type]"
    using sample_types by simp
  have "\<lparr> rd_schema_version = RegistrySchemaVersion, rd_canonical_policy = CanonicalPolicy,
      rd_registry_id = ''ext'', rd_base_registry_digest = flat_sha [],
      rd_types = Some [extra_type, sample_type], rd_digest = [] \<rparr> = extended_document\<lparr>rd_digest := []\<rparr>"
    by (simp add: extended_document_def extra_document_def sample_document_def)
  moreover have "extended_document\<lparr>rd_digest := flat_sha []\<rparr> = extended_document"
    by (simp add: extended_document_def extra_document_def sample_document_def)
  ultimately show ?thesis
    using extended_valid(2,3) sample_types
    by (simp add: seal_registry_def clone_component_types_def sort_slice_def slice_map_def sorted
        normalize_validated)
qed

lemma extension_conservative_witness:
  "\<exists>reg. registry_lookup (Some reg) ''raw'' = Some sample_type \<and>
     rd_base_registry_digest (reg_document reg) = rd_digest sample_document"
proof -
  have look: "registry_lookup (Some sample_registry) ''raw'' = Some sample_type"
    by (simp add: registry_lookup_def sample_registry_def)
  have keys: "set [''any''] = dom (reg_validators sample_registry)" by (simp add: sample_registry_def)
  have n: "valid_identifier ''any''" by code_simp
  have facts: "elems (rd_types extended_document) = [extra_type, sample_type]"
    "ct_parent_rules sample_type = None" "ct_parent_rules extra_type = None"
    "ct_validator_id sample_type = ''any''" "ct_validator_id extra_type = ''any''"
    "ct_binding_validator_id sample_type = []" "ct_binding_validator_id extra_type = []"
    by (simp_all add: extended_document_def sample_type_def extra_type_def)
  obtain reg where "new_registry_with_bindings flat_sha extended_document
      [(''any'', Some (\<lambda>_. None))] [] = Inr reg"
    using extended_valid(2) n facts by (simp add: new_registry_with_bindings_def check_functions_available_def)
  then have "extend_registry_with_bindings flat_sha (Some sample_registry) [''any''] [] extra_document [] [] =
      Inr reg"
    using extended_valid(1) extension_sealed sample_types
    by (simp add: extend_registry_with_bindings_def functions_of_def sample_registry_def sample_document_def
        extra_document_def)
  from extension_conservative [OF sample_loaded keys this look, of "[]"] show ?thesis
    by (auto simp: sample_registry_def)
qed


section \<open>Building components\<close>

lemma normalize_payload_fixed:
  assumes "normalize_payload profile payload = Inr p"
  shows "normalize_payload profile p = Inr p"
proof -
  have "p \<noteq> []" if "canonicalize_json payload = Inr p"
  proof
    assume "p = []"
    with canonicalize_fixed [OF that] have "canonicalize_json [] = Inr []" by simp
    then show False by (simp add: canonicalize_json_def validate_escaped_unicode_scalars_def read_fuel_def
          expect_def skip_space_def numeral_2_eq_2)
  qed
  with assms show ?thesis
    by (auto simp: normalize_payload_def canonicalize_fixed split: if_splits sum.splits)
qed

text \<open>
  A built component records its payload: the record validates, its payload identity is
  the digest and length of the returned bytes, the registered validator accepted those bytes,
  and building again from the returned bytes gives the same component.
\<close>

lemma built_component_sound:
  assumes "build_component sha r input = Inr (c, payload)"
  shows "validate_component_record sha r c = None \<and> pi_digest (cr_payload c) = sha payload \<and>
    pi_bytes (cr_payload c) = int (length payload) \<and> validate_payload r (ci_type_id input) payload = None \<and>
    build_component sha r (input\<lparr>ci_payload := payload\<rparr>) = Inr (c, payload)"
proof -
  obtain g d where g: "r = Some g" "registry_lookup r (ci_type_id input) = Some d"
    using assms by (auto simp: build_component_def split: option.splits)
  obtain p where p: "normalize_payload (ct_payload_profile d) (ci_payload input) = Inr p"
    using assms g by (auto simp: build_component_def split: sum.splits)
  have v: "validate_payload r (ci_type_id input) p = None"
    using assms g p by (auto simp: build_component_def split: option.splits)
  define built where "built = (component_record_of sha d input p)\<lparr>cr_parents := normalize_parent_refs (ci_parents input)\<rparr>"
  have parents: "cr_parents (component_record_of sha d input p) = ci_parents input"
    by (simp add: component_record_of_def)
  obtain i where i: "component_digest sha built = Inr i"
    using assms g p v parents by (auto simp: build_component_def Let_def built_def split: sum.splits)
  have c: "validate_component_record sha r (built\<lparr>cr_component_id := i\<rparr>) = None"
    "c = built\<lparr>cr_component_id := i\<rparr>" "payload = p"
    using assms g p v i parents by (auto simp: build_component_def Let_def built_def split: option.splits)
  have "component_record_of sha d (input\<lparr>ci_payload := p\<rparr>) p = component_record_of sha d input p"
    by (simp add: component_record_of_def)
  then have "build_component sha r (input\<lparr>ci_payload := payload\<rparr>) = Inr (c, payload)"
    using g normalize_payload_fixed [OF p] v i c parents
    by (simp add: build_component_def Let_def built_def)
  moreover have "pi_digest (cr_payload c) = sha p" "pi_bytes (cr_payload c) = int (length p)"
    by (simp_all add: c built_def component_record_of_def digest_bytes_def)
  ultimately show ?thesis using c v by simp
qed

definition sample_input :: component_input where
  "sample_input = \<lparr> ci_name = ''run'', ci_type_id = ''raw'', ci_visibility = VisibilityPublic,
     ci_payload = ''x'', ci_parents = None \<rparr>"

lemma built_component_sound_witness:
  "build_component flat_sha (Some sample_registry) (sample_input\<lparr>ci_payload := ''x''\<rparr>) = Inr (sample_record, ''x'')"
proof -
  have look: "registry_lookup (Some sample_registry) ''raw'' = Some sample_type"
    by (simp add: registry_lookup_def sample_registry_def)
  have rec: "component_record_of flat_sha sample_type sample_input ''x'' = sample_record\<lparr>cr_component_id := []\<rparr>"
    by (simp add: component_record_of_def sample_type_def sample_input_def sample_record_def digest_bytes_def
        flat_sha_def)
  have none: "cr_parents sample_record = None" by (simp add: sample_record_def)
  have same: "sample_record\<lparr>cr_component_id := i, cr_parents := None\<rparr> = sample_record\<lparr>cr_component_id := i\<rparr>" for i
    by (simp add: sample_record_def)
  have "component_digest flat_sha (sample_record\<lparr>cr_component_id := [], cr_parents := None\<rparr>) = Inr (flat_sha [])"
    unfolding same using sample_json(1) flat_digest by (simp add: component_digest_def)
  moreover have "validate_component_record flat_sha (Some sample_registry)
      (sample_record\<lparr>cr_parents := None, cr_component_id := flat_sha []\<rparr>) = None"
    "sample_record\<lparr>cr_parents := None, cr_component_id := flat_sha []\<rparr> = sample_record"
    using sample_record_valid by (simp_all add: sample_record_def)
  moreover have "validate_payload (Some sample_registry) ''raw'' ''x'' = None"
    using look by (simp add: validate_payload_def) (simp add: sample_registry_def sample_type_def)
  moreover have "ci_type_id sample_input = ''raw''" "ci_payload sample_input = ''x''"
    "ct_payload_profile sample_type = PayloadExactBytes" by (simp_all add: sample_input_def sample_type_def)
  ultimately have "build_component flat_sha (Some sample_registry) sample_input = Inr (sample_record, ''x'')"
    using look rec none sample_record_valid
    by (simp add: build_component_def Let_def normalize_payload_def normalize_parent_refs_def sort_slice_def)
  from built_component_sound [OF this] show ?thesis by simp
qed

end
