(* ===== verification/RawJson.thy ===== *)
theory RawJson
  imports Statement Complex_Main
begin

text \<open>
  The reading of evidence in internal/claim/expression.go: \<open>json.Decoder\<close> into raw messages, JSON
  pointers into them, and numbers as exact rationals.  A raw message is the tree of its value:
  the code only ever looks at the first byte of a message, decodes one level of it, or
  reads its literal, and a message that was decoded once is valid JSON at every level.  A number
  keeps its literal.  Members keep their order, and of several with one key the last counts, as
  in a Go map.
\<close>

section \<open>The decoder\<close>

text \<open>
  \<open>raw_value\<close> reads one value at nesting depth \<open>d\<close>; \<open>raw_items\<close> and \<open>raw_members\<close> read the rest
  of an array or an object.  The tests on lengths only make the recursion evidently
  terminate; \<open>raw_shorter\<close> shows that they never fail.
\<close>

definition max_nesting_depth :: nat where "max_nesting_depth = 10000"

definition raw_scalar :: "string \<Rightarrow> (json \<times> string) option" where
  "raw_scalar s =
     (if prefix ''true'' s then Some (JBool True, drop 4 s)
      else if prefix ''false'' s then Some (JBool False, drop 5 s)
      else if prefix ''null'' s then Some (JNull, drop 4 s)
      else map_option (\<lambda>(literal, r). (JNum literal, r)) (scan_number s))"

definition raw_key :: "string \<Rightarrow> (string \<times> string) option" where
  "raw_key s =
     (case skip_space s of
        [] \<Rightarrow> None
      | c # t \<Rightarrow>
          if c \<noteq> quote_char then None
          else case unquote t of
            None \<Rightarrow> None
          | Some (key, r) \<Rightarrow>
              (case skip_space r of
                 [] \<Rightarrow> None
               | e # r' \<Rightarrow> if e = CHR '':'' then Some (key, r') else None))"

function (sequential) raw_value :: "nat \<Rightarrow> string \<Rightarrow> (json \<times> string) option"
  and raw_items :: "nat \<Rightarrow> json list \<Rightarrow> string \<Rightarrow> (json \<times> string) option"
  and raw_members :: "nat \<Rightarrow> (string \<times> json) list \<Rightarrow> string \<Rightarrow> (json \<times> string) option" where
  "raw_value d s =
     (case skip_space s of
        [] \<Rightarrow> None
      | c # t \<Rightarrow>
          if c = quote_char then map_option (\<lambda>(v, r). (JStr v, r)) (unquote t)
          else if c = CHR ''['' then
            if d \<ge> max_nesting_depth \<or> length t \<ge> length s then None
            else if prefix '']'' (skip_space t) then Some (JArr [], tl (skip_space t))
            else raw_items (d + 1) [] t
          else if c = CHR ''{'' then
            if d \<ge> max_nesting_depth \<or> length t \<ge> length s then None
            else if prefix ''}'' (skip_space t) then Some (JObj [], tl (skip_space t))
            else raw_members (d + 1) [] t
          else raw_scalar (c # t))"
| "raw_items d done_items s =
     (case raw_value d s of
        None \<Rightarrow> None
      | Some (v, r) \<Rightarrow>
          (case skip_space r of
             [] \<Rightarrow> None
           | c # t \<Rightarrow>
               if c = CHR '']'' then Some (JArr (done_items @ [v]), t)
               else if c = CHR '','' \<and> length t < length s then raw_items d (done_items @ [v]) t
               else None))"
| "raw_members d done_members s =
     (case raw_key s of
        None \<Rightarrow> None
      | Some (key, r) \<Rightarrow>
          if length r \<ge> length s then None
          else case raw_value d r of
            None \<Rightarrow> None
          | Some (v, r') \<Rightarrow>
              (case skip_space r' of
                 [] \<Rightarrow> None
               | c # t \<Rightarrow>
                   if c = CHR ''}'' then Some (JObj (done_members @ [(key, v)]), t)
                   else if c = CHR '','' \<and> length t < length s
                   then raw_members d (done_members @ [(key, v)]) t
                   else None))"
  by pat_completeness auto
termination
  by (relation "measures [case_sum (\<lambda>(d, s). length s) (case_sum (\<lambda>(d, a, s). length s) (\<lambda>(d, a, s). length s)),
    case_sum (\<lambda>_. 0) (\<lambda>_. 1)]") auto

declare raw_value.simps [simp del] raw_items.simps [simp del] raw_members.simps [simp del]

lemma prefix_nonempty: "prefix p s \<Longrightarrow> p \<noteq> [] \<Longrightarrow> 0 < length s"
  by (cases p) (auto simp: prefix_def)

lemma raw_scalar_shorter:
  assumes "raw_scalar s = Some (v, r)"
  shows "length r < length s"
proof (cases "prefix ''true'' s \<or> prefix ''false'' s \<or> prefix ''null'' s")
  case True
  then have "r = drop 4 s \<and> (prefix ''true'' s \<or> prefix ''null'' s) \<or> r = drop 5 s \<and> prefix ''false'' s"
    using assms by (simp add: raw_scalar_def split: if_split_asm)
  then show ?thesis by (elim disjE conjE) (drule prefix_nonempty, simp, simp)+
next
  case False
  then obtain l where "scan_number s = Some (l, r)"
    using assms by (auto simp: raw_scalar_def)
  then show ?thesis by (rule scan_number_shorter)
qed

lemma raw_key_shorter:
  assumes "raw_key s = Some (k, r)"
  shows "length r < length s"
proof -
  obtain c t where t: "skip_space s = c # t"
    using assms by (cases "skip_space s") (simp_all add: raw_key_def)
  obtain u where u: "unquote t = Some (k, u)" and r: "skip_space u = CHR '':'' # r"
    using assms t by (simp add: raw_key_def split: if_split_asm option.split_asm prod.split_asm list.split_asm)
  show ?thesis
    using unquote_shorter [OF u] skip_space_le [of s] skip_space_le [of u] t r by simp
qed

lemma raw_shorter:
  "raw_value d s = Some (v, r) \<Longrightarrow> length r < length s"
  "raw_items d vs s = Some (v, r) \<Longrightarrow> length r < length s"
  "raw_members d ms s = Some (v, r) \<Longrightarrow> length r < length s"
proof (induction d s and d vs s and d ms s arbitrary: v r and v r and v r rule: raw_value_raw_items_raw_members.induct)
  case (1 d s)
  obtain c t where t: "skip_space s = c # t" using 1(3) by (auto simp: raw_value.simps split: list.splits)
  then have l: "length t < length s" using skip_space_le [of s] by simp
  have e: "length (tl (skip_space t)) < length s" using skip_space_le [of t] l by simp
  show ?case
  proof (cases "c = quote_char \<or> c \<noteq> CHR ''['' \<and> c \<noteq> CHR ''{''")
    case True
    then consider u where "unquote t = Some (u, r)" | "raw_scalar (c # t) = Some (v, r)"
      using 1(3) t by (cases "c = quote_char") (auto simp: raw_value.simps [of d s] simp del: length_Cons)
    then show ?thesis
    proof cases
      case 1
      then show ?thesis using unquote_shorter [of t u r] l by simp
    next
      case 2
      then show ?thesis using raw_scalar_shorter [of "c # t" v r] t skip_space_le [of s] by simp
    qed
  next
    case False
    then show ?thesis
      using 1(1) [OF t] 1(2) [OF t] 1(3) t l e
      by (cases "c = CHR ''[''") (auto simp: raw_value.simps [of d s] split: if_split_asm dest: less_trans)
  qed
next
  case (2 d vs s)
  obtain w u c t where w: "raw_value d s = Some (w, u)" and t: "skip_space u = c # t"
    using 2(3) by (auto simp: raw_items.simps [of d vs s] split: option.splits list.splits)
  have "length t < length s" using 2(1) [OF w] skip_space_le [of u] t by simp
  then show ?case
    using 2(2) [OF w refl t] 2(3) w t
    by (auto simp: raw_items.simps [of d vs s] split: if_splits)
next
  case (3 d ms s)
  obtain k q w u c t where k: "raw_key s = Some (k, q)" and w: "raw_value d q = Some (w, u)"
    and t: "skip_space u = c # t"
    using 3(3) by (auto simp: raw_members.simps [of d ms s] split: option.splits list.splits if_splits)
  have q: "\<not> length s \<le> length q" using raw_key_shorter [OF k] by simp
  have l: "length t < length s" using 3(1) [OF k refl q w] q skip_space_le [of u] t by simp
  show ?case
    using 3(2) [OF k refl q w refl t] 3(3) k w t q l
    by (auto simp: raw_members.simps [of d ms s] split: if_splits)
qed

text \<open>\<open>Decode\<close> into a raw message, and a second \<open>Decode\<close> that must meet the end of the input.\<close>

definition decode_raw :: "string \<Rightarrow> json option" where
  "decode_raw s =
     (case raw_value 0 s of
        None \<Rightarrow> None
      | Some (v, r) \<Rightarrow> if skip_space r = [] then Some v else None)"

section \<open>Pointers\<close>

datatype pointer_error = PointerInvalid | KeyMissing string | IndexInvalid string | TraversesScalar

text \<open>\<open>strings.ReplaceAll\<close> of a two-byte pattern by a byte.\<close>

fun replace_pair :: "char \<Rightarrow> char \<Rightarrow> char \<Rightarrow> string \<Rightarrow> string" where
  "replace_pair a b c (x # y # s) =
     (if x = a \<and> y = b then c # replace_pair a b c s else x # replace_pair a b c (y # s))"
| "replace_pair a b c s = s"

definition unescape_token :: "string \<Rightarrow> string" where
  "unescape_token token =
     replace_pair CHR ''~'' CHR ''0'' CHR ''~'' (replace_pair CHR ''~'' CHR ''1'' CHR ''/'' token)"

text \<open>\<open>strconv.Atoi\<close>.\<close>

definition atoi :: "string \<Rightarrow> int option" where
  "atoi s = (case parse_big_int s of None \<Rightarrow> None | Some i \<Rightarrow> if int64 i then Some i else None)"

definition array_index :: "nat \<Rightarrow> string \<Rightarrow> nat option" where
  "array_index len token =
     (if token = [] \<or> token = ''-'' \<or> 1 < length token \<and> hd token = CHR ''0'' then None
      else case atoi token of
        None \<Rightarrow> None
      | Some i \<Rightarrow> if i < 0 \<or> i \<ge> int len then None else Some (nat i))"

definition member :: "(string \<times> json) list \<Rightarrow> string \<Rightarrow> json option" where
  "member members key = map_of (rev members) key"

fun resolve_tokens :: "string list \<Rightarrow> json \<Rightarrow> pointer_error + json" where
  "resolve_tokens [] current = Inr current"
| "resolve_tokens (raw_token # tokens) current =
     (let token = unescape_token raw_token in
      case current of
        JObj members \<Rightarrow>
          (case member members token of
             None \<Rightarrow> Inl (KeyMissing token)
           | Some child \<Rightarrow> resolve_tokens tokens child)
      | JArr items \<Rightarrow>
          (case array_index (length items) token of
             None \<Rightarrow> Inl (IndexInvalid token)
           | Some i \<Rightarrow> resolve_tokens tokens (items ! i))
      | _ \<Rightarrow> Inl TraversesScalar)"

definition resolve_json_pointer :: "json \<Rightarrow> string \<Rightarrow> pointer_error + json" where
  "resolve_json_pointer v pointer =
     (if pointer = [] then Inr v
      else if \<not> valid_json_pointer pointer then Inl PointerInvalid
      else resolve_tokens (split_on CHR ''/'' (tl pointer)) v)"

section \<open>Exact numbers\<close>

text \<open>\<open>Rat.RatString\<close>, and \<open>Rat.SetString\<close> followed by the test that \<open>RatString\<close> gives the text back.\<close>

definition rat_string :: "rat \<Rightarrow> string" where
  "rat_string q =
     (case quotient_of q of
        (n, d) \<Rightarrow> if d = 1 then int_text n else int_text n @ ''/'' @ int_text d)"

text \<open>
  \<open>SetString\<close> also reads exponents, points and prefixes; their \<open>RatString\<close> is another text, so
  the plain integers and fractions are all that can pass the test.
\<close>

definition set_rat_string :: "string \<Rightarrow> rat option" where
  "set_rat_string value =
     (case split_on CHR ''/'' value of
        [n] \<Rightarrow> map_option of_int (parse_big_int n)
      | [n, d] \<Rightarrow>
          (case (parse_big_int n, parse_big_int d) of
             (Some a, Some b) \<Rightarrow> if b = 0 then None else Some (Fract a b)
           | _ \<Rightarrow> None)
      | _ \<Rightarrow> None)"

definition canonical_rational :: "string \<Rightarrow> rat option" where
  "canonical_rational value =
     (case set_rat_string value of
        None \<Rightarrow> None
      | Some q \<Rightarrow> if rat_string q = value then Some q else None)"

text \<open>\<open>exactJSONNumber\<close>: first the exponent, then the mantissa.\<close>

definition number_exponent :: "string \<Rightarrow> (string \<times> int) option" where
  "number_exponent value =
     (if \<exists>c \<in> set value. c = CHR ''e'' \<or> c = CHR ''E'' then
        let mantissa = takeWhile (\<lambda>c. c \<noteq> CHR ''e'' \<and> c \<noteq> CHR ''E'') value in
        case atoi (drop (length mantissa + 1) value) of
          None \<Rightarrow> None
        | Some i \<Rightarrow> if i < - 10000 \<or> i > 10000 then None else Some (mantissa, i)
      else Some (value, 0))"

definition scale_ten :: "int \<Rightarrow> int \<Rightarrow> rat" where
  "scale_ten numerator e10 =
     (if e10 \<ge> 0 then of_int (numerator * 10 ^ nat e10) else Fract numerator (10 ^ nat (- e10)))"

definition exact_json_number :: "string \<Rightarrow> rat option" where
  "exact_json_number value =
     (if value = [] \<or> hd value = CHR ''+'' then None
      else case number_exponent value of None \<Rightarrow> None | Some (mantissa, exponent) \<Rightarrow>
        let negative = prefix ''-'' mantissa;
            parts = split_on CHR ''.'' (if negative then tl mantissa else mantissa)
        in if length parts > 2 \<or> hd parts = [] \<or> length parts = 2 \<and> parts ! 1 = [] then None
           else if \<exists>c \<in> set (concat parts). \<not> is_digit c then None
           else
             let numerator = (if negative then - decimal_value (concat parts) else decimal_value (concat parts));
                 fraction_digits = (if length parts = 2 then length (parts ! 1) else 0)
             in Some (scale_ten numerator (exponent - int fraction_digits)))"

end
