(* ===== verification/Claim.thy ===== *)
theory Claim
  imports RawJson
begin

text \<open>
  internal/claim/model.go: claims about a capsule and the ledger that seals them.  A Go named
  string type is a string with its constants as abbreviations and its \<open>Valid\<close> method as a
  function; \<open>sha\<close> is hexadecimal SHA-256.  The checks of a validator are listed in the
  order of the code, and the first that fails is the error.
\<close>

section \<open>Constants and enumerations\<close>

abbreviation LedgerSchemaVersion :: string where "LedgerSchemaVersion \<equiv> ''evalwitness.claim-ledger.v1''"

type_synonym status = string
abbreviation StatusSupported :: status where "StatusSupported \<equiv> ''supported''"
abbreviation StatusExploratory :: status where "StatusExploratory \<equiv> ''exploratory''"
abbreviation StatusUnsupported :: status where "StatusUnsupported \<equiv> ''unsupported''"
abbreviation StatusSuperseded :: status where "StatusSuperseded \<equiv> ''superseded''"
abbreviation StatusWithdrawn :: status where "StatusWithdrawn \<equiv> ''withdrawn''"

definition status_valid :: "status \<Rightarrow> bool" where
  "status_valid s \<longleftrightarrow> s \<in> set [StatusSupported, StatusExploratory, StatusUnsupported, StatusSuperseded, StatusWithdrawn]"

definition assertable :: "status \<Rightarrow> bool" where
  "assertable s \<longleftrightarrow> s = StatusSupported \<or> s = StatusExploratory"

type_synonym evidence_level = string
abbreviation EvidenceE0 :: evidence_level where "EvidenceE0 \<equiv> ''E0''"

definition evidence_rank :: "evidence_level \<Rightarrow> int" where
  "evidence_rank level =
     (if level = ''E0'' then 0 else if level = ''E1'' then 1 else if level = ''E2'' then 2
      else if level = ''E3'' then 3 else if level = ''E4'' then 4 else if level = ''E5'' then 5
      else if level = ''E6'' then 6 else - 1)"

definition evidence_level_valid :: "evidence_level \<Rightarrow> bool" where
  "evidence_level_valid level \<longleftrightarrow> evidence_rank level \<ge> 0"

type_synonym operation = string
abbreviation OperationComponentExists :: operation where "OperationComponentExists \<equiv> ''component_exists''"
abbreviation OperationPointerEquals :: operation where "OperationPointerEquals \<equiv> ''pointer_equals''"
abbreviation OperationCount :: operation where "OperationCount \<equiv> ''count''"
abbreviation OperationSum :: operation where "OperationSum \<equiv> ''sum''"
abbreviation OperationRatio :: operation where "OperationRatio \<equiv> ''ratio''"
abbreviation OperationDifference :: operation where "OperationDifference \<equiv> ''difference''"
abbreviation OperationAllEqual :: operation where "OperationAllEqual \<equiv> ''all_equal''"

definition operation_valid :: "operation \<Rightarrow> bool" where
  "operation_valid operation \<longleftrightarrow> operation \<in> set [OperationComponentExists, OperationPointerEquals, OperationCount,
     OperationSum, OperationRatio, OperationDifference, OperationAllEqual]"

type_synonym value_kind = string
abbreviation ValueBoolean :: value_kind where "ValueBoolean \<equiv> ''boolean''"
abbreviation ValueString :: value_kind where "ValueString \<equiv> ''string''"
abbreviation ValueNumber :: value_kind where "ValueNumber \<equiv> ''number''"
abbreviation ValueNull :: value_kind where "ValueNull \<equiv> ''null''"

type_synonym attestation_state = string
abbreviation AttestationNotRequired :: attestation_state where "AttestationNotRequired \<equiv> ''not_required''"
abbreviation AttestationCurrent :: attestation_state where "AttestationCurrent \<equiv> ''current''"
abbreviation AttestationStale :: attestation_state where "AttestationStale \<equiv> ''stale''"
abbreviation AttestationUnavailable :: attestation_state where "AttestationUnavailable \<equiv> ''unavailable''"

definition attestation_valid :: "attestation_state \<Rightarrow> bool" where
  "attestation_valid s \<longleftrightarrow>
     s = AttestationNotRequired \<or> s = AttestationCurrent \<or> s = AttestationStale \<or> s = AttestationUnavailable"

type_synonym challenge_class = string
abbreviation ChallengeCaveatRemoval :: challenge_class where "ChallengeCaveatRemoval \<equiv> ''caveat-removal''"
abbreviation ChallengeDenominatorDeletion :: challenge_class where
  "ChallengeDenominatorDeletion \<equiv> ''denominator-deletion''"
abbreviation ChallengeDigestSubstitution :: challenge_class where
  "ChallengeDigestSubstitution \<equiv> ''digest-substitution''"
abbreviation ChallengeParentRemoval :: challenge_class where "ChallengeParentRemoval \<equiv> ''parent-removal''"
abbreviation ChallengeScopeWidening :: challenge_class where "ChallengeScopeWidening \<equiv> ''scope-widening''"
abbreviation ChallengeStaleAttestation :: challenge_class where "ChallengeStaleAttestation \<equiv> ''stale-attestation''"
abbreviation ChallengeSupersededGeneration :: challenge_class where
  "ChallengeSupersededGeneration \<equiv> ''superseded-generation''"
abbreviation ChallengeVisibilityLeak :: challenge_class where "ChallengeVisibilityLeak \<equiv> ''visibility-leak''"

definition challenge_classes :: "challenge_class list" where
  "challenge_classes = [ChallengeCaveatRemoval, ChallengeDenominatorDeletion, ChallengeDigestSubstitution,
     ChallengeParentRemoval, ChallengeScopeWidening, ChallengeStaleAttestation,
     ChallengeSupersededGeneration, ChallengeVisibilityLeak]"

type_synonym challenge_applicability = string
abbreviation ChallengeApplied :: challenge_applicability where "ChallengeApplied \<equiv> ''applied''"
abbreviation ChallengeInapplicable :: challenge_applicability where "ChallengeInapplicable \<equiv> ''inapplicable''"

type_synonym guard = string
abbreviation GuardEvidenceParentMissing :: guard where "GuardEvidenceParentMissing \<equiv> ''evidence-parent-missing''"
abbreviation GuardEvidenceDigestMismatch :: guard where "GuardEvidenceDigestMismatch \<equiv> ''evidence-digest-mismatch''"
abbreviation GuardExpressionDenominatorMissing :: guard where
  "GuardExpressionDenominatorMissing \<equiv> ''expression-denominator-missing''"
abbreviation GuardScopeExceedsLedger :: guard where "GuardScopeExceedsLedger \<equiv> ''scope-exceeds-ledger''"
abbreviation GuardAttestationStale :: guard where "GuardAttestationStale \<equiv> ''attestation-stale''"
abbreviation GuardRequiredCaveatMissing :: guard where "GuardRequiredCaveatMissing \<equiv> ''required-caveat-missing''"
abbreviation GuardGenerationNotCurrent :: guard where "GuardGenerationNotCurrent \<equiv> ''generation-not-current''"
abbreviation GuardVisibilityLeak :: guard where "GuardVisibilityLeak \<equiv> ''visibility-leak''"

definition guard_valid :: "guard \<Rightarrow> bool" where
  "guard_valid g \<longleftrightarrow> g \<in> set [GuardEvidenceParentMissing, GuardEvidenceDigestMismatch,
     GuardExpressionDenominatorMissing, GuardScopeExceedsLedger, GuardAttestationStale,
     GuardRequiredCaveatMissing, GuardGenerationNotCurrent, GuardVisibilityLeak]"

text \<open>\<open>expectedGuard\<close> of verify.go.\<close>

definition expected_guard :: "challenge_class \<Rightarrow> guard" where
  "expected_guard class =
     (if class = ChallengeParentRemoval then GuardEvidenceParentMissing
      else if class = ChallengeDigestSubstitution then GuardEvidenceDigestMismatch
      else if class = ChallengeDenominatorDeletion then GuardExpressionDenominatorMissing
      else if class = ChallengeScopeWidening then GuardScopeExceedsLedger
      else if class = ChallengeStaleAttestation then GuardAttestationStale
      else if class = ChallengeCaveatRemoval then GuardRequiredCaveatMissing
      else if class = ChallengeSupersededGeneration then GuardGenerationNotCurrent
      else if class = ChallengeVisibilityLeak then GuardVisibilityLeak
      else [])"

section \<open>Data\<close>

record exact_value =
  ev_kind :: value_kind
  ev_value :: string

record operand =
  op_component :: string
  op_type_id :: string
  op_pointer :: string

record expression =
  ex_operation :: operation
  ex_operands :: "operand slice"
  ex_expected :: exact_value

record scope =
  sc_routes :: "string slice"
  sc_models :: "string slice"
  sc_domains :: "string slice"
  sc_tasks :: "string slice"
  sc_policies :: "string slice"
  sc_time_bounds :: "string slice"
  sc_entrypoints :: "string slice"

record uncertainty =
  un_status :: string
  un_method :: string
  un_confidence_level :: string
  un_cluster_unit :: string

record multiplicity =
  mu_status :: string
  mu_family :: string
  mu_method :: string

record evidence_ceiling =
  ce_maximum_level :: evidence_level
  ce_strongest_statement :: string
  ce_required_parent_types :: "string slice"
  ce_required_caveats :: "string slice"

record generation =
  ge_lane :: string
  ge_evidence :: string
  ge_current :: string

record challenge_spec =
  ch_challenge_id :: string
  ch_class :: challenge_class
  ch_applicability :: challenge_applicability
  ch_inapplicable_reason :: string
  ch_mutation :: string
  ch_expected_guard :: guard

record history_entry =
  hi_revision :: int
  hi_prior_status :: status
  hi_reason :: string
  hi_superseded_by :: string

record claim =
  cl_claim_id :: string
  cl_text_template :: string
  cl_status :: status
  cl_evidence_level :: evidence_level
  cl_scope :: scope
  cl_expression :: expression
  cl_uncertainty :: uncertainty
  cl_multiplicity :: multiplicity
  cl_capsule_ids :: "string slice"
  cl_evidence_components :: "string slice"
  cl_caveats :: "string slice"
  cl_evidence_ceiling :: evidence_ceiling
  cl_attestation :: attestation_state
  cl_generation :: generation
  cl_guarding_test :: string
  cl_challenges :: "challenge_spec slice"
  cl_history :: "history_entry slice"

record ledger =
  lg_schema_version :: string
  lg_canonical_policy :: string
  lg_capsule_id :: string
  lg_manifest_digest :: string
  lg_claims :: "claim slice"
  lg_digest :: string

datatype claim_error =
    BooleanInvalid | StringInvalid | NumberNotCanonical | NullNotEmpty | KindInvalid
  | OperandInvalid | ExpressionIdentityInvalid | UnaryOperands | BinaryOperands | SumExpectation
  | EqualityOperands | ExistenceExpectation | CountExpectation
  | ScopeUnsorted | ScopeUnbounded | UncertaintyStatusInvalid | UncertaintyMetadataInvalid
  | ConfidenceInvalid | ConfidenceMissing | MultiplicityStatusInvalid | MultiplicityMetadataInvalid
  | CeilingInvalid | GenerationInvalid | ChallengeIdentityInvalid | AppliedInvalid | InapplicableInvalid
  | ApplicabilityInvalid | HistoryEntryInvalid
  | ClaimIdentityInvalid | TextExceedsCeiling | AssertableWithoutEvidence | AssertableFromPresence
  | AssertableNotCurrent | SupersededButCurrent | AssertableUnattested | ExceedsCeiling
  | UndeclaredEvidence string | CaveatOmitted string | ChallengesMissing | ChallengesUnordered
  | MarkedInapplicable challenge_class | DeclarationInvalid challenge_class | NoChallenge
  | HistoryUnsorted | HistoryMissing
  | LedgerIdentityInvalid | LedgerUnsorted | LedgerCapsuleUnbound string | LedgerDigestInvalid
  | LedgerEncoding json_error

section \<open>Sorted lists\<close>

definition valid_sorted_text :: "string list \<Rightarrow> bool" where
  "valid_sorted_text values \<longleftrightarrow> (\<forall>v \<in> set values. valid_text v) \<and> ascending_from [] id values"

definition valid_sorted_tokens :: "string list \<Rightarrow> bool" where
  "valid_sorted_tokens values \<longleftrightarrow> (\<forall>v \<in> set values. valid_token v) \<and> ascending_from [] id values"

definition valid_sorted_digests :: "string list \<Rightarrow> bool" where
  "valid_sorted_digests values \<longleftrightarrow>
     (\<forall>v \<in> set values. valid_digest v) \<and> ascending_from [] id values \<and> values \<noteq> []"

section \<open>Validation\<close>

definition exact_value_validate :: "exact_value \<Rightarrow> claim_error option" where
  "exact_value_validate v =
     (if ev_kind v = ValueBoolean then fail_if (ev_value v \<noteq> ''true'' \<and> ev_value v \<noteq> ''false'') BooleanInvalid
      else if ev_kind v = ValueString then fail_if (\<not> valid_text (ev_value v)) StringInvalid
      else if ev_kind v = ValueNumber then fail_if (canonical_rational (ev_value v) = None) NumberNotCanonical
      else if ev_kind v = ValueNull then fail_if (ev_value v \<noteq> []) NullNotEmpty
      else Some KindInvalid)"

definition operand_validate :: "operand \<Rightarrow> claim_error option" where
  "operand_validate x =
     fail_if (\<not> valid_token (op_component x) \<or> \<not> valid_token (op_type_id x) \<or> \<not> valid_json_pointer (op_pointer x))
       OperandInvalid"

definition expression_validate :: "expression \<Rightarrow> claim_error option" where
  "expression_validate x =
     (let operation = ex_operation x; operands = elems (ex_operands x); kind = ev_kind (ex_expected x) in
      first_err [
        fail_if (\<not> operation_valid operation \<or> operands = []) ExpressionIdentityInvalid,
        exact_value_validate (ex_expected x),
        each_ok operand_validate operands,
        (if operation \<in> set [OperationComponentExists, OperationPointerEquals, OperationCount]
         then fail_if (length operands \<noteq> 1) UnaryOperands
         else if operation \<in> set [OperationRatio, OperationDifference]
         then fail_if (length operands \<noteq> 2 \<or> kind \<noteq> ValueNumber) BinaryOperands
         else if operation = OperationSum then fail_if (kind \<noteq> ValueNumber) SumExpectation
         else if operation = OperationAllEqual
         then fail_if (length operands < 2 \<or> kind \<noteq> ValueBoolean) EqualityOperands
         else None),
        fail_if (operation = OperationComponentExists \<and> kind \<noteq> ValueBoolean) ExistenceExpectation,
        fail_if (operation = OperationCount \<and> kind \<noteq> ValueNumber) CountExpectation])"

definition scope_groups :: "scope \<Rightarrow> string slice list" where
  "scope_groups s = [sc_routes s, sc_models s, sc_domains s, sc_tasks s, sc_policies s, sc_time_bounds s,
     sc_entrypoints s]"

definition scope_validate :: "scope \<Rightarrow> claim_error option" where
  "scope_validate s = first_err [
     each_ok (\<lambda>group. fail_if (group = None \<or> \<not> valid_sorted_text (elems group)) ScopeUnsorted) (scope_groups s),
     fail_if (\<forall>group \<in> set (scope_groups s). elems group = []) ScopeUnbounded]"

definition uncertainty_validate :: "uncertainty \<Rightarrow> claim_error option" where
  "uncertainty_validate u = first_err [
     fail_if (un_status u \<notin> set [''not_applicable'', ''descriptive_only'', ''unavailable_legacy'', ''reported''])
       UncertaintyStatusInvalid,
     fail_if (\<not> valid_text (un_method u) \<or> \<not> valid_text (un_cluster_unit u)) UncertaintyMetadataInvalid,
     fail_if (un_confidence_level u \<noteq> [] \<and>
         (case canonical_rational (un_confidence_level u) of None \<Rightarrow> True | Some q \<Rightarrow> q \<le> 0 \<or> q > 1))
       ConfidenceInvalid,
     fail_if (un_status u = ''reported'' \<and> un_confidence_level u = []) ConfidenceMissing]"

definition multiplicity_validate :: "multiplicity \<Rightarrow> claim_error option" where
  "multiplicity_validate m = first_err [
     fail_if (mu_status m \<notin> set [''not_applicable'', ''descriptive_only'', ''unadjusted'', ''adjusted''])
       MultiplicityStatusInvalid,
     fail_if (\<not> valid_text (mu_family m) \<or> \<not> valid_text (mu_method m)) MultiplicityMetadataInvalid]"

definition evidence_ceiling_validate :: "evidence_ceiling \<Rightarrow> claim_error option" where
  "evidence_ceiling_validate c =
     fail_if (\<not> evidence_level_valid (ce_maximum_level c) \<or> \<not> valid_text (ce_strongest_statement c) \<or>
         ce_required_parent_types c = None \<or> \<not> valid_sorted_tokens (elems (ce_required_parent_types c)) \<or>
         ce_required_caveats c = None \<or> \<not> valid_sorted_text (elems (ce_required_caveats c)))
       CeilingInvalid"

definition generation_validate :: "generation \<Rightarrow> claim_error option" where
  "generation_validate g =
     fail_if (\<not> valid_token (ge_lane g) \<or> \<not> valid_token (ge_evidence g) \<or> \<not> valid_token (ge_current g))
       GenerationInvalid"

definition valid_inapplicable_reason :: "string \<Rightarrow> bool" where
  "valid_inapplicable_reason reason \<longleftrightarrow> reason \<in> set [''attestation_not_required'', ''denominator_not_used'',
     ''generation_not_applicable'', ''no_required_caveat'', ''visibility_projection_not_used'']"

text \<open>\<open>strings.ToLower\<close>, which is only applied to claim ids that have been checked.\<close>

definition challenge_id_of :: "string \<Rightarrow> challenge_class \<Rightarrow> string" where
  "challenge_id_of claim_id class = map lower_char claim_id @ ''.'' @ class"

definition challenge_spec_validate :: "string \<Rightarrow> challenge_spec \<Rightarrow> claim_error option" where
  "challenge_spec_validate claim_id c = first_err [
     fail_if (ch_challenge_id c \<noteq> challenge_id_of claim_id (ch_class c) \<or> ch_class c \<notin> set challenge_classes)
       ChallengeIdentityInvalid,
     (if ch_applicability c = ChallengeApplied then
        fail_if (\<not> valid_text (ch_mutation c) \<or> \<not> guard_valid (ch_expected_guard c) \<or>
            ch_inapplicable_reason c \<noteq> [] \<or> expected_guard (ch_class c) \<noteq> ch_expected_guard c) AppliedInvalid
      else if ch_applicability c = ChallengeInapplicable then
        fail_if (\<not> valid_inapplicable_reason (ch_inapplicable_reason c) \<or> ch_mutation c \<noteq> [] \<or>
            ch_expected_guard c \<noteq> []) InapplicableInvalid
      else Some ApplicabilityInvalid)]"

definition history_entry_validate :: "history_entry \<Rightarrow> claim_error option" where
  "history_entry_validate h =
     fail_if (hi_revision h < 1 \<or> \<not> status_valid (hi_prior_status h) \<or> \<not> valid_text (hi_reason h) \<or>
         hi_superseded_by h \<noteq> [] \<and> \<not> valid_claim_id (hi_superseded_by h)) HistoryEntryInvalid"

definition challenge_applicability_of :: "claim \<Rightarrow> challenge_class \<Rightarrow> bool \<times> string" where
  "challenge_applicability_of c class =
     (if class = ChallengeCaveatRemoval then
        (elems (ce_required_caveats (cl_evidence_ceiling c)) \<noteq> [], ''no_required_caveat'')
      else if class = ChallengeDenominatorDeletion then
        (ex_operation (cl_expression c) = OperationRatio, ''denominator_not_used'')
      else if class = ChallengeStaleAttestation then
        (if \<not> assertable (cl_status c) then (False, ''generation_not_applicable'')
         else (cl_attestation c = AttestationCurrent, ''attestation_not_required''))
      else if class = ChallengeSupersededGeneration then (assertable (cl_status c), ''generation_not_applicable'')
      else if class \<in> set [ChallengeDigestSubstitution, ChallengeParentRemoval, ChallengeScopeWidening,
          ChallengeVisibilityLeak] then (True, [])
      else (False, ''generation_not_applicable''))"

text \<open>One turn of the loop over the classes of challenges.\<close>

definition check_challenge :: "claim \<Rightarrow> challenge_class \<times> challenge_spec \<Rightarrow> claim_error option" where
  "check_challenge c entry =
     (let (class, challenge) = entry; (applicable, reason) = challenge_applicability_of c class in first_err [
        fail_if (ch_class challenge \<noteq> class) ChallengesUnordered,
        challenge_spec_validate (cl_claim_id c) challenge,
        fail_if (applicable \<and> ch_applicability challenge \<noteq> ChallengeApplied) (MarkedInapplicable class),
        fail_if (\<not> applicable \<and> (ch_applicability challenge \<noteq> ChallengeInapplicable \<or>
            ch_inapplicable_reason challenge \<noteq> reason)) (DeclarationInvalid class)])"

definition claim_validate :: "claim \<Rightarrow> claim_error option" where
  "claim_validate c =
     (let ceiling = cl_evidence_ceiling c; challenges = elems (cl_challenges c) in first_err [
        fail_if (\<not> valid_claim_id (cl_claim_id c) \<or> \<not> valid_text (cl_text_template c) \<or>
            \<not> status_valid (cl_status c) \<or> \<not> evidence_level_valid (cl_evidence_level c) \<or>
            cl_capsule_ids c = None \<or> \<not> valid_sorted_digests (elems (cl_capsule_ids c)) \<or>
            cl_evidence_components c = None \<or> elems (cl_evidence_components c) = [] \<or>
            \<not> valid_sorted_tokens (elems (cl_evidence_components c)) \<or> cl_caveats c = None \<or>
            \<not> valid_sorted_text (elems (cl_caveats c)) \<or> \<not> attestation_valid (cl_attestation c) \<or>
            \<not> valid_text (cl_guarding_test c) \<or> cl_history c = None) ClaimIdentityInvalid,
        scope_validate (cl_scope c),
        expression_validate (cl_expression c),
        uncertainty_validate (cl_uncertainty c),
        multiplicity_validate (cl_multiplicity c),
        evidence_ceiling_validate ceiling,
        fail_if (ce_strongest_statement ceiling \<noteq> cl_text_template c) TextExceedsCeiling,
        generation_validate (cl_generation c),
        fail_if (assertable (cl_status c) \<and> cl_evidence_level c = EvidenceE0) AssertableWithoutEvidence,
        fail_if (assertable (cl_status c) \<and> ex_operation (cl_expression c) = OperationComponentExists)
          AssertableFromPresence,
        fail_if (assertable (cl_status c) \<and> ge_evidence (cl_generation c) \<noteq> ge_current (cl_generation c))
          AssertableNotCurrent,
        fail_if (cl_status c = StatusSuperseded \<and> ge_evidence (cl_generation c) = ge_current (cl_generation c))
          SupersededButCurrent,
        fail_if (assertable (cl_status c) \<and> cl_attestation c \<noteq> AttestationNotRequired \<and>
            cl_attestation c \<noteq> AttestationCurrent) AssertableUnattested,
        fail_if (evidence_rank (cl_evidence_level c) > evidence_rank (ce_maximum_level ceiling)) ExceedsCeiling,
        each_ok (\<lambda>x. fail_if (op_component x \<notin> set (elems (cl_evidence_components c)))
          (UndeclaredEvidence (op_component x))) (elems (ex_operands (cl_expression c))),
        each_ok (\<lambda>required. fail_if (required \<notin> set (elems (cl_caveats c))) (CaveatOmitted required))
          (elems (ce_required_caveats ceiling)),
        fail_if (length challenges \<noteq> length challenge_classes) ChallengesMissing,
        each_ok (check_challenge c) (zip challenge_classes challenges),
        fail_if (assertable (cl_status c) \<and> (\<forall>x \<in> set challenges. ch_applicability x \<noteq> ChallengeApplied)) NoChallenge,
        scan_from (\<lambda>h. fail_if (history_entry_validate h \<noteq> None) HistoryUnsorted) HistoryUnsorted hi_revision 0
          (elems (cl_history c)),
        fail_if ((cl_status c = StatusSuperseded \<or> cl_status c = StatusWithdrawn) \<and> elems (cl_history c) = [])
          HistoryMissing])"

section \<open>Encoding\<close>

text \<open>The trees that \<open>json.Marshal\<close> prints, one function for each type.\<close>

definition exact_value_json :: "exact_value \<Rightarrow> json" where
  "exact_value_json v = JObj [(''kind'', JStr (ev_kind v)), (''value'', JStr (ev_value v))]"

definition operand_json :: "operand \<Rightarrow> json" where
  "operand_json x = JObj [(''component'', JStr (op_component x)), (''type_id'', JStr (op_type_id x)),
     (''pointer'', JStr (op_pointer x))]"

definition expression_json :: "expression \<Rightarrow> json" where
  "expression_json x = JObj [(''operation'', JStr (ex_operation x)),
     (''operands'', json_slice operand_json (ex_operands x)), (''expected'', exact_value_json (ex_expected x))]"

definition scope_json :: "scope \<Rightarrow> json" where
  "scope_json s = JObj [(''routes'', json_slice JStr (sc_routes s)), (''models'', json_slice JStr (sc_models s)),
     (''domains'', json_slice JStr (sc_domains s)), (''tasks'', json_slice JStr (sc_tasks s)),
     (''policies'', json_slice JStr (sc_policies s)), (''time_bounds'', json_slice JStr (sc_time_bounds s)),
     (''entrypoints'', json_slice JStr (sc_entrypoints s))]"

definition uncertainty_json :: "uncertainty \<Rightarrow> json" where
  "uncertainty_json u = JObj [(''status'', JStr (un_status u)), (''method'', JStr (un_method u)),
     (''confidence_level'', JStr (un_confidence_level u)), (''cluster_unit'', JStr (un_cluster_unit u))]"

definition multiplicity_json :: "multiplicity \<Rightarrow> json" where
  "multiplicity_json m = JObj [(''status'', JStr (mu_status m)), (''family'', JStr (mu_family m)),
     (''method'', JStr (mu_method m))]"

definition evidence_ceiling_json :: "evidence_ceiling \<Rightarrow> json" where
  "evidence_ceiling_json c = JObj [(''maximum_level'', JStr (ce_maximum_level c)),
     (''strongest_statement'', JStr (ce_strongest_statement c)),
     (''required_parent_types'', json_slice JStr (ce_required_parent_types c)),
     (''required_caveats'', json_slice JStr (ce_required_caveats c))]"

definition generation_json :: "generation \<Rightarrow> json" where
  "generation_json g = JObj [(''lane'', JStr (ge_lane g)), (''evidence'', JStr (ge_evidence g)),
     (''current'', JStr (ge_current g))]"

definition challenge_spec_json :: "challenge_spec \<Rightarrow> json" where
  "challenge_spec_json c = JObj [(''challenge_id'', JStr (ch_challenge_id c)), (''class'', JStr (ch_class c)),
     (''applicability'', JStr (ch_applicability c)), (''inapplicable_reason'', JStr (ch_inapplicable_reason c)),
     (''mutation'', JStr (ch_mutation c)), (''expected_guard'', JStr (ch_expected_guard c))]"

definition history_entry_json :: "history_entry \<Rightarrow> json" where
  "history_entry_json h = JObj [(''revision'', json_int (hi_revision h)),
     (''prior_status'', JStr (hi_prior_status h)), (''reason'', JStr (hi_reason h)),
     (''superseded_by'', JStr (hi_superseded_by h))]"

definition claim_json :: "claim \<Rightarrow> json" where
  "claim_json c = JObj [(''claim_id'', JStr (cl_claim_id c)), (''text_template'', JStr (cl_text_template c)),
     (''status'', JStr (cl_status c)), (''evidence_level'', JStr (cl_evidence_level c)),
     (''scope'', scope_json (cl_scope c)), (''expression'', expression_json (cl_expression c)),
     (''uncertainty'', uncertainty_json (cl_uncertainty c)),
     (''multiplicity'', multiplicity_json (cl_multiplicity c)),
     (''capsule_ids'', json_slice JStr (cl_capsule_ids c)),
     (''evidence_components'', json_slice JStr (cl_evidence_components c)),
     (''caveats'', json_slice JStr (cl_caveats c)),
     (''evidence_ceiling'', evidence_ceiling_json (cl_evidence_ceiling c)),
     (''attestation'', JStr (cl_attestation c)), (''generation'', generation_json (cl_generation c)),
     (''guarding_test'', JStr (cl_guarding_test c)),
     (''challenges'', json_slice challenge_spec_json (cl_challenges c)),
     (''history'', json_slice history_entry_json (cl_history c))]"

definition ledger_json :: "ledger \<Rightarrow> json" where
  "ledger_json l = JObj [(''schema_version'', JStr (lg_schema_version l)),
     (''canonical_policy'', JStr (lg_canonical_policy l)), (''capsule_id'', JStr (lg_capsule_id l)),
     (''manifest_digest'', JStr (lg_manifest_digest l)), (''claims'', json_slice claim_json (lg_claims l)),
     (''digest'', JStr (lg_digest l))]"

section \<open>The ledger\<close>

definition ledger_digest :: "(string \<Rightarrow> string) \<Rightarrow> ledger \<Rightarrow> json_error + string" where
  "ledger_digest sha l = digest sha (ledger_json (l\<lparr>lg_digest := []\<rparr>))"

definition normalize_scope :: "scope \<Rightarrow> scope" where
  "normalize_scope s = \<lparr> sc_routes = sort_slice id (sc_routes s), sc_models = sort_slice id (sc_models s),
     sc_domains = sort_slice id (sc_domains s), sc_tasks = sort_slice id (sc_tasks s),
     sc_policies = sort_slice id (sc_policies s), sc_time_bounds = sort_slice id (sc_time_bounds s),
     sc_entrypoints = sort_slice id (sc_entrypoints s) \<rparr>"

definition normalize_claim :: "claim \<Rightarrow> claim" where
  "normalize_claim c = c\<lparr>cl_capsule_ids := sort_slice id (cl_capsule_ids c),
     cl_evidence_components := sort_slice id (cl_evidence_components c),
     cl_caveats := sort_slice id (cl_caveats c),
     cl_evidence_ceiling := (cl_evidence_ceiling c)
       \<lparr>ce_required_parent_types := sort_slice id (ce_required_parent_types (cl_evidence_ceiling c)),
        ce_required_caveats := sort_slice id (ce_required_caveats (cl_evidence_ceiling c))\<rparr>,
     cl_challenges := sort_slice ch_class (cl_challenges c),
     cl_history := sort_slice hi_revision (cl_history c),
     cl_scope := normalize_scope (cl_scope c)\<rparr>"

text \<open>The loop of \<open>Ledger.Validate\<close>.\<close>

fun scan_claims :: "string \<Rightarrow> string \<Rightarrow> claim list \<Rightarrow> claim_error option" where
  "scan_claims capsule_id previous [] = None"
| "scan_claims capsule_id previous (c # claims) = first_err [
     fail_if (cl_claim_id c \<le> previous) LedgerUnsorted,
     claim_validate c,
     fail_if (elems (cl_capsule_ids c) \<noteq> [capsule_id]) (LedgerCapsuleUnbound (cl_claim_id c)),
     scan_claims capsule_id (cl_claim_id c) claims]"

definition ledger_validate :: "(string \<Rightarrow> string) \<Rightarrow> ledger \<Rightarrow> claim_error option" where
  "ledger_validate sha l = first_err [
     fail_if (lg_schema_version l \<noteq> LedgerSchemaVersion \<or> lg_canonical_policy l \<noteq> CanonicalPolicy \<or>
         \<not> valid_digest (lg_capsule_id l) \<or> \<not> valid_digest (lg_manifest_digest l) \<or>
         \<not> valid_digest (lg_digest l) \<or> elems (lg_claims l) = []) LedgerIdentityInvalid,
     scan_claims (lg_capsule_id l) [] (elems (lg_claims l)),
     fail_if (ledger_digest sha l \<noteq> Inr (lg_digest l)) LedgerDigestInvalid]"

text \<open>
  The sorts of \<open>SealLedger\<close> are not stable, but entries with equal keys, and revisions so far apart
  that the comparison overflows, are rejected by the validation that follows.
\<close>

definition seal_ledger :: "(string \<Rightarrow> string) \<Rightarrow> manifest \<Rightarrow> claim list \<Rightarrow> claim_error + ledger" where
  "seal_ledger sha m claims =
     (let bound = map (\<lambda>c. normalize_claim (c\<lparr>cl_capsule_ids := Some [mf_capsule_id m]\<rparr>))
            (sort_key cl_claim_id claims);
          l = \<lparr> lg_schema_version = LedgerSchemaVersion, lg_canonical_policy = CanonicalPolicy,
            lg_capsule_id = mf_capsule_id m, lg_manifest_digest = mf_manifest_digest m,
            lg_claims = Some bound, lg_digest = [] \<rparr>
      in case ledger_digest sha l of
           Inl e \<Rightarrow> Inl (LedgerEncoding e)
         | Inr d \<Rightarrow>
             (case ledger_validate sha (l\<lparr>lg_digest := d\<rparr>) of
                Some e \<Rightarrow> Inl e
              | None \<Rightarrow> Inr (l\<lparr>lg_digest := d\<rparr>)))"

text \<open>
  \<open>Lookup\<close> and the search of \<open>slices.BinarySearchFunc\<close>: \<open>search i j\<close> is its loop between the bounds
  \<open>i\<close> and \<open>j\<close>.
\<close>

function search :: "claim list \<Rightarrow> string \<Rightarrow> nat \<Rightarrow> nat \<Rightarrow> nat" where
  "search claims target i j =
     (if i < j then
        let h = (i + j) div 2 in
        if cl_claim_id (claims ! h) < target then search claims target (h + 1) j else search claims target i h
      else i)"
  by pat_completeness auto
termination
  by (relation "measure (\<lambda>(claims, target, i, j). j - i)") auto

declare search.simps [simp del]

datatype lookup_error = ClaimIdInvalid | ClaimAbsent string

definition claim_lookup :: "ledger \<Rightarrow> string \<Rightarrow> lookup_error + claim" where
  "claim_lookup l claim_id =
     (if \<not> valid_claim_id claim_id then Inl ClaimIdInvalid
      else
        let claims = elems (lg_claims l); index = search claims claim_id 0 (length claims) in
        if index < length claims \<and> cl_claim_id (claims ! index) = claim_id then Inr (claims ! index)
        else Inl (ClaimAbsent claim_id))"

end
