(* ===== verification/ClaimVerify.thy ===== *)
theory ClaimVerify
  imports Claim
begin

text \<open>
  internal/claim/expression.go and verify.go: the evaluation of a claim's expression over the
  evidence of a capsule, the guards that stand before it, and the verification of a ledger
  against the package it is about.  Go maps from names are functions or partial functions; the
  ones that are ranged over are association lists.
\<close>

section \<open>Evidence\<close>

record evidence_set =
  es_records :: "string \<rightharpoonup> component_record"
  es_payloads :: "string \<rightharpoonup> string"

datatype eval_error =
    ExpressionInvalid claim_error | ComponentMissing string | TypeDiffers string
  | EvidencePayloadMissing string | EvidenceUnreadable string | PointerFailed pointer_error
  | NotScalar | NumberInvalid | NotCounted | NotNumeric string | SumNotNumeric | DenominatorZero

definition new_evidence_set :: "manifest \<Rightarrow> payload_map \<Rightarrow> evidence_set" where
  "new_evidence_set m payloads =
     \<lparr> es_records = map_of (rev (map (\<lambda>r. (cr_name r, r)) (elems (mf_components m)))),
       es_payloads = map_of payloads \<rparr>"

definition boolean_value :: "bool \<Rightarrow> exact_value" where
  "boolean_value b = \<lparr> ev_kind = ValueBoolean, ev_value = (if b then ''true'' else ''false'') \<rparr>"

definition string_value :: "string \<Rightarrow> exact_value" where
  "string_value s = \<lparr> ev_kind = ValueString, ev_value = s \<rparr>"

definition number_value :: "string \<Rightarrow> exact_value" where
  "number_value s = \<lparr> ev_kind = ValueNumber, ev_value = s \<rparr>"

definition null_value :: exact_value where
  "null_value = \<lparr> ev_kind = ValueNull, ev_value = [] \<rparr>"

definition exact_number_from_raw :: "json \<Rightarrow> rat option" where
  "exact_number_from_raw v = (case v of JNum literal \<Rightarrow> exact_json_number literal | _ \<Rightarrow> None)"

definition exact_value_from_json :: "json \<Rightarrow> eval_error + exact_value" where
  "exact_value_from_json v =
     (case v of
        JNull \<Rightarrow> Inr null_value
      | JBool b \<Rightarrow> Inr (boolean_value b)
      | JStr s \<Rightarrow> Inr (string_value s)
      | JNum literal \<Rightarrow>
          (case exact_number_from_raw v of
             None \<Rightarrow> Inl NumberInvalid
           | Some q \<Rightarrow> Inr (number_value (rat_string q)))
      | _ \<Rightarrow> Inl NotScalar)"

definition claim_container_length :: "json \<Rightarrow> eval_error + int" where
  "claim_container_length v =
     (case v of
        JArr items \<Rightarrow> Inr (int (length items))
      | JObj members \<Rightarrow> Inr (int (length (remdups (map fst members))))
      | _ \<Rightarrow> Inl NotCounted)"

fun add_numbers :: "rat \<Rightarrow> json list \<Rightarrow> rat option" where
  "add_numbers accumulated [] = Some accumulated"
| "add_numbers accumulated (v # vs) =
     (case exact_number_from_raw v of None \<Rightarrow> None | Some q \<Rightarrow> add_numbers (accumulated + q) vs)"

definition add_numeric_value :: "rat \<Rightarrow> json \<Rightarrow> rat option" where
  "add_numeric_value accumulated v = add_numbers accumulated (case v of JArr items \<Rightarrow> items | _ \<Rightarrow> [v])"

definition resolve_operand :: "evidence_set \<Rightarrow> operand \<Rightarrow> eval_error + json" where
  "resolve_operand evidence x =
     (case es_records evidence (op_component x) of
        None \<Rightarrow> Inl (ComponentMissing (op_component x))
      | Some record \<Rightarrow>
          if cr_type_id record \<noteq> op_type_id x then Inl (TypeDiffers (op_component x))
          else case es_payloads evidence (pi_digest (cr_payload record)) of
            None \<Rightarrow> Inl (EvidencePayloadMissing (pi_digest (cr_payload record)))
          | Some raw \<Rightarrow>
              (case decode_raw raw of
                 None \<Rightarrow> Inl (EvidenceUnreadable (op_component x))
               | Some v \<Rightarrow> map_sum PointerFailed id (resolve_json_pointer v (op_pointer x))))"

definition evaluate_operand :: "evidence_set \<Rightarrow> operand \<Rightarrow> eval_error + exact_value" where
  "evaluate_operand evidence x =
     (case resolve_operand evidence x of Inl e \<Rightarrow> Inl e | Inr v \<Rightarrow> exact_value_from_json v)"

definition evaluate_numeric_operand :: "evidence_set \<Rightarrow> operand \<Rightarrow> eval_error + rat" where
  "evaluate_numeric_operand evidence x =
     (case resolve_operand evidence x of Inl e \<Rightarrow> Inl e
      | Inr v \<Rightarrow>
          (case exact_number_from_raw v of None \<Rightarrow> Inl (NotNumeric (op_pointer x)) | Some q \<Rightarrow> Inr q))"

text \<open>The loops of \<open>evaluateExpression\<close> for a sum and for equality.\<close>

fun sum_operands :: "evidence_set \<Rightarrow> rat \<Rightarrow> operand list \<Rightarrow> eval_error + rat" where
  "sum_operands evidence accumulated [] = Inr accumulated"
| "sum_operands evidence accumulated (x # xs) =
     (case resolve_operand evidence x of Inl e \<Rightarrow> Inl e
      | Inr v \<Rightarrow>
          (case add_numeric_value accumulated v of
             None \<Rightarrow> Inl SumNotNumeric
           | Some q \<Rightarrow> sum_operands evidence q xs))"

fun all_equal_to :: "evidence_set \<Rightarrow> exact_value \<Rightarrow> operand list \<Rightarrow> eval_error + bool" where
  "all_equal_to evidence wanted [] = Inr True"
| "all_equal_to evidence wanted (x # xs) =
     (case evaluate_operand evidence x of Inl e \<Rightarrow> Inl e
      | Inr v \<Rightarrow> if v \<noteq> wanted then Inr False else all_equal_to evidence wanted xs)"

definition evaluate_expression :: "expression \<Rightarrow> evidence_set \<Rightarrow> eval_error + exact_value" where
  "evaluate_expression x evidence =
     (case expression_validate x of Some e \<Rightarrow> Inl (ExpressionInvalid e) | None \<Rightarrow>
      let operation = ex_operation x; operands = elems (ex_operands x); first = operands ! 0 in
      if operation = OperationComponentExists then
        Inr (boolean_value (case es_records evidence (op_component first) of
          None \<Rightarrow> False | Some record \<Rightarrow> cr_type_id record = op_type_id first))
      else if operation = OperationPointerEquals then evaluate_operand evidence first
      else if operation = OperationCount then
        (case resolve_operand evidence first of Inl e \<Rightarrow> Inl e
         | Inr v \<Rightarrow> map_sum id (\<lambda>n. number_value (int_text n)) (claim_container_length v))
      else if operation = OperationSum then
        map_sum id (\<lambda>q. number_value (rat_string q)) (sum_operands evidence 0 operands)
      else if operation = OperationRatio \<or> operation = OperationDifference then
        (case evaluate_numeric_operand evidence first of Inl e \<Rightarrow> Inl e | Inr left \<Rightarrow>
         (case evaluate_numeric_operand evidence (operands ! 1) of Inl e \<Rightarrow> Inl e | Inr right \<Rightarrow>
           if operation = OperationRatio then
             if right = 0 then Inl DenominatorZero else Inr (number_value (rat_string (left / right)))
           else Inr (number_value (rat_string (left - right)))))
      else
        (case evaluate_operand evidence first of Inl e \<Rightarrow> Inl e
         | Inr wanted \<Rightarrow> map_sum id boolean_value (all_equal_to evidence wanted (tl operands))))"

section \<open>The state of a claim\<close>

record verification_state =
  vs_available :: "string \<Rightarrow> bool"
  vs_caveats :: "string \<Rightarrow> bool"
  vs_denominator_present :: bool
  vs_scope_widened :: bool
  vs_attestation :: attestation_state
  vs_evidence_generation :: string
  vs_visibility_leak :: bool

record claim_verification =
  cv_claim_id :: string
  cv_status :: status
  cv_evidence_level :: evidence_level
  cv_expression_value :: exact_value
  cv_expression_matches :: bool
  cv_assertable :: bool
  cv_valid :: bool

datatype verify_error = Guarded guard | Evaluation eval_error | ExpressionDiffers exact_value

definition initial_verification_state :: "claim \<Rightarrow> verification_state" where
  "initial_verification_state c =
     \<lparr> vs_available = (\<lambda>x. x \<in> set (elems (cl_evidence_components c))),
       vs_caveats = (\<lambda>x. x \<in> set (elems (cl_caveats c))),
       vs_denominator_present = True, vs_scope_widened = False, vs_attestation = cl_attestation c,
       vs_evidence_generation = ge_evidence (cl_generation c), vs_visibility_leak = False \<rparr>"

definition check_evidence :: "evidence_set \<Rightarrow> verification_state \<Rightarrow> string \<Rightarrow> verify_error option" where
  "check_evidence evidence state component =
     (case es_records evidence component of
        None \<Rightarrow> Some (Guarded GuardEvidenceParentMissing)
      | Some record \<Rightarrow> first_err [
          fail_if (\<not> vs_available state component) (Guarded GuardEvidenceParentMissing),
          fail_if (cr_visibility record \<noteq> VisibilityPublic \<or> vs_visibility_leak state) (Guarded GuardVisibilityLeak)])"

definition evidence_type :: "evidence_set \<Rightarrow> string \<Rightarrow> string" where
  "evidence_type evidence component =
     (case es_records evidence component of None \<Rightarrow> [] | Some record \<Rightarrow> cr_type_id record)"

definition check_claim_guards :: "claim \<Rightarrow> evidence_set \<Rightarrow> verification_state \<Rightarrow> verify_error option" where
  "check_claim_guards c evidence state = first_err [
     each_ok (check_evidence evidence state) (elems (cl_evidence_components c)),
     fail_if (vs_scope_widened state) (Guarded GuardScopeExceedsLedger),
     fail_if (ex_operation (cl_expression c) = OperationRatio \<and> \<not> vs_denominator_present state)
       (Guarded GuardExpressionDenominatorMissing),
     fail_if (assertable (cl_status c) \<and> vs_attestation state \<noteq> AttestationNotRequired \<and>
         vs_attestation state \<noteq> AttestationCurrent) (Guarded GuardAttestationStale),
     each_ok (\<lambda>required. fail_if (\<not> vs_caveats state required) (Guarded GuardRequiredCaveatMissing))
       (elems (ce_required_caveats (cl_evidence_ceiling c))),
     fail_if (assertable (cl_status c) \<and> vs_evidence_generation state \<noteq> ge_current (cl_generation c))
       (Guarded GuardGenerationNotCurrent),
     each_ok (\<lambda>type_id. fail_if
         (\<forall>component \<in> set (elems (cl_evidence_components c)). evidence_type evidence component \<noteq> type_id)
         (Guarded GuardEvidenceParentMissing)) (elems (ce_required_parent_types (cl_evidence_ceiling c)))]"

definition evaluate_claim_state ::
  "claim \<Rightarrow> evidence_set \<Rightarrow> verification_state \<Rightarrow> verify_error + claim_verification" where
  "evaluate_claim_state c evidence state =
     (case check_claim_guards c evidence state of Some e \<Rightarrow> Inl e | None \<Rightarrow>
      (case evaluate_expression (cl_expression c) evidence of Inl e \<Rightarrow> Inl (Evaluation e) | Inr actual \<Rightarrow>
        if actual \<noteq> ex_expected (cl_expression c) then Inl (ExpressionDiffers actual)
        else Inr \<lparr> cv_claim_id = cl_claim_id c, cv_status = cl_status c,
          cv_evidence_level = cl_evidence_level c, cv_expression_value = actual,
          cv_expression_matches = True, cv_assertable = assertable (cl_status c), cv_valid = True \<rparr>))"

section \<open>The verification of a ledger\<close>

record ledger_report =
  lr_schema_version :: string
  lr_verifier :: string
  lr_capsule_id :: string
  lr_ledger_digest :: string
  lr_claims :: "claim_verification list"
  lr_status_counts :: "(string \<times> int) list"
  lr_valid :: bool
  lr_offline :: bool

datatype ledger_error =
    LedgerArguments | LedgerRejected claim_error | LedgerUnbound | PackageRejected store_error
  | ClaimRejected string verify_error | LookupFailed lookup_error
  | ChallengeAbsent string | ChallengeNotApplicable string | SealingFailed json_error
  | UnsupportedClass string | NoGuardTriggered | UnintendedError verify_error
  | ChallengeComponentAbsent | ChallengePayloadEmpty | CapsuleStillValid | UnintendedCapsuleError store_error
  | WrongGuard guard | ReceiptInvalid

abbreviation VerifierVersion :: string where "VerifierVersion \<equiv> ''evalwitness.claim-verifier.v1''"
abbreviation ClaimVerificationSchemaVersion :: string where
  "ClaimVerificationSchemaVersion \<equiv> ''evalwitness.claim-verification.v1''"

definition public_options :: verification_options where
  "public_options = \<lparr> vo_maximum_visibility = VisibilityPublic,
     vo_limits = \<lparr> max_components = 0, max_manifest_bytes = 0, max_registry_bytes = 0,
       max_payload_bytes = 0, max_total_bytes = 0 \<rparr> \<rparr>"

fun all_right :: "('a \<Rightarrow> 'e + 'b) \<Rightarrow> 'a list \<Rightarrow> 'e + 'b list" where
  "all_right f [] = Inr []"
| "all_right f (x # xs) =
     (case f x of Inl e \<Rightarrow> Inl e
      | Inr y \<Rightarrow> (case all_right f xs of Inl e \<Rightarrow> Inl e | Inr ys \<Rightarrow> Inr (y # ys)))"

definition verify_ledger_package ::
  "poll \<Rightarrow> (string \<Rightarrow> string) \<Rightarrow> registry option \<Rightarrow> manifest \<Rightarrow> payload_map \<Rightarrow> ledger \<Rightarrow> ledger_error option" where
  "verify_ledger_package ctx sha r m payloads l = first_err [
     fail_if (Option.is_none r) LedgerArguments,
     map_err LedgerRejected (ledger_validate sha l),
     fail_if (lg_capsule_id l \<noteq> mf_capsule_id m \<or> lg_manifest_digest l \<noteq> mf_manifest_digest m) LedgerUnbound,
     (case verify_package ctx sha r m payloads public_options of Inl e \<Rightarrow> Some (PackageRejected e) | Inr _ \<Rightarrow> None)]"

definition verify_claim_item :: "evidence_set \<Rightarrow> claim \<Rightarrow> ledger_error + claim_verification" where
  "verify_claim_item evidence c =
     map_sum (ClaimRejected (cl_claim_id c)) id (evaluate_claim_state c evidence (initial_verification_state c))"

definition verify_ledger_claims :: "manifest \<Rightarrow> payload_map \<Rightarrow> ledger \<Rightarrow> ledger_error + ledger_report" where
  "verify_ledger_claims m payloads l =
     (case all_right (verify_claim_item (new_evidence_set m payloads)) (elems (lg_claims l)) of
        Inl e \<Rightarrow> Inl e
      | Inr verifications \<Rightarrow> Inr
          \<lparr> lr_schema_version = ClaimVerificationSchemaVersion, lr_verifier = VerifierVersion,
            lr_capsule_id = mf_capsule_id m, lr_ledger_digest = lg_digest l, lr_claims = verifications,
            lr_status_counts = foldl (\<lambda>counts c. AList.map_default (cl_status c) 1 (\<lambda>n. n + 1) counts) []
              (elems (lg_claims l)),
            lr_valid = True, lr_offline = True \<rparr>)"

definition verify_ledger ::
  "poll \<Rightarrow> (string \<Rightarrow> string) \<Rightarrow> registry option \<Rightarrow> manifest \<Rightarrow> payload_map \<Rightarrow> ledger \<Rightarrow>
   ledger_error + ledger_report" where
  "verify_ledger ctx sha r m payloads l =
     (case verify_ledger_package ctx sha r m payloads l of
        Some e \<Rightarrow> Inl e
      | None \<Rightarrow> verify_ledger_claims m payloads l)"

definition verify_claim ::
  "poll \<Rightarrow> (string \<Rightarrow> string) \<Rightarrow> registry option \<Rightarrow> manifest \<Rightarrow> payload_map \<Rightarrow> ledger \<Rightarrow> string \<Rightarrow>
   ledger_error + claim_verification" where
  "verify_claim ctx sha r m payloads l claim_id =
     (case verify_ledger_package ctx sha r m payloads l of Some e \<Rightarrow> Inl e | None \<Rightarrow>
      (case claim_lookup l claim_id of Inl e \<Rightarrow> Inl (LookupFailed e) | Inr c \<Rightarrow>
        map_sum (ClaimRejected claim_id) id
          (evaluate_claim_state c (new_evidence_set m payloads) (initial_verification_state c))))"

end
