(* ===== verification/ClaimChallenge.thy ===== *)
theory ClaimChallenge
  imports ClaimVerify
begin

text \<open>
  internal/claim/challenge.go: each challenge of a claim mutates an ephemeral copy of what the
  verifier looks at and demands the one guard that is meant to notice.  \<open>ctx id\<close> are the polls of the
  context by the package verification that the challenge named \<open>id\<close> makes.
\<close>

section \<open>Receipts\<close>

record challenge_receipt =
  cx_schema_version :: string
  cx_verifier :: string
  cx_claim_id :: string
  cx_source_capsule_id :: string
  cx_source_manifest_digest :: string
  cx_source_ledger_digest :: string
  cx_challenge_id :: string
  cx_class :: challenge_class
  cx_mutation :: string
  cx_expected_guard :: guard
  cx_observed_guard :: guard
  cx_before_state :: string
  cx_after_state :: string
  cx_sealed_source_digest :: string
  cx_after_sealed_source_digest :: string
  cx_passed :: bool
  cx_digest :: string

abbreviation ChallengeReceiptSchemaVersion :: string where
  "ChallengeReceiptSchemaVersion \<equiv> ''evalwitness.claim-challenge-receipt.v1''"

definition challenge_receipt_json :: "challenge_receipt \<Rightarrow> json" where
  "challenge_receipt_json x = JObj [(''schema_version'', JStr (cx_schema_version x)),
     (''verifier'', JStr (cx_verifier x)), (''claim_id'', JStr (cx_claim_id x)),
     (''source_capsule_id'', JStr (cx_source_capsule_id x)),
     (''source_manifest_digest'', JStr (cx_source_manifest_digest x)),
     (''source_ledger_digest'', JStr (cx_source_ledger_digest x)),
     (''challenge_id'', JStr (cx_challenge_id x)), (''class'', JStr (cx_class x)),
     (''mutation'', JStr (cx_mutation x)), (''expected_guard'', JStr (cx_expected_guard x)),
     (''observed_guard'', JStr (cx_observed_guard x)), (''before_state'', JStr (cx_before_state x)),
     (''after_state'', JStr (cx_after_state x)), (''sealed_source_digest'', JStr (cx_sealed_source_digest x)),
     (''after_sealed_source_digest'', JStr (cx_after_sealed_source_digest x)),
     (''passed'', JBool (cx_passed x)), (''digest'', JStr (cx_digest x))]"

definition challenge_receipt_digest :: "(string \<Rightarrow> string) \<Rightarrow> challenge_receipt \<Rightarrow> json_error + string" where
  "challenge_receipt_digest sha x = digest sha (challenge_receipt_json (x\<lparr>cx_digest := []\<rparr>))"

text \<open>\<open>ChallengeReceipt.Validate\<close>, without the texts of its errors.\<close>

definition challenge_receipt_valid :: "(string \<Rightarrow> string) \<Rightarrow> challenge_receipt \<Rightarrow> bool" where
  "challenge_receipt_valid sha x \<longleftrightarrow>
     cx_schema_version x = ChallengeReceiptSchemaVersion \<and> cx_verifier x = VerifierVersion \<and>
     valid_claim_id (cx_claim_id x) \<and> valid_digest (cx_source_capsule_id x) \<and>
     valid_digest (cx_source_manifest_digest x) \<and> valid_digest (cx_source_ledger_digest x) \<and>
     valid_token (cx_challenge_id x) \<and> valid_text (cx_mutation x) \<and> guard_valid (cx_expected_guard x) \<and>
     guard_valid (cx_observed_guard x) \<and> valid_text (cx_before_state x) \<and> valid_text (cx_after_state x) \<and>
     valid_digest (cx_sealed_source_digest x) \<and>
     cx_after_sealed_source_digest x = cx_sealed_source_digest x \<and> cx_passed x \<and>
     cx_expected_guard x = cx_observed_guard x \<and> valid_digest (cx_digest x) \<and>
     cx_challenge_id x = challenge_id_of (cx_claim_id x) (cx_class x) \<and>
     expected_guard (cx_class x) = cx_expected_guard x \<and>
     challenge_receipt_digest sha x = Inr (cx_digest x)"

section \<open>The sealed source\<close>

definition payload_entry_json :: "string \<times> string \<times> int \<Rightarrow> json" where
  "payload_entry_json entry =
     (let (declared, actual, bytes) = entry in
      JObj [(''declared_digest'', JStr declared), (''actual_digest'', JStr actual), (''bytes'', json_int bytes)])"

definition sealed_package_json ::
  "(string \<Rightarrow> string) \<Rightarrow> registry option \<Rightarrow> manifest \<Rightarrow> payload_map \<Rightarrow> json" where
  "sealed_package_json sha r m payloads =
     (let entries = sort_key fst (map (\<lambda>(d, raw). (d, digest_bytes sha raw, int (length raw))) payloads) in
      JObj [(''registry_digest'', JStr (registry_digest_of r)), (''manifest_digest'', JStr (mf_manifest_digest m)),
        (''payloads'', JArr (map payload_entry_json entries))])"

definition sealed_package_digest ::
  "(string \<Rightarrow> string) \<Rightarrow> registry option \<Rightarrow> manifest \<Rightarrow> payload_map \<Rightarrow> json_error + string" where
  "sealed_package_digest sha r m payloads = digest sha (sealed_package_json sha r m payloads)"

section \<open>Mutations\<close>

text \<open>The lowest bit of the first byte.\<close>

definition flip_byte :: "char \<Rightarrow> char" where
  "flip_byte c = (if even (ord c) then chr (ord c + 1) else chr (ord c - 1))"

definition flip_first :: "string \<Rightarrow> string" where
  "flip_first raw = (case raw of [] \<Rightarrow> [] | c # cs \<Rightarrow> flip_byte c # cs)"

definition substitute_payload :: "payload_map \<Rightarrow> string \<Rightarrow> payload_map" where
  "substitute_payload payloads d =
     map (\<lambda>(d', raw). (d', if d' = d then flip_first raw else raw)) payloads"

definition apply_digest_substitution ::
  "poll \<Rightarrow> (string \<Rightarrow> string) \<Rightarrow> registry option \<Rightarrow> manifest \<Rightarrow> payload_map \<Rightarrow> claim \<Rightarrow> ledger_error + guard" where
  "apply_digest_substitution ctx sha r m payloads c =
     (case es_records (new_evidence_set m payloads) (elems (cl_evidence_components c) ! 0) of
        None \<Rightarrow> Inl ChallengeComponentAbsent
      | Some record \<Rightarrow>
          let d = pi_digest (cr_payload record) in
          if payload_bytes payloads d = [] then Inl ChallengePayloadEmpty
          else case verify_package ctx sha r m (substitute_payload payloads d) public_options of
            Inr _ \<Rightarrow> Inl CapsuleStillValid
          | Inl (PayloadIdentityError name d') \<Rightarrow>
              if name \<noteq> cr_name record \<or> d' \<noteq> d then Inl (UnintendedCapsuleError (PayloadIdentityError name d'))
              else Inr GuardEvidenceDigestMismatch
          | Inl e \<Rightarrow> Inl (UnintendedCapsuleError e))"

text \<open>The mutation of the verification state; \<open>None\<close> is an unsupported class.\<close>

definition mutate_state :: "claim \<Rightarrow> challenge_class \<Rightarrow> verification_state option" where
  "mutate_state c class =
     (let state = initial_verification_state c in
      if class = ChallengeParentRemoval then
        Some (state\<lparr>vs_available := (vs_available state)(elems (cl_evidence_components c) ! 0 := False)\<rparr>)
      else if class = ChallengeDenominatorDeletion then Some (state\<lparr>vs_denominator_present := False\<rparr>)
      else if class = ChallengeScopeWidening then Some (state\<lparr>vs_scope_widened := True\<rparr>)
      else if class = ChallengeStaleAttestation then Some (state\<lparr>vs_attestation := AttestationStale\<rparr>)
      else if class = ChallengeCaveatRemoval then
        Some (state\<lparr>vs_caveats := (vs_caveats state)
          (elems (ce_required_caveats (cl_evidence_ceiling c)) ! 0 := False)\<rparr>)
      else if class = ChallengeSupersededGeneration then
        Some (state\<lparr>vs_evidence_generation := ''challenge.superseded-generation''\<rparr>)
      else if class = ChallengeVisibilityLeak then Some (state\<lparr>vs_visibility_leak := True\<rparr>)
      else None)"

definition apply_challenge ::
  "poll \<Rightarrow> (string \<Rightarrow> string) \<Rightarrow> registry option \<Rightarrow> manifest \<Rightarrow> payload_map \<Rightarrow> claim \<Rightarrow> evidence_set \<Rightarrow>
   challenge_spec \<Rightarrow> ledger_error + guard" where
  "apply_challenge ctx sha r m payloads c evidence specification =
     (if ch_class specification = ChallengeDigestSubstitution
      then apply_digest_substitution ctx sha r m payloads c
      else case mutate_state c (ch_class specification) of
        None \<Rightarrow> Inl (UnsupportedClass (ch_class specification))
      | Some state \<Rightarrow>
          (case evaluate_claim_state c evidence state of
             Inr _ \<Rightarrow> Inl NoGuardTriggered
           | Inl (Guarded g) \<Rightarrow> Inr g
           | Inl e \<Rightarrow> Inl (UnintendedError e)))"

section \<open>Challenges\<close>

definition verification_state_label :: "claim_verification \<Rightarrow> string" where
  "verification_state_label v =
     (if cv_assertable v then ''verified:assertable'' else ''verified:historical-or-unsupported'')"

definition challenge_verified ::
  "(string \<Rightarrow> poll) \<Rightarrow> (string \<Rightarrow> string) \<Rightarrow> registry option \<Rightarrow> manifest \<Rightarrow> payload_map \<Rightarrow> ledger \<Rightarrow>
   evidence_set \<Rightarrow> string \<Rightarrow> claim \<times> challenge_spec \<Rightarrow> ledger_error + challenge_receipt" where
  "challenge_verified ctx sha r m payloads l evidence sealed entry =
     (let (c, specification) = entry in
      case verify_claim_item evidence c of Inl e \<Rightarrow> Inl e | Inr before \<Rightarrow>
      (case apply_challenge (ctx (ch_challenge_id specification)) sha r m payloads c evidence specification of
         Inl e \<Rightarrow> Inl e
       | Inr observed \<Rightarrow>
         if observed \<noteq> ch_expected_guard specification then Inl (WrongGuard observed)
         else
           let receipt = \<lparr> cx_schema_version = ChallengeReceiptSchemaVersion, cx_verifier = VerifierVersion,
               cx_claim_id = cl_claim_id c, cx_source_capsule_id = mf_capsule_id m,
               cx_source_manifest_digest = mf_manifest_digest m, cx_source_ledger_digest = lg_digest l,
               cx_challenge_id = ch_challenge_id specification, cx_class = ch_class specification,
               cx_mutation = ch_mutation specification, cx_expected_guard = ch_expected_guard specification,
               cx_observed_guard = observed, cx_before_state = verification_state_label before,
               cx_after_state = ''rejected:'' @ observed, cx_sealed_source_digest = sealed,
               cx_after_sealed_source_digest = sealed, cx_passed = True, cx_digest = [] \<rparr>
           in case challenge_receipt_digest sha receipt of
                Inl e \<Rightarrow> Inl (SealingFailed e)
              | Inr d \<Rightarrow>
                  if challenge_receipt_valid sha (receipt\<lparr>cx_digest := d\<rparr>) then Inr (receipt\<lparr>cx_digest := d\<rparr>)
                  else Inl ReceiptInvalid))"

definition lookup_challenge :: "claim \<Rightarrow> string \<Rightarrow> challenge_spec option" where
  "lookup_challenge c challenge_id = find (\<lambda>x. ch_challenge_id x = challenge_id) (elems (cl_challenges c))"

definition challenge_one ::
  "poll \<Rightarrow> (string \<Rightarrow> poll) \<Rightarrow> (string \<Rightarrow> string) \<Rightarrow> registry option \<Rightarrow> manifest \<Rightarrow> payload_map \<Rightarrow> ledger \<Rightarrow>
   string \<Rightarrow> string \<Rightarrow> ledger_error + challenge_receipt" where
  "challenge_one ctx ctx' sha r m payloads l claim_id challenge_id =
     (case verify_ledger_package ctx sha r m payloads l of Some e \<Rightarrow> Inl e | None \<Rightarrow>
      (case claim_lookup l claim_id of Inl e \<Rightarrow> Inl (LookupFailed e) | Inr c \<Rightarrow>
      (case lookup_challenge c challenge_id of None \<Rightarrow> Inl (ChallengeAbsent challenge_id) | Some specification \<Rightarrow>
       if ch_applicability specification \<noteq> ChallengeApplied then Inl (ChallengeNotApplicable challenge_id)
       else case sealed_package_digest sha r m payloads of Inl e \<Rightarrow> Inl (SealingFailed e) | Inr sealed \<Rightarrow>
         challenge_verified ctx' sha r m payloads l (new_evidence_set m payloads) sealed (c, specification))))"

definition applied_challenges :: "ledger \<Rightarrow> (claim \<times> challenge_spec) list" where
  "applied_challenges l = concat (map (\<lambda>c. map (Pair c)
     (filter (\<lambda>x. ch_applicability x = ChallengeApplied) (elems (cl_challenges c)))) (elems (lg_claims l)))"

definition challenge_all_verified ::
  "(string \<Rightarrow> poll) \<Rightarrow> (string \<Rightarrow> string) \<Rightarrow> registry option \<Rightarrow> manifest \<Rightarrow> payload_map \<Rightarrow> ledger \<Rightarrow>
   ledger_error + challenge_receipt list" where
  "challenge_all_verified ctx sha r m payloads l =
     (case sealed_package_digest sha r m payloads of Inl e \<Rightarrow> Inl (SealingFailed e) | Inr sealed \<Rightarrow>
       all_right (challenge_verified ctx sha r m payloads l (new_evidence_set m payloads) sealed)
         (applied_challenges l))"

definition challenge_all ::
  "poll \<Rightarrow> (string \<Rightarrow> poll) \<Rightarrow> (string \<Rightarrow> string) \<Rightarrow> registry option \<Rightarrow> manifest \<Rightarrow> payload_map \<Rightarrow> ledger \<Rightarrow>
   ledger_error + challenge_receipt list" where
  "challenge_all ctx ctx' sha r m payloads l =
     (case verify_ledger_package ctx sha r m payloads l of
        Some e \<Rightarrow> Inl e
      | None \<Rightarrow> challenge_all_verified ctx' sha r m payloads l)"

end
