(* ===== verification/ClaimFacts.thy ===== *)
theory ClaimFacts
  imports ClaimChallenge
begin

text \<open>
  What the claims rest on: the shape of a validated ledger, the exactness of the binary search,
  the readable consequences of a successful verification, and the exactness of rational texts.
\<close>

section \<open>Validated ledgers\<close>

lemma scan_claims_iff:
  "scan_claims capsule_id p claims = None \<longleftrightarrow>
     (\<forall>c \<in> set claims. claim_validate c = None \<and> elems (cl_capsule_ids c) = [capsule_id]) \<and>
     ascending_from p cl_claim_id claims"
  by (induction claims arbitrary: p) (auto simp: not_le simp del: first_err.simps(2,3))

lemma ledger_validD:
  assumes "ledger_validate sha l = None"
  shows "lg_schema_version l = LedgerSchemaVersion" "lg_canonical_policy l = CanonicalPolicy"
    "valid_digest (lg_capsule_id l)" "valid_digest (lg_manifest_digest l)" "valid_digest (lg_digest l)"
    "ledger_digest sha l = Inr (lg_digest l)" "ascending_from [] cl_claim_id (elems (lg_claims l))"
    "elems (lg_claims l) \<noteq> []"
    "\<And>c. c \<in> set (elems (lg_claims l)) \<Longrightarrow> claim_validate c = None \<and> elems (cl_capsule_ids c) = [lg_capsule_id l]"
  using assms by (simp_all add: ledger_validate_def scan_claims_iff del: first_err.simps(2,3))

lemma claim_validD:
  assumes "claim_validate c = None"
  shows "valid_claim_id (cl_claim_id c)" "status_valid (cl_status c)" "evidence_level_valid (cl_evidence_level c)"
    "elems (cl_evidence_components c) \<noteq> []" "expression_validate (cl_expression c) = None"
    "assertable (cl_status c) \<Longrightarrow> cl_evidence_level c \<noteq> EvidenceE0"
    "assertable (cl_status c) \<Longrightarrow> ex_operation (cl_expression c) \<noteq> OperationComponentExists"
    "assertable (cl_status c) \<Longrightarrow> ge_evidence (cl_generation c) = ge_current (cl_generation c)"
    "assertable (cl_status c) \<Longrightarrow> cl_attestation c = AttestationNotRequired \<or> cl_attestation c = AttestationCurrent"
    "evidence_rank (cl_evidence_level c) \<le> evidence_rank (ce_maximum_level (cl_evidence_ceiling c))"
    "\<And>x. x \<in> set (elems (ex_operands (cl_expression c))) \<Longrightarrow> op_component x \<in> set (elems (cl_evidence_components c))"
    "\<And>x. x \<in> set (elems (ce_required_caveats (cl_evidence_ceiling c))) \<Longrightarrow> x \<in> set (elems (cl_caveats c))"
    "length (elems (cl_challenges c)) = length challenge_classes"
    "\<And>p. p \<in> set (zip challenge_classes (elems (cl_challenges c))) \<Longrightarrow> check_challenge c p = None"
  using assms by (auto simp: claim_validate_def Let_def simp del: first_err.simps(2,3))

lemma validated_challenge:
  assumes "claim_validate c = None" and "x \<in> set (elems (cl_challenges c))"
  shows "challenge_spec_validate (cl_claim_id c) x = None"
    and "ch_applicability x = ChallengeApplied \<longleftrightarrow> fst (challenge_applicability_of c (ch_class x))"
proof -
  note c = claim_validD [OF assms(1)]
  obtain k where p: "(k, x) \<in> set (zip challenge_classes (elems (cl_challenges c)))"
    using assms(2) c(13) by (metis in_set_impl_in_set_zip2)
  with c(14) [OF p] show "challenge_spec_validate (cl_claim_id c) x = None"
    "ch_applicability x = ChallengeApplied \<longleftrightarrow> fst (challenge_applicability_of c (ch_class x))"
    by (auto simp: check_challenge_def Let_def case_prod_unfold simp del: first_err.simps(2,3))
qed

section \<open>Lookup\<close>

lemma search_partition:
  assumes "sorted (map cl_claim_id claims)" and "j \<le> length claims" and "i \<le> j"
    and "\<And>k. k < i \<Longrightarrow> cl_claim_id (claims ! k) < target"
    and "\<And>k. j \<le> k \<Longrightarrow> k < length claims \<Longrightarrow> target \<le> cl_claim_id (claims ! k)"
  shows "search claims target i j \<le> length claims \<and>
    (\<forall>k < search claims target i j. cl_claim_id (claims ! k) < target) \<and>
    (\<forall>k. search claims target i j \<le> k \<and> k < length claims \<longrightarrow> target \<le> cl_claim_id (claims ! k))"
  using assms
proof (induction claims target i j rule: search.induct)
  case (1 claims target i j)
  let ?h = "(i + j) div 2"
  have mono: "cl_claim_id (claims ! a) \<le> cl_claim_id (claims ! b)" if le: "a \<le> b" "b < length claims" for a b
    using sorted_nth_mono [OF 1(3), of a b] le by simp
  show ?case
  proof (cases "i < j")
    case False
    then have "i = j" using 1(5) by simp
    then show ?thesis using 1(4,6,7) by (simp add: search.simps)
  next
    case True
    then have h: "i \<le> ?h" "?h < j" "?h < length claims" using 1(4) by auto
    show ?thesis
    proof (cases "cl_claim_id (claims ! ?h) < target")
      case less: True
      have "cl_claim_id (claims ! k) < target" if "k < ?h + 1" for k
        using mono [of k ?h] that h less by (simp add: le_less_trans)
      then show ?thesis
        using 1(1) [OF True refl less 1(3,4) _ _ 1(7)] h less True by (simp add: search.simps [of claims target i j])
    next
      case ge: False
      have "target \<le> cl_claim_id (claims ! k)" if "?h \<le> k" "k < length claims" for k
        using mono [of ?h k] that ge by simp
      then show ?thesis
        using 1(2) [OF True refl ge 1(3) _ h(1) 1(6)] h ge True
        by (simp add: search.simps [of claims target i j])
    qed
  qed
qed

lemma lookup_find:
  assumes "ascending_from [] cl_claim_id (elems (lg_claims l))"
  shows "claim_lookup l i =
    (if \<not> valid_claim_id i then Inl ClaimIdInvalid
     else case find (\<lambda>c. cl_claim_id c = i) (elems (lg_claims l)) of
       None \<Rightarrow> Inl (ClaimAbsent i) | Some c \<Rightarrow> Inr c)"
proof -
  let ?cs = "elems (lg_claims l)"
  let ?k = "search ?cs i 0 (length ?cs)"
  have p: "?k \<le> length ?cs" "\<forall>k < ?k. cl_claim_id (?cs ! k) < i"
    "\<forall>k. ?k \<le> k \<and> k < length ?cs \<longrightarrow> i \<le> cl_claim_id (?cs ! k)"
    using search_partition [of ?cs "length ?cs" 0 i] ascending_from_sorted [OF assms] by auto
  have d: "distinct (map cl_claim_id ?cs)" using assms by (rule ascending_from_distinct)
  show ?thesis
  proof (cases "?k < length ?cs \<and> cl_claim_id (?cs ! ?k) = i")
    case True
    moreover have "find (\<lambda>c. cl_claim_id c = i) ?cs = Some (?cs ! ?k)"
      unfolding find_Some_iff using True p(2) by (intro exI [of _ ?k]) auto
    ultimately show ?thesis by (simp add: claim_lookup_def Let_def)
  next
    case False
    have "cl_claim_id c \<noteq> i" if c: "c \<in> set ?cs" for c
    proof
      assume e: "cl_claim_id c = i"
      obtain k where k: "k < length ?cs" "?cs ! k = c" using c by (auto simp: in_set_conv_nth)
      then have "?k \<le> k" using p(2) e by (metis linorder_not_less order_less_irrefl)
      then have "?k < length ?cs" using k by simp
      then have "i \<le> cl_claim_id (?cs ! ?k)" using p(3) by simp
      moreover have "cl_claim_id (?cs ! ?k) \<le> cl_claim_id (?cs ! k)"
        using sorted_nth_mono [OF ascending_from_sorted [OF assms], of ?k k] \<open>?k \<le> k\<close> k by simp
      ultimately show False using False k e \<open>?k < length ?cs\<close> by simp
    qed
    then have "find (\<lambda>c. cl_claim_id c = i) ?cs = None" by (auto simp: find_None_iff)
    then show ?thesis using False by (auto simp: claim_lookup_def Let_def)
  qed
qed

section \<open>Verified ledgers\<close>

lemma all_right_iff: "all_right f xs = Inr ys \<longleftrightarrow> list_all2 (\<lambda>x y. f x = Inr y) xs ys"
proof (induction xs arbitrary: ys)
  case (Cons x xs)
  show ?case using Cons.IH [symmetric] by (cases ys) (auto split: sum.splits)
qed auto

lemma package_acceptedD:
  assumes "verify_ledger_package ctx sha r m payloads l = None"
  shows "ledger_validate sha l = None" "lg_capsule_id l = mf_capsule_id m" "lg_manifest_digest l = mf_manifest_digest m"
    "\<exists>report. verify_package ctx sha r m payloads public_options = Inr report"
  using assms by (simp_all add: verify_ledger_package_def del: first_err.simps(2,3) split: sum.splits)

lemma verify_ledgerD:
  assumes "verify_ledger ctx sha r m payloads l = Inr report"
  shows "verify_ledger_package ctx sha r m payloads l = None"
    "list_all2 (\<lambda>c v. verify_claim_item (new_evidence_set m payloads) c = Inr v) (elems (lg_claims l)) (lr_claims report)"
  using assms by (auto simp: verify_ledger_def verify_ledger_claims_def all_right_iff split: option.splits sum.splits)

lemma verified_item:
  assumes "verify_claim_item evidence c = Inr v"
  shows "check_claim_guards c evidence (initial_verification_state c) = None"
    "evaluate_expression (cl_expression c) evidence = Inr (ex_expected (cl_expression c))"
    "cv_claim_id v = cl_claim_id c" "cv_assertable v = assertable (cl_status c)"
  using assms
  by (auto simp: verify_claim_item_def evaluate_claim_state_def split: option.splits sum.splits if_split_asm)

lemma verified_claim:
  assumes "verify_ledger ctx sha r m payloads l = Inr report" and "c \<in> set (elems (lg_claims l))"
  obtains v where "verify_claim_item (new_evidence_set m payloads) c = Inr v"
  using assms(2) verify_ledgerD(2) [OF assms(1)] by (auto simp: list_all2_conv_all_nth in_set_conv_nth)

lemma evidence_member:
  "es_records (new_evidence_set m payloads) name = Some record \<Longrightarrow>
     record \<in> set (elems (mf_components m)) \<and> cr_name record = name"
  by (auto simp: new_evidence_set_def dest!: map_of_SomeD)

lemma checked_evidence:
  assumes "check_claim_guards c evidence state = None" and "x \<in> set (elems (cl_evidence_components c))"
  obtains q where "es_records evidence x = Some q" "cr_visibility q = VisibilityPublic"
  using assms by (fastforce simp: check_claim_guards_def check_evidence_def simp del: first_err.simps(2,3)
      split: option.splits)

lemma evidence_rank_zero: "evidence_level_valid e \<Longrightarrow> e \<noteq> EvidenceE0 \<Longrightarrow> 1 \<le> evidence_rank e"
  by (auto simp: evidence_level_valid_def evidence_rank_def split: if_splits)

end
