(* ===== verification/ChallengeFacts.thy ===== *)
theory ChallengeFacts
  imports ClaimFacts
begin

text \<open>
  Every guard notices its own mutation.  For the seven mutations of the verification state this
  follows from the order of the guards; for the substitution of a payload it rests on what the
  verifier of packages promises, the interface \<open>package_verifier\<close>.
\<close>

section \<open>Mutations of the state\<close>

lemma initial_guards:
  assumes "check_claim_guards c evidence (initial_verification_state c) = None"
  shows "\<And>x. x \<in> set (elems (cl_evidence_components c)) \<Longrightarrow>
      \<exists>q. es_records evidence x = Some q \<and> cr_visibility q = VisibilityPublic"
    "assertable (cl_status c) \<Longrightarrow> cl_attestation c = AttestationNotRequired \<or> cl_attestation c = AttestationCurrent"
    "\<And>x. x \<in> set (elems (ce_required_caveats (cl_evidence_ceiling c))) \<Longrightarrow> x \<in> set (elems (cl_caveats c))"
    "assertable (cl_status c) \<Longrightarrow> ge_evidence (cl_generation c) = ge_current (cl_generation c)"
proof -
  show "\<exists>q. es_records evidence x = Some q \<and> cr_visibility q = VisibilityPublic"
    if "x \<in> set (elems (cl_evidence_components c))" for x
    using checked_evidence [OF assms that] by metis
qed (use assms in \<open>auto simp: check_claim_guards_def initial_verification_state_def simp del: first_err.simps(2,3)\<close>)

lemma evidence_passes:
  assumes "\<And>x. x \<in> set xs \<Longrightarrow> \<exists>q. es_records evidence x = Some q \<and> cr_visibility q = VisibilityPublic"
    and "\<And>x. x \<in> set xs \<Longrightarrow> vs_available state x" and "\<not> vs_visibility_leak state"
  shows "each_ok (check_evidence evidence state) xs = None"
  using assms by (fastforce simp: check_evidence_def)

lemma each_ok_head: "xs \<noteq> [] \<Longrightarrow> f (xs ! 0) = Some e \<Longrightarrow> each_ok f xs = Some e"
  by (cases xs) auto

lemma guard_reached:
  assumes "check_claim_guards c evidence (initial_verification_state c) = None" and "claim_validate c = None"
    and "x \<in> set (elems (cl_challenges c))" and "ch_applicability x = ChallengeApplied"
    and "ch_class x \<noteq> ChallengeDigestSubstitution"
    and "ge_current (cl_generation c) \<noteq> ''challenge.superseded-generation''"
  shows "\<exists>state. mutate_state c (ch_class x) = Some state \<and>
    check_claim_guards c evidence state = Some (Guarded (expected_guard (ch_class x)))"
proof -
  note i = initial_guards [OF assms(1)] and v = claim_validD [OF assms(2)]
  let ?cs = "elems (cl_evidence_components c)" and ?s = "initial_verification_state c"
  have a: "fst (challenge_applicability_of c (ch_class x))"
    using validated_challenge [OF assms(2,3)] assms(4) by simp
  have k: "ch_class x \<in> set challenge_classes"
    using validated_challenge [OF assms(2,3)] by (simp add: challenge_spec_validate_def del: first_err.simps(2,3))
  have cs: "?cs ! 0 \<in> set ?cs" using v(4) by simp
  obtain q where q: "es_records evidence (?cs ! 0) = Some q" "cr_visibility q = VisibilityPublic"
    using i(1) [OF cs] by auto
  have pass: "each_ok (check_evidence evidence state) ?cs = None"
    if "vs_available state = vs_available ?s" "\<not> vs_visibility_leak state" for state
    by (rule evidence_passes) (use i(1) that in \<open>auto simp: initial_verification_state_def\<close>)
  consider "ch_class x = ChallengeParentRemoval" | "ch_class x = ChallengeVisibilityLeak"
    | "ch_class x = ChallengeScopeWidening" | "ch_class x = ChallengeDenominatorDeletion"
    | "ch_class x = ChallengeStaleAttestation" | "ch_class x = ChallengeCaveatRemoval"
    | "ch_class x = ChallengeSupersededGeneration"
    using k assms(5) by (auto simp: challenge_classes_def)
  then show ?thesis
  proof cases
    case 1
    have "each_ok (check_evidence evidence (?s\<lparr>vs_available := (vs_available ?s)(?cs ! 0 := False)\<rparr>)) ?cs =
        Some (Guarded GuardEvidenceParentMissing)"
      by (rule each_ok_head [OF v(4)]) (simp add: check_evidence_def q)
    then show ?thesis by (simp add: 1 mutate_state_def Let_def check_claim_guards_def expected_guard_def)
  next
    case 2
    have "each_ok (check_evidence evidence (?s\<lparr>vs_visibility_leak := True\<rparr>)) ?cs = Some (Guarded GuardVisibilityLeak)"
      using cs by (intro each_ok_head [OF v(4)]) (simp add: check_evidence_def q initial_verification_state_def)
    then show ?thesis by (simp add: 2 mutate_state_def Let_def check_claim_guards_def expected_guard_def)
  next
    case 3
    then show ?thesis
      by (simp add: mutate_state_def Let_def check_claim_guards_def expected_guard_def pass initial_verification_state_def)
  next
    case 4
    then show ?thesis using a
      by (simp add: mutate_state_def Let_def check_claim_guards_def expected_guard_def pass
          challenge_applicability_of_def initial_verification_state_def)
  next
    case 5
    then show ?thesis using a
      by (simp add: mutate_state_def Let_def check_claim_guards_def expected_guard_def pass
          challenge_applicability_of_def initial_verification_state_def split: if_split_asm)
  next
    case 6
    let ?rs = "elems (ce_required_caveats (cl_evidence_ceiling c))"
    have rs: "?rs \<noteq> []" using a 6 by (simp add: challenge_applicability_of_def)
    have "each_ok (\<lambda>required. fail_if (\<not> (if required = ?rs ! 0 then False else required \<in> set (elems (cl_caveats c)))) (Guarded GuardRequiredCaveatMissing)) ?rs =
        Some (Guarded GuardRequiredCaveatMissing)"
      by (rule each_ok_head [OF rs]) simp
    then show ?thesis using i(2)
      by (simp add: 6 mutate_state_def Let_def check_claim_guards_def expected_guard_def pass
          initial_verification_state_def)
  next
    case 7
    have caveats: "each_ok (\<lambda>required. fail_if (required \<notin> set (elems (cl_caveats c))) (Guarded GuardRequiredCaveatMissing))
        (elems (ce_required_caveats (cl_evidence_ceiling c))) = None"
      using i(3) by simp
    then show ?thesis using a i(2) assms(6)
      by (auto simp add: 7 caveats mutate_state_def Let_def check_claim_guards_def expected_guard_def pass
          initial_verification_state_def challenge_applicability_of_def)
  qed
qed

section \<open>Substituted payloads\<close>

text \<open>
  The interface to the verifier of packages: what was accepted and then has a byte changed in one
  payload is refused, with an error that names the first component that declares this payload.
\<close>

locale package_verifier =
  fixes verify :: "payload_map \<Rightarrow> store_error + verification_report" and records :: "component_record list"
    and hash :: "string \<Rightarrow> string"
  assumes accepted_payloads:
    "verify payloads = Inr report \<Longrightarrow> q \<in> set records \<Longrightarrow> \<exists>raw. map_of payloads (pi_digest (cr_payload q)) = Some raw"
  assumes substitution_refused:
    "verify payloads = Inr report \<Longrightarrow> find (\<lambda>q. pi_digest (cr_payload q) = d) records = Some first \<Longrightarrow>
     map_of payloads d = Some raw \<Longrightarrow> hash (flip_first raw) \<noteq> d \<Longrightarrow>
     verify (substitute_payload payloads d) = Inl (PayloadIdentityError (cr_name first) d)"
begin

lemma substitution_names_component:
  assumes "verify payloads = Inr report" and "q \<in> set records"
    and "\<And>raw. map_of payloads (pi_digest (cr_payload q)) = Some raw \<Longrightarrow> hash (flip_first raw) \<noteq> pi_digest (cr_payload q)"
  obtains p where "p \<in> set records" "pi_digest (cr_payload p) = pi_digest (cr_payload q)"
    "verify (substitute_payload payloads (pi_digest (cr_payload q))) =
      Inl (PayloadIdentityError (cr_name p) (pi_digest (cr_payload q)))"
proof -
  let ?d = "pi_digest (cr_payload q)"
  obtain p where p: "find (\<lambda>q. pi_digest (cr_payload q) = ?d) records = Some p"
    using assms(2) by (cases "find (\<lambda>q. pi_digest (cr_payload q) = ?d) records") (auto simp: find_None_iff)
  obtain raw where raw: "map_of payloads ?d = Some raw"
    using accepted_payloads [OF assms(1,2)] by auto
  have "p \<in> set records" "pi_digest (cr_payload p) = ?d" using p by (auto simp: find_Some_iff)
  then show ?thesis using that substitution_refused [OF assms(1) p raw assms(3) [OF raw]] by blast
qed

end

lemma substitute_lookup:
  "map_of (substitute_payload payloads d) e = map_option (if e = d then flip_first else id) (map_of payloads e)"
  by (induction payloads) (auto simp: substitute_payload_def)

lemma match_payloads_substituted:
  assumes "\<forall>c \<in> set records. matched sha r (map_of payloads) c" and "agreeing expected records"
    and "find (\<lambda>c. pi_digest (cr_payload c) = d) records = Some first" and "map_of payloads d = Some raw"
    and "sha (flip_first raw) \<noteq> d"
  shows "match_payloads (\<lambda>_. None) k sha r (substitute_payload payloads d) expected components records =
    Inl (PayloadIdentityError (cr_name first) d)"
  using assms
proof (induction records arbitrary: k expected components)
  case (Cons c records)
  let ?i = "pi_digest (cr_payload c)"
  have free: "\<not> (expected ?i \<noteq> None \<and> expected ?i \<noteq> Some (cr_payload c))"
    and rest: "agreeing (expected(?i \<mapsto> cr_payload c)) records"
    using Cons.prems(2) by auto
  show ?case
  proof (cases "?i = d")
    case True
    then have "first = c" using Cons.prems(3) by simp
    moreover have "verify_payload sha r c (flip_first raw) = Some (PayloadIdentityError (cr_name c) d)"
      using Cons.prems(5) True by (simp add: verify_payload_def digest_bytes_def)
    ultimately show ?thesis using free Cons.prems(4) True by (auto simp: substitute_lookup)
  next
    case False
    moreover obtain raw' where "map_of payloads ?i = Some raw'" "verify_payload sha r c raw' = None"
      using Cons.prems(1) by (auto simp: matched_def)
    moreover have "match_payloads (\<lambda>_. None) (k + 1) sha r (substitute_payload payloads d) (expected(?i \<mapsto> cr_payload c))
        ((cr_component_id c, c) # components) records = Inl (PayloadIdentityError (cr_name first) d)"
      using Cons.prems False by (intro Cons.IH rest) simp_all
    ultimately show ?thesis using free by (auto simp: substitute_lookup Let_def)
  qed
qed simp

interpretation packages: package_verifier
  "\<lambda>payloads. verify_package (\<lambda>_. None) sha r m payloads public_options" "elems (mf_components m)" sha
  for sha r m
proof
  fix payloads report q
  assume a: "verify_package (\<lambda>_. None) sha r m payloads public_options = Inr report" and q: "q \<in> set (elems (mf_components m))"
  show "\<exists>raw. map_of payloads (pi_digest (cr_payload q)) = Some raw"
    using payload_of_component [OF verify_packageD(2) [OF a] q] by metis
next
  fix payloads report d first raw
  assume a: "verify_package (\<lambda>_. None) sha r m payloads public_options = Inr report"
    and f: "find (\<lambda>q. pi_digest (cr_payload q) = d) (elems (mf_components m)) = Some first"
    and d: "map_of payloads d = Some raw" "sha (flip_first raw) \<noteq> d"
  have set: "\<forall>c \<in> set (elems (mf_components m)). matched sha r (map_of payloads) c"
    "agreeing Map.empty (elems (mf_components m))"
    using verify_packageD(2) [OF a] unfolding validate_payload_set_iff Let_def by blast+
  have "validate_payload_set (\<lambda>_. None) 0 sha r m (substitute_payload payloads d) (effective_limits public_options) =
      Some (PayloadIdentityError (cr_name first) d)"
    by (simp add: validate_payload_set_def match_payloads_substituted [OF set f d])
  then show "verify_package (\<lambda>_. None) sha r m (substitute_payload payloads d) public_options =
      Inl (PayloadIdentityError (cr_name first) d)"
    using a by (auto simp: verify_package_def Let_def map_err_def fail_if_def split: option.splits if_split_asm)
qed

lemma verify_package_polls:
  "verify_package ctx sha r m payloads options = Inr report \<Longrightarrow>
     verify_package (\<lambda>_. None) sha r m payloads options = Inr report"
  by (auto simp: verify_package_def validate_payload_set_iff Let_def simp del: first_err.simps(2,3) split: option.splits)

lemma digest_guard_reached:
  assumes "verify_package ctx sha r m payloads public_options = Inr report"
    and "es_records (new_evidence_set m payloads) (elems (cl_evidence_components c) ! 0) = Some q"
    and "payload_bytes payloads (pi_digest (cr_payload q)) \<noteq> []"
    and "sha (flip_first (payload_bytes payloads (pi_digest (cr_payload q)))) \<noteq> pi_digest (cr_payload q)"
    and "\<And>p. p \<in> set (elems (mf_components m)) \<Longrightarrow> pi_digest (cr_payload p) = pi_digest (cr_payload q) \<Longrightarrow> cr_name p = cr_name q"
  shows "apply_digest_substitution (\<lambda>_. None) sha r m payloads c = Inr GuardEvidenceDigestMismatch"
proof -
  have q: "q \<in> set (elems (mf_components m))" using evidence_member [OF assms(2)] by simp
  obtain p where "p \<in> set (elems (mf_components m))" "pi_digest (cr_payload p) = pi_digest (cr_payload q)"
    and v: "verify_package (\<lambda>_. None) sha r m (substitute_payload payloads (pi_digest (cr_payload q))) public_options =
      Inl (PayloadIdentityError (cr_name p) (pi_digest (cr_payload q)))"
    by (rule packages.substitution_names_component [OF verify_package_polls [OF assms(1)] q])
      (use assms(4) in \<open>simp add: payload_bytes_def\<close>)
  then have "cr_name p = cr_name q" by (intro assms(5))
  with v show ?thesis using assms(2,3) by (simp add: apply_digest_substitution_def Let_def)
qed

end
