(* ===== verification/ClaimProps.thy ===== *)
theory ClaimProps
  imports ChallengeFacts
begin

text \<open>
  The claims of a verified ledger: what their evidence is, that the ways of asking for one agree, and
  that every challenge of a verified claim is noticed by exactly the guard that is meant for it.
\<close>

section \<open>Evidence\<close>

text \<open>
  C5: what a verified ledger claims is public and earned: every piece of evidence of every claim is a
  public component of the manifest, every operand of the expression is declared evidence, the
  expression yields its expected value, and a claim that may be asserted rests on more than
  the presence of components, on a level of evidence of at least E1 and at most the ceiling,
  on the current generation, and on an attestation that is current or not required.
\<close>

theorem verified_claims_sound:
  assumes "verify_ledger ctx sha r m payloads l = Inr report" and "c \<in> set (elems (lg_claims l))"
  shows "(\<forall>name \<in> set (elems (cl_evidence_components c)). \<exists>record \<in> set (elems (mf_components m)).
      cr_name record = name \<and> cr_visibility record = VisibilityPublic) \<and>
    (\<forall>x \<in> set (elems (ex_operands (cl_expression c))). op_component x \<in> set (elems (cl_evidence_components c))) \<and>
    evaluate_expression (cl_expression c) (new_evidence_set m payloads) = Inr (ex_expected (cl_expression c)) \<and>
    (assertable (cl_status c) \<longrightarrow>
      ex_operation (cl_expression c) \<noteq> OperationComponentExists \<and> 1 \<le> evidence_rank (cl_evidence_level c) \<and>
      evidence_rank (cl_evidence_level c) \<le> evidence_rank (ce_maximum_level (cl_evidence_ceiling c)) \<and>
      ge_evidence (cl_generation c) = ge_current (cl_generation c) \<and>
      cl_attestation c \<in> {AttestationNotRequired, AttestationCurrent})"
proof -
  have valid: "claim_validate c = None"
    using ledger_validD(9) [OF package_acceptedD(1) [OF verify_ledgerD(1) [OF assms(1)]] assms(2)] by simp
  obtain v where v: "verify_claim_item (new_evidence_set m payloads) c = Inr v"
    using verified_claim [OF assms] .
  have "\<exists>record \<in> set (elems (mf_components m)). cr_name record = name \<and> cr_visibility record = VisibilityPublic"
    if "name \<in> set (elems (cl_evidence_components c))" for name
    using checked_evidence [OF verified_item(1) [OF v] that] evidence_member by metis
  then show ?thesis
    using verified_item(2) [OF v] claim_validD [OF valid] evidence_rank_zero by auto
qed

text \<open>
  C38: asking for one claim agrees with verifying the ledger: once the ledger verifies,
  \<open>VerifyClaim\<close> gives for an id the entry of the report that has it, and an error for an id that
  no claim of the ledger has; the binary search behind it misses no claim.
\<close>

theorem verify_claim_agrees:
  assumes "verify_ledger ctx sha r m payloads l = Inr report"
  shows "verify_claim ctx sha r m payloads l i =
    (case find (\<lambda>v. cv_claim_id v = i) (lr_claims report) of
       Some v \<Rightarrow> Inr v
     | None \<Rightarrow> Inl (LookupFailed (if valid_claim_id i then ClaimAbsent i else ClaimIdInvalid)))"
proof -
  note p = verify_ledgerD [OF assms]
  note valid = ledger_validD [OF package_acceptedD(1) [OF p(1)]]
  let ?e = "new_evidence_set m payloads"
  have "case find (\<lambda>c. cl_claim_id c = i) cs of
      None \<Rightarrow> find (\<lambda>v. cv_claim_id v = i) vs = None
    | Some c \<Rightarrow> c \<in> set cs \<and> cl_claim_id c = i \<and> (\<exists>v. find (\<lambda>v. cv_claim_id v = i) vs = Some v \<and> verify_claim_item ?e c = Inr v)"
    if "list_all2 (\<lambda>c v. verify_claim_item ?e c = Inr v) cs vs" for cs vs
    using that
  proof induction
    case (Cons c cs v vs)
    then show ?case using verified_item(3) [OF Cons(1)] by (auto split: option.splits)
  qed simp
  from this [OF p(2)] show ?thesis
    using p(1) lookup_find [OF valid(7), of i] valid(9) claim_validD(1)
    by (fastforce simp: verify_claim_def verify_claim_item_def map_sum_def split: option.splits sum.splits)
qed

section \<open>Receipts\<close>

lemma claim_id_lower:
  assumes "valid_claim_id i"
  shows "\<forall>c \<in> set (map lower_char i). token_char c"
proof -
  obtain ds where i: "i = ''CLM-'' @ ds"
    using assms by (auto simp: valid_claim_id_def prefix_def)
  then have ds: "\<forall>c \<in> set ds. is_digit c" using assms by (simp add: valid_claim_id_def)
  have "lower_char c = c \<and> token_char c" if "is_digit c" for c
    using that by (auto simp: lower_char_def token_char_def is_digit_def is_upper_def char_between_def dest: order_trans)
  moreover have "\<forall>c \<in> set (map lower_char ''CLM-''). token_char c" by code_simp
  ultimately show ?thesis using ds by (auto simp: i)
qed

lemma challenge_id_token:
  assumes "valid_claim_id i" and "k \<in> set challenge_classes"
  shows "valid_token (challenge_id_of i k)"
proof -
  have "\<forall>k \<in> set challenge_classes. (\<forall>c \<in> set (CHR ''.'' # k). token_char c) \<and> length k \<le> 100" by code_simp
  then have "\<forall>c \<in> set (challenge_id_of i k). token_char c" "length k \<le> 100"
    using assms(2) claim_id_lower [OF assms(1)] by (auto simp: challenge_id_of_def)
  moreover have "length i = 7" using assms(1) by (simp add: valid_claim_id_def)
  ultimately show ?thesis
    using trim_space_token [of "challenge_id_of i k"]
    by (auto simp: valid_token_def challenge_id_of_def token_char_def)
qed

lemma receipt_marshals: "check_value (coerce (challenge_receipt_json x)) 0 = None"
  by (simp add: challenge_receipt_json_def)

lemma receipt_texts:
  "\<forall>k \<in> set challenge_classes. guard_valid (expected_guard k) \<and> valid_text (''rejected:'' @ expected_guard k)"
  "valid_text (verification_state_label v)"
proof -
  show "\<forall>k \<in> set challenge_classes. guard_valid (expected_guard k) \<and> valid_text (''rejected:'' @ expected_guard k)"
    by code_simp
  have "valid_text ''verified:assertable'' \<and> valid_text ''verified:historical-or-unsupported''" by code_simp
  then show "valid_text (verification_state_label v)" by (simp add: verification_state_label_def)
qed

lemma sealed_marshals:
  assumes "verify_package ctx sha r m payloads public_options = Inr report"
  shows "\<exists>sealed. sealed_package_digest sha r m payloads = Inr (sha sealed)"
proof -
  have "\<forall>p \<in> set payloads. int (length (snd p)) \<le> maximum_safe_json_integer"
    using verify_packageD(2) [OF assms]
    unfolding validate_payload_set_iff Let_def sized_def maximum_safe_json_integer_def
    by (force simp: effective_limits_def public_options_def verification_limits_valid_def default_verification_limits_def)
  then have "check_value (coerce (sealed_package_json sha r m payloads)) 0 = None"
    by (auto simp: sealed_package_json_def payload_entry_json_def json_int_def validate_int_text Let_def
        simp del: first_err.simps(2,3))
  then show ?thesis by (auto simp: sealed_package_digest_def digest_def canonical_marshal_def)
qed

lemma receipt_sealed:
  assumes "digest sha j = Inr d" shows "\<exists>raw. d = sha raw"
  using assms by (auto simp: digest_def canonical_marshal_def split: option.splits)

section \<open>Challenges\<close>

lemma challenge_receipt:
  assumes "challenge_verified ctx sha r m payloads l evidence sealed (c, x) = Inr receipt"
  shows "\<exists>v. verify_claim_item evidence c = Inr v"
    "apply_challenge (ctx (ch_challenge_id x)) sha r m payloads c evidence x = Inr (cx_observed_guard receipt)"
    "cx_observed_guard receipt = ch_expected_guard x" "challenge_receipt_valid sha receipt"
    "cx_claim_id receipt = cl_claim_id c" "cx_challenge_id receipt = ch_challenge_id x"
    "cx_source_capsule_id receipt = mf_capsule_id m" "cx_source_manifest_digest receipt = mf_manifest_digest m"
    "cx_source_ledger_digest receipt = lg_digest l" "cx_sealed_source_digest receipt = sealed"
  using assms by (auto simp: challenge_verified_def Let_def split: sum.splits if_split_asm)

text \<open>
  C40: a receipt is evidence: a challenge gives one only for an applied challenge of a claim that is in the
  validated ledger and verifies unmutated, only when the mutation was refused by the guard
  that belongs to its class, and the receipt validates, is bound to the capsule, the manifest and
  the ledger by their digests, and seals the package that was challenged.
\<close>

theorem receipt_sound:
  assumes "challenge_one ctx ctx' sha r m payloads l i j = Inr receipt"
  shows "\<exists>c x v. c \<in> set (elems (lg_claims l)) \<and> cl_claim_id c = i \<and> claim_validate c = None \<and>
    x \<in> set (elems (cl_challenges c)) \<and> ch_challenge_id x = j \<and> ch_applicability x = ChallengeApplied \<and>
    verify_claim ctx sha r m payloads l i = Inr v \<and>
    apply_challenge (ctx' j) sha r m payloads c (new_evidence_set m payloads) x = Inr (expected_guard (ch_class x)) \<and>
    cx_observed_guard receipt = expected_guard (ch_class x) \<and> challenge_receipt_valid sha receipt \<and>
    cx_claim_id receipt = i \<and> cx_challenge_id receipt = j \<and>
    cx_source_capsule_id receipt = lg_capsule_id l \<and> cx_source_manifest_digest receipt = lg_manifest_digest l \<and>
    cx_source_ledger_digest receipt = lg_digest l \<and>
    sealed_package_digest sha r m payloads = Inr (cx_sealed_source_digest receipt)"
proof -
  obtain c x sealed where p: "verify_ledger_package ctx sha r m payloads l = None"
    and c: "claim_lookup l i = Inr c" and x: "lookup_challenge c j = Some x" "ch_applicability x = ChallengeApplied"
    and s: "sealed_package_digest sha r m payloads = Inr sealed"
    and v: "challenge_verified ctx' sha r m payloads l (new_evidence_set m payloads) sealed (c, x) = Inr receipt"
    using assms by (auto simp: challenge_one_def split: option.splits sum.splits if_split_asm)
  note valid = ledger_validD [OF package_acceptedD(1) [OF p]] and receipt = challenge_receipt [OF v]
  have i: "c \<in> set (elems (lg_claims l))" "cl_claim_id c = i"
    using c lookup_find [OF valid(7), of i] by (auto simp: find_Some_iff split: option.splits if_split_asm)
  then have cv: "claim_validate c = None" using valid(9) by blast
  have j: "x \<in> set (elems (cl_challenges c))" "ch_challenge_id x = j"
    using x(1) by (auto simp: lookup_challenge_def find_Some_iff)
  have "ch_expected_guard x = expected_guard (ch_class x)"
    using validated_challenge(1) [OF cv j(1)] x(2)
    by (simp add: challenge_spec_validate_def del: first_err.simps(2,3))
  moreover obtain w where "verify_claim_item (new_evidence_set m payloads) c = Inr w" using receipt(1) by blast
  then have "verify_claim ctx sha r m payloads l i = Inr w"
    using p c i(2) by (auto simp: verify_claim_def verify_claim_item_def)
  ultimately show ?thesis
    using i j cv x(2) receipt s package_acceptedD(2,3) [OF p] by (intro exI [of _ c] exI [of _ x] exI [of _ w]) simp
qed

lemma challenge_noticed:
  assumes "verify_ledger ctx sha r m payloads l = Inr report" and "\<And>s. valid_digest (sha s)"
    and "c \<in> set (elems (lg_claims l))" and "x \<in> set (elems (cl_challenges c))"
    and "ch_applicability x = ChallengeApplied"
    and "ge_current (cl_generation c) \<noteq> ''challenge.superseded-generation''"
    and "\<And>q. es_records (new_evidence_set m payloads) (elems (cl_evidence_components c) ! 0) = Some q \<Longrightarrow>
      payload_bytes payloads (pi_digest (cr_payload q)) \<noteq> [] \<and>
      sha (flip_first (payload_bytes payloads (pi_digest (cr_payload q)))) \<noteq> pi_digest (cr_payload q) \<and>
      (\<forall>p \<in> set (elems (mf_components m)). pi_digest (cr_payload p) = pi_digest (cr_payload q) \<longrightarrow> cr_name p = cr_name q)"
    and "valid_digest sealed"
  shows "\<exists>receipt. challenge_verified (\<lambda>_ _. None) sha r m payloads l (new_evidence_set m payloads) sealed (c, x) =
    Inr receipt"
proof -
  let ?e = "new_evidence_set m payloads" and ?k = "ch_class x"
  note p = verify_ledgerD(1) [OF assms(1)]
  note valid = ledger_validD [OF package_acceptedD(1) [OF p]]
  have cv: "claim_validate c = None" using valid(9) [OF assms(3)] by simp
  obtain v where v: "verify_claim_item ?e c = Inr v" using verified_claim [OF assms(1,3)] .
  note guards = verified_item(1) [OF v]
  obtain report' where pkg: "verify_package ctx sha r m payloads public_options = Inr report'"
    using package_acceptedD(4) [OF p] by blast
  have spec: "ch_challenge_id x = challenge_id_of (cl_claim_id c) ?k" "?k \<in> set challenge_classes"
    "valid_text (ch_mutation x)" "ch_expected_guard x = expected_guard ?k"
    using validated_challenge(1) [OF cv assms(4)] assms(5)
    by (simp_all add: challenge_spec_validate_def del: first_err.simps(2,3))
  have "apply_challenge (\<lambda>_. None) sha r m payloads c ?e x = Inr (expected_guard ?k)"
  proof (cases "?k = ChallengeDigestSubstitution")
    case True
    obtain q where q: "es_records ?e (elems (cl_evidence_components c) ! 0) = Some q"
      using initial_guards(1) [OF guards] claim_validD(4) [OF cv] by (metis length_greater_0_conv nth_mem)
    have "apply_digest_substitution (\<lambda>_. None) sha r m payloads c = Inr GuardEvidenceDigestMismatch"
      by (rule digest_guard_reached [OF pkg q]) (use assms(7) [OF q] in auto)
    then show ?thesis by (simp add: apply_challenge_def True expected_guard_def)
  next
    case False
    obtain state where "mutate_state c ?k = Some state"
      "check_claim_guards c ?e state = Some (Guarded (expected_guard ?k))"
      using guard_reached [OF guards cv assms(4,5) False assms(6)] by blast
    then show ?thesis using False by (simp add: apply_challenge_def evaluate_claim_state_def)
  qed
  then show ?thesis
    using v spec receipt_texts challenge_id_token claim_validD(1) [OF cv] assms(2,8) valid package_acceptedD(2,3) [OF p]
      receipt_marshals
    by (auto simp: challenge_verified_def Let_def challenge_receipt_valid_def challenge_receipt_digest_def
        digest_def canonical_marshal_def)
qed

text \<open>
  C6: a verified ledger withstands all its challenges: every applied challenge of every claim ends in a valid
  receipt, in order, that the guard of its class was observed.  What is needed: that the hash
  yields digests; that the context of the challenges is not interrupted; that no current generation
  is named like the superseded one of the challenge; and that the payload of the first evidence
  component of a claim is not empty, is not the payload of another component as well, and changes
  its digest with its first byte.
\<close>

theorem challenges_pass:
  assumes "verify_ledger ctx sha r m payloads l = Inr report" and "\<And>s. valid_digest (sha s)"
    and "\<And>c. c \<in> set (elems (lg_claims l)) \<Longrightarrow> ge_current (cl_generation c) \<noteq> ''challenge.superseded-generation''"
    and "\<And>c q. c \<in> set (elems (lg_claims l)) \<Longrightarrow>
      es_records (new_evidence_set m payloads) (elems (cl_evidence_components c) ! 0) = Some q \<Longrightarrow>
      payload_bytes payloads (pi_digest (cr_payload q)) \<noteq> [] \<and>
      sha (flip_first (payload_bytes payloads (pi_digest (cr_payload q)))) \<noteq> pi_digest (cr_payload q) \<and>
      (\<forall>p \<in> set (elems (mf_components m)). pi_digest (cr_payload p) = pi_digest (cr_payload q) \<longrightarrow> cr_name p = cr_name q)"
  shows "\<exists>receipts. challenge_all ctx (\<lambda>_ _. None) sha r m payloads l = Inr receipts \<and>
    map cx_challenge_id receipts = map (\<lambda>(c, x). ch_challenge_id x) (applied_challenges l) \<and>
    map cx_observed_guard receipts = map (\<lambda>(c, x). expected_guard (ch_class x)) (applied_challenges l) \<and>
    (\<forall>receipt \<in> set receipts. challenge_receipt_valid sha receipt)"
proof -
  note p = verify_ledgerD(1) [OF assms(1)]
  note valid = ledger_validD [OF package_acceptedD(1) [OF p]]
  obtain sealed where sealed: "sealed_package_digest sha r m payloads = Inr sealed" "valid_digest sealed"
    using sealed_marshals package_acceptedD(4) [OF p] assms(2) by metis
  let ?run = "challenge_verified (\<lambda>_ _. None) sha r m payloads l (new_evidence_set m payloads) sealed"
  have good: "\<exists>receipt. ?run e = Inr receipt \<and> cx_challenge_id receipt = ch_challenge_id (snd e) \<and>
      cx_observed_guard receipt = expected_guard (ch_class (snd e)) \<and> challenge_receipt_valid sha receipt"
    if e: "e \<in> set (applied_challenges l)" for e
  proof -
    obtain c x where cx: "e = (c, x)" "c \<in> set (elems (lg_claims l))" "x \<in> set (elems (cl_challenges c))"
      "ch_applicability x = ChallengeApplied"
      using e by (auto simp: applied_challenges_def)
    obtain receipt where receipt: "?run (c, x) = Inr receipt"
      using challenge_noticed [OF assms(1,2) cx(2-4) assms(3) [OF cx(2)] assms(4) [OF cx(2)] sealed(2)] by blast
    have "cx_expected_guard receipt = expected_guard (cx_class receipt) \<and> cx_class receipt = ch_class x"
      using receipt by (auto simp: challenge_verified_def Let_def challenge_receipt_valid_def split: sum.splits if_split_asm)
    then show ?thesis
      using challenge_receipt [OF receipt] receipt cx(1) by (auto simp: challenge_receipt_valid_def)
  qed
  have "\<exists>receipts. all_right ?run es = Inr receipts \<and>
      map cx_challenge_id receipts = map (\<lambda>(c, x). ch_challenge_id x) es \<and>
      map cx_observed_guard receipts = map (\<lambda>(c, x). expected_guard (ch_class x)) es \<and>
      (\<forall>receipt \<in> set receipts. challenge_receipt_valid sha receipt)"
    if "set es \<subseteq> set (applied_challenges l)" for es
    using that
  proof (induction es)
    case (Cons e es)
    then show ?case using good [of e] by (force simp: case_prod_unfold)
  qed simp
  then show ?thesis using p sealed(1) by (simp add: challenge_all_def challenge_all_verified_def)
qed

section \<open>Sealing\<close>

lemma sorted_slices:
  assumes "valid_sorted_text (elems s) \<or> valid_sorted_tokens (elems s)"
  shows "sort_slice id s = s"
  by (rule sort_slice_id) (use assms in \<open>auto simp: valid_sorted_text_def valid_sorted_tokens_def\<close>)

lemma sort_slice_sorted: "sorted (map key (elems s)) \<Longrightarrow> sort_slice key s = s"
  by (cases s) (simp_all add: sort_slice_def sort_key_id_if_sorted)

lemma normalize_valid_scope:
  assumes "scope_validate s = None"
  shows "normalize_scope s = s"
proof -
  have "\<forall>group \<in> set (scope_groups s). valid_sorted_text (elems group)"
    using assms by (simp add: scope_validate_def del: first_err.simps(2,3))
  then show ?thesis by (cases s) (simp add: normalize_scope_def scope_groups_def sorted_slices)
qed

lemma normalize_valid_claim:
  assumes "claim_validate c = None" and "elems (cl_capsule_ids c) = [i]"
  shows "normalize_claim (c\<lparr>cl_capsule_ids := Some [i]\<rparr>) = c"
proof -
  let ?e = "cl_evidence_ceiling c"
  have ids: "cl_capsule_ids c = Some [i]" using assms(2) by (cases "cl_capsule_ids c") auto
  have closed: "sort_slice id (cl_evidence_components c) = cl_evidence_components c" "sort_slice id (cl_caveats c) = cl_caveats c"
    and ceiling: "evidence_ceiling_validate ?e = None" and scope: "normalize_scope (cl_scope c) = cl_scope c"
    and history: "ascending_from 0 hi_revision (elems (cl_history c))"
    using assms(1) by (auto simp: claim_validate_def Let_def sorted_slices normalize_valid_scope simp del: first_err.simps(2,3))
  have "?e\<lparr>ce_required_parent_types := sort_slice id (ce_required_parent_types ?e),
      ce_required_caveats := sort_slice id (ce_required_caveats ?e)\<rparr> = ?e"
    using ceiling by (cases ?e) (simp add: evidence_ceiling_validate_def sorted_slices)
  moreover have "map ch_class (elems (cl_challenges c)) = challenge_classes"
  proof (rule nth_equalityI)
    fix k assume "k < length (map ch_class (elems (cl_challenges c)))"
    then have "(challenge_classes ! k, elems (cl_challenges c) ! k) \<in> set (zip challenge_classes (elems (cl_challenges c)))"
      using claim_validD(13) [OF assms(1)] by (auto simp: in_set_zip)
    from claim_validD(14) [OF assms(1) this]
    show "map ch_class (elems (cl_challenges c)) ! k = challenge_classes ! k"
      using \<open>k < _\<close> by (auto simp: check_challenge_def Let_def case_prod_unfold simp del: first_err.simps(2,3))
  qed (use claim_validD(13) [OF assms(1)] in simp)
  moreover have "sorted challenge_classes" by code_simp
  ultimately have "sort_slice ch_class (cl_challenges c) = cl_challenges c"
    "?e\<lparr>ce_required_parent_types := sort_slice id (ce_required_parent_types ?e),
      ce_required_caveats := sort_slice id (ce_required_caveats ?e)\<rparr> = ?e"
    by (simp_all add: sort_slice_sorted)
  moreover have "sort_slice hi_revision (cl_history c) = cl_history c"
    using history by (intro sort_slice_sorted ascending_from_sorted)
  moreover have "sort_slice id (Some [i]) = Some [i]" by (simp add: sort_slice_def)
  ultimately show ?thesis
    unfolding normalize_claim_def using ids closed scope by (cases c) simp
qed

text \<open>
  Sealing loses nothing: a ledger that validates is what sealing its own claims for the
  manifest it is bound to gives back, digest included.
\<close>

lemma seal_validated_ledger:
  assumes "ledger_validate sha l = None" and "lg_capsule_id l = mf_capsule_id m"
    and "lg_manifest_digest l = mf_manifest_digest m"
  shows "seal_ledger sha m (elems (lg_claims l)) = Inr l"
proof -
  note v = ledger_validD [OF assms(1)]
  have "sort_key cl_claim_id (elems (lg_claims l)) = elems (lg_claims l)"
    using ascending_from_sorted [OF v(7)] by (rule sort_key_id_if_sorted)
  then have "map (\<lambda>c. normalize_claim (c\<lparr>cl_capsule_ids := Some [mf_capsule_id m]\<rparr>))
      (sort_key cl_claim_id (elems (lg_claims l))) = elems (lg_claims l)"
    using v(9) normalize_valid_claim assms(2) by (simp add: map_idI)
  moreover have "lg_claims l = Some (elems (lg_claims l))" using v(8) by (cases "lg_claims l") auto
  ultimately have "\<lparr> lg_schema_version = LedgerSchemaVersion, lg_canonical_policy = CanonicalPolicy,
      lg_capsule_id = mf_capsule_id m, lg_manifest_digest = mf_manifest_digest m,
      lg_claims = Some (map (\<lambda>c. normalize_claim (c\<lparr>cl_capsule_ids := Some [mf_capsule_id m]\<rparr>))
        (sort_key cl_claim_id (elems (lg_claims l)))), lg_digest = [] \<rparr> = l\<lparr>lg_digest := []\<rparr>"
    using v(1,2) assms(2,3) by (cases l) simp
  then show ?thesis
    using v(6) assms(1) by (simp add: seal_ledger_def Let_def ledger_digest_def)
qed

end
