(* ===== verification/ClaimWitness.thy ===== *)
theory ClaimWitness
  imports ClaimProps ClaimNumbers
begin

text \<open>
  A ledger with one assertable claim over the sample capsule whose payload is the JSON number 3, and
  the properties of claims applied to it.  The hash tells the payload from the one that
  the digest challenge substitutes for it.
\<close>

definition bit_sha :: "string \<Rightarrow> string" where
  "bit_sha s = (if s = ''2'' then replicate 64 CHR ''1'' else flat_sha [])"

definition number_payloads :: payload_map where
  "number_payloads = [(flat_sha [], ''3'')]"

definition sample_challenge :: "claim \<Rightarrow> challenge_class \<Rightarrow> challenge_spec" where
  "sample_challenge c k =
     (let (applicable, reason) = challenge_applicability_of c k in
      \<lparr> ch_challenge_id = challenge_id_of (cl_claim_id c) k, ch_class = k,
        ch_applicability = (if applicable then ChallengeApplied else ChallengeInapplicable),
        ch_inapplicable_reason = (if applicable then [] else reason),
        ch_mutation = (if applicable then ''mutate'' else []),
        ch_expected_guard = (if applicable then expected_guard k else []) \<rparr>)"

definition bare_claim :: claim where
  "bare_claim = \<lparr> cl_claim_id = ''CLM-001'', cl_text_template = ''three'', cl_status = StatusSupported,
     cl_evidence_level = ''E1'',
     cl_scope = \<lparr> sc_routes = Some [''r''], sc_models = Some [], sc_domains = Some [], sc_tasks = Some [],
       sc_policies = Some [], sc_time_bounds = Some [], sc_entrypoints = Some [] \<rparr>,
     cl_expression = \<lparr> ex_operation = OperationPointerEquals,
       ex_operands = Some [\<lparr> op_component = ''run'', op_type_id = ''raw'', op_pointer = [] \<rparr>],
       ex_expected = \<lparr> ev_kind = ValueNumber, ev_value = ''3'' \<rparr> \<rparr>,
     cl_uncertainty = \<lparr> un_status = ''not_applicable'', un_method = ''none'', un_confidence_level = [],
       un_cluster_unit = ''none'' \<rparr>,
     cl_multiplicity = \<lparr> mu_status = ''not_applicable'', mu_family = ''none'', mu_method = ''none'' \<rparr>,
     cl_capsule_ids = Some [flat_sha []], cl_evidence_components = Some [''run''], cl_caveats = Some [],
     cl_evidence_ceiling = \<lparr> ce_maximum_level = ''E2'', ce_strongest_statement = ''three'',
       ce_required_parent_types = Some [''raw''], ce_required_caveats = Some [] \<rparr>,
     cl_attestation = AttestationNotRequired,
     cl_generation = \<lparr> ge_lane = ''l'', ge_evidence = ''g1'', ge_current = ''g1'' \<rparr>,
     cl_guarding_test = ''t'', cl_challenges = None, cl_history = Some [] \<rparr>"

definition sample_claim :: claim where
  "sample_claim = bare_claim\<lparr>cl_challenges := Some (map (sample_challenge bare_claim) challenge_classes)\<rparr>"

definition sample_ledger :: ledger where
  "sample_ledger = \<lparr> lg_schema_version = LedgerSchemaVersion, lg_canonical_policy = CanonicalPolicy,
     lg_capsule_id = flat_sha [], lg_manifest_digest = flat_sha [], lg_claims = Some [sample_claim],
     lg_digest = flat_sha [] \<rparr>"

lemma sample_claim_valid: "claim_validate sample_claim = None"
  by code_simp

lemma bit_digest: "digest bit_sha (JObj ms) = digest flat_sha (JObj ms)"
  by (simp add: digest_def canonical_marshal_def bit_sha_def flat_sha_eq [of "CHR ''{'' # _"] split: option.splits)

lemma bit_valid: "valid_digest (bit_sha s)"
  by (simp add: bit_sha_def) (simp add: valid_digest_def)

lemma bit_manifest: "manifest_validate bit_sha m r = manifest_validate flat_sha m r"
proof -
  have component: "component_digest bit_sha c = component_digest flat_sha c" for c
    by (simp add: component_digest_def component_record_json_def bit_digest)
  have single: "validate_component_record bit_sha g c = validate_component_record flat_sha g c" for g c
    unfolding validate_component_record_def component ..
  have "validate_component_set_from bit_sha g ids names table cs = validate_component_set_from flat_sha g ids names table cs"
    for g ids names table cs
    by (induction cs arbitrary: ids names table) (simp_all only: validate_component_set_from.simps single)
  then have whole: "validate_component_set bit_sha g cs = validate_component_set flat_sha g cs" for g cs
    by (simp add: validate_component_set_def)
  have "scientific_digest bit_sha m = scientific_digest flat_sha m" "manifest_digest bit_sha m = manifest_digest flat_sha m"
    by (simp_all add: scientific_digest_def manifest_digest_def scientific_json_def manifest_json_def bit_digest Let_def)
  then show ?thesis
    unfolding manifest_validate_def validate_manifest_structure_def whole by presburger
qed

lemma number_payload_set:
  "validate_payload_set (\<lambda>_. None) k bit_sha (Some sample_registry) sample_manifest number_payloads
     default_verification_limits = None"
  unfolding validate_payload_set_iff Let_def
  by (simp add: matched_def declared_def sized_def sample_manifest_def sample_record_def number_payloads_def
      verify_payload_def digest_bytes_def bit_sha_def validate_payload_def registry_lookup_def
      sample_registry_def sample_type_def default_verification_limits_def validate_bindings_def binding_context_of_def)

lemma number_package:
  "verify_package (\<lambda>_. None) bit_sha (Some sample_registry) sample_manifest number_payloads public_options =
     Inr (verification_report_of sample_manifest)"
proof -
  have "effective_limits public_options = default_verification_limits"
    by (simp add: effective_limits_def public_options_def verification_limits_valid_def)
  then show ?thesis
    using sample_valid number_payload_set [of 0]
    by (simp add: verify_package_def Let_def bit_manifest enforce_maximum_visibility_def public_options_def
        default_verification_limits_def visibility_valid_def sample_manifest_def sample_record_def map_err_def fail_if_def)
qed

lemma sample_ledger_digest: "ledger_digest bit_sha sample_ledger = Inr (flat_sha [])"
proof -
  have j: "\<exists>ms. ledger_json l = JObj ms" for l by (simp add: ledger_json_def)
  have "check_value (coerce (ledger_json (sample_ledger\<lparr>lg_digest := []\<rparr>))) 0 = None"
    by (simp add: ledger_json_def sample_ledger_def sample_claim_def bare_claim_def claim_json_def scope_json_def
        expression_json_def operand_json_def exact_value_json_def uncertainty_json_def multiplicity_json_def
        evidence_ceiling_json_def generation_json_def json_slice_def challenge_spec_json_def challenge_classes_def)
  then show ?thesis
    unfolding ledger_digest_def using j [of "sample_ledger\<lparr>lg_digest := []\<rparr>"] bit_digest flat_digest by metis
qed

lemma sample_ledger_valid: "ledger_validate bit_sha sample_ledger = None"
proof -
  have "cl_claim_id sample_claim = ''CLM-001''" "elems (cl_capsule_ids sample_claim) = [flat_sha []]"
    by (simp_all add: sample_claim_def bare_claim_def)
  then show ?thesis
    using sample_ledger_digest sample_claim_valid by (simp add: ledger_validate_def sample_ledger_def)
qed

lemma sample_evidence: "es_records (new_evidence_set sample_manifest number_payloads) ''run'' = Some sample_record"
  by (simp add: new_evidence_set_def sample_manifest_def sample_record_def)

lemma sample_verification: "verify_claim_item (new_evidence_set sample_manifest number_payloads) sample_claim =
    Inr \<lparr> cv_claim_id = ''CLM-001'', cv_status = StatusSupported, cv_evidence_level = ''E1'',
      cv_expression_value = \<lparr> ev_kind = ValueNumber, ev_value = ''3'' \<rparr>, cv_expression_matches = True,
      cv_assertable = True, cv_valid = True \<rparr>"
  unfolding new_evidence_set_def number_payloads_def flat_sha_def sample_manifest_def sample_record_def by code_simp

lemma sample_ledger_verified:
  "\<exists>report. verify_ledger (\<lambda>_. None) bit_sha (Some sample_registry) sample_manifest number_payloads sample_ledger = Inr report"
proof -
  have "lg_capsule_id sample_ledger = mf_capsule_id sample_manifest"
    "lg_manifest_digest sample_ledger = mf_manifest_digest sample_manifest" "elems (lg_claims sample_ledger) = [sample_claim]"
    by (simp_all add: sample_ledger_def sample_manifest_def)
  then show ?thesis
    using sample_ledger_valid number_package sample_verification
    by (simp add: verify_ledger_def verify_ledger_package_def verify_ledger_claims_def map_err_def fail_if_def)
qed

section \<open>Witnesses\<close>

lemma sample_members: "elems (lg_claims sample_ledger) = [sample_claim]" "cl_claim_id sample_claim = ''CLM-001''"
  "elems (cl_evidence_components sample_claim) = [''run'']" "ge_current (cl_generation sample_claim) = ''g1''"
  by (simp_all add: sample_ledger_def sample_claim_def bare_claim_def)

theorem verified_claims_sound_witness:
  "evaluate_expression (cl_expression sample_claim) (new_evidence_set sample_manifest number_payloads) =
     Inr \<lparr> ev_kind = ValueNumber, ev_value = ''3'' \<rparr> \<and> 1 \<le> evidence_rank (cl_evidence_level sample_claim)"
proof -
  obtain report where v: "verify_ledger (\<lambda>_. None) bit_sha (Some sample_registry) sample_manifest number_payloads sample_ledger = Inr report"
    using sample_ledger_verified by blast
  have "assertable (cl_status sample_claim)" "ex_expected (cl_expression sample_claim) = \<lparr> ev_kind = ValueNumber, ev_value = ''3'' \<rparr>"
    by (simp_all add: sample_claim_def bare_claim_def assertable_def)
  then show ?thesis using verified_claims_sound [OF v, of sample_claim] by (simp add: sample_members)
qed

theorem verify_claim_agrees_witness:
  "(\<exists>w. verify_claim (\<lambda>_. None) bit_sha (Some sample_registry) sample_manifest number_payloads sample_ledger ''CLM-001'' =
     Inr w \<and> cv_claim_id w = ''CLM-001'') \<and>
   verify_claim (\<lambda>_. None) bit_sha (Some sample_registry) sample_manifest number_payloads sample_ledger ''CLM-002'' =
     Inl (LookupFailed (ClaimAbsent ''CLM-002''))"
proof -
  obtain report where v: "verify_ledger (\<lambda>_. None) bit_sha (Some sample_registry) sample_manifest number_payloads sample_ledger = Inr report"
    using sample_ledger_verified by blast
  have "\<exists>w. lr_claims report = [w] \<and> cv_claim_id w = ''CLM-001''"
    using verify_ledgerD(2) [OF v] sample_verification by (auto simp: sample_members list_all2_Cons1)
  moreover have "valid_claim_id ''CLM-002''" by code_simp
  ultimately show ?thesis
    using verify_claim_agrees [OF v, of "''CLM-001''"] verify_claim_agrees [OF v, of "''CLM-002''"] by auto
qed

lemma sample_challengeable:
  assumes "es_records (new_evidence_set sample_manifest number_payloads) (elems (cl_evidence_components sample_claim) ! 0) = Some q"
  shows "payload_bytes number_payloads (pi_digest (cr_payload q)) \<noteq> [] \<and>
    bit_sha (flip_first (payload_bytes number_payloads (pi_digest (cr_payload q)))) \<noteq> pi_digest (cr_payload q) \<and>
    (\<forall>p \<in> set (elems (mf_components sample_manifest)). pi_digest (cr_payload p) = pi_digest (cr_payload q) \<longrightarrow> cr_name p = cr_name q)"
proof -
  have q: "q = sample_record" using assms sample_evidence by (simp add: sample_members)
  have "flip_first ''3'' = ''2''" by code_simp
  moreover have "replicate 64 CHR ''1'' \<noteq> flat_sha []" by (simp add: flat_sha_def)
  ultimately show ?thesis
    by (simp add: q sample_record_def sample_manifest_def payload_bytes_def number_payloads_def bit_sha_def)
qed

theorem challenges_pass_witness:
  "\<exists>receipts. challenge_all (\<lambda>_. None) (\<lambda>_ _. None) bit_sha (Some sample_registry) sample_manifest number_payloads
      sample_ledger = Inr receipts \<and>
    map cx_observed_guard receipts = [GuardEvidenceDigestMismatch, GuardEvidenceParentMissing, GuardScopeExceedsLedger,
      GuardGenerationNotCurrent, GuardVisibilityLeak]"
proof -
  obtain report where v: "verify_ledger (\<lambda>_. None) bit_sha (Some sample_registry) sample_manifest number_payloads sample_ledger = Inr report"
    using sample_ledger_verified by blast
  have "map (\<lambda>(c, x). expected_guard (ch_class x)) (applied_challenges sample_ledger) = [GuardEvidenceDigestMismatch,
      GuardEvidenceParentMissing, GuardScopeExceedsLedger, GuardGenerationNotCurrent, GuardVisibilityLeak]"
    by code_simp
  moreover have "ge_current (cl_generation sample_claim) \<noteq> ''challenge.superseded-generation''"
    by (simp add: sample_members)
  ultimately show ?thesis
    using challenges_pass [OF v bit_valid] sample_challengeable by (fastforce simp: sample_members(1))
qed

lemma sample_receipt:
  "\<exists>receipt. challenge_one (\<lambda>_. None) (\<lambda>_ _. None) bit_sha (Some sample_registry) sample_manifest number_payloads
     sample_ledger ''CLM-001'' ''clm-001.scope-widening'' = Inr receipt"
proof -
  obtain report where v: "verify_ledger (\<lambda>_. None) bit_sha (Some sample_registry) sample_manifest number_payloads sample_ledger = Inr report"
    using sample_ledger_verified by blast
  obtain sealed where sealed: "sealed_package_digest bit_sha (Some sample_registry) sample_manifest number_payloads = Inr (bit_sha sealed)"
    using sealed_marshals [OF number_package] by blast
  have spec: "lookup_challenge sample_claim ''clm-001.scope-widening'' = Some (sample_challenge bare_claim ChallengeScopeWidening) \<and>
      ch_applicability (sample_challenge bare_claim ChallengeScopeWidening) = ChallengeApplied \<and>
      sample_challenge bare_claim ChallengeScopeWidening \<in> set (elems (cl_challenges sample_claim)) \<and>
      valid_claim_id ''CLM-001''"
    by code_simp
  have "\<exists>receipt. challenge_verified (\<lambda>_ _. None) bit_sha (Some sample_registry) sample_manifest number_payloads
      sample_ledger (new_evidence_set sample_manifest number_payloads) (bit_sha sealed)
      (sample_claim, sample_challenge bare_claim ChallengeScopeWidening) = Inr receipt"
    by (rule challenge_noticed [OF v bit_valid _ _ _ _ sample_challengeable bit_valid])
      (use spec in \<open>simp_all add: sample_members\<close>)
  moreover have "claim_lookup sample_ledger ''CLM-001'' = Inr sample_claim"
    using spec lookup_find [of sample_ledger "''CLM-001''"] by (simp add: sample_members)
  ultimately show ?thesis
    using verify_ledgerD(1) [OF v] sealed spec by (simp add: challenge_one_def)
qed

theorem receipt_sound_witness:
  "\<exists>receipt. cx_observed_guard receipt = GuardScopeExceedsLedger \<and> challenge_receipt_valid bit_sha receipt"
proof -
  obtain receipt where r: "challenge_one (\<lambda>_. None) (\<lambda>_ _. None) bit_sha (Some sample_registry) sample_manifest number_payloads
      sample_ledger ''CLM-001'' ''clm-001.scope-widening'' = Inr receipt"
    using sample_receipt by blast
  obtain x where x: "x \<in> set (elems (cl_challenges sample_claim))" "ch_challenge_id x = ''clm-001.scope-widening''"
    "cx_observed_guard receipt = expected_guard (ch_class x)" "challenge_receipt_valid bit_sha receipt"
    using receipt_sound [OF r] by (auto simp: sample_members)
  have "\<forall>x \<in> set (elems (cl_challenges sample_claim)). ch_challenge_id x = ''clm-001.scope-widening'' \<longrightarrow>
      expected_guard (ch_class x) = GuardScopeExceedsLedger"
    by code_simp
  with x show ?thesis by auto
qed

theorem seal_validated_ledger_witness: "seal_ledger bit_sha sample_manifest [sample_claim] = Inr sample_ledger"
proof -
  have "lg_capsule_id sample_ledger = mf_capsule_id sample_manifest"
    "lg_manifest_digest sample_ledger = mf_manifest_digest sample_manifest"
    by (simp_all add: sample_ledger_def sample_manifest_def)
  from seal_validated_ledger [OF sample_ledger_valid this] show ?thesis by (simp only: sample_members)
qed

end
