(* ===== verification/Counterexample.thy ===== *)
theory Counterexample
  imports GoJson GoText
begin

text \<open>
  The documents of internal/stress/counterexample.go: a counterexample to a stress relation is
  an input that was reduced step by step, with the trace of every removal that was tried, and
  validating it replays the trace.
\<close>

section \<open>Units\<close>

datatype reduction_unit = ReductionUnit (unit_kind: string) (unit_id: string)

text \<open>\<open>compareReductionUnits\<close>: by kind, then by id, in the byte order of \<open>strings.Compare\<close>.\<close>

instantiation reduction_unit :: linorder
begin

definition less_eq_reduction_unit :: "reduction_unit \<Rightarrow> reduction_unit \<Rightarrow> bool" where
  "less_eq_reduction_unit u v \<longleftrightarrow>
     (if unit_kind u \<noteq> unit_kind v then unit_kind u \<le> unit_kind v else unit_id u \<le> unit_id v)"

definition less_reduction_unit :: "reduction_unit \<Rightarrow> reduction_unit \<Rightarrow> bool" where
  "less_reduction_unit u v \<longleftrightarrow>
     (if unit_kind u \<noteq> unit_kind v then unit_kind u < unit_kind v else unit_id u < unit_id v)"

instance
proof
  fix u v w :: reduction_unit
  show "(u < v) = (u \<le> v \<and> \<not> v \<le> u)" and "u \<le> u" and "u \<le> v \<or> v \<le> u"
    by (auto simp: less_reduction_unit_def less_eq_reduction_unit_def)
  show "u \<le> v \<Longrightarrow> v \<le> u \<Longrightarrow> u = v"
    by (cases u; cases v) (auto simp: less_eq_reduction_unit_def split: if_splits)
  show "u \<le> v \<Longrightarrow> v \<le> w \<Longrightarrow> u \<le> w"
    by (auto simp: less_eq_reduction_unit_def split: if_splits)
qed

end

definition compare_reduction_units :: "reduction_unit \<Rightarrow> reduction_unit \<Rightarrow> int" where
  "compare_reduction_units u v = (if u < v then -1 else if u = v then 0 else 1)"

text \<open>The pattern \<open>identifierPattern\<close> of relation.go.\<close>

definition pattern_head :: "char \<Rightarrow> bool" where
  "pattern_head c \<longleftrightarrow> is_lower c \<or> is_digit c"

definition pattern_tail :: "char \<Rightarrow> bool" where
  "pattern_tail c \<longleftrightarrow> pattern_head c \<or> c \<in> set ''._-''"

definition identifier_pattern :: "string \<Rightarrow> bool" where
  "identifier_pattern value \<longleftrightarrow>
     (case value of [] \<Rightarrow> False | c # cs \<Rightarrow> pattern_head c \<and> list_all pattern_tail cs \<and> length cs \<le> 127)"

section \<open>Documents\<close>

record reduction_observation =
  ro_schema_version :: string
  ro_canonical_policy :: string
  ro_relation_digest :: string
  ro_privacy_policy_digest :: string
  ro_relation_revalidated :: bool
  ro_privacy_revalidated :: bool
  ro_violation_preserved :: bool
  ro_relation_proof_digest :: string
  ro_privacy_proof_digest :: string
  ro_replay_result_digest :: string
  ro_digest :: string

record reduction_step =
  rs_index :: int
  rs_unit_kind :: string
  rs_unit_id :: string
  rs_before_digest :: string
  rs_candidate_digest :: string
  rs_after_digest :: string
  rs_decision :: string
  rs_observation :: reduction_observation

record counterexample =
  cx_schema_version :: string
  cx_canonical_policy :: string
  cx_relation_digest :: string
  cx_source_result_digest :: string
  cx_case_id :: string
  cx_original_input_digest :: string
  cx_reduced_input_digest :: string
  cx_privacy_policy_digest :: string
  cx_public_release_allowed :: bool
  cx_algorithm :: string
  cx_minimality :: string
  cx_original_units :: "reduction_unit slice"
  cx_final_units :: "reduction_unit slice"
  cx_original_observation :: reduction_observation
  cx_steps :: "reduction_step slice"
  cx_accepted_reductions :: int
  cx_digest :: string


definition ReductionCanonicalPolicy :: string where
  "ReductionCanonicalPolicy = ''evalwitness.stress-canonical-json.v1''"

definition CounterexampleSchemaVersion :: string where
  "CounterexampleSchemaVersion = ''evalwitness.stress-counterexample.v1''"

definition ReductionObservationSchemaVersion :: string where
  "ReductionObservationSchemaVersion = ''evalwitness.stress-reduction-observation.v1''"

definition DeterministicRestartGreedy :: string where
  "DeterministicRestartGreedy = ''evalwitness.deterministic-restart-greedy-reducer.v1''"

definition ReductionAccepted :: string where "ReductionAccepted = ''accepted''"
definition ReductionRejected :: string where "ReductionRejected = ''rejected''"
definition ReductionOneMinimal :: string where "ReductionOneMinimal = ''one_minimal''"

datatype counterexample_error =
    ObservationIdentityInvalid | ObservationDigestInvalid | ForeignObservation
  | CounterexampleIdentityInvalid | OriginalNotViolation | UnitsRequired | UnitsInvalid
  | StepIdentityInvalid nat | StepObservationInvalid nat counterexample_error | StepNotRetained nat
  | AcceptedUnproved nat | RejectedChanged nat | RejectedPreserving nat | DecisionInvalid nat
  | SummaryInvalid | TailMissing | TailOutOfOrder | CounterexampleDigestInvalid

section \<open>Their JSON\<close>

definition unit_json :: "reduction_unit \<Rightarrow> json" where
  "unit_json u = JObj [(''kind'', JStr (unit_kind u)), (''id'', JStr (unit_id u))]"

definition observation_json :: "reduction_observation \<Rightarrow> json" where
  "observation_json o1 = JObj [
     (''schema_version'', JStr (ro_schema_version o1)),
     (''canonical_policy'', JStr (ro_canonical_policy o1)),
     (''relation_digest'', JStr (ro_relation_digest o1)),
     (''privacy_policy_digest'', JStr (ro_privacy_policy_digest o1)),
     (''relation_revalidated'', JBool (ro_relation_revalidated o1)),
     (''privacy_revalidated'', JBool (ro_privacy_revalidated o1)),
     (''violation_preserved'', JBool (ro_violation_preserved o1)),
     (''relation_proof_digest'', JStr (ro_relation_proof_digest o1)),
     (''privacy_proof_digest'', JStr (ro_privacy_proof_digest o1)),
     (''replay_result_digest'', JStr (ro_replay_result_digest o1)),
     (''digest'', JStr (ro_digest o1))]"

definition step_json :: "reduction_step \<Rightarrow> json" where
  "step_json s = JObj [
     (''index'', json_int (rs_index s)), (''unit_kind'', JStr (rs_unit_kind s)), (''unit_id'', JStr (rs_unit_id s)),
     (''before_digest'', JStr (rs_before_digest s)), (''candidate_digest'', JStr (rs_candidate_digest s)),
     (''after_digest'', JStr (rs_after_digest s)), (''decision'', JStr (rs_decision s)),
     (''observation'', observation_json (rs_observation s))]"

definition counterexample_json :: "counterexample \<Rightarrow> json" where
  "counterexample_json c = JObj [
     (''schema_version'', JStr (cx_schema_version c)), (''canonical_policy'', JStr (cx_canonical_policy c)),
     (''relation_digest'', JStr (cx_relation_digest c)), (''source_result_digest'', JStr (cx_source_result_digest c)),
     (''case_id'', JStr (cx_case_id c)), (''original_input_digest'', JStr (cx_original_input_digest c)),
     (''reduced_input_digest'', JStr (cx_reduced_input_digest c)),
     (''privacy_policy_digest'', JStr (cx_privacy_policy_digest c)),
     (''public_release_allowed'', JBool (cx_public_release_allowed c)), (''algorithm'', JStr (cx_algorithm c)),
     (''minimality'', JStr (cx_minimality c)), (''original_units'', json_slice unit_json (cx_original_units c)),
     (''final_units'', json_slice unit_json (cx_final_units c)),
     (''original_observation'', observation_json (cx_original_observation c)),
     (''steps'', json_slice step_json (cx_steps c)), (''accepted_reductions'', json_int (cx_accepted_reductions c)),
     (''digest'', JStr (cx_digest c))]"

text \<open>\<open>digestDocument\<close>; the parameter is hexadecimal SHA-256.\<close>

definition digest_document :: "(string \<Rightarrow> string) \<Rightarrow> json \<Rightarrow> string" where
  "digest_document sha value = sha (json_marshal value)"

definition reduction_observation_digest :: "(string \<Rightarrow> string) \<Rightarrow> reduction_observation \<Rightarrow> string" where
  "reduction_observation_digest sha o1 = digest_document sha (observation_json (o1\<lparr>ro_digest := []\<rparr>))"

definition counterexample_digest :: "(string \<Rightarrow> string) \<Rightarrow> counterexample \<Rightarrow> string" where
  "counterexample_digest sha c = digest_document sha (counterexample_json (c\<lparr>cx_digest := []\<rparr>))"

section \<open>Validation\<close>

definition observation_validate :: "(string \<Rightarrow> string) \<Rightarrow> reduction_observation \<Rightarrow> counterexample_error option" where
  "observation_validate sha o1 = first_err [
     fail_if (ro_schema_version o1 \<noteq> ReductionObservationSchemaVersion \<or> ro_canonical_policy o1 \<noteq> ReductionCanonicalPolicy \<or>
         \<not> valid_digest (ro_relation_digest o1) \<or> \<not> valid_digest (ro_privacy_policy_digest o1) \<or>
         \<not> valid_digest (ro_relation_proof_digest o1) \<or> \<not> valid_digest (ro_privacy_proof_digest o1) \<or>
         \<not> valid_digest (ro_replay_result_digest o1)) ObservationIdentityInvalid,
     fail_if (ro_digest o1 \<noteq> reduction_observation_digest sha o1) ObservationDigestInvalid]"

definition validate_bound_observation ::
  "(string \<Rightarrow> string) \<Rightarrow> reduction_observation \<Rightarrow> string \<Rightarrow> string \<Rightarrow> counterexample_error option" where
  "validate_bound_observation sha o1 relation policy = first_err [
     observation_validate sha o1,
     fail_if (ro_relation_digest o1 \<noteq> relation \<or> ro_privacy_policy_digest o1 \<noteq> policy) ForeignObservation]"

definition preserving :: "reduction_observation \<Rightarrow> bool" where
  "preserving o1 \<longleftrightarrow> ro_relation_revalidated o1 \<and> ro_privacy_revalidated o1 \<and> ro_violation_preserved o1"

fun units_ascend :: "reduction_unit option \<Rightarrow> reduction_unit list \<Rightarrow> counterexample_error option" where
  "units_ascend previous [] = None"
| "units_ascend previous (u # us) = first_err [
     fail_if (\<not> identifier_pattern (unit_kind u) \<or> \<not> identifier_pattern (unit_id u) \<or>
         (case previous of None \<Rightarrow> False | Some p \<Rightarrow> compare_reduction_units p u \<ge> 0)) UnitsInvalid,
     units_ascend (Some u) us]"

definition validate_reduction_units :: "reduction_unit list \<Rightarrow> bool \<Rightarrow> counterexample_error option" where
  "validate_reduction_units units require = first_err [
     fail_if (require \<and> units = []) UnitsRequired, units_ascend None units]"

text \<open>What the loop over the steps carries: the current digest, the accepted steps, the retained units.\<close>

record trace =
  tr_current :: string
  tr_accepted :: int
  tr_retained :: "reduction_unit set"

definition step_unit :: "reduction_step \<Rightarrow> reduction_unit" where
  "step_unit s = ReductionUnit (rs_unit_kind s) (rs_unit_id s)"

definition replay_step ::
  "(string \<Rightarrow> string) \<Rightarrow> string \<Rightarrow> string \<Rightarrow> nat \<Rightarrow> trace \<Rightarrow> reduction_step \<Rightarrow> counterexample_error + trace" where
  "replay_step sha relation policy index t s =
     (if rs_index s \<noteq> int index \<or> trim_space (rs_unit_kind s) = [] \<or> rs_unit_kind s \<noteq> trim_space (rs_unit_kind s) \<or>
         trim_space (rs_unit_id s) = [] \<or> rs_unit_id s \<noteq> trim_space (rs_unit_id s) \<or>
         rs_before_digest s \<noteq> tr_current t \<or> \<not> valid_digest (rs_candidate_digest s) \<or>
         rs_candidate_digest s = rs_before_digest s \<or> \<not> valid_digest (rs_after_digest s)
      then Inl (StepIdentityInvalid index)
      else case validate_bound_observation sha (rs_observation s) relation policy of
        Some e \<Rightarrow> Inl (StepObservationInvalid index e)
      | None \<Rightarrow>
          if step_unit s \<notin> tr_retained t then Inl (StepNotRetained index)
          else if rs_decision s = ReductionAccepted then
            (if \<not> preserving (rs_observation s) \<or> rs_after_digest s \<noteq> rs_candidate_digest s
             then Inl (AcceptedUnproved index)
             else Inr (t\<lparr>tr_accepted := tr_accepted t + 1, tr_retained := tr_retained t - {step_unit s},
               tr_current := rs_after_digest s\<rparr>))
          else if rs_decision s = ReductionRejected then
            (if rs_after_digest s \<noteq> rs_before_digest s then Inl (RejectedChanged index)
             else if preserving (rs_observation s) then Inl (RejectedPreserving index)
             else Inr (t\<lparr>tr_current := rs_after_digest s\<rparr>))
          else Inl (DecisionInvalid index))"

fun replay_steps ::
  "(string \<Rightarrow> string) \<Rightarrow> string \<Rightarrow> string \<Rightarrow> nat \<Rightarrow> trace \<Rightarrow> reduction_step list \<Rightarrow> counterexample_error + trace" where
  "replay_steps sha relation policy index t [] = Inr t"
| "replay_steps sha relation policy index t (s # steps) =
     (case replay_step sha relation policy index t s of
        Inl e \<Rightarrow> Inl e
      | Inr t' \<Rightarrow> replay_steps sha relation policy (index + 1) t' steps)"

definition same_reduction_unit_set :: "reduction_unit set \<Rightarrow> reduction_unit list \<Rightarrow> bool" where
  "same_reduction_unit_set left right \<longleftrightarrow> card left = length right \<and> (\<forall>u \<in> set right. u \<in> left)"

definition last_accepted :: "reduction_step list \<Rightarrow> int" where
  "last_accepted steps =
     foldl (\<lambda>found (index, s). if rs_decision s = ReductionAccepted then int index else found) (-1) (enumerate 0 steps)"

definition validate_one_minimal_tail :: "counterexample \<Rightarrow> counterexample_error option" where
  "validate_one_minimal_tail c =
     (let steps = elems (cx_steps c); final = elems (cx_final_units c);
          tail = drop (nat (last_accepted steps + 1)) steps
      in first_err [
        fail_if (length tail \<noteq> length final) TailMissing,
        each_ok (\<lambda>(u, s). fail_if (rs_decision s \<noteq> ReductionRejected \<or> rs_unit_kind s \<noteq> unit_kind u \<or>
            rs_unit_id s \<noteq> unit_id u \<or> rs_before_digest s \<noteq> cx_reduced_input_digest c \<or>
            rs_after_digest s \<noteq> cx_reduced_input_digest c) TailOutOfOrder) (zip final tail)])"

definition counterexample_validate :: "(string \<Rightarrow> string) \<Rightarrow> counterexample \<Rightarrow> counterexample_error option" where
  "counterexample_validate sha c =
     first_err [
       fail_if (cx_schema_version c \<noteq> CounterexampleSchemaVersion \<or> cx_canonical_policy c \<noteq> ReductionCanonicalPolicy \<or>
           \<not> valid_digest (cx_relation_digest c) \<or> \<not> valid_digest (cx_source_result_digest c) \<or>
           \<not> identifier_pattern (cx_case_id c) \<or> \<not> valid_digest (cx_original_input_digest c) \<or>
           \<not> valid_digest (cx_reduced_input_digest c) \<or> \<not> valid_digest (cx_privacy_policy_digest c) \<or>
           cx_algorithm c \<noteq> DeterministicRestartGreedy \<or> cx_minimality c \<noteq> ReductionOneMinimal \<or>
           elems (cx_steps c) = [] \<or> cx_accepted_reductions c < 0) CounterexampleIdentityInvalid,
       fail_if (validate_bound_observation sha (cx_original_observation c) (cx_relation_digest c)
             (cx_privacy_policy_digest c) \<noteq> None \<or>
           \<not> preserving (cx_original_observation c)) OriginalNotViolation,
       validate_reduction_units (elems (cx_original_units c)) True,
       validate_reduction_units (elems (cx_final_units c)) False,
       (case replay_steps sha (cx_relation_digest c) (cx_privacy_policy_digest c) 0
            \<lparr> tr_current = cx_original_input_digest c, tr_accepted = 0,
              tr_retained = set (elems (cx_original_units c)) \<rparr> (elems (cx_steps c)) of
          Inl e \<Rightarrow> Some e
        | Inr t \<Rightarrow> fail_if (tr_current t \<noteq> cx_reduced_input_digest c \<or> tr_accepted t \<noteq> cx_accepted_reductions c \<or>
            tr_accepted t = 0 \<and> cx_reduced_input_digest c \<noteq> cx_original_input_digest c \<or>
            int (length (elems (cx_original_units c))) - tr_accepted t \<noteq> int (length (elems (cx_final_units c))) \<or>
            \<not> same_reduction_unit_set (tr_retained t) (elems (cx_final_units c))) SummaryInvalid),
       validate_one_minimal_tail c,
       fail_if (cx_digest c \<noteq> counterexample_digest sha c) CounterexampleDigestInvalid]"

section \<open>Sealing\<close>

definition copy_slice :: "'a slice \<Rightarrow> 'a slice" where
  "copy_slice s = (if elems s = [] then None else s)"

definition count_accepted :: "reduction_step list \<Rightarrow> int" where
  "count_accepted steps = int (length (filter (\<lambda>s. rs_decision s = ReductionAccepted) steps))"

definition seal_counterexample :: "(string \<Rightarrow> string) \<Rightarrow> counterexample \<Rightarrow> counterexample_error + counterexample" where
  "seal_counterexample sha value =
     (let c = value\<lparr>cx_schema_version := CounterexampleSchemaVersion, cx_canonical_policy := ReductionCanonicalPolicy,
            cx_steps := copy_slice (cx_steps value),
            cx_original_units := sort_slice id (copy_slice (cx_original_units value)),
            cx_final_units := sort_slice id (copy_slice (cx_final_units value)),
            cx_accepted_reductions := count_accepted (elems (cx_steps value)), cx_digest := []\<rparr>;
          c = c\<lparr>cx_digest := counterexample_digest sha c\<rparr>
      in case counterexample_validate sha c of Some e \<Rightarrow> Inl e | None \<Rightarrow> Inr c)"

definition seal_reduction_observation ::
  "(string \<Rightarrow> string) \<Rightarrow> reduction_observation \<Rightarrow> counterexample_error + reduction_observation" where
  "seal_reduction_observation sha value =
     (let o1 = value\<lparr>ro_schema_version := ReductionObservationSchemaVersion, ro_canonical_policy := ReductionCanonicalPolicy,
            ro_digest := []\<rparr>;
          o1 = o1\<lparr>ro_digest := reduction_observation_digest sha o1\<rparr>
      in case observation_validate sha o1 of Some e \<Rightarrow> Inl e | None \<Rightarrow> Inr o1)"

end
