(* ===== verification/Reducer.thy ===== *)
theory Reducer
  imports Counterexample
begin

text \<open>
  internal/stress/reducer.go: the greedy reduction of a counterexample.  The input and the oracle
  are interfaces of the program that its callers implement, so their methods are parameters, and
  each may read and change the world it runs in: the code defends itself against an oracle that
  mutates an input, which a model with pure methods could not express.
\<close>

section \<open>Computations that act on a world\<close>

type_synonym ('w, 'x, 'a) run = "'w \<Rightarrow> ('x + 'a) \<times> 'w"

definition give :: "'a \<Rightarrow> ('w, 'x, 'a) run" where
  "give a = (\<lambda>w. (Inr a, w))"

definition throw :: "'x \<Rightarrow> ('w, 'x, 'a) run" where
  "throw e = (\<lambda>w. (Inl e, w))"

definition andthen :: "('w, 'x, 'a) run \<Rightarrow> ('a \<Rightarrow> ('w, 'x, 'b) run) \<Rightarrow> ('w, 'x, 'b) run" where
  "andthen m f = (\<lambda>w. case m w of (Inl e, w') \<Rightarrow> (Inl e, w') | (Inr a, w') \<Rightarrow> f a w')"

definition wrap_err :: "('e \<Rightarrow> 'x) \<Rightarrow> ('w, 'e, 'a) run \<Rightarrow> ('w, 'x, 'a) run" where
  "wrap_err f m = (\<lambda>w. case m w of (Inl e, w') \<Rightarrow> (Inl (f e), w') | (Inr a, w') \<Rightarrow> (Inr a, w'))"

definition check_that :: "'x option \<Rightarrow> ('w, 'x, unit) run" where
  "check_that e = (case e of None \<Rightarrow> give () | Some x \<Rightarrow> throw x)"

lemma andthen_Inr:
  "andthen m f w = (Inr b, w'') \<longleftrightarrow> (\<exists>a w'. m w = (Inr a, w') \<and> f a w' = (Inr b, w''))"
  by (auto simp: andthen_def split: prod.splits sum.splits)

lemma andthen_Inl:
  "andthen m f w = (Inl e, w'') \<longleftrightarrow>
     m w = (Inl e, w'') \<or> (\<exists>a w'. m w = (Inr a, w') \<and> f a w' = (Inl e, w''))"
  by (auto simp: andthen_def split: prod.splits sum.splits)

lemma wrap_err_Inr: "wrap_err f m w = (Inr a, w') \<longleftrightarrow> m w = (Inr a, w')"
  by (auto simp: wrap_err_def split: prod.splits sum.splits)

lemma check_that_Inr [simp]: "check_that e w = (Inr u, w') \<longleftrightarrow> e = None \<and> w' = w"
  by (auto simp: check_that_def give_def throw_def split: option.splits)

lemma give_Inr [simp]: "give a w = (Inr b, w') \<longleftrightarrow> b = a \<and> w' = w"
  by (auto simp: give_def)

lemma throw_Inr [simp]: "throw e w \<noteq> (Inr b, w')"
  by (simp add: throw_def)

section \<open>The request\<close>

definition MaximumReductionUnits :: nat where
  "MaximumReductionUnits = 4096"

text \<open>\<open>ReducibleInput\<close>, \<open>ReductionOracle\<close> and the error of the context.\<close>

record ('w, 'i, 'e) reducible_methods =
  canonical_bytes :: "'i \<Rightarrow> ('w, 'e, string) run"
  input_units :: "'i \<Rightarrow> 'w \<Rightarrow> reduction_unit list \<times> 'w"
  remove_unit :: "'i \<Rightarrow> reduction_unit \<Rightarrow> ('w, 'e, 'i option) run"
  context_err :: "'w \<Rightarrow> 'e option"

type_synonym ('w, 'i, 'e) reduction_oracle = "'i \<Rightarrow> ('w, 'e, reduction_observation) run"

record ('w, 'i, 'e) reduction_request =
  rq_relation_digest :: string
  rq_source_result_digest :: string
  rq_case_id :: string
  rq_privacy_policy_digest :: string
  rq_public_release_allowed :: bool
  rq_input :: "'i option"
  rq_oracle :: "('w, 'i, 'e) reduction_oracle option"
  rq_maximum_evaluations :: int

datatype 'e reduce_error =
    RequestInvalid | RequestUnits counterexample_error | TooManyUnits nat | BudgetTooSmall int
  | EncodeFailed 'e | EmptyBytes | Interrupted 'e
  | OriginalOracleFailed 'e | OriginalMutated | OriginalInadmissible "'e reduce_error"
  | ObservationRejected counterexample_error | ObservationForeign | NotPreserving
  | BudgetExhausted | RemoveFailed reduction_unit 'e | NoCandidate reduction_unit | RetainedMutated
  | RemovalUnits counterexample_error | NotSingleRemoval | OtherUnitsChanged
  | CanonicalUnchanged reduction_unit | OracleFailed reduction_unit 'e | OracleMutated
  | SealFailed counterexample_error

definition canonical_reduction_units :: "reduction_unit list \<Rightarrow> reduction_unit list" where
  "canonical_reduction_units values = sort values"

definition reducible_input_digest ::
  "(string \<Rightarrow> string) \<Rightarrow> ('w, 'i, 'e) reducible_methods \<Rightarrow> 'i \<Rightarrow> ('w, 'e reduce_error, string) run" where
  "reducible_input_digest sha ops i =
     andthen (wrap_err EncodeFailed (canonical_bytes ops i))
       (\<lambda>encoded. if encoded = [] then throw EmptyBytes else give (sha encoded))"

definition units_of :: "('w, 'i, 'e) reducible_methods \<Rightarrow> 'i \<Rightarrow> ('w, 'x, reduction_unit list) run" where
  "units_of ops i = (\<lambda>w. case input_units ops i w of (units, w') \<Rightarrow> (Inr units, w'))"

definition validate_reduction_request ::
  "('w, 'i, 'e) reducible_methods \<Rightarrow> ('w, 'i, 'e) reduction_request \<Rightarrow> ('w, 'e reduce_error, reduction_unit list) run" where
  "validate_reduction_request ops request =
     (case (rq_input request, rq_oracle request) of
        (Some i, Some _) \<Rightarrow>
          if \<not> valid_digest (rq_relation_digest request) \<or> \<not> valid_digest (rq_source_result_digest request) \<or>
             \<not> identifier_pattern (rq_case_id request) \<or> \<not> valid_digest (rq_privacy_policy_digest request)
          then throw RequestInvalid
          else andthen (units_of ops i) (\<lambda>raw.
            let units = canonical_reduction_units raw;
                worst = int (length units) * (int (length units) + 1) div 2
            in andthen (check_that (first_err [
                 map_err RequestUnits (validate_reduction_units units True),
                 fail_if (length units > MaximumReductionUnits) (TooManyUnits (length units)),
                 fail_if (rq_maximum_evaluations request < worst) (BudgetTooSmall worst)]))
               (\<lambda>_. give units))
      | _ \<Rightarrow> throw RequestInvalid)"

definition check_observation ::
  "(string \<Rightarrow> string) \<Rightarrow> ('w, 'i, 'e) reduction_request \<Rightarrow> reduction_observation \<Rightarrow> 'e reduce_error option" where
  "check_observation sha request o1 = first_err [
     map_err ObservationRejected (observation_validate sha o1),
     fail_if (ro_relation_digest o1 \<noteq> rq_relation_digest request \<or>
         ro_privacy_policy_digest o1 \<noteq> rq_privacy_policy_digest request) ObservationForeign]"

definition validate_preserving_observation ::
  "(string \<Rightarrow> string) \<Rightarrow> ('w, 'i, 'e) reduction_request \<Rightarrow> reduction_observation \<Rightarrow> 'e reduce_error option" where
  "validate_preserving_observation sha request o1 = first_err [
     check_observation sha request o1, fail_if (\<not> preserving o1) NotPreserving]"

definition validate_single_removal ::
  "reduction_unit list \<Rightarrow> reduction_unit \<Rightarrow> reduction_unit list \<Rightarrow> 'e reduce_error option" where
  "validate_single_removal before removed after =
     (let canonical_after = canonical_reduction_units after
      in first_err [
        map_err RemovalUnits (validate_reduction_units canonical_after False),
        fail_if (int (length canonical_after) \<noteq> int (length before) - 1 \<or> removed \<in> set canonical_after) NotSingleRemoval,
        fail_if (filter (\<lambda>u. u \<noteq> removed) before \<noteq> canonical_after) OtherUnitsChanged])"

section \<open>The loop\<close>

record 'i progress =
  pg_current :: 'i
  pg_digest :: string
  pg_steps :: "reduction_step list"
  pg_evaluations :: int

definition removal_step :: "'i progress \<Rightarrow> reduction_unit \<Rightarrow> string \<Rightarrow> reduction_observation \<Rightarrow> reduction_step" where
  "removal_step p u candidate o1 = \<lparr>
     rs_index = int (length (pg_steps p)), rs_unit_kind = unit_kind u, rs_unit_id = unit_id u,
     rs_before_digest = pg_digest p, rs_candidate_digest = candidate,
     rs_after_digest = (if preserving o1 then candidate else pg_digest p),
     rs_decision = (if preserving o1 then ReductionAccepted else ReductionRejected), rs_observation = o1 \<rparr>"

text \<open>One removal that the inner loop tries; the flag is \<open>accepted\<close>.\<close>

definition attempt ::
  "(string \<Rightarrow> string) \<Rightarrow> ('w, 'i, 'e) reducible_methods \<Rightarrow> ('w, 'i, 'e) reduction_oracle \<Rightarrow> ('w, 'i, 'e) reduction_request \<Rightarrow>
   reduction_unit list \<Rightarrow> 'i progress \<Rightarrow> reduction_unit \<Rightarrow> ('w, 'e reduce_error, 'i progress \<times> bool) run" where
  "attempt sha ops oracle request units p u = (\<lambda>w.
     andthen (check_that (first_err [
         map_err Interrupted (context_err ops w),
         fail_if (pg_evaluations p \<ge> rq_maximum_evaluations request) BudgetExhausted])) (\<lambda>_.
     andthen (wrap_err (RemoveFailed u) (remove_unit ops (pg_current p) u)) (\<lambda>removed. case removed of
       None \<Rightarrow> throw (NoCandidate u)
     | Some candidate \<Rightarrow>
         andthen (reducible_input_digest sha ops (pg_current p)) (\<lambda>retained.
         andthen (check_that (fail_if (retained \<noteq> pg_digest p) RetainedMutated)) (\<lambda>_.
         andthen (units_of ops candidate) (\<lambda>after.
         andthen (check_that (validate_single_removal units u after)) (\<lambda>_.
         andthen (reducible_input_digest sha ops candidate) (\<lambda>candidate_digest.
         andthen (check_that (fail_if (candidate_digest = pg_digest p) (CanonicalUnchanged u))) (\<lambda>_.
         andthen (wrap_err (OracleFailed u) (oracle candidate)) (\<lambda>observation.
         andthen (reducible_input_digest sha ops (pg_current p)) (\<lambda>retained_after.
         andthen (reducible_input_digest sha ops candidate) (\<lambda>candidate_after.
         andthen (check_that (first_err [
             fail_if (retained_after \<noteq> pg_digest p \<or> candidate_after \<noteq> candidate_digest) OracleMutated,
             check_observation sha request observation])) (\<lambda>_.
         give (p\<lparr>pg_current := (if preserving observation then candidate else pg_current p),
             pg_digest := (if preserving observation then candidate_digest else pg_digest p),
             pg_steps := pg_steps p @ [removal_step p u candidate_digest observation],
             pg_evaluations := pg_evaluations p + 1\<rparr>, preserving observation))))))))))))) w)"

text \<open>The inner loop: it stops at the first accepted removal.\<close>

fun reduction_pass ::
  "(string \<Rightarrow> string) \<Rightarrow> ('w, 'i, 'e) reducible_methods \<Rightarrow> ('w, 'i, 'e) reduction_oracle \<Rightarrow> ('w, 'i, 'e) reduction_request \<Rightarrow>
   reduction_unit list \<Rightarrow> 'i progress \<Rightarrow> reduction_unit list \<Rightarrow> ('w, 'e reduce_error, 'i progress \<times> bool) run" where
  "reduction_pass sha ops oracle request units p [] = give (p, False)"
| "reduction_pass sha ops oracle request units p (u # us) =
     andthen (attempt sha ops oracle request units p u) (\<lambda>(p', accepted).
       if accepted then give (p', True) else reduction_pass sha ops oracle request units p' us)"

lemma attempt_Inr:
  assumes "attempt sha ops oracle request units p u w = (Inr (p', accepted), w')"
  shows "pg_evaluations p < rq_maximum_evaluations request" and "pg_evaluations p' = pg_evaluations p + 1"
proof -
  show "pg_evaluations p < rq_maximum_evaluations request"
    using assms unfolding attempt_def andthen_Inr by (elim exE conjE) simp
  show "pg_evaluations p' = pg_evaluations p + 1"
    using assms by (auto simp: attempt_def andthen_Inr split: option.splits)
qed

lemma pass_accepts:
  "reduction_pass sha ops oracle request units p us w = (Inr (p', True), w') \<Longrightarrow>
     pg_evaluations p < rq_maximum_evaluations request \<and> pg_evaluations p < pg_evaluations p'"
proof (induction us arbitrary: p w)
  case (Cons u us)
  from Cons.prems obtain p1 accepted w1 where a: "attempt sha ops oracle request units p u w = (Inr (p1, accepted), w1)"
    and "(if accepted then give (p1, True) else reduction_pass sha ops oracle request units p1 us) w1 = (Inr (p', True), w')"
    by (auto simp: andthen_Inr)
  then show ?case using attempt_Inr [OF a] by (cases accepted) (auto dest: Cons.IH)
qed simp

text \<open>The outer loop.  Each round that restarts it has used up an evaluation.\<close>

function reduce_loop ::
  "(string \<Rightarrow> string) \<Rightarrow> ('w, 'i, 'e) reducible_methods \<Rightarrow> ('w, 'i, 'e) reduction_oracle \<Rightarrow> ('w, 'i, 'e) reduction_request \<Rightarrow>
   'i progress \<Rightarrow> ('w, 'e reduce_error, 'i progress) run" where
  "reduce_loop sha ops oracle request p w =
     (case input_units ops (pg_current p) w of (raw, w1) \<Rightarrow>
      (case reduction_pass sha ops oracle request (canonical_reduction_units raw) p (canonical_reduction_units raw) w1 of
         (Inl e, w2) \<Rightarrow> (Inl e, w2)
       | (Inr (p', accepted), w2) \<Rightarrow>
           if accepted then reduce_loop sha ops oracle request p' w2 else (Inr p', w2)))"
  by pat_completeness auto
termination
  by (relation "measure (\<lambda>(_, _, _, request, p, _). nat (rq_maximum_evaluations request - pg_evaluations p))")
    (auto dest!: pass_accepts [OF sym])

definition reduce_counterexample ::
  "(string \<Rightarrow> string) \<Rightarrow> ('w, 'i, 'e) reducible_methods \<Rightarrow> ('w, 'i, 'e) reduction_request \<Rightarrow>
   ('w, 'e reduce_error, counterexample) run" where
  "reduce_counterexample sha ops request =
     andthen (validate_reduction_request ops request) (\<lambda>units.
     case (rq_input request, rq_oracle request) of
       (Some input, Some oracle) \<Rightarrow>
         andthen (reducible_input_digest sha ops input) (\<lambda>original.
         andthen (\<lambda>w. check_that (map_err Interrupted (context_err ops w)) w) (\<lambda>_.
         andthen (wrap_err OriginalOracleFailed (oracle input)) (\<lambda>observation.
         andthen (reducible_input_digest sha ops input) (\<lambda>original_after.
         andthen (check_that (first_err [
             fail_if (original_after \<noteq> original) OriginalMutated,
             map_err OriginalInadmissible (validate_preserving_observation sha request observation)])) (\<lambda>_.
         andthen (reduce_loop sha ops oracle request
             \<lparr> pg_current = input, pg_digest = original, pg_steps = [], pg_evaluations = 0 \<rparr>) (\<lambda>p.
         andthen (units_of ops (pg_current p)) (\<lambda>final.
         case seal_counterexample sha \<lparr> cx_schema_version = [], cx_canonical_policy = [],
             cx_relation_digest = rq_relation_digest request,
             cx_source_result_digest = rq_source_result_digest request, cx_case_id = rq_case_id request,
             cx_original_input_digest = original, cx_reduced_input_digest = pg_digest p,
             cx_privacy_policy_digest = rq_privacy_policy_digest request,
             cx_public_release_allowed = rq_public_release_allowed request, cx_algorithm = DeterministicRestartGreedy,
             cx_minimality = ReductionOneMinimal, cx_original_units = Some units,
             cx_final_units = Some (canonical_reduction_units final), cx_original_observation = observation,
             cx_steps = Some (pg_steps p), cx_accepted_reductions = 0, cx_digest = [] \<rparr> of
           Inl e \<Rightarrow> throw (SealFailed e)
         | Inr c \<Rightarrow> give c)))))))
     | _ \<Rightarrow> throw RequestInvalid)"

end
