(* ===== verification/ReducerFacts.thy ===== *)
theory ReducerFacts
  imports Reducer
begin

text \<open>
  The contract between the reducer and the inputs it reduces, and what the reducer guarantees
  under it.
\<close>

section \<open>Units and identifiers\<close>

lemma compare_ge: "compare_reduction_units p u \<ge> 0 \<longleftrightarrow> u \<le> p"
  by (auto simp: compare_reduction_units_def)

lemma units_ascend_iff:
  "units_ascend previous us = None \<longleftrightarrow>
     (\<forall>u \<in> set us. identifier_pattern (unit_kind u) \<and> identifier_pattern (unit_id u) \<and>
        (case previous of None \<Rightarrow> True | Some p \<Rightarrow> p < u)) \<and> sorted_wrt (<) us"
proof (induction us arbitrary: previous)
  case (Cons u us)
  show ?case
    by (cases previous) (auto simp: Cons.IH compare_ge not_le dest: less_trans)
qed simp

lemma valid_units_iff:
  "validate_reduction_units us require = None \<longleftrightarrow>
     (require \<longrightarrow> us \<noteq> []) \<and> sorted us \<and> distinct us \<and>
     (\<forall>u \<in> set us. identifier_pattern (unit_kind u) \<and> identifier_pattern (unit_id u))"
  by (auto simp: validate_reduction_units_def units_ascend_iff strict_sorted_iff)

lemma trim_identifier:
  assumes "identifier_pattern s"
  shows "s \<noteq> []" and "trim_space s = s"
proof -
  have plain: "pattern_tail c \<Longrightarrow> ord c < 128 \<and> \<not> ascii_space c" for c
    by (auto simp: pattern_tail_def pattern_head_def is_lower_def is_digit_def char_between_def ascii_space_def
        less_eq_char_def)
  have front: "trim_front p2 p3 t = t"
    if "\<forall>c \<in> set t. \<not> ascii_space c" and "\<forall>a b c. a \<in> set t \<longrightarrow> \<not> p2 a b \<and> \<not> p3 a b c" for p2 p3 t
    using that by (induction p2 p3 t rule: trim_front.induct) auto
  show "s \<noteq> []" using assms by (auto simp: identifier_pattern_def)
  have s: "\<forall>c \<in> set s. ord c < 128 \<and> \<not> ascii_space c"
    using assms plain by (auto simp: identifier_pattern_def pattern_tail_def list_all_iff split: list.splits)
  have two: "\<not> space2 a b" "\<not> space3 a b c" "\<not> space2 b a" "\<not> space3 c b a" if "ord a < 128" for a b c
    using that by (auto simp: space2_def space3_def less_eq_char_def)
  have "trim_left s = s" unfolding trim_left_def using s two by (intro front) blast+
  moreover have "trim_right s = s"
    unfolding trim_right_def using s two by (subst front) auto
  ultimately show "trim_space s = s" by (simp add: trim_space_def)
qed


section \<open>Replaying a trace\<close>

abbreviation accepted_step :: "reduction_step \<Rightarrow> bool" where
  "accepted_step s \<equiv> rs_decision s = ReductionAccepted"

definition accepted_units :: "reduction_step list \<Rightarrow> reduction_unit list" where
  "accepted_units steps = map step_unit (filter accepted_step steps)"

fun digest_chain :: "string \<Rightarrow> reduction_step list \<Rightarrow> string \<Rightarrow> bool" where
  "digest_chain a [] b = (a = b)"
| "digest_chain a (s # steps) b = (rs_before_digest s = a \<and> digest_chain (rs_after_digest s) steps b)"

text \<open>
  What one step proves: an accepted removal preserved the violation and moved to the candidate;
  a rejected one did not preserve it and moved nowhere.
\<close>

definition step_proves :: "(string \<Rightarrow> string) \<Rightarrow> string \<Rightarrow> string \<Rightarrow> reduction_step \<Rightarrow> bool" where
  "step_proves sha relation policy s \<longleftrightarrow>
     validate_bound_observation sha (rs_observation s) relation policy = None \<and>
     rs_candidate_digest s \<noteq> rs_before_digest s \<and>
     (if accepted_step s then preserving (rs_observation s) \<and> rs_after_digest s = rs_candidate_digest s
      else rs_decision s = ReductionRejected \<and> \<not> preserving (rs_observation s) \<and> rs_after_digest s = rs_before_digest s)"

lemma decisions_differ [simp]: "ReductionRejected \<noteq> ReductionAccepted" "ReductionAccepted \<noteq> ReductionRejected"
  by (simp_all add: ReductionAccepted_def ReductionRejected_def)

lemma replay_stepD:
  assumes "replay_step sha relation policy index t s = Inr t'"
  shows "step_proves sha relation policy s" and "rs_before_digest s = tr_current t" and "step_unit s \<in> tr_retained t"
    and "t' = t\<lparr>tr_accepted := tr_accepted t + (if accepted_step s then 1 else 0),
      tr_retained := (if accepted_step s then tr_retained t - {step_unit s} else tr_retained t),
      tr_current := rs_after_digest s\<rparr>"
  using assms unfolding replay_step_def step_proves_def
  by (auto split: if_splits option.splits)

lemma replay_stepsD:
  assumes "replay_steps sha relation policy index t steps = Inr t'"
  shows "\<forall>s \<in> set steps. step_proves sha relation policy s"
    and "digest_chain (tr_current t) steps (tr_current t')"
    and "set (accepted_units steps) \<subseteq> tr_retained t" and "distinct (accepted_units steps)"
    and "tr_retained t' = tr_retained t - set (accepted_units steps)"
    and "tr_accepted t' = tr_accepted t + int (length (accepted_units steps))"
proof -
  have "(\<forall>s \<in> set steps. step_proves sha relation policy s) \<and> digest_chain (tr_current t) steps (tr_current t') \<and>
      set (accepted_units steps) \<subseteq> tr_retained t \<and> distinct (accepted_units steps) \<and>
      tr_retained t' = tr_retained t - set (accepted_units steps) \<and>
      tr_accepted t' = tr_accepted t + int (length (accepted_units steps))"
    using assms
  proof (induction steps arbitrary: index t)
    case (Cons s steps)
    from Cons.prems obtain t1 where one: "replay_step sha relation policy index t s = Inr t1"
      and rest: "replay_steps sha relation policy (index + 1) t1 steps = Inr t'"
      by (auto split: sum.splits)
    note d = replay_stepD [OF one]
    show ?case
      using Cons.IH [OF rest] d(1-3) unfolding d(4)
      by (cases "accepted_step s") (auto simp: accepted_units_def)
  qed (simp add: accepted_units_def)
  then show "\<forall>s \<in> set steps. step_proves sha relation policy s"
    and "digest_chain (tr_current t) steps (tr_current t')"
    and "set (accepted_units steps) \<subseteq> tr_retained t" and "distinct (accepted_units steps)"
    and "tr_retained t' = tr_retained t - set (accepted_units steps)"
    and "tr_accepted t' = tr_accepted t + int (length (accepted_units steps))" by blast+
qed

lemma replay_steps_append:
  "replay_steps sha relation policy index t (xs @ ys) =
     (case replay_steps sha relation policy index t xs of
        Inl e \<Rightarrow> Inl e | Inr t' \<Rightarrow> replay_steps sha relation policy (index + length xs) t' ys)"
  by (induction xs arbitrary: index t) (auto split: sum.splits)

text \<open>The steps after the last accepted one.\<close>

lemma last_accepted_bounds: "-1 \<le> last_accepted steps \<and> last_accepted steps < int (length steps)"
proof (induction steps rule: rev_induct)
  case (snoc s steps)
  then show ?case by (simp add: last_accepted_def enumerate_append_eq)
qed (simp add: last_accepted_def)

lemma last_accepted_snoc:
  "last_accepted (steps @ [s]) = (if accepted_step s then int (length steps) else last_accepted steps)"
  by (simp add: last_accepted_def enumerate_append_eq)

lemma last_accepted_rejected: "\<forall>s \<in> set tail. \<not> accepted_step s \<Longrightarrow> last_accepted (steps @ tail) = last_accepted steps"
proof (induction tail rule: rev_induct)
  case (snoc s tail)
  then show ?case using last_accepted_snoc [of "steps @ tail" s] by simp
qed simp

end
