(* ===== verification/ReducerLaws.thy ===== *)
theory ReducerLaws
  imports ReducerFacts CanonicalFacts
begin

text \<open>
  The contract of \<open>ReducibleInput\<close> as a locale, and the reducer under it: with an oracle that
  only answers, every reduction ends with a validated counterexample that is one-minimal.
\<close>

declare reduce_loop.simps [simp del]

definition pure_methods ::
  "('i \<Rightarrow> string) \<Rightarrow> ('i \<Rightarrow> reduction_unit list) \<Rightarrow> ('i \<Rightarrow> reduction_unit \<Rightarrow> 'e + 'i option) \<Rightarrow>
   ('w, 'i, 'e) reducible_methods" where
  "pure_methods bytes units remove = \<lparr> canonical_bytes = \<lambda>i. give (bytes i), input_units = \<lambda>i w. (units i, w),
     remove_unit = \<lambda>i u w. (remove i u, w), context_err = \<lambda>w. None \<rparr>"

text \<open>
  An oracle that answers every question about the requested relation and policy, and whose
  answer is valid.  It may still act on the world.
\<close>

definition honest :: "(string \<Rightarrow> string) \<Rightarrow> ('w, 'i, 'e) reduction_request \<Rightarrow> ('w, 'i, 'e) reduction_oracle \<Rightarrow> bool" where
  "honest sha request oracle \<longleftrightarrow>
     (\<forall>i w. \<exists>o1 w'. oracle i w = (Inr o1, w') \<and> validate_bound_observation sha o1
        (rq_relation_digest request) (rq_privacy_policy_digest request) = None)"

definition answers :: "('w, 'i, 'e) reduction_oracle \<Rightarrow> 'i \<Rightarrow> bool \<Rightarrow> bool" where
  "answers oracle i b \<longleftrightarrow> (\<exists>w o1 w'. oracle i w = (Inr o1, w') \<and> preserving o1 = b)"

lemma check_observation_iff:
  "check_observation sha request o1 = None \<longleftrightarrow>
     validate_bound_observation sha o1 (rq_relation_digest request) (rq_privacy_policy_digest request) = None"
  by (simp add: check_observation_def validate_bound_observation_def)

lemma honestD:
  assumes "honest sha request oracle"
  obtains o1 w' where "oracle i w = (Inr o1, w')"
    and "validate_bound_observation sha o1 (rq_relation_digest request) (rq_privacy_policy_digest request) = None"
  using assms unfolding honest_def by blast

text \<open>The inputs that removals reach, and a removal among them that the hash cannot see.\<close>

inductive reached :: "('i \<Rightarrow> reduction_unit list) \<Rightarrow> ('i \<Rightarrow> reduction_unit \<Rightarrow> 'e + 'i option) \<Rightarrow> 'i \<Rightarrow> 'i \<Rightarrow> bool"
  for units remove x where
  reached_start: "reached units remove x x"
| reached_remove: "reached units remove x y \<Longrightarrow> u \<in> set (units y) \<Longrightarrow> remove y u = Inr (Some z) \<Longrightarrow> reached units remove x z"

definition removal_collides ::
  "('i \<Rightarrow> string) \<Rightarrow> ('i \<Rightarrow> reduction_unit list) \<Rightarrow> ('i \<Rightarrow> reduction_unit \<Rightarrow> 'e + 'i option) \<Rightarrow>
   (string \<Rightarrow> string) \<Rightarrow> 'i \<Rightarrow> bool" where
  "removal_collides bytes units remove sha x \<longleftrightarrow>
     (\<exists>y u z. reached units remove x y \<and> u \<in> set (units y) \<and> remove y u = Inr (Some z) \<and>
        collides sha (bytes y) (bytes z))"

locale reducible =
  fixes bytes :: "'i \<Rightarrow> string" and units :: "'i \<Rightarrow> reduction_unit list"
    and remove :: "'i \<Rightarrow> reduction_unit \<Rightarrow> 'e + 'i option" and wf :: "'i \<Rightarrow> bool"
  assumes units_valid: "wf x \<Longrightarrow> validate_reduction_units (sort (units x)) False = None"
    and bytes_given: "wf x \<Longrightarrow> bytes x \<noteq> []"
    and removes: "wf x \<Longrightarrow> u \<in> set (units x) \<Longrightarrow>
      \<exists>y. remove x u = Inr (Some y) \<and> wf y \<and> bytes y \<noteq> bytes x \<and> sort (units y) = filter (\<lambda>v. v \<noteq> u) (sort (units x))"
begin

abbreviation methods :: "('w, 'i, 'e) reducible_methods" where
  "methods \<equiv> pure_methods bytes units remove"

lemma units_distinct: "wf x \<Longrightarrow> distinct (units x)"
  using units_valid [of x] by (simp add: valid_units_iff)

lemma digest_method: "wf x \<Longrightarrow> reducible_input_digest sha methods x w = (Inr (sha (bytes x)), w)"
  using bytes_given by (simp add: reducible_input_digest_def pure_methods_def andthen_def wrap_err_def give_def)

lemma units_method [simp]: "units_of methods x w = (Inr (units x), w)"
  by (simp add: units_of_def pure_methods_def)

lemma removal:
  assumes "wf x" and "u \<in> set (units x)"
  obtains y where "remove x u = Inr (Some y)" "wf y" "bytes y \<noteq> bytes x"
    "(validate_single_removal (sort (units x)) u (units y) :: 'f reduce_error option) = None"
    "set (units y) = set (units x) - {u}" "length (units y) + 1 = length (units x)"
proof -
  obtain y where y: "remove x u = Inr (Some y)" "wf y" "bytes y \<noteq> bytes x"
    "sort (units y) = filter (\<lambda>v. v \<noteq> u) (sort (units x))"
    using removes [OF assms] by blast
  have set: "set (units y) = set (units x) - {u}"
    using arg_cong [OF y(4), of set] by auto
  moreover have "length (units y) = card (set (units x) - {u})"
    using distinct_card [OF units_distinct [OF y(2)]] unfolding set by simp
  then have "length (units y) + 1 = length (units x)"
    using card_Suc_Diff1 [OF finite_set assms(2)] distinct_card [OF units_distinct [OF assms(1)]] by linarith
  moreover have "(validate_single_removal (sort (units x)) u (units y) :: 'f reduce_error option) = None"
    using units_valid [OF y(2)] \<open>length (units y) + 1 = length (units x)\<close> set
    by (simp add: validate_single_removal_def canonical_reduction_units_def y(4) [symmetric])
  ultimately show ?thesis using y that by blast
qed


text \<open>What holds between two attempts: the trace so far replays to the current input.\<close>

definition start_trace :: "(string \<Rightarrow> string) \<Rightarrow> 'i \<Rightarrow> trace" where
  "start_trace sha x = \<lparr> tr_current = sha (bytes x), tr_accepted = 0, tr_retained = set (units x) \<rparr>"

definition replays :: "(string \<Rightarrow> string) \<Rightarrow> ('w, 'i, 'e) reduction_request \<Rightarrow> 'i \<Rightarrow> 'i progress \<Rightarrow> bool" where
  "replays sha request x p \<longleftrightarrow>
     replay_steps sha (rq_relation_digest request) (rq_privacy_policy_digest request) 0 (start_trace sha x) (pg_steps p) =
     Inr \<lparr> tr_current = pg_digest p, tr_accepted = int (length (units x)) - int (length (units (pg_current p))),
       tr_retained = set (units (pg_current p)) \<rparr>"

definition sound :: "(string \<Rightarrow> string) \<Rightarrow> ('w, 'i, 'e) reduction_request \<Rightarrow> ('w, 'i, 'e) reduction_oracle \<Rightarrow> 'i \<Rightarrow>
  'i progress \<Rightarrow> bool" where
  "sound sha request oracle x p \<longleftrightarrow> wf (pg_current p) \<and> reached units remove x (pg_current p) \<and> pg_digest p = sha (bytes (pg_current p)) \<and>
     answers oracle (pg_current p) True \<and> pg_evaluations p = int (length (pg_steps p)) \<and> replays sha request x p"

definition refused :: "('w, 'i, 'e) reduction_oracle \<Rightarrow> 'i progress \<Rightarrow> reduction_unit \<Rightarrow> reduction_step \<Rightarrow> bool" where
  "refused oracle p u s \<longleftrightarrow> step_unit s = u \<and> rs_decision s = ReductionRejected \<and>
     rs_before_digest s = pg_digest p \<and> rs_after_digest s = pg_digest p \<and>
     (\<exists>y. remove (pg_current p) u = Inr (Some y) \<and> answers oracle y False)"

lemma replay_removal:
  assumes "wf x" and u: "u \<in> set (units x)" and "valid_digest d" and "valid_digest (pg_digest p)" and "d \<noteq> pg_digest p"
    and "validate_bound_observation sha o1 relation policy = None"
  shows "replay_step sha relation policy (length (pg_steps p))
      \<lparr> tr_current = pg_digest p, tr_accepted = n, tr_retained = set (units x) \<rparr> (removal_step p u d o1) =
    Inr (if preserving o1 then \<lparr> tr_current = d, tr_accepted = n + 1, tr_retained = set (units x) - {u} \<rparr>
         else \<lparr> tr_current = pg_digest p, tr_accepted = n, tr_retained = set (units x) \<rparr>)"
proof -
  have "identifier_pattern (unit_kind u)" "identifier_pattern (unit_id u)"
    using units_valid [OF assms(1)] u by (auto simp: valid_units_iff)
  then show ?thesis
    using assms trim_identifier
    by (simp add: replay_step_def removal_step_def step_unit_def)
qed


lemma method_simps [simp]:
  "context_err methods w = None" "remove_unit methods x u w = (remove x u, w)" "input_units methods x w = (units x, w)"
  by (simp_all add: pure_methods_def)

lemma attempt_result:
  assumes "wf (pg_current p)" and "wf y" and "remove (pg_current p) u = Inr (Some y)"
    and "(validate_single_removal us u (units y) :: 'e reduce_error option) = None"
    and "pg_digest p = sha (bytes (pg_current p))" and "sha (bytes y) \<noteq> pg_digest p"
    and "oracle y w = (Inr o1, w')" and "(check_observation sha request o1 :: 'e reduce_error option) = None"
    and "pg_evaluations p < rq_maximum_evaluations request"
  shows "attempt sha methods oracle request us p u w =
    (Inr (p\<lparr>pg_current := (if preserving o1 then y else pg_current p),
        pg_digest := (if preserving o1 then sha (bytes y) else pg_digest p),
        pg_steps := pg_steps p @ [removal_step p u (sha (bytes y)) o1],
        pg_evaluations := pg_evaluations p + 1\<rparr>, preserving o1), w')"
  using assms
  by (simp add: attempt_def andthen_def wrap_err_def check_that_def give_def digest_method fail_if_def map_err_def)

lemma attempt_honest:
  assumes p: "sound sha request oracle x p" and u: "u \<in> set (units (pg_current p))"
    and budget: "pg_evaluations p < rq_maximum_evaluations request"
    and honest: "honest sha request oracle" and hex: "\<And>s. valid_digest (sha s)" and apart: "\<not> removal_collides bytes units remove sha x"
  obtains (refused) p' s w' where
      "attempt sha methods oracle request (sort (units (pg_current p))) p u w = (Inr (p', False), w')"
      "sound sha request oracle x p'" "pg_current p' = pg_current p" "pg_digest p' = pg_digest p"
      "pg_steps p' = pg_steps p @ [s]" "refused oracle p u s"
    | (accepted) p' s w' where
      "attempt sha methods oracle request (sort (units (pg_current p))) p u w = (Inr (p', True), w')"
      "sound sha request oracle x p'" "length (units (pg_current p')) + 1 = length (units (pg_current p))"
      "pg_steps p' = pg_steps p @ [s]" "accepted_step s"
proof -
  note inv = p [unfolded sound_def replays_def]
  have wf: "wf (pg_current p)" using inv by simp
  obtain y where y: "remove (pg_current p) u = Inr (Some y)" "wf y" "bytes y \<noteq> bytes (pg_current p)"
    "(validate_single_removal (sort (units (pg_current p))) u (units y) :: 'e reduce_error option) = None"
    "set (units y) = set (units (pg_current p)) - {u}" "length (units y) + 1 = length (units (pg_current p))"
    by (rule removal [OF wf u])
  have fresh: "sha (bytes y) \<noteq> pg_digest p"
    using apart u y(1,3) inv unfolding removal_collides_def collides_def by metis
  obtain o1 w' where o: "oracle y w = (Inr o1, w')"
    "validate_bound_observation sha o1 (rq_relation_digest request) (rq_privacy_policy_digest request) = None"
    by (rule honestD [OF honest])
  have further: "reached units remove x y"
    by (rule reached_remove) (use inv u y(1) in blast)+
  let ?s = "removal_step p u (sha (bytes y)) o1"
  let ?p = "p\<lparr>pg_current := (if preserving o1 then y else pg_current p),
        pg_digest := (if preserving o1 then sha (bytes y) else pg_digest p),
        pg_steps := pg_steps p @ [?s], pg_evaluations := pg_evaluations p + 1\<rparr>"
  have digest: "pg_digest p = sha (bytes (pg_current p))" using inv by simp
  have checked: "(check_observation sha request o1 :: 'e reduce_error option) = None"
    using o(2) by (simp add: check_observation_iff)
  have run: "attempt sha methods oracle request (sort (units (pg_current p))) p u w = (Inr (?p, preserving o1), w')"
    by (rule attempt_result) (fact wf y digest fresh o checked budget)+
  have d: "valid_digest (pg_digest p)" using inv hex by simp
  have "replays sha request x ?p"
    using inv y(5,6) replay_removal [OF wf u hex d fresh o(2)]
    by (auto simp: replays_def replay_steps_append)
  then have sound: "sound sha request oracle x ?p"
    using inv y(2) o(1) further by (auto simp: sound_def answers_def)
  show ?thesis
  proof (cases "preserving o1")
    case True
    then show ?thesis
      using accepted [of ?p w' ?s] run sound y(6) by (simp add: removal_step_def)
  next
    case False
    have "refused oracle p u ?s"
      using False y(1) o(1) by (auto simp: refused_def answers_def removal_step_def step_unit_def)
    then show ?thesis
      using refused [of ?p w' ?s] run sound False by simp
  qed
qed


lemma refused_same:
  "pg_current p' = pg_current p \<Longrightarrow> pg_digest p' = pg_digest p \<Longrightarrow> refused oracle p' = refused oracle p"
  by (simp add: refused_def fun_eq_iff)

lemma pass_honest:
  assumes "sound sha request oracle x p" and "set us \<subseteq> set (units (pg_current p))"
    and "pg_evaluations p + int (length us) \<le> rq_maximum_evaluations request"
    and honest: "honest sha request oracle" and hex: "\<And>s. valid_digest (sha s)" and apart: "\<not> removal_collides bytes units remove sha x"
  shows "\<exists>p' accepted w' new.
    reduction_pass sha methods oracle request (sort (units (pg_current p))) p us w = (Inr (p', accepted), w') \<and>
    sound sha request oracle x p' \<and> pg_steps p' = pg_steps p @ new \<and> length new \<le> length us \<and>
    (if accepted then length (units (pg_current p')) + 1 = length (units (pg_current p)) \<and>
       new \<noteq> [] \<and> accepted_step (last new)
     else pg_current p' = pg_current p \<and> pg_digest p' = pg_digest p \<and> list_all2 (refused oracle p) us new)"
  using assms(1-3)
proof (induction us arbitrary: p w)
  case Nil
  then show ?case by (intro exI [of _ p] exI [of _ False] exI [of _ w] exI [of _ "[]"]) (simp add: give_def)
next
  case (Cons u us)
  have "u \<in> set (units (pg_current p))" and "pg_evaluations p < rq_maximum_evaluations request"
    using Cons.prems by simp_all
  from Cons.prems(1) this honest hex apart show ?case
  proof (cases rule: attempt_honest [where w = w])
    case (refused p1 s w1)
    have "pg_evaluations p1 + int (length us) \<le> rq_maximum_evaluations request"
      using Cons.prems(1,3) refused(2,5) by (simp add: sound_def)
    moreover have "set us \<subseteq> set (units (pg_current p1))" using Cons.prems(2) refused(3) by simp
    ultimately obtain p' b w' new where
      "reduction_pass sha methods oracle request (sort (units (pg_current p1))) p1 us w1 = (Inr (p', b), w')"
      and "sound sha request oracle x p'" and "pg_steps p' = pg_steps p1 @ new" and "length new \<le> length us"
      and "if b then length (units (pg_current p')) + 1 = length (units (pg_current p1)) \<and>
          new \<noteq> [] \<and> accepted_step (last new)
        else pg_current p' = pg_current p1 \<and> pg_digest p' = pg_digest p1 \<and> list_all2 (refused oracle p1) us new"
      using Cons.IH [OF refused(2), of w1] by blast
    moreover have "reduction_pass sha methods oracle request (sort (units (pg_current p))) p (u # us) w =
        reduction_pass sha methods oracle request (sort (units (pg_current p))) p1 us w1"
      using refused(1) by (simp add: andthen_def)
    ultimately show ?thesis
      using refused(3-6) refused_same [OF refused(3,4), of "oracle"]
      by (intro exI [of _ p'] exI [of _ b] exI [of _ w'] exI [of _ "s # new"]) (simp split: if_splits)
  next
    case (accepted p' s w')
    then show ?thesis
      by (intro exI [of _ p'] exI [of _ True] exI [of _ w'] exI [of _ "[s]"]) (simp add: andthen_def give_def)
  qed
qed


lemma triangle: "2 * int k \<le> int k * (int k + 1)" "2 * k \<le> k * (k + 1)"
proof -
  show "2 * k \<le> k * (k + 1)" by (cases k) auto
  then have "int (2 * k) \<le> int (k * (k + 1))" by (simp only: of_nat_le_iff)
  then show "2 * int k \<le> int k * (int k + 1)" by (simp add: algebra_simps)
qed

lemma loop_honest:
  assumes "sound sha request oracle x p" and "k = length (units (pg_current p))"
    and "2 * pg_evaluations p + int k * (int k + 1) \<le> 2 * rq_maximum_evaluations request"
    and "pg_steps p = [] \<or> accepted_step (last (pg_steps p))"
    and honest: "honest sha request oracle" and hex: "\<And>s. valid_digest (sha s)" and apart: "\<not> removal_collides bytes units remove sha x"
  shows "\<exists>p' w' front tail. reduce_loop sha methods oracle request p w = (Inr p', w') \<and>
    sound sha request oracle x p' \<and> pg_steps p' = front @ tail \<and> (front = [] \<or> accepted_step (last front)) \<and>
    list_all2 (refused oracle p') (sort (units (pg_current p'))) tail \<and>
    2 * length (pg_steps p') \<le> 2 * length (pg_steps p) + k * (k + 1)"
  using assms(1-4)
proof (induction k arbitrary: p w rule: less_induct)
  case (less k)
  have "pg_evaluations p + int k \<le> rq_maximum_evaluations request"
    using less.prems(3) triangle(1) [of k] by linarith
  then obtain p1 b w1 new where pass: "reduction_pass sha methods oracle request (sort (units (pg_current p))) p
        (sort (units (pg_current p))) w = (Inr (p1, b), w1)"
    and p1: "sound sha request oracle x p1" "pg_steps p1 = pg_steps p @ new" "length new \<le> k"
    and finish: "if b then length (units (pg_current p1)) + 1 = length (units (pg_current p)) \<and>
        new \<noteq> [] \<and> accepted_step (last new)
      else pg_current p1 = pg_current p \<and> pg_digest p1 = pg_digest p \<and>
        list_all2 (refused oracle p) (sort (units (pg_current p))) new"
    using pass_honest [OF less.prems(1), of "sort (units (pg_current p))"] less.prems(2) honest hex apart
    by (metis length_sort set_sort subset_refl)
  have step: "reduce_loop sha methods oracle request p w =
      (if b then reduce_loop sha methods oracle request p1 w1 else (Inr p1, w1))"
    using pass by (simp add: canonical_reduction_units_def reduce_loop.simps [of _ _ _ _ p])
  show ?case
  proof (cases b)
    case True
    with finish less.prems(2) obtain j where j: "k = j + 1" "j = length (units (pg_current p1))" by simp
    have e: "pg_evaluations p1 \<le> pg_evaluations p + int k" "length (pg_steps p1) \<le> length (pg_steps p) + k"
      using p1 less.prems(1) by (simp_all add: sound_def)
    have "2 * pg_evaluations p1 + int j * (int j + 1) \<le> 2 * rq_maximum_evaluations request"
      using less.prems(3) e(1) unfolding j(1) by (simp add: algebra_simps)
    moreover have "pg_steps p1 = [] \<or> accepted_step (last (pg_steps p1))"
      using finish True p1(2) by simp
    ultimately obtain p' w' front tail where r: "reduce_loop sha methods oracle request p1 w1 = (Inr p', w')"
      "sound sha request oracle x p'" "pg_steps p' = front @ tail" "front = [] \<or> accepted_step (last front)"
      "list_all2 (refused oracle p') (sort (units (pg_current p'))) tail"
      "2 * length (pg_steps p') \<le> 2 * length (pg_steps p1) + j * (j + 1)"
      using less.IH [OF _ p1(1) j(2), of w1] j(1) by fastforce
    have "2 * length (pg_steps p') \<le> 2 * length (pg_steps p) + k * (k + 1)"
      using r(6) e(2) unfolding j(1) by (simp add: algebra_simps)
    with r step True show ?thesis by auto
  next
    case False
    then have "list_all2 (refused oracle p1) (sort (units (pg_current p1))) new"
      using finish refused_same [of p1 p "oracle"] by simp
    moreover have "2 * length new \<le> k * (k + 1)"
      by (rule order_trans [OF _ triangle(2)]) (use p1(3) in simp)
    then have "2 * length (pg_steps p1) \<le> 2 * length (pg_steps p) + k * (k + 1)"
      using p1(2) by simp
    ultimately show ?thesis using step False p1(1,2) less.prems(4) by auto
  qed
qed

end

end
