(* ===== verification/ReducerSound.thy ===== *)
theory ReducerSound
  imports ReducerLaws
begin

lemma tail_of_trace:
  assumes "front = [] \<or> accepted_step (last front)" and "\<forall>s \<in> set tail. \<not> accepted_step s"
  shows "drop (nat (last_accepted (front @ tail) + 1)) (front @ tail) = tail"
proof -
  have "last_accepted front = int (length front) - 1"
  proof (cases front rule: rev_cases)
    case Nil
    then show ?thesis by (simp add: last_accepted_def)
  next
    case (snoc xs s)
    then show ?thesis using assms(1) by (simp add: last_accepted_snoc)
  qed
  then show ?thesis using last_accepted_rejected [OF assms(2), of front] by simp
qed

lemma copy_slice_elems [simp]: "elems (copy_slice s) = elems s"
  by (simp add: copy_slice_def)

lemma counterexample_digest_field [simp]: "counterexample_digest sha (c\<lparr>cx_digest := d\<rparr>) = counterexample_digest sha c"
  by (simp add: counterexample_digest_def)

lemma count_accepted_units: "count_accepted steps = int (length (accepted_units steps))"
  by (simp add: count_accepted_def accepted_units_def)

lemma sort_empty [simp]: "sort xs = [] \<longleftrightarrow> xs = []"
  by (metis length_0_conv length_sort)

text \<open>
  An input that the oracle was seen to find violating, while for every unit it was seen to
  refuse the input without the unit.
\<close>

definition one_minimal ::
  "('i \<Rightarrow> reduction_unit list) \<Rightarrow> ('i \<Rightarrow> reduction_unit \<Rightarrow> 'e + 'i option) \<Rightarrow> ('w, 'i, 'e) reduction_oracle \<Rightarrow>
   'i \<Rightarrow> bool" where
  "one_minimal units remove oracle y \<longleftrightarrow> answers oracle y True \<and>
     (\<forall>u \<in> set (units y). \<exists>z. remove y u = Inr (Some z) \<and> answers oracle z False)"

definition request_valid :: "('w, 'i, 'e) reduction_request \<Rightarrow> bool" where
  "request_valid request \<longleftrightarrow> valid_digest (rq_relation_digest request) \<and>
     valid_digest (rq_source_result_digest request) \<and> identifier_pattern (rq_case_id request) \<and>
     valid_digest (rq_privacy_policy_digest request)"

context reducible
begin

text \<open>What the loop leaves is sealed as a counterexample that validates.\<close>

lemma sealed_valid:
  assumes x: "wf x" "units x \<noteq> []" and p: "sound sha request oracle x p"
    and steps: "pg_steps p = front @ tail" "front = [] \<or> accepted_step (last front)"
    and tail: "list_all2 (refused oracle p) (sort (units (pg_current p))) tail"
    and ids: "valid_digest (rq_relation_digest request)" "valid_digest (rq_source_result_digest request)"
      "identifier_pattern (rq_case_id request)" "valid_digest (rq_privacy_policy_digest request)"
    and hex: "\<And>s. valid_digest (sha s)"
    and o1: "validate_bound_observation sha o1 (rq_relation_digest request) (rq_privacy_policy_digest request) = None"
      "preserving o1"
    and c: "cx_relation_digest c = rq_relation_digest request" "cx_source_result_digest c = rq_source_result_digest request"
      "cx_case_id c = rq_case_id request" "cx_original_input_digest c = sha (bytes x)"
      "cx_reduced_input_digest c = pg_digest p" "cx_privacy_policy_digest c = rq_privacy_policy_digest request"
      "cx_algorithm c = DeterministicRestartGreedy" "cx_minimality c = ReductionOneMinimal"
      "cx_original_units c = Some (sort (units x))" "cx_final_units c = Some (sort (units (pg_current p)))"
      "cx_original_observation c = o1" "cx_steps c = Some (pg_steps p)"
  shows "\<exists>d. seal_counterexample sha c = Inr d \<and> elems (cx_final_units d) = sort (units (pg_current p)) \<and>
    cx_reduced_input_digest d = pg_digest p \<and> elems (cx_steps d) = pg_steps p"
proof -
  note inv = p [unfolded sound_def]
  have wf: "wf (pg_current p)" using inv by simp
  have replay: "replay_steps sha (rq_relation_digest request) (rq_privacy_policy_digest request) 0 (start_trace sha x) (pg_steps p) =
      Inr \<lparr> tr_current = pg_digest p, tr_accepted = int (length (units x)) - int (length (units (pg_current p))),
        tr_retained = set (units (pg_current p)) \<rparr>"
    using inv by (simp add: replays_def)
  note r = replay_stepsD [OF replay, simplified]
  have rejected: "\<forall>s \<in> set tail. \<not> accepted_step s \<and> rs_before_digest s = pg_digest p"
    using tail by (auto simp: list_all2_conv_all_nth in_set_conv_nth refused_def)
  have count: "count_accepted (pg_steps p) = int (length (units x)) - int (length (units (pg_current p)))"
    using r(6) by (simp add: count_accepted_units start_trace_def)
  have nonempty: "pg_steps p \<noteq> []"
  proof
    assume none: "pg_steps p = []"
    then have "units (pg_current p) = []" using steps(1) tail by simp
    moreover have "count_accepted (pg_steps p) = 0" using none by (simp add: count_accepted_def)
    ultimately show False using count x(2) by simp
  qed
  have still: "pg_digest p = sha (bytes x)" if "count_accepted (pg_steps p) = 0"
  proof -
    have "front = []"
      using that steps by (cases front rule: rev_cases) (auto simp: count_accepted_def)
    then show ?thesis
      using nonempty steps(1) rejected r(2) by (cases tail) (auto simp: start_trace_def)
  qed
  have tail_ok: "validate_one_minimal_tail d = None"
    if "elems (cx_steps d) = pg_steps p" "elems (cx_final_units d) = sort (units (pg_current p))"
      "cx_reduced_input_digest d = pg_digest p" for d
  proof -
    have "drop (nat (last_accepted (pg_steps p) + 1)) (pg_steps p) = tail"
      unfolding steps(1) by (rule tail_of_trace [OF steps(2)]) (use rejected in blast)
    note at = this
    have "\<forall>(u, s) \<in> set (zip (sort (units (pg_current p))) tail). refused oracle p u s"
      using tail by (simp add: list_all2_iff)
    moreover have "length tail = length (sort (units (pg_current p)))"
      using tail by (simp add: list_all2_iff)
    ultimately show ?thesis
      unfolding validate_one_minimal_tail_def Let_def that at
      by (force simp: refused_def step_unit_def)
  qed
  let ?c = "c\<lparr>cx_schema_version := CounterexampleSchemaVersion, cx_canonical_policy := ReductionCanonicalPolicy,
      cx_steps := copy_slice (cx_steps c), cx_original_units := sort_slice id (copy_slice (cx_original_units c)),
      cx_final_units := sort_slice id (copy_slice (cx_final_units c)),
      cx_accepted_reductions := count_accepted (elems (cx_steps c)), cx_digest := []\<rparr>"
  let ?d = "?c\<lparr>cx_digest := counterexample_digest sha ?c\<rparr>"
  have fields: "elems (cx_steps ?d) = pg_steps p" "elems (cx_final_units ?d) = sort (units (pg_current p))"
    "elems (cx_original_units ?d) = sort (units x)" "cx_reduced_input_digest ?d = pg_digest p"
    "cx_accepted_reductions ?d = count_accepted (pg_steps p)"
    using c by (simp_all add: sort_key_id_if_sorted)
  have units: "validate_reduction_units (sort (units x)) True = None"
    "validate_reduction_units (sort (units (pg_current p))) False = None"
    using units_valid [OF x(1)] units_valid [OF wf] x(2) by (simp_all add: valid_units_iff)
  have "counterexample_validate sha ?d = None"
    unfolding counterexample_validate_def first_err_Cons_None
  proof (intro conjI)
    show "fail_if (cx_schema_version ?d \<noteq> CounterexampleSchemaVersion \<or> cx_canonical_policy ?d \<noteq> ReductionCanonicalPolicy \<or>
           \<not> valid_digest (cx_relation_digest ?d) \<or> \<not> valid_digest (cx_source_result_digest ?d) \<or>
           \<not> identifier_pattern (cx_case_id ?d) \<or> \<not> valid_digest (cx_original_input_digest ?d) \<or>
           \<not> valid_digest (cx_reduced_input_digest ?d) \<or> \<not> valid_digest (cx_privacy_policy_digest ?d) \<or>
           cx_algorithm ?d \<noteq> DeterministicRestartGreedy \<or> cx_minimality ?d \<noteq> ReductionOneMinimal \<or>
           elems (cx_steps ?d) = [] \<or> cx_accepted_reductions ?d < 0) CounterexampleIdentityInvalid = None"
      using c ids hex nonempty inv by (simp add: count_accepted_def)
    show "validate_one_minimal_tail ?d = None" by (rule tail_ok) (use fields in simp_all)
  qed (use c ids o1 units fields replay count still in \<open>simp_all add: start_trace_def same_reduction_unit_set_def distinct_card
        units_distinct wf\<close>)
  then have "seal_counterexample sha c = Inr ?d" by (simp add: seal_counterexample_def Let_def)
  then show ?thesis using fields by blast
qed


lemma request_accepted:
  assumes "wf x" and "units x \<noteq> []" and "request_valid request"
    and "rq_input request = Some x" and "rq_oracle request = Some oracle"
    and "length (units x) \<le> MaximumReductionUnits"
    and "int (length (units x)) * (int (length (units x)) + 1) div 2 \<le> rq_maximum_evaluations request"
  shows "validate_reduction_request methods request w = (Inr (sort (units x)), w)"
proof -
  have "validate_reduction_units (sort (units x)) True = None"
    using units_valid [OF assms(1)] assms(2) by (simp add: valid_units_iff)
  then show ?thesis
    using assms(3-7)
    by (simp add: validate_reduction_request_def request_valid_def andthen_def canonical_reduction_units_def
        check_that_def give_def Let_def map_err_def fail_if_def)
qed

lemma reduces:
  assumes x: "wf x" "units x \<noteq> []" "length (units x) \<le> MaximumReductionUnits"
    and request: "request_valid request" "rq_input request = Some x" "rq_oracle request = Some oracle"
    and budget: "int (length (units x)) * (int (length (units x)) + 1) div 2 \<le> rq_maximum_evaluations request"
    and honest: "honest sha request oracle" and hex: "\<And>s. valid_digest (sha s)" and apart: "\<not> removal_collides bytes units remove sha x"
    and violates: "oracle x w = (Inr o1, w1)" "preserving o1"
  shows "\<exists>c w' y. reduce_counterexample sha methods request w = (Inr c, w') \<and> wf y \<and>
    one_minimal units remove oracle y \<and> elems (cx_final_units c) = sort (units y) \<and>
    cx_reduced_input_digest c = sha (bytes y) \<and>
    2 * length (elems (cx_steps c)) \<le> length (units x) * (length (units x) + 1)"
proof -
  let ?p = "\<lparr> pg_current = x, pg_digest = sha (bytes x), pg_steps = [], pg_evaluations = 0 \<rparr>"
  obtain o2 w2 where "oracle x w = (Inr o2, w2)"
    and "validate_bound_observation sha o2 (rq_relation_digest request) (rq_privacy_policy_digest request) = None"
    by (rule honestD [OF honest])
  then have o1: "validate_bound_observation sha o1 (rq_relation_digest request) (rq_privacy_policy_digest request) = None"
    using violates(1) by simp
  have "sound sha request oracle x ?p"
    using x(1) violates reached_start by (auto simp: sound_def replays_def start_trace_def answers_def)
  moreover have "2 * (int (length (units x)) * (int (length (units x)) + 1) div 2) =
      int (length (units x)) * (int (length (units x)) + 1)"
    by (rule even_two_times_div_two) simp
  then have "2 * pg_evaluations ?p + int (length (units x)) * (int (length (units x)) + 1) \<le>
      2 * rq_maximum_evaluations request"
    using mult_left_mono [OF budget, of 2] by simp
  ultimately obtain p w' front tail where loop: "reduce_loop sha methods oracle request ?p w1 = (Inr p, w')"
    and p: "sound sha request oracle x p" "pg_steps p = front @ tail" "front = [] \<or> accepted_step (last front)"
      "list_all2 (refused oracle p) (sort (units (pg_current p))) tail"
    and size: "2 * length (pg_steps p) \<le> length (units x) * (length (units x) + 1)"
    using loop_honest [OF _ _ _ _ honest hex apart, of ?p "length (units x)" w1] by fastforce
  have "wf (pg_current p)" "pg_digest p = sha (bytes (pg_current p))" "answers oracle (pg_current p) True"
    using p(1) by (simp_all add: sound_def)
  moreover have "\<exists>z. remove (pg_current p) u = Inr (Some z) \<and> answers oracle z False"
    if u: "u \<in> set (units (pg_current p))" for u
    using p(4) u by (metis in_set_conv_nth list_all2_conv_all_nth refused_def set_sort)
  ultimately have y: "wf (pg_current p)" "one_minimal units remove oracle (pg_current p)"
    "pg_digest p = sha (bytes (pg_current p))"
    by (auto simp: one_minimal_def)
  let ?c = "\<lparr> cx_schema_version = [], cx_canonical_policy = [],
      cx_relation_digest = rq_relation_digest request,
      cx_source_result_digest = rq_source_result_digest request, cx_case_id = rq_case_id request,
      cx_original_input_digest = sha (bytes x), cx_reduced_input_digest = pg_digest p,
      cx_privacy_policy_digest = rq_privacy_policy_digest request,
      cx_public_release_allowed = rq_public_release_allowed request, cx_algorithm = DeterministicRestartGreedy,
      cx_minimality = ReductionOneMinimal, cx_original_units = Some (sort (units x)),
      cx_final_units = Some (sort (units (pg_current p))), cx_original_observation = o1,
      cx_steps = Some (pg_steps p), cx_accepted_reductions = 0, cx_digest = [] \<rparr>"
  obtain d where seal: "seal_counterexample sha ?c = Inr d" and d: "elems (cx_final_units d) = sort (units (pg_current p))"
    "cx_reduced_input_digest d = pg_digest p" "elems (cx_steps d) = pg_steps p"
    using sealed_valid [OF x(1,2) p _ _ _ _ hex o1 violates(2), of ?c] request(1)
    unfolding request_valid_def by auto
  have preserved: "(validate_preserving_observation sha request o1 :: 'e reduce_error option) = None"
    using o1 violates(2) by (simp add: validate_preserving_observation_def check_observation_iff)
  have "reduce_counterexample sha methods request w = (Inr d, w')"
    using request_accepted [OF x(1,2) request x(3) budget] request(2,3) violates(1) loop seal preserved x(1)
    by (simp add: reduce_counterexample_def andthen_def wrap_err_def check_that_def give_def digest_method
        canonical_reduction_units_def map_err_def fail_if_def)
  then show ?thesis using y d size by auto
qed

end

end
