(* ===== verification/CaseInput.thy ===== *)
theory CaseInput
  imports ReducerSound
begin

text \<open>
  The input that internal/stress/development_case_study.go reduces: the lines of two trajectory
  files.  It keeps the contract of the reducer, so its reduction always ends well.
\<close>

record case_line =
  cl_unit_id :: string
  cl_trajectory :: string
  cl_fixture_path :: string
  cl_line :: int
  cl_content :: string

record case_input =
  ci_lines :: "case_line list"

definition DevelopmentTrajectoryAPath :: string where
  "DevelopmentTrajectoryAPath = ''scripts/tests/sample-traj-a.txt''"

definition DevelopmentTrajectoryBPath :: string where
  "DevelopmentTrajectoryBPath = ''scripts/tests/sample-traj-b.txt''"

text \<open>\<open>%03d\<close> of a positive number.\<close>

definition pad3 :: "nat \<Rightarrow> string" where
  "pad3 n = replicate (3 - length (nat_text n)) (CHR ''0'') @ nat_text n"

definition trim_newline :: "string \<Rightarrow> string" where
  "trim_newline s = (if s \<noteq> [] \<and> last s = CHR 0x0A then butlast s else s)"

definition development_lines :: "string \<Rightarrow> string \<Rightarrow> string \<Rightarrow> case_line list" where
  "development_lines trajectory path raw =
     map (\<lambda>(index, content). \<lparr> cl_unit_id = ''trajectory-'' @ trajectory @ ''-line-'' @ pad3 (index + 1),
         cl_trajectory = trajectory, cl_fixture_path = path, cl_line = int index + 1, cl_content = content \<rparr>)
       (enumerate 0 (split_on (CHR 0x0A) (trim_newline raw)))"

definition line_unit :: "case_line \<Rightarrow> reduction_unit" where
  "line_unit l = ReductionUnit ''fixture_line'' (cl_unit_id l)"

definition decisive_units :: "case_input \<Rightarrow> reduction_unit list" where
  "decisive_units input = sort (map line_unit (filter (\<lambda>l.
     cl_trajectory l = ''a'' \<and> cl_content l = ''5'' \<or> cl_trajectory l = ''b'' \<and> cl_content l = ''-1'') (ci_lines input)))"

definition new_development_case_input :: "string \<Rightarrow> string \<Rightarrow> case_input option" where
  "new_development_case_input a b =
     (let input = \<lparr> ci_lines = development_lines ''a'' DevelopmentTrajectoryAPath a @
            development_lines ''b'' DevelopmentTrajectoryBPath b \<rparr>
      in if ci_lines input = [] \<or> length (decisive_units input) \<noteq> 2 then None else Some input)"

definition line_json :: "case_line \<Rightarrow> json" where
  "line_json l = JObj [(''unit_id'', JStr (cl_unit_id l)), (''trajectory'', JStr (cl_trajectory l)),
     (''fixture_path'', JStr (cl_fixture_path l)), (''line'', json_int (cl_line l)), (''content'', JStr (cl_content l))]"

definition case_bytes :: "case_input \<Rightarrow> string" where
  "case_bytes input = json_marshal (JObj [(''lines'', JArr (map line_json (ci_lines input)))])"

definition case_units :: "case_input \<Rightarrow> reduction_unit list" where
  "case_units input = map line_unit (ci_lines input)"

text \<open>\<open>Remove\<close>; a slice is made with one element less than there are lines, which panics when there are none.\<close>

datatype case_error = WrongUnitKind | UnitNotRetained | NegativeCapacity

definition case_remove :: "case_input \<Rightarrow> reduction_unit \<Rightarrow> case_error + case_input option" where
  "case_remove input removed =
     (if unit_kind removed \<noteq> ''fixture_line'' then Inl WrongUnitKind
      else if ci_lines input = [] then Inl NegativeCapacity
      else if \<not> (\<exists>l \<in> set (ci_lines input). cl_unit_id l = unit_id removed) then Inl UnitNotRetained
      else Inr (Some \<lparr> ci_lines = filter (\<lambda>l. cl_unit_id l \<noteq> unit_id removed) (ci_lines input) \<rparr>))"

definition case_well_formed :: "case_input \<Rightarrow> bool" where
  "case_well_formed input \<longleftrightarrow>
     distinct (map cl_unit_id (ci_lines input)) \<and> (\<forall>l \<in> set (ci_lines input). identifier_pattern (cl_unit_id l))"

section \<open>The contract holds\<close>

lemma commas_length: "xs \<noteq> [] \<Longrightarrow> length (commas xs) + 1 = sum_list (map length xs) + length xs"
  by (induction xs rule: commas.induct) auto

lemma commas_shorter:
  assumes "x \<in> set xs" and "\<not> P x" and "\<And>x. f x \<noteq> []"
  shows "length (commas (map f (filter P xs))) < length (commas (map f xs))"
proof -
  let ?size = "\<lambda>ys. sum_list (map (\<lambda>y. length (f y)) ys) + length ys"
  have le: "?size (filter P ys) \<le> ?size ys" for ys by (induction ys) auto
  have "?size (filter P xs) + 2 \<le> ?size xs"
    using assms(1)
  proof (induction xs)
    case (Cons y xs)
    show ?case
    proof (cases "x = y")
      case True
      then show ?thesis using assms(2) assms(3) [of y] le [of xs] by (cases "f y") auto
    next
      case False
      then show ?thesis using Cons by auto
    qed
  qed simp
  moreover have "xs \<noteq> []" using assms(1) by auto
  ultimately show ?thesis
    using commas_length [of "map f xs"] commas_length [of "map f (filter P xs)"]
    by (cases "filter P xs = []") (auto simp: comp_def)
qed

lemma line_json_nonempty: "json_marshal (line_json l) \<noteq> []"
  by (simp add: line_json_def)

lemma fixture_kind: "identifier_pattern ''fixture_line''"
  by code_simp

lemma case_removal_shorter:
  assumes "l \<in> set (ci_lines input)" and "\<not> P l"
  shows "length (case_bytes \<lparr> ci_lines = filter P (ci_lines input) \<rparr>) < length (case_bytes input)"
  using commas_shorter [of l "ci_lines input" P "json_marshal \<circ> line_json"] assms line_json_nonempty
  by (simp add: case_bytes_def comp_def)

lemma removed_shorter:
  assumes "case_remove x u = Inr (Some y)"
  shows "length (case_bytes y) < length (case_bytes x)"
  using assms case_removal_shorter [of _ x "\<lambda>k. cl_unit_id k \<noteq> unit_id u"]
  by (auto simp: case_remove_def split: if_splits)

lemma case_units_filter:
  "map line_unit (filter (\<lambda>l. cl_unit_id l \<noteq> i) ls) = filter (\<lambda>u. u \<noteq> ReductionUnit ''fixture_line'' i) (map line_unit ls)"
  by (induction ls) (auto simp: line_unit_def)

interpretation fixture_lines: reducible case_bytes case_units case_remove case_well_formed
proof
  fix x u
  assume wf: "case_well_formed x"
  have "distinct (case_units x)"
    using wf by (simp add: case_well_formed_def case_units_def comp_def line_unit_def distinct_map inj_on_def)
  then show "validate_reduction_units (sort (case_units x)) False = None"
    using wf fixture_kind by (auto simp: valid_units_iff case_well_formed_def case_units_def line_unit_def)
  show "case_bytes x \<noteq> []" by (simp add: case_bytes_def)
  assume "u \<in> set (case_units x)"
  then obtain l where l: "l \<in> set (ci_lines x)" "u = line_unit l" by (auto simp: case_units_def)
  let ?y = "\<lparr> ci_lines = filter (\<lambda>k. cl_unit_id k \<noteq> unit_id u) (ci_lines x) \<rparr>"
  have "case_remove x u = Inr (Some ?y)"
    using l by (auto simp: case_remove_def line_unit_def)
  moreover have "case_well_formed ?y"
    using wf by (auto simp: case_well_formed_def distinct_map_filter)
  moreover have "case_bytes ?y \<noteq> case_bytes x"
    using case_removal_shorter [of l x "\<lambda>k. cl_unit_id k \<noteq> unit_id u"] l by (auto simp: line_unit_def)
  moreover have "sort (case_units ?y) = filter (\<lambda>v. v \<noteq> u) (sort (case_units x))"
    using l(2) case_units_filter [of "unit_id u" "ci_lines x"]
    by (simp add: case_units_def filter_sort line_unit_def)
  ultimately show "\<exists>y. case_remove x u = Inr (Some y) \<and> case_well_formed y \<and> case_bytes y \<noteq> case_bytes x \<and>
      sort (case_units y) = filter (\<lambda>v. v \<noteq> u) (sort (case_units x))" by blast
qed


section \<open>The inputs the program builds keep it\<close>

lemma nat_text_short: "0 < k \<Longrightarrow> n < 10 ^ k \<Longrightarrow> length (nat_text n) \<le> k"
proof (induction k arbitrary: n)
  case (Suc k)
  show ?case
  proof (cases "n < 10")
    case True
    then show ?thesis by (subst nat_text.simps) simp
  next
    case False
    then have "k \<noteq> 0" using Suc.prems(2) by (cases k) auto
    moreover have "n div 10 < 10 ^ k" using Suc.prems(2) by (simp add: div_less_iff_less_mult)
    ultimately have "length (nat_text (n div 10)) \<le> k" using Suc.IH by simp
    then show ?thesis using False by (subst nat_text.simps) simp
  qed
qed simp

lemma decimal_zeros: "decimal_value (replicate k (CHR ''0'') @ s) = decimal_value s"
  by (induction k) (simp_all add: decimal_value_def digit_value_def)

lemma pad3_inject: "pad3 m = pad3 n \<Longrightarrow> m = n"
  unfolding pad3_def by (metis decimal_zeros nat_text_digits(4) of_nat_eq_iff)


definition line_id :: "string \<Rightarrow> nat \<Rightarrow> string" where
  "line_id t n = ''trajectory-'' @ t @ ''-line-'' @ pad3 n"

lemma line_id_inject: "line_id t m = line_id t n \<longleftrightarrow> m = n"
  using pad3_inject by (auto simp: line_id_def)

lemma line_id_apart: "line_id ''a'' m \<noteq> line_id ''b'' n"
  by (simp add: line_id_def)

lemma line_ids: "map cl_unit_id (development_lines t path raw) =
    map (\<lambda>i. line_id t (i + 1)) [0..<length (split_on (CHR 0x0A) (trim_newline raw))]"
  by (rule nth_equalityI) (simp_all add: development_lines_def line_id_def nth_enumerate_eq)

lemma pad3_pattern: "list_all pattern_tail (pad3 n)"
  using nat_text_digits(2) [of n]
  by (auto simp: pad3_def list_all_iff pattern_tail_def pattern_head_def is_digit_def char_between_def less_eq_char_def)

lemma line_id_pattern:
  assumes "n < 10000" and "t = ''a'' \<or> t = ''b''"
  shows "identifier_pattern (line_id t n)"
proof -
  have "length (pad3 n) \<le> 4"
    using nat_text_short [of 4 n] nat_text_digits(1) [of n] assms(1) by (auto simp: pad3_def)
  then show ?thesis
    using assms(2) pad3_pattern
    by (auto simp: line_id_def identifier_pattern_def pattern_tail_def pattern_head_def is_lower_def is_digit_def
        char_between_def less_eq_char_def)
qed

lemma built_well_formed:
  assumes "new_development_case_input a b = Some x" and "length (ci_lines x) \<le> MaximumReductionUnits"
  shows "case_well_formed x" and "case_units x \<noteq> []"
proof -
  have x: "ci_lines x = development_lines ''a'' DevelopmentTrajectoryAPath a @ development_lines ''b'' DevelopmentTrajectoryBPath b"
    and n: "ci_lines x \<noteq> []"
    using assms(1) by (auto simp: new_development_case_input_def Let_def split: if_splits)
  then show "case_units x \<noteq> []" by (simp add: case_units_def)
  let ?ids = "\<lambda>t k. map (\<lambda>i. line_id t (i + 1)) [0..<k]"
  have ids: "map cl_unit_id (ci_lines x) = ?ids ''a'' (length (split_on (CHR 0x0A) (trim_newline a))) @
      ?ids ''b'' (length (split_on (CHR 0x0A) (trim_newline b)))"
    unfolding x map_append line_ids ..
  have dist: "distinct (?ids t k)" for t k
    by (auto simp: distinct_map inj_on_def line_id_inject)
  have "distinct (map cl_unit_id (ci_lines x))"
    unfolding ids distinct_append by (intro conjI dist) (auto simp: line_id_apart)
  moreover have "identifier_pattern i" if "i \<in> set (map cl_unit_id (ci_lines x))" for i
  proof -
    have "length (split_on (CHR 0x0A) (trim_newline a)) + length (split_on (CHR 0x0A) (trim_newline b)) \<le> 4096"
      using assms(2) unfolding x by (simp add: development_lines_def MaximumReductionUnits_def)
    then show ?thesis using that unfolding ids by (auto intro!: line_id_pattern)
  qed
  ultimately show "case_well_formed x" by (simp add: case_well_formed_def)
qed

end
