(* ===== verification/ReducerProps.thy ===== *)
theory ReducerProps
  imports CaseInput
begin

text \<open>
  What a counterexample proves once it validates, what the reducer guarantees however its
  input and its oracle behave, and that it completes on the fixtures of the development case.
\<close>

section \<open>Validated counterexamples\<close>

lemma counterexample_validE:
  assumes "counterexample_validate sha c = None"
  obtains t where "replay_steps sha (cx_relation_digest c) (cx_privacy_policy_digest c) 0
      \<lparr> tr_current = cx_original_input_digest c, tr_accepted = 0, tr_retained = set (elems (cx_original_units c)) \<rparr>
      (elems (cx_steps c)) = Inr t"
    and "tr_current t = cx_reduced_input_digest c"
    and "same_reduction_unit_set (tr_retained t) (elems (cx_final_units c))"
    and "validate_one_minimal_tail c = None"
    and "validate_reduction_units (elems (cx_original_units c)) True = None"
    and "validate_reduction_units (elems (cx_final_units c)) False = None"
  using assms unfolding counterexample_validate_def first_err_Cons_None
  by (elim conjE) (simp split: sum.splits)

lemma one_minimal_tail:
  assumes "validate_one_minimal_tail c = None"
  obtains front tail where "elems (cx_steps c) = front @ tail" and "map step_unit tail = elems (cx_final_units c)"
    and "\<forall>s \<in> set tail. rs_decision s = ReductionRejected \<and> rs_before_digest s = cx_reduced_input_digest c"
proof -
  let ?n = "nat (last_accepted (elems (cx_steps c)) + 1)"
  let ?tail = "drop ?n (elems (cx_steps c))"
  have len: "length ?tail = length (elems (cx_final_units c))"
    and each: "\<forall>(u, s) \<in> set (zip (elems (cx_final_units c)) ?tail). rs_decision s = ReductionRejected \<and>
      step_unit s = u \<and> rs_before_digest s = cx_reduced_input_digest c"
    using assms by (auto simp: validate_one_minimal_tail_def Let_def step_unit_def)
  have nth: "rs_decision (?tail ! i) = ReductionRejected \<and> step_unit (?tail ! i) = elems (cx_final_units c) ! i \<and>
      rs_before_digest (?tail ! i) = cx_reduced_input_digest c" if "i < length ?tail" for i
  proof -
    have "(elems (cx_final_units c) ! i, ?tail ! i) \<in> set (zip (elems (cx_final_units c)) ?tail)"
      using that len unfolding in_set_zip by auto
    from bspec [OF each this] show ?thesis by simp
  qed
  then have "map step_unit ?tail = elems (cx_final_units c)"
    using len by (intro nth_equalityI) simp_all
  moreover have "\<forall>s \<in> set ?tail. rs_decision s = ReductionRejected \<and> rs_before_digest s = cx_reduced_input_digest c"
    using nth by (metis in_set_conv_nth)
  ultimately show ?thesis using that [of "take ?n (elems (cx_steps c))" ?tail] by simp
qed

lemma mset_distinct_split:
  assumes "distinct xs" and "distinct ys" and "distinct zs" and "set zs = set xs - set ys" and "set ys \<subseteq> set xs"
  shows "mset xs = mset ys + mset zs"
proof -
  have "distinct (ys @ zs)" "set (ys @ zs) = set xs" using assms by auto
  then have "mset (ys @ zs) = mset xs" using assms(1) by (metis mset_set_set)
  then show ?thesis by simp
qed

text \<open>
  C8: the trace of a validated counterexample is complete: it splits at its last accepted
  removal into a front and a tail, the tail tries every final unit in order from the
  reduced input and each time the violation is lost, every accepted removal kept the violation, the
  digests chain from the original to the reduced input, and every original unit was
  either removed exactly once or is one of the final units.
\<close>

theorem counterexample_trace_exact:
  assumes "counterexample_validate sha c = None"
  shows "\<exists>front tail. elems (cx_steps c) = front @ tail \<and>
    map step_unit tail = elems (cx_final_units c) \<and>
    (\<forall>s \<in> set tail. rs_decision s = ReductionRejected \<and> rs_before_digest s = cx_reduced_input_digest c) \<and>
    (\<forall>s \<in> set (front @ tail). step_proves sha (cx_relation_digest c) (cx_privacy_policy_digest c) s) \<and>
    digest_chain (cx_original_input_digest c) (front @ tail) (cx_reduced_input_digest c) \<and>
    mset (elems (cx_original_units c)) = mset (accepted_units front) + mset (elems (cx_final_units c))"
proof -
  obtain t where t: "replay_steps sha (cx_relation_digest c) (cx_privacy_policy_digest c) 0
      \<lparr> tr_current = cx_original_input_digest c, tr_accepted = 0, tr_retained = set (elems (cx_original_units c)) \<rparr>
      (elems (cx_steps c)) = Inr t"
    and current: "tr_current t = cx_reduced_input_digest c"
    and same: "same_reduction_unit_set (tr_retained t) (elems (cx_final_units c))"
    and tail: "validate_one_minimal_tail c = None"
    and u: "validate_reduction_units (elems (cx_original_units c)) True = None"
      "validate_reduction_units (elems (cx_final_units c)) False = None"
    by (rule counterexample_validE [OF assms])
  note r = replay_stepsD [OF t, simplified]
  obtain front tail where steps: "elems (cx_steps c) = front @ tail"
    and units: "map step_unit tail = elems (cx_final_units c)"
    and rejected: "\<forall>s \<in> set tail. rs_decision s = ReductionRejected \<and> rs_before_digest s = cx_reduced_input_digest c"
    by (rule one_minimal_tail [OF tail])
  have "filter accepted_step tail = []" using rejected by (simp add: filter_empty_conv)
  then have accepted: "accepted_units (elems (cx_steps c)) = accepted_units front"
    unfolding steps accepted_units_def by simp
  have "distinct (elems (cx_original_units c))" "distinct (elems (cx_final_units c))"
    using u by (simp_all add: valid_units_iff)
  moreover have "set (elems (cx_final_units c)) = tr_retained t"
    using same calculation(2) r(5)
    by (intro card_subset_eq) (auto simp: same_reduction_unit_set_def distinct_card)
  ultimately have "mset (elems (cx_original_units c)) = mset (accepted_units front) + mset (elems (cx_final_units c))"
    using r(3-5) unfolding accepted by (intro mset_distinct_split) simp_all
  with steps units rejected r(1,2) current show ?thesis by metis
qed

section \<open>Whatever the input and the oracle do\<close>

lemma sealedD:
  assumes "seal_counterexample sha value = Inr c"
  shows "counterexample_validate sha c = None" and "elems (cx_steps c) = elems (cx_steps value)"
    and "cx_relation_digest c = cx_relation_digest value" and "cx_source_result_digest c = cx_source_result_digest value"
    and "cx_case_id c = cx_case_id value" and "cx_privacy_policy_digest c = cx_privacy_policy_digest value"
    and "elems (cx_original_units c) = sort (elems (cx_original_units value))"
  using assms by (auto simp: seal_counterexample_def Let_def id_def split: option.splits)

lemma attempt_steps:
  assumes "attempt sha ops oracle request units p u w = (Inr (p', accepted), w')"
  shows "length (pg_steps p') = length (pg_steps p) + 1"
  using assms by (auto simp: attempt_def andthen_Inr split: option.splits)

definition paid :: "int \<Rightarrow> 'i progress \<Rightarrow> bool" where
  "paid maximum p \<longleftrightarrow> pg_evaluations p = int (length (pg_steps p)) \<and> pg_evaluations p \<le> maximum"

lemma pass_paid:
  "reduction_pass sha ops oracle request units p us w = (Inr (p', accepted), w') \<Longrightarrow>
     paid (rq_maximum_evaluations request) p \<Longrightarrow> paid (rq_maximum_evaluations request) p'"
proof (induction us arbitrary: p w)
  case (Cons u us)
  from Cons.prems(1) obtain p1 b w1 where a: "attempt sha ops oracle request units p u w = (Inr (p1, b), w1)"
    and rest: "(if b then give (p1, True) else reduction_pass sha ops oracle request units p1 us) w1 =
      (Inr (p', accepted), w')"
    by (auto simp: andthen_Inr)
  have "paid (rq_maximum_evaluations request) p1"
    using Cons.prems(2) attempt_Inr [OF a] attempt_steps [OF a] by (simp add: paid_def)
  then show ?case using rest Cons.IH by (cases b) auto
qed simp

lemma loop_paid:
  "reduce_loop sha ops oracle request p w = (Inr p', w') \<Longrightarrow> paid (rq_maximum_evaluations request) p \<Longrightarrow>
     paid (rq_maximum_evaluations request) p'"
proof (induction sha ops "oracle" request p w rule: reduce_loop.induct)
  case (1 sha ops "oracle" request p w)
  obtain raw w1 where units: "input_units ops (pg_current p) w = (raw, w1)" by fastforce
  obtain p1 b w2 where pass: "reduction_pass sha ops oracle request (canonical_reduction_units raw) p
      (canonical_reduction_units raw) w1 = (Inr (p1, b), w2)"
    and rest: "(if b then reduce_loop sha ops oracle request p1 w2 else (Inr p1, w2)) = (Inr p', w')"
    using 1(2) units by (subst (asm) reduce_loop.simps) (auto split: prod.splits sum.splits)
  have "paid (rq_maximum_evaluations request) p1" by (rule pass_paid [OF pass 1(3)])
  then show ?case
    using 1(1) [OF units [symmetric] pass [symmetric] refl refl] rest by (cases b) auto
qed

definition assembled ::
  "('w, 'i, 'e) reduction_request \<Rightarrow> reduction_unit list \<Rightarrow> string \<Rightarrow> reduction_observation \<Rightarrow> 'i progress \<Rightarrow>
   reduction_unit list \<Rightarrow> counterexample" where
  "assembled request units original o1 p final = \<lparr> cx_schema_version = [], cx_canonical_policy = [],
     cx_relation_digest = rq_relation_digest request,
     cx_source_result_digest = rq_source_result_digest request, cx_case_id = rq_case_id request,
     cx_original_input_digest = original, cx_reduced_input_digest = pg_digest p,
     cx_privacy_policy_digest = rq_privacy_policy_digest request,
     cx_public_release_allowed = rq_public_release_allowed request, cx_algorithm = DeterministicRestartGreedy,
     cx_minimality = ReductionOneMinimal, cx_original_units = Some units,
     cx_final_units = Some (canonical_reduction_units final), cx_original_observation = o1,
     cx_steps = Some (pg_steps p), cx_accepted_reductions = 0, cx_digest = [] \<rparr>"

lemma reduce_counterexampleE:
  assumes "reduce_counterexample sha ops request w = (Inr c, w')"
  obtains units w1 input "oracle" original w2 p w3 o1 final where
    "validate_reduction_request ops request w = (Inr units, w1)"
    and "reduce_loop sha ops oracle request
      \<lparr> pg_current = input, pg_digest = original, pg_steps = [], pg_evaluations = 0 \<rparr> w2 = (Inr p, w3)"
    and "seal_counterexample sha (assembled request units original o1 p final) = Inr c"
proof (cases "rq_input request")
  case None
  then show ?thesis using assms by (simp add: reduce_counterexample_def andthen_Inr)
next
  case (Some input)
  note input = this
  show ?thesis
  proof (cases "rq_oracle request")
    case None
    then show ?thesis using assms input by (simp add: reduce_counterexample_def andthen_Inr)
  next
    case (Some "oracle")
    show ?thesis
      using assms that
      unfolding reduce_counterexample_def input Some prod.case option.case andthen_Inr assembled_def
      by (elim exE conjE) (auto split: sum.splits)
  qed
qed

lemma request_bounds:
  fixes request :: "('w, 'i, 'e) reduction_request"
  assumes "validate_reduction_request ops request w = (Inr units, w')"
  shows "length units \<le> MaximumReductionUnits" and "0 \<le> rq_maximum_evaluations request" and "sort units = units"
proof -
  obtain input where input: "rq_input request = Some input"
    using assms by (auto simp: validate_reduction_request_def split: option.splits)
  let ?raw = "fst (input_units ops input w)"
  have "units = sort ?raw \<and> (first_err [
       map_err RequestUnits (validate_reduction_units units True),
       fail_if (length units > MaximumReductionUnits) (TooManyUnits (length units)),
       fail_if (rq_maximum_evaluations request < int (length units) * (int (length units) + 1) div 2)
         (BudgetTooSmall (int (length units) * (int (length units) + 1) div 2))] :: 'e reduce_error option) = None"
    using assms input unfolding validate_reduction_request_def units_of_def canonical_reduction_units_def Let_def
    by (auto simp: andthen_Inr simp del: first_err_fail first_err_Cons_None split: option.splits if_splits prod.splits)
  then have checked: "units = sort ?raw" "length units \<le> MaximumReductionUnits"
    "int (length units) * (int (length units) + 1) div 2 \<le> rq_maximum_evaluations request"
    unfolding first_err_Cons_None fail_if_None not_less by blast+
  have "0 \<le> int (length units) * (int (length units) + 1) div 2" by simp
  with checked(3) show "0 \<le> rq_maximum_evaluations request" by (rule order_trans [rotated])
  show "length units \<le> MaximumReductionUnits" and "sort units = units" using checked(1,2) by simp_all
qed

lemma reduced_valid: "reduce_counterexample sha ops request w = (Inr c, w') \<Longrightarrow> counterexample_validate sha c = None"
  by (erule reduce_counterexampleE) (rule sealedD(1))

text \<open>
  C10: no input and no oracle, however they behave and whatever they do to the world, make
  the reducer return a counterexample that does not validate, is not about the request, or
  took more evaluations than the request allows.
\<close>

theorem reduction_result_validated:
  assumes "reduce_counterexample sha ops request w = (Inr c, w')"
  shows "counterexample_validate sha c = None \<and>
    cx_relation_digest c = rq_relation_digest request \<and> cx_source_result_digest c = rq_source_result_digest request \<and>
    cx_case_id c = rq_case_id request \<and> cx_privacy_policy_digest c = rq_privacy_policy_digest request \<and>
    length (elems (cx_original_units c)) \<le> MaximumReductionUnits \<and>
    int (length (elems (cx_steps c))) \<le> rq_maximum_evaluations request"
proof -
  obtain units w1 input "oracle" original w2 p w3 o1 final where
    v: "validate_reduction_request ops request w = (Inr units, w1)"
    and loop: "reduce_loop sha ops oracle request
      \<lparr> pg_current = input, pg_digest = original, pg_steps = [], pg_evaluations = 0 \<rparr> w2 = (Inr p, w3)"
    and seal: "seal_counterexample sha (assembled request units original o1 p final) = Inr c"
    by (rule reduce_counterexampleE [OF assms])
  have "paid (rq_maximum_evaluations request) p"
    by (rule loop_paid [OF loop]) (simp add: paid_def request_bounds [OF v])
  then show ?thesis
    using sealedD [OF seal] request_bounds [OF v] by (simp add: assembled_def paid_def)
qed

end
