(* ===== verification/ReducerCalls.thy ===== *)
theory ReducerCalls
  imports ReducerProps
begin

text \<open>
  How often the reducer asks the oracle, counted by any measure of the world that only the
  oracle moves; and the reduction of the development fixtures.
\<close>

definition costs :: "('w \<Rightarrow> nat) \<Rightarrow> nat \<Rightarrow> ('w, 'x, 'a) run \<Rightarrow> bool" where
  "costs asked k m \<longleftrightarrow> (\<forall>w. asked (snd (m w)) \<le> asked w + k)"

lemma costsD: "costs asked k m \<Longrightarrow> asked (snd (m w)) \<le> asked w + k"
  by (simp add: costs_def)

lemma costs_andthen:
  assumes "costs asked j m" and "\<And>a. costs asked k (f a)"
  shows "costs asked (j + k) (andthen m f)"
  unfolding costs_def
proof
  fix w
  have "asked (snd (m w)) \<le> asked w + j" using assms(1) by (simp add: costs_def)
  moreover have "asked (snd (f a w')) \<le> asked w' + k" for a w' using assms(2) by (simp add: costs_def)
  ultimately show "asked (snd (andthen m f w)) \<le> asked w + (j + k)"
    by (auto simp: andthen_def split: prod.split sum.split) (metis add.assoc add.commute add_le_mono1 order_trans)
qed

lemmas costs_free = costs_andthen [where j = 0, simplified]
lemmas costs_then_free = costs_andthen [where k = 0, simplified]

lemma costs_plain: "costs asked k (give a)" "costs asked k (throw e)" "costs asked k (check_that x)"
  by (auto simp: costs_def give_def throw_def check_that_def split: option.split)

lemma costs_wrap: "costs asked k m \<Longrightarrow> costs asked k (wrap_err f m)"
  by (auto simp: costs_def wrap_err_def split: prod.split sum.split) (metis snd_conv)+

lemma costs_if: "costs asked k m \<Longrightarrow> costs asked k n \<Longrightarrow> costs asked k (if b then m else n)"
  by simp

lemma costs_option:
  "costs asked k m \<Longrightarrow> (\<And>a. costs asked k (f a)) \<Longrightarrow> costs asked k (case x of None \<Rightarrow> m | Some a \<Rightarrow> f a)"
  by (simp split: option.split)

lemmas costs_rules = costs_plain costs_if costs_option

text \<open>The input and the context leave the count alone and the oracle adds one.\<close>

definition counts_oracle :: "('w \<Rightarrow> nat) \<Rightarrow> ('w, 'i, 'e) reducible_methods \<Rightarrow> ('w, 'i, 'e) reduction_request \<Rightarrow> bool" where
  "counts_oracle asked ops request \<longleftrightarrow>
     (\<forall>i. costs asked 0 (canonical_bytes ops i)) \<and> (\<forall>i w. asked (snd (input_units ops i w)) \<le> asked w) \<and>
     (\<forall>i u. costs asked 0 (remove_unit ops i u)) \<and>
     (\<forall>oracle i. rq_oracle request = Some oracle \<longrightarrow> costs asked 1 (oracle i))"

lemma costs_methods:
  assumes "counts_oracle asked ops request"
  shows "costs asked 0 (canonical_bytes ops i)" and "costs asked 0 (units_of ops i)"
    and "costs asked 0 (remove_unit ops i u)" and "rq_oracle request = Some oracle \<Longrightarrow> costs asked 1 (oracle i)"
  using assms by (auto simp: counts_oracle_def costs_def units_of_def case_prod_unfold)

lemma costs_digest: "counts_oracle asked ops request \<Longrightarrow> costs asked 0 (reducible_input_digest sha ops i)"
  unfolding reducible_input_digest_def by (intro costs_free costs_wrap costs_methods costs_rules)

lemma costs_ask:
  assumes "counts_oracle asked ops request" and "rq_oracle request = Some oracle" and "\<And>a. costs asked 0 (g a)"
  shows "costs asked 1 (andthen (wrap_err f (oracle i)) g)"
  by (intro costs_then_free costs_wrap costs_methods(4) [OF assms(1,2)] assms(3))

lemma attempt_asks:
  assumes c: "counts_oracle asked ops request" and o: "rq_oracle request = Some oracle"
  shows "asked (snd (attempt sha ops oracle request units p u w)) \<le>
    asked w + (if pg_evaluations p < rq_maximum_evaluations request then 1 else 0)"
proof (cases "pg_evaluations p < rq_maximum_evaluations request")
  case True
  note free = costs_plain(3) costs_wrap [OF costs_methods(3) [OF c]] costs_methods(2) [OF c] costs_digest [OF c]
  note ask = costs_ask [OF c o]
  have "asked (snd (attempt sha ops oracle request units p u w)) \<le> asked w + 1"
    unfolding attempt_def
    by (rule costsD [of asked 1 "andthen (check_that _) _" w])
      (rule costs_rules ask costs_free free)+
  then show ?thesis using True by simp
next
  case False
  then show ?thesis
    by (auto simp: attempt_def andthen_def check_that_def throw_def map_err_def fail_if_def split: option.split)
qed


text \<open>The evaluations that a request still allows pay for the questions.\<close>

definition remaining :: "('w, 'i, 'e) reduction_request \<Rightarrow> 'i progress \<Rightarrow> nat" where
  "remaining request p = nat (rq_maximum_evaluations request - pg_evaluations p)"

lemma attempt_pays:
  assumes "counts_oracle asked ops request" and "rq_oracle request = Some oracle"
    and "attempt sha ops oracle request units p u w = (r, w')"
  shows "asked w' + (case r of Inl e \<Rightarrow> 0 | Inr (p', accepted) \<Rightarrow> remaining request p') \<le> asked w + remaining request p"
proof -
  have a: "asked w' \<le> asked w + (if pg_evaluations p < rq_maximum_evaluations request then 1 else 0)"
    using attempt_asks [OF assms(1,2), of sha units p u w] assms(3) by simp
  show ?thesis
  proof (cases r)
    case (Inl e)
    then show ?thesis using a by (auto simp: remaining_def split: if_splits)
  next
    case (Inr pair)
    then obtain p' accepted where r: "r = Inr (p', accepted)" by (cases pair) auto
    with assms(3) have "attempt sha ops oracle request units p u w = (Inr (p', accepted), w')" by simp
    from attempt_Inr [OF this] show ?thesis using a by (simp add: r remaining_def)
  qed
qed

lemma pass_pays:
  assumes "counts_oracle asked ops request" and "rq_oracle request = Some oracle"
  shows "reduction_pass sha ops oracle request units p us w = (r, w') \<Longrightarrow>
    asked w' + (case r of Inl e \<Rightarrow> 0 | Inr (p', accepted) \<Rightarrow> remaining request p') \<le> asked w + remaining request p"
proof (induction us arbitrary: p w)
  case Nil
  then show ?case by (auto simp: give_def)
next
  case (Cons u us)
  obtain r1 w1 where a: "attempt sha ops oracle request units p u w = (r1, w1)" by fastforce
  note pays = attempt_pays [OF assms a]
  show ?case
  proof (cases r1)
    case (Inl e)
    then show ?thesis using Cons.prems a pays by (auto simp: andthen_def)
  next
    case (Inr pair)
    then obtain p1 b where r1: "r1 = Inr (p1, b)" by (cases pair) auto
    show ?thesis
    proof (cases b)
      case True
      then show ?thesis using Cons.prems a pays r1 by (auto simp: andthen_def give_def)
    next
      case False
      then have "reduction_pass sha ops oracle request units p1 us w1 = (r, w')"
        using Cons.prems a r1 by (simp add: andthen_def)
      from Cons.IH [OF this] show ?thesis using pays r1 by simp
    qed
  qed
qed

lemma loop_pays:
  assumes "counts_oracle asked ops request" and "rq_oracle request = Some oracle"
  shows "reduce_loop sha ops oracle request p w = (r, w') \<Longrightarrow> asked w' \<le> asked w + remaining request p"
  using assms
proof (induction sha ops "oracle" request p w rule: reduce_loop.induct)
  case (1 sha ops "oracle" request p w)
  obtain raw w1 where units: "input_units ops (pg_current p) w = (raw, w1)" by fastforce
  obtain r1 w2 where pass: "reduction_pass sha ops oracle request (canonical_reduction_units raw) p
      (canonical_reduction_units raw) w1 = (r1, w2)" by fastforce
  have w1: "asked w1 \<le> asked w"
    using 1(3) units unfolding counts_oracle_def by (metis snd_conv)
  note pays = pass_pays [OF 1(3,4) pass]
  show ?case
  proof (cases r1)
    case (Inl e)
    then show ?thesis using 1(2) units pass pays w1 by (auto simp: reduce_loop.simps [of _ _ _ _ p])
  next
    case (Inr pair)
    then obtain p1 b where r1: "r1 = Inr (p1, b)" by (cases pair) auto
    show ?thesis
    proof (cases b)
      case True
      then have "reduce_loop sha ops oracle request p1 w2 = (r, w')"
        using 1(2) units pass r1 by (simp add: reduce_loop.simps [of _ _ _ _ p])
      then have "asked w' \<le> asked w2 + remaining request p1"
        using 1(1) [OF units [symmetric] pass [symmetric] r1 refl True] 1(3,4) by blast
      then show ?thesis using pays w1 r1 by simp
    next
      case False
      then show ?thesis using 1(2) units pass pays w1 r1 by (simp add: reduce_loop.simps [of _ _ _ _ p])
    qed
  qed
qed

lemma costs_loop:
  assumes "counts_oracle asked ops request" and "rq_oracle request = Some oracle"
  shows "costs asked (remaining request p) (reduce_loop sha ops oracle request p)"
  unfolding costs_def using loop_pays [OF assms] by (metis prod.collapse)

lemma costs_request: "counts_oracle asked ops request \<Longrightarrow> costs asked k (validate_reduction_request ops request)"
  unfolding validate_reduction_request_def Let_def prod.case
  by (intro costs_option costs_if costs_free costs_methods costs_plain)

lemma costs_context: "costs asked 0 (\<lambda>w. check_that (f w) w)"
  by (auto simp: costs_def check_that_def give_def throw_def split: option.split)

lemma costs_sum_case: "(\<And>a. costs asked k (f a)) \<Longrightarrow> (\<And>b. costs asked k (g b)) \<Longrightarrow> costs asked k (case x of Inl a \<Rightarrow> f a | Inr b \<Rightarrow> g b)"
  by (simp split: sum.split)

text \<open>
  C9: the budget holds in every world: however the reduction ends, with a counterexample
  or with any error, the oracle was asked at most once for the original input and at most
  as often as the request allows after that.
\<close>

theorem oracle_questions_bounded:
  assumes "counts_oracle asked ops request"
    and "reduce_counterexample sha ops request w = (result, w')"
  shows "asked w' \<le> asked w + 1 + nat (rq_maximum_evaluations request)"
proof -
  let ?n = "nat (rq_maximum_evaluations request)"
  note rules = costs_request [OF assms(1)] costs_digest [OF assms(1)] costs_methods(2) [OF assms(1)] costs_context
    costs_plain
  have loop: "costs asked ?n (reduce_loop sha ops oracle request
      \<lparr> pg_current = i, pg_digest = d, pg_steps = [], pg_evaluations = 0 \<rparr>)" if "rq_oracle request = Some oracle" for "oracle" i d
    using costs_loop [OF assms(1) that, of "\<lparr> pg_current = i, pg_digest = d, pg_steps = [], pg_evaluations = 0 \<rparr>" sha]
    by (simp add: remaining_def)
  have "costs asked (1 + ?n) (reduce_counterexample sha ops request)"
  proof (cases "rq_oracle request")
    case None
    then show ?thesis
      unfolding reduce_counterexample_def prod.case None option.case
      by (intro costs_free costs_option rules)
  next
    case (Some "oracle")
    note question = costs_andthen [where j = 1, OF costs_wrap [OF costs_methods(4) [OF assms(1) Some]]]
    show ?thesis
      unfolding reduce_counterexample_def prod.case Some option.case
      by (rule rules costs_option costs_sum_case question costs_then_free [OF loop [OF Some]] costs_free)+
  qed
  then show ?thesis using costsD [of asked "1 + ?n" _ w] assms(2) by (metis add.assoc snd_conv)
qed

end
