(* ===== verification/FixtureReduction.thy ===== *)
theory FixtureReduction
  imports ReducerCalls
begin

text \<open>
  The reduction of the development fixtures completes, and a small pair of fixtures on which
  the theorems about the reducer are applied.
\<close>

abbreviation case_methods :: "('w, case_input, case_error) reducible_methods" where
  "case_methods \<equiv> pure_methods case_bytes case_units case_remove"

text \<open>
  C7: the reduction of the fixtures completes: for any two trajectory files with at most 4096 lines,
  a valid request with the budget that the case study sets, and any oracle that always answers with a
  valid observation and finds the original fixtures violating, the reducer does not fail.  It returns a counterexample for an
  input that the oracle found violating and whose every single line the oracle found necessary,
  after at most n(n+1)/2 evaluations, unless a removal it tried is a collision of the hash.
\<close>

theorem fixture_reduction_completes:
  assumes "new_development_case_input a b = Some x" and "length (ci_lines x) \<le> MaximumReductionUnits"
    and "request_valid request" and "rq_input request = Some x" and "rq_oracle request = Some oracle"
    and "rq_maximum_evaluations request = int (length (case_units x)) * (int (length (case_units x)) + 1) div 2"
    and "honest sha request oracle" and "\<And>s. valid_digest (sha s)"
    and "oracle x w = (Inr o1, w1)" and "preserving o1"
  shows "(\<exists>c w' y. reduce_counterexample sha case_methods request w = (Inr c, w') \<and>
      one_minimal case_units case_remove oracle y \<and> elems (cx_final_units c) = sort (case_units y) \<and>
      cx_reduced_input_digest c = sha (case_bytes y) \<and>
      2 * length (elems (cx_steps c)) \<le> length (case_units x) * (length (case_units x) + 1)) \<or>
    removal_collides case_bytes case_units case_remove sha x"
proof (rule disjCI)
  assume apart: "\<not> removal_collides case_bytes case_units case_remove sha x"
  note built = built_well_formed [OF assms(1,2)]
  have "length (case_units x) \<le> MaximumReductionUnits" using assms(2) by (simp add: case_units_def)
  from fixture_lines.reduces [OF built this assms(3-5) _ assms(7,8) apart assms(9,10)] assms(6)
  show "\<exists>c w' y. reduce_counterexample sha case_methods request w = (Inr c, w') \<and>
      one_minimal case_units case_remove oracle y \<and> elems (cx_final_units c) = sort (case_units y) \<and>
      cx_reduced_input_digest c = sha (case_bytes y) \<and>
      2 * length (elems (cx_steps c)) \<le> length (case_units x) * (length (case_units x) + 1)"
    by auto
qed

section \<open>Two small fixtures\<close>

text \<open>A hash of 64 digits that tells texts of different lengths below \<open>10 ^ 64\<close> apart.\<close>

definition length_sha :: "string \<Rightarrow> string" where
  "length_sha s = (let t = nat_text (length s mod 10 ^ 64) in replicate (64 - length t) (CHR ''0'') @ t)"

lemma length_sha_digest: "valid_digest (length_sha s)"
proof -
  have "length (nat_text (length s mod 10 ^ 64)) \<le> 64" by (rule nat_text_short) simp_all
  then show ?thesis
    using nat_text_digits(2) [of "length s mod 10 ^ 64"]
    by (auto simp: length_sha_def Let_def valid_digest_def is_digit_def char_between_def less_char_def less_eq_char_def)
qed

lemma length_sha_inject: "length_sha s = length_sha t \<Longrightarrow> length s mod 10 ^ 64 = length t mod 10 ^ 64"
  unfolding length_sha_def Let_def by (metis decimal_zeros nat_text_digits(4) of_nat_eq_iff)

definition fixture_input :: case_input where
  "fixture_input = \<lparr> ci_lines = [
     \<lparr> cl_unit_id = ''trajectory-a-line-001'', cl_trajectory = ''a'', cl_fixture_path = DevelopmentTrajectoryAPath,
       cl_line = 1, cl_content = ''5'' \<rparr>,
     \<lparr> cl_unit_id = ''trajectory-b-line-001'', cl_trajectory = ''b'', cl_fixture_path = DevelopmentTrajectoryBPath,
       cl_line = 1, cl_content = ''-1'' \<rparr>] \<rparr>"

lemma sample_built: "new_development_case_input ''5'' ''-1'' = Some fixture_input"
  by code_simp

lemma marshal_rune_length: "length (marshal_rune r) \<le> 6 + (case r of None \<Rightarrow> 0 | Some u \<Rightarrow> length u)"
  by (auto simp: marshal_rune_def encode_rune_def escape_ascii_def split: option.split list.split)

lemma marshal_string_length: "length (marshal_string s) \<le> 7 * length s + 2"
proof -
  have "length (concat (map marshal_rune (runes s))) \<le> 7 * length s"
  proof (induction s rule: runes.induct)
    case (2 a s)
    let ?n = "rune_len (a # s)"
    show ?case
    proof (cases "?n = 0")
      case True
      then show ?thesis using 2 marshal_rune_length [of None] by (simp add: runes.simps)
    next
      case False
      have "?n \<le> length (a # s)" by (rule rune_len_le)
      moreover have "length (concat (map marshal_rune (runes (drop ?n (a # s))))) \<le> 7 * length (drop ?n (a # s))"
        using 2 False by blast
      ultimately show ?thesis
        using False marshal_rune_length [of "Some (take ?n (a # s))"] by (simp add: runes.simps)
    qed
  qed simp
  then show ?thesis by (simp add: marshal_string_def)
qed

lemma sample_bytes: "length (case_bytes fixture_input) < 10000"
proof -
  have n: "length (json_marshal (json_int 1)) = 1" by code_simp
  show ?thesis
    using marshal_string_length [of "''lines''"] marshal_string_length [of "''unit_id''"]
      marshal_string_length [of "''trajectory''"] marshal_string_length [of "''fixture_path''"]
      marshal_string_length [of "''line''"] marshal_string_length [of "''content''"]
      marshal_string_length [of "''trajectory-a-line-001''"] marshal_string_length [of "''trajectory-b-line-001''"]
      marshal_string_length [of "''a''"] marshal_string_length [of "''b''"] marshal_string_length [of "''5''"]
      marshal_string_length [of "''-1''"] marshal_string_length [of DevelopmentTrajectoryAPath]
      marshal_string_length [of DevelopmentTrajectoryBPath]
    by (simp add: case_bytes_def fixture_input_def line_json_def n DevelopmentTrajectoryAPath_def
        DevelopmentTrajectoryBPath_def)
qed

definition sample_digest :: string where
  "sample_digest = replicate 64 (CHR ''0'')"

definition sample_observation :: "bool \<Rightarrow> reduction_observation" where
  "sample_observation violated =
     (let o1 = \<lparr> ro_schema_version = ReductionObservationSchemaVersion, ro_canonical_policy = ReductionCanonicalPolicy,
            ro_relation_digest = sample_digest, ro_privacy_policy_digest = sample_digest,
            ro_relation_revalidated = violated, ro_privacy_revalidated = True, ro_violation_preserved = violated,
            ro_relation_proof_digest = sample_digest, ro_privacy_proof_digest = sample_digest,
            ro_replay_result_digest = sample_digest, ro_digest = [] \<rparr>
      in o1\<lparr>ro_digest := reduction_observation_digest length_sha o1\<rparr>)"

text \<open>An oracle that counts the questions and needs both lines.\<close>

definition sample_oracle :: "(nat, case_input, case_error) reduction_oracle" where
  "sample_oracle i n = (Inr (sample_observation (length (ci_lines i) = 2)), n + 1)"

definition sample_request :: "(nat, case_input, case_error) reduction_request" where
  "sample_request = \<lparr> rq_relation_digest = sample_digest, rq_source_result_digest = sample_digest,
     rq_case_id = ''case'', rq_privacy_policy_digest = sample_digest, rq_public_release_allowed = True,
     rq_input = Some fixture_input, rq_oracle = Some sample_oracle, rq_maximum_evaluations = 3 \<rparr>"


lemma reached_shorter:
  "reached case_units case_remove x y \<Longrightarrow> length (case_bytes y) \<le> length (case_bytes x)"
proof (induction rule: reached.induct)
  case (reached_remove y u z)
  then show ?case using removed_shorter by fastforce
qed simp

lemma sample_apart: "\<not> removal_collides case_bytes case_units case_remove length_sha fixture_input"
proof
  assume "removal_collides case_bytes case_units case_remove length_sha fixture_input"
  then obtain y u z where r: "reached case_units case_remove fixture_input y" "case_remove y u = Inr (Some z)"
    and c: "collides length_sha (case_bytes y) (case_bytes z)"
    unfolding removal_collides_def by blast
  have "length (case_bytes z) < length (case_bytes y)" by (rule removed_shorter [OF r(2)])
  moreover have "length (case_bytes y) < 10 ^ 64"
    using reached_shorter [OF r(1)] sample_bytes by simp
  moreover have "length (case_bytes y) mod 10 ^ 64 = length (case_bytes z) mod 10 ^ 64"
    using c by (intro length_sha_inject) (simp add: collides_def)
  ultimately show False by simp
qed

lemma sample_digest_valid: "valid_digest sample_digest"
  by code_simp

lemma sample_honest: "honest length_sha sample_request sample_oracle"
proof -
  have "observation_validate length_sha (sample_observation b) = None" for b
    using sample_digest_valid
    by (simp add: observation_validate_def sample_observation_def Let_def reduction_observation_digest_def)
  then show ?thesis
    by (auto simp: honest_def sample_oracle_def validate_bound_observation_def sample_request_def
        sample_observation_def Let_def)
qed

lemma sample_request_valid: "request_valid sample_request"
proof -
  have "identifier_pattern ''case''" by code_simp
  then show ?thesis by (simp add: request_valid_def sample_request_def sample_digest_valid)
qed

lemma sample_fields: "rq_input sample_request = Some fixture_input" "rq_oracle sample_request = Some sample_oracle"
  "rq_maximum_evaluations sample_request = 3" "length (ci_lines fixture_input) = 2" "length (case_units fixture_input) = 2"
  by (simp_all add: sample_request_def fixture_input_def case_units_def)

lemma sample_answer: "sample_oracle fixture_input 0 = (Inr (sample_observation True), 1)"
  "preserving (sample_observation True)"
  by (simp_all add: sample_oracle_def sample_fields preserving_def sample_observation_def Let_def)

text \<open>The sample request is reduced; both lines are needed.\<close>

theorem fixture_reduction_completes_witness:
  "\<exists>c w' y. reduce_counterexample length_sha case_methods sample_request 0 = (Inr c, w') \<and>
     one_minimal case_units case_remove sample_oracle y \<and> elems (cx_final_units c) = sort (case_units y)"
proof -
  have "length (ci_lines fixture_input) \<le> MaximumReductionUnits"
    by (simp add: sample_fields MaximumReductionUnits_def)
  moreover have "rq_maximum_evaluations sample_request =
      int (length (case_units fixture_input)) * (int (length (case_units fixture_input)) + 1) div 2"
    by (simp add: sample_fields)
  ultimately show ?thesis
    using fixture_reduction_completes [OF sample_built _ sample_request_valid sample_fields(1,2) _ sample_honest
        length_sha_digest sample_answer] sample_apart by blast
qed

lemma sample_reduced:
  obtains c w' where "reduce_counterexample length_sha case_methods sample_request 0 = (Inr c, w')"
proof -
  have "case_well_formed fixture_input" "case_units fixture_input \<noteq> []"
    by (rule built_well_formed [OF sample_built]; simp add: sample_fields MaximumReductionUnits_def)+
  then show ?thesis
    using fixture_lines.reduces [OF _ _ _ sample_request_valid sample_fields(1,2) _ sample_honest
        length_sha_digest sample_apart sample_answer] that
    by (auto simp: sample_fields MaximumReductionUnits_def)
qed

theorem reduction_result_validated_witness:
  "\<exists>c w'. reduce_counterexample length_sha case_methods sample_request 0 = (Inr c, w') \<and>
     counterexample_validate length_sha c = None \<and> length (elems (cx_steps c)) \<le> 3"
proof -
  obtain c w' where c: "reduce_counterexample length_sha case_methods sample_request 0 = (Inr c, w')"
    by (rule sample_reduced)
  from reduction_result_validated [OF c] c show ?thesis by (auto simp: sample_fields)
qed

theorem counterexample_trace_exact_witness:
  "\<exists>c front tail. counterexample_validate length_sha c = None \<and> elems (cx_steps c) = front @ tail \<and>
     map step_unit tail = elems (cx_final_units c)"
proof -
  obtain c w' where "reduce_counterexample length_sha case_methods sample_request 0 = (Inr c, w')"
    by (rule sample_reduced)
  then have c: "counterexample_validate length_sha c = None" by (rule reduced_valid)
  from counterexample_trace_exact [OF c] c show ?thesis by blast
qed

theorem oracle_questions_bounded_witness:
  "snd (reduce_counterexample length_sha case_methods sample_request 0) \<le> 4"
proof -
  have "counts_oracle (\<lambda>n. n) case_methods sample_request"
    by (auto simp: counts_oracle_def costs_def pure_methods_def give_def sample_fields sample_oracle_def)
  from oracle_questions_bounded [OF this prod.collapse [symmetric], of length_sha 0]
  show ?thesis by (simp add: sample_fields)
qed

end
