(* ===== verification/GoPath.thy ===== *)
theory GoPath
  imports Utf8
begin

text \<open>
  Lexical paths of Go's \<open>path\<close> and \<open>path/filepath\<close> on a system whose separator is the slash.
\<close>

abbreviation slash :: char where "slash \<equiv> CHR ''/''"

definition path_parts :: "string \<Rightarrow> string list" where
  "path_parts s = split_on slash s"

definition join_parts :: "string list \<Rightarrow> string" where
  "join_parts parts = join_with [slash] parts"

definition is_abs :: "string \<Rightarrow> bool" where
  "is_abs s \<longleftrightarrow> s \<noteq> [] \<and> hd s = slash"

text \<open>\<open>Clean\<close>: empty and dot elements go, a double dot takes the element before it along.\<close>

fun clean_parts :: "bool \<Rightarrow> string list \<Rightarrow> string list \<Rightarrow> string list" where
  "clean_parts rooted out [] = rev out"
| "clean_parts rooted out (p # ps) =
     (if p = [] \<or> p = ''.'' then clean_parts rooted out ps
      else if p = ''..'' then
        (if out \<noteq> [] \<and> hd out \<noteq> ''..'' then clean_parts rooted (tl out) ps
         else if rooted then clean_parts rooted out ps
         else clean_parts rooted (p # out) ps)
      else clean_parts rooted (p # out) ps)"

definition path_clean :: "string \<Rightarrow> string" where
  "path_clean s =
     (let parts = clean_parts (is_abs s) [] (path_parts s) in
      if is_abs s then slash # join_parts parts else if parts = [] then ''.'' else join_parts parts)"

text \<open>\<open>Base\<close>: the last element; trailing slashes are removed first.\<close>

definition path_base :: "string \<Rightarrow> string" where
  "path_base s =
     (if s = [] then ''.'' else
      let t = rev (dropWhile (\<lambda>c. c = slash) (rev s)) in
      if t = [] then [slash] else last (path_parts t))"

text \<open>\<open>Dir\<close>: everything before the last slash, cleaned.\<close>

definition path_dir :: "string \<Rightarrow> string" where
  "path_dir s = path_clean (if slash \<in> set s then rev (dropWhile (\<lambda>c. c \<noteq> slash) (rev s)) else [])"

text \<open>An element that names something inside the directory it is read in.\<close>

definition plain_part :: "string \<Rightarrow> bool" where
  "plain_part p \<longleftrightarrow> p \<noteq> [] \<and> p \<noteq> ''.'' \<and> p \<noteq> ''..'' \<and> slash \<notin> set p"

lemma split_join: "ps \<noteq> [] \<Longrightarrow> \<forall>p \<in> set ps. c \<notin> set p \<Longrightarrow> split_on c (join_with [c] ps) = ps"
  by (induction "[c]" ps rule: join_with.induct) (auto simp: split_on_free split_on_append)

lemma clean_plain: "\<forall>p \<in> set ps. plain_part p \<Longrightarrow> clean_parts rooted out ps = rev out @ ps"
  by (induction ps arbitrary: out) (auto simp: plain_part_def)


lemma clean_append: "clean_parts rooted out (ps @ qs) = clean_parts rooted (rev (clean_parts rooted out ps)) qs"
  by (induction ps arbitrary: out) auto

lemma path_parts_plain:
  assumes "ps \<noteq> []" and "\<forall>p \<in> set ps. plain_part p"
  shows "path_parts (join_parts ps) = ps" and "\<not> is_abs (join_parts ps)" and "path_clean (join_parts ps) = join_parts ps"
proof -
  show parts: "path_parts (join_parts ps) = ps"
    using assms by (simp add: path_parts_def join_parts_def split_join plain_part_def)
  obtain q qs where ps: "ps = q # qs" using assms(1) by (cases ps) auto
  then have "q \<noteq> []" "slash \<notin> set q" using assms(2) by (auto simp: plain_part_def)
  then show "\<not> is_abs (join_parts ps)"
    unfolding ps by (cases q; cases qs) (auto simp: is_abs_def join_parts_def)
  then show "path_clean (join_parts ps) = join_parts ps"
    using clean_plain [OF assms(2), of False "[]"] assms(1) by (simp add: path_clean_def parts)
qed

end
