(* ===== verification/PathPolicy.thy ===== *)
theory PathPolicy
  imports GoPath
begin

text \<open>
  internal/safety/types.go and path.go: the errors of the package, and the policy that keeps
  every directory the program writes to away from the user's home, the repository, the working
  directory and the root of the file system.  A clean absolute path is held by the list of its
  elements, so its \<open>Dir\<close> is \<open>butlast\<close> and its \<open>Base\<close> is \<open>last\<close>.  What the operating system
  answers is a value: the home and working directories, \<open>Lstat\<close> and \<open>EvalSymlinks\<close>.  The model is
  of Linux and of macOS, where paths compare by their lower case.
\<close>

section \<open>Errors\<close>

datatype error_kind =
    ErrorInvalidInput | ErrorProtectedPath | ErrorContainmentViolation | ErrorUnownedRoot
  | ErrorUnsafePermissions | ErrorSymlinkRace | ErrorUnsupportedFileType | ErrorNameCollision
  | ErrorResourceLimit | ErrorInsufficientSpace | ErrorSecretDetected | ErrorArtifactPolicyViolation
  | ErrorUntrustedControl | ErrorConcurrentMutation

datatype safety_operation =
    OperationValidate | OperationCreate | OperationRead | OperationWrite
  | OperationDelete | OperationExtract | OperationPublish | OperationScan

record safety_error =
  se_kind :: error_kind
  se_operation :: safety_operation
  se_path :: string

definition serr :: "error_kind \<Rightarrow> safety_operation \<Rightarrow> string \<Rightarrow> safety_error" where
  "serr kind operation path = \<lparr> se_kind = kind, se_operation = operation, se_path = path \<rparr>"

section \<open>Absolute paths\<close>

type_synonym key = "string list"

definition key_text :: "key \<Rightarrow> string" where
  "key_text k = slash # join_parts k"

definition key_of :: "string \<Rightarrow> key" where
  "key_of s = clean_parts True [] (path_parts s)"

lemma key_of_text [simp]:
  assumes "\<forall>p \<in> set k. plain_part p"
  shows "key_of (key_text k) = k"
proof (cases "k = []")
  case True
  show ?thesis by (simp add: True key_of_def key_text_def path_parts_def join_parts_def)
next
  case False
  then have "path_parts (key_text k) = [] # k"
    using path_parts_plain(1) [OF False assms] by (simp add: key_text_def path_parts_def)
  then show ?thesis by (simp add: key_of_def clean_plain [OF assms])
qed

lemma clean_rooted_plain:
  "\<forall>p \<in> set out. plain_part p \<Longrightarrow> \<forall>p \<in> set ps. slash \<notin> set p \<Longrightarrow>
   \<forall>p \<in> set (clean_parts True out ps). plain_part p"
proof (induction ps arbitrary: out)
  case (Cons p ps)
  have rest: "\<forall>q \<in> set ps. slash \<notin> set q" and p: "slash \<notin> set p" using Cons.prems(2) by simp_all
  have tl: "\<forall>q \<in> set (tl out). plain_part q" using Cons.prems(1) by (cases out) simp_all
  show ?case
  proof (cases "p = [] \<or> p = ''.'' \<or> p = ''..''")
    case True
    then have "clean_parts True out (p # ps) \<in> {clean_parts True out ps, clean_parts True (tl out) ps}"
      by (elim disjE) simp_all
    then show ?thesis using Cons.IH [OF Cons.prems(1) rest] Cons.IH [OF tl rest] by (elim insertE) simp_all
  next
    case False
    then have "plain_part p" using p by (simp add: plain_part_def)
    then have pushed: "\<forall>q \<in> set (p # out). plain_part q" using Cons.prems(1) by simp
    have "clean_parts True out (p # ps) = clean_parts True (p # out) ps" using False by simp
    then show ?thesis using Cons.IH [OF pushed rest] by (simp only:)
  qed
qed simp

lemma key_of_plain: "\<forall>p \<in> set (key_of s). plain_part p"
  unfolding key_of_def path_parts_def
  by (rule clean_rooted_plain) (simp_all add: split_no_sep)

text \<open>\<open>filepath.Rel\<close> of two clean absolute paths, by elements.\<close>

fun rel_key :: "key \<Rightarrow> key \<Rightarrow> key" where
  "rel_key [] target = target"
| "rel_key (x # xs) [] = replicate (Suc (length xs)) ''..''"
| "rel_key (x # xs) (y # ys) = (if x = y then rel_key xs ys else replicate (Suc (length xs)) ''..'' @ y # ys)"

lemma rel_key_inside: "''..'' \<notin> set child \<Longrightarrow> (rel_key parent child = [] \<or> hd (rel_key parent child) \<noteq> ''..'') \<longleftrightarrow> prefix parent child"
  by (induction parent child rule: rel_key.induct) (auto simp: neq_Nil_conv)

section \<open>The policy\<close>

datatype goos = Linux | Darwin

datatype lstat_answer = StatPresent | StatMissing | StatUnreadable

record os_view =
  ov_goos :: goos
  ov_to_lower :: "string \<Rightarrow> string"
  ov_home :: "string option"
  ov_working_dir :: "string option"
  ov_lstat :: "key \<Rightarrow> lstat_answer"
  ov_eval_symlinks :: "key \<Rightarrow> key option"

datatype protected_location =
    ProtectedFilesystemRoot | ProtectedVolumeRoot | ProtectedUserHome
  | ProtectedRepositoryRoot | ProtectedWorkingDir

type_synonym path_policy = "(protected_location \<times> key) list"

definition comparison_path :: "os_view \<Rightarrow> key \<Rightarrow> key" where
  "comparison_path os k = (if ov_goos os = Darwin then map (ov_to_lower os) k else k)"

definition contains_or_equal :: "os_view \<Rightarrow> key \<Rightarrow> key \<Rightarrow> bool" where
  "contains_or_equal os parent child =
     (let relative = rel_key (comparison_path os parent) (comparison_path os child) in
      relative = [] \<or> hd relative \<noteq> ''..'')"

definition is_volume_root :: "os_view \<Rightarrow> key \<Rightarrow> bool" where
  "is_volume_root os k =
     (if ov_goos os \<noteq> Darwin then False
      else length (rel_key [''Volumes''] k) = 1)"

definition absolute_key :: "os_view \<Rightarrow> string \<Rightarrow> key option" where
  "absolute_key os path =
     (if is_abs path then Some (key_of path)
      else case ov_working_dir os of None \<Rightarrow> None | Some dir \<Rightarrow>
        Some (key_of (if path = [] then dir else dir @ slash # path)))"

text \<open>The walk up to the closest ancestor that exists; the path is reversed, the elements left behind in order.\<close>

fun resolve_up :: "os_view \<Rightarrow> string list \<Rightarrow> key \<Rightarrow> key option" where
  "resolve_up os current missing =
     (case ov_lstat os (rev current) of
        StatPresent \<Rightarrow> map_option (\<lambda>real_path. real_path @ missing) (ov_eval_symlinks os (rev current))
      | StatUnreadable \<Rightarrow> None
      | StatMissing \<Rightarrow> (case current of [] \<Rightarrow> None | base # parent \<Rightarrow> resolve_up os parent (base # missing)))"

declare resolve_up.simps [simp del]

definition resolve_with_existing_parents :: "os_view \<Rightarrow> string \<Rightarrow> key option" where
  "resolve_with_existing_parents os path =
     (case absolute_key os path of None \<Rightarrow> None | Some k \<Rightarrow> resolve_up os (rev k) [])"

fun find_repository_root :: "os_view \<Rightarrow> string list \<Rightarrow> key option" where
  "find_repository_root os current =
     (if ov_lstat os (rev current @ [''.git'']) = StatPresent then Some (rev current)
      else case current of [] \<Rightarrow> None | base # parent \<Rightarrow> find_repository_root os parent)"

declare find_repository_root.simps [simp del]

fun resolve_protected :: "os_view \<Rightarrow> (protected_location \<times> string) list \<Rightarrow> safety_error + path_policy" where
  "resolve_protected os [] = Inr []"
| "resolve_protected os ((location, path) # locations) =
     (case resolve_with_existing_parents os path of
        None \<Rightarrow> Inl (serr ErrorInvalidInput OperationValidate path)
      | Some canonical \<Rightarrow> map_sum id (\<lambda>policy. (location, canonical) # policy) (resolve_protected os locations))"

definition build_path_policy :: "os_view \<Rightarrow> (protected_location \<times> string) list \<Rightarrow> safety_error + path_policy" where
  "build_path_policy os locations = resolve_protected os (locations @ [(ProtectedFilesystemRoot, [slash])])"

definition new_path_policy :: "os_view \<Rightarrow> string \<Rightarrow> string \<Rightarrow> string \<Rightarrow> safety_error + path_policy" where
  "new_path_policy os home repository working_dir =
     (if home = [] \<or> working_dir = [] then Inl (serr ErrorInvalidInput OperationValidate [])
      else build_path_policy os
        ([(ProtectedUserHome, home), (ProtectedWorkingDir, working_dir)] @
         (if repository = [] then [] else [(ProtectedRepositoryRoot, repository)])))"

definition current_path_policy :: "os_view \<Rightarrow> safety_error + path_policy" where
  "current_path_policy os =
     (case ov_home os of None \<Rightarrow> Inl (serr ErrorInvalidInput OperationValidate []) | Some home \<Rightarrow>
     (case ov_working_dir os of None \<Rightarrow> Inl (serr ErrorInvalidInput OperationValidate []) | Some dir \<Rightarrow>
        new_path_policy os home
          (case find_repository_root os (rev (key_of dir)) of None \<Rightarrow> [] | Some k \<Rightarrow> key_text k) dir))"

definition validate_mutation_root :: "os_view \<Rightarrow> path_policy \<Rightarrow> string \<Rightarrow> safety_error + key" where
  "validate_mutation_root os policy path =
     (if path = [] then Inl (serr ErrorInvalidInput OperationValidate path)
      else case resolve_with_existing_parents os path of
        None \<Rightarrow> Inl (serr ErrorInvalidInput OperationValidate path)
      | Some canonical \<Rightarrow>
          if is_volume_root os canonical \<or> list_ex (\<lambda>(_, protected). contains_or_equal os canonical protected) policy
          then Inl (serr ErrorProtectedPath OperationValidate (key_text canonical))
          else Inr canonical)"

end
