(* ===== verification/Archive.thy ===== *)
theory Archive
  imports PathPolicy CanonicalJson Float64
begin

text \<open>
  internal/safety/archive.go, archive_validate.go and archive_scan.go: every header of a
  tar archive is checked before anything is extracted.  What reading a source file yields is a
  value: its headers with their bodies, how the stream ends, and the digest of the file.  The Unicode
  normalisation and case folding of golang.org/x/text are parameters.
\<close>

section \<open>Limits and plans\<close>

record archive_limits =
  al_max_entries :: int
  al_max_expanded_bytes :: int
  al_max_entry_bytes :: int
  al_max_compression_ratio :: f64
  al_max_depth :: int
  al_max_path_bytes :: int
  al_reservation_headroom_bytes :: int

definition default_archive_limits :: archive_limits where
  "default_archive_limits = \<lparr> al_max_entries = 250000, al_max_expanded_bytes = 8 * 2 ^ 30,
     al_max_entry_bytes = 512 * 2 ^ 20, al_max_compression_ratio = Finite 250, al_max_depth = 32,
     al_max_path_bytes = 4096, al_reservation_headroom_bytes = 64 * 2 ^ 20 \<rparr>"

definition archive_limits_valid :: "archive_limits \<Rightarrow> bool" where
  "archive_limits_valid l \<longleftrightarrow> al_max_entries l > 0 \<and> al_max_expanded_bytes l > 0 \<and> al_max_entry_bytes l > 0 \<and>
     al_max_entry_bytes l \<le> al_max_expanded_bytes l \<and>
     (flt (Finite 1) (al_max_compression_ratio l) \<or> feq (Finite 1) (al_max_compression_ratio l)) \<and>
     al_max_depth l > 0 \<and> al_max_path_bytes l > 0 \<and> al_reservation_headroom_bytes l \<ge> 0"

datatype entry_kind = ArchiveFile | ArchiveDirectory

record archive_entry =
  ae_name :: string
  ae_kind :: entry_kind
  ae_size :: int

record source_plan =
  sp_path :: string
  sp_sha256 :: string
  sp_compressed_bytes :: int
  sp_entries :: "archive_entry list"

record archive_plan =
  ap_sources :: "source_plan list"
  ap_files :: int
  ap_directories :: int
  ap_expanded_bytes :: int

text \<open>\<open>tar.Header\<close>: the fields the code reads; the type flag is its byte.\<close>

record tar_header =
  th_name :: string
  th_link_name :: string
  th_type_flag :: char
  th_size :: int
  th_pax_keys :: "string list"

text \<open>What reading one source yields, and what opening it yields.\<close>

record tar_stream =
  ts_compressed_bytes :: int
  ts_entries :: "(tar_header \<times> string) list"
  ts_intact :: bool
  ts_digest :: "string option"

definition archive_location :: "int \<Rightarrow> int \<Rightarrow> string" where
  "archive_location source entry = ''archive['' @ int_text source @ ''].entry['' @ int_text entry @ '']''"

definition archive_source_error :: "int \<Rightarrow> safety_error" where
  "archive_source_error source = serr ErrorInvalidInput OperationValidate (archive_location source (-1))"

section \<open>Headers\<close>

record name_index =
  ni_exact :: "string list"
  ni_folded :: "string \<rightharpoonup> string"
  ni_required_dirs :: "string list"
  ni_kinds :: "string \<rightharpoonup> entry_kind"

definition new_archive_name_index :: name_index where
  "new_archive_name_index = \<lparr> ni_exact = [], ni_folded = Map.empty, ni_required_dirs = [], ni_kinds = Map.empty \<rparr>"

definition has_archive_extended_attributes :: "string list \<Rightarrow> bool" where
  "has_archive_extended_attributes keys \<longleftrightarrow>
     list_ex (\<lambda>key. prefix ''SCHILY.xattr.'' key \<or> prefix ''LIBARCHIVE.xattr.'' key) keys"

definition archive_kind :: "tar_header \<Rightarrow> string \<Rightarrow> safety_error + entry_kind" where
  "archive_kind h location =
     (if th_link_name h \<noteq> [] \<or> has_archive_extended_attributes (th_pax_keys h)
      then Inl (serr ErrorUnsupportedFileType OperationValidate location)
      else if th_type_flag h = CHR ''0'' \<or> th_type_flag h = CHR 0x00 then Inr ArchiveFile
      else if th_type_flag h = CHR ''5'' then Inr ArchiveDirectory
      else Inl (serr ErrorUnsupportedFileType OperationValidate location))"

definition has_windows_volume_prefix :: "string \<Rightarrow> bool" where
  "has_windows_volume_prefix name \<longleftrightarrow>
     (case name of a # b # _ \<Rightarrow> b = CHR '':'' \<and> (is_lower a \<or> is_upper a) | _ \<Rightarrow> False)"

definition trim_suffix :: "char \<Rightarrow> string \<Rightarrow> string" where
  "trim_suffix c s = (if s \<noteq> [] \<and> last s = c then butlast s else s)"

definition normalize_archive_name ::
  "(string \<Rightarrow> string) \<Rightarrow> string \<Rightarrow> entry_kind \<Rightarrow> archive_limits \<Rightarrow> string \<Rightarrow> safety_error + string" where
  "normalize_archive_name nfc raw kind limits location =
     (let raw = (if kind = ArchiveDirectory then trim_suffix slash raw else raw);
          fail = (\<lambda>e. serr e OperationValidate location) in
      if int (length raw) > al_max_path_bytes limits then Inl (fail ErrorResourceLimit)
      else if raw = [] \<or> \<not> utf8_valid raw \<or> CHR 0x5C \<in> set raw \<or> CHR 0x00 \<in> set raw then Inl (fail ErrorInvalidInput)
      else if is_abs raw \<or> has_windows_volume_prefix raw \<or> path_clean raw \<noteq> raw \<or> nfc raw \<noteq> raw
      then Inl (fail ErrorContainmentViolation)
      else if int (length (path_parts raw)) > al_max_depth limits \<or> prefix ''.evalwitness-'' (hd (path_parts raw))
      then Inl (fail ErrorResourceLimit)
      else if list_ex (\<lambda>p. p = [] \<or> p = ''.'' \<or> p = ''..'') (path_parts raw) then Inl (fail ErrorContainmentViolation)
      else Inr raw)"

definition validate_archive_entry_size :: "archive_entry \<Rightarrow> archive_limits \<Rightarrow> string \<Rightarrow> safety_error option" where
  "validate_archive_entry_size entry limits location =
     first_err [
       fail_if (ae_size entry < 0 \<or> ae_size entry > al_max_entry_bytes limits)
         (serr ErrorResourceLimit OperationValidate location),
       fail_if (ae_kind entry = ArchiveDirectory \<and> ae_size entry \<noteq> 0)
         (serr ErrorUnsupportedFileType OperationValidate location)]"

definition archive_ancestors :: "string \<Rightarrow> string list" where
  "archive_ancestors name =
     (let parts = path_parts name in map (\<lambda>index. join_parts (take index parts)) [1..<length parts])"

fun require_ancestors :: "string list \<Rightarrow> name_index \<Rightarrow> string \<Rightarrow> safety_error + name_index" where
  "require_ancestors [] names location = Inr names"
| "require_ancestors (ancestor # ancestors) names location =
     (if ni_kinds names ancestor = Some ArchiveFile then Inl (serr ErrorNameCollision OperationValidate location)
      else require_ancestors ancestors (names\<lparr>ni_required_dirs := ancestor # ni_required_dirs names\<rparr>) location)"

definition name_index_add ::
  "(string \<Rightarrow> string) \<Rightarrow> name_index \<Rightarrow> archive_entry \<Rightarrow> string \<Rightarrow> safety_error + name_index" where
  "name_index_add fold_case names entry location =
     (let name = ae_name entry; folded = fold_case name;
          collision = serr ErrorNameCollision OperationValidate location in
      if name \<in> set (ni_exact names) then Inl collision
      else if (case ni_folded names folded of None \<Rightarrow> False | Some existing \<Rightarrow> existing \<noteq> name) then Inl collision
      else if ae_kind entry = ArchiveFile \<and> name \<in> set (ni_required_dirs names) then Inl collision
      else case require_ancestors (archive_ancestors name) names location of
        Inl e \<Rightarrow> Inl e
      | Inr names' \<Rightarrow>
          Inr (names'\<lparr>ni_exact := name # ni_exact names', ni_folded := (ni_folded names')(folded \<mapsto> name),
            ni_kinds := (ni_kinds names')(name \<mapsto> ae_kind entry)\<rparr>))"

definition validate_archive_header ::
  "(string \<Rightarrow> string) \<Rightarrow> (string \<Rightarrow> string) \<Rightarrow> tar_header \<Rightarrow> archive_limits \<Rightarrow> string list \<Rightarrow> name_index option \<Rightarrow> string \<Rightarrow>
   safety_error + archive_entry \<times> name_index option" where
  "validate_archive_header nfc fold_case h limits roots names location =
     (case archive_kind h location of Inl e \<Rightarrow> Inl e | Inr kind \<Rightarrow>
     (case normalize_archive_name nfc (th_name h) kind limits location of Inl e \<Rightarrow> Inl e | Inr name \<Rightarrow>
        if roots \<noteq> [] \<and> hd (path_parts name) \<notin> set roots
        then Inl (serr ErrorArtifactPolicyViolation OperationValidate location)
        else let entry = \<lparr> ae_name = name, ae_kind = kind, ae_size = th_size h \<rparr> in
          (case validate_archive_entry_size entry limits location of Some e \<Rightarrow> Inl e | None \<Rightarrow>
          (case names of None \<Rightarrow> Inr (entry, None) | Some index \<Rightarrow>
          (case name_index_add fold_case index entry location of
             Inl e \<Rightarrow> Inl e | Inr index' \<Rightarrow> Inr (entry, Some index'))))))"


section \<open>Scanning\<close>

text \<open>
  The world of the operations: the library functions, what opening a source yields when it is
  inspected and, later, when it is extracted, and whether the context is cancelled at each poll.
\<close>

datatype pass = Inspecting | Extracting

record archive_env =
  env_nfc :: "string \<Rightarrow> string"
  env_fold :: "string \<Rightarrow> string"
  env_open :: "pass \<Rightarrow> int \<Rightarrow> string \<Rightarrow> tar_stream option"
  env_cancelled :: "nat \<Rightarrow> bool"

record scan_state =
  sc_names :: name_index
  sc_plan :: archive_plan
  sc_polls :: nat

definition add_archive_entry :: "archive_plan \<Rightarrow> archive_entry \<Rightarrow> archive_limits \<Rightarrow> string \<Rightarrow> safety_error + archive_plan" where
  "add_archive_entry plan entry limits location =
     (if add64 (ap_files plan) (ap_directories plan) \<ge> al_max_entries limits
      then Inl (serr ErrorResourceLimit OperationValidate location)
      else if ae_size entry > sub64 (al_max_expanded_bytes limits) (ap_expanded_bytes plan)
      then Inl (serr ErrorResourceLimit OperationValidate location)
      else let plan = plan\<lparr>ap_expanded_bytes := add64 (ap_expanded_bytes plan) (ae_size entry)\<rparr> in
        Inr (if ae_kind entry = ArchiveDirectory then plan\<lparr>ap_directories := add64 (ap_directories plan) 1\<rparr>
             else plan\<lparr>ap_files := add64 (ap_files plan) 1\<rparr>))"

fun scan_entries ::
  "archive_env \<Rightarrow> int \<Rightarrow> archive_limits \<Rightarrow> string list \<Rightarrow> int \<Rightarrow> scan_state \<Rightarrow> (tar_header \<times> string) list \<Rightarrow> bool \<Rightarrow>
   safety_error + archive_entry list \<times> scan_state" where
  "scan_entries env si limits roots ei st [] intact =
     (if env_cancelled env (sc_polls st) \<or> \<not> intact then Inl (archive_source_error si)
      else Inr ([], st\<lparr>sc_polls := sc_polls st + 1\<rparr>))"
| "scan_entries env si limits roots ei st ((h, body) # items) intact =
     (if env_cancelled env (sc_polls st) then Inl (archive_source_error si)
      else let location = archive_location si ei in
      (case validate_archive_header (env_nfc env) (env_fold env) h limits roots (Some (sc_names st)) location of
         Inl e \<Rightarrow> Inl e
       | Inr (entry, names) \<Rightarrow>
      (case add_archive_entry (sc_plan st) entry limits location of
         Inl e \<Rightarrow> Inl e
       | Inr plan \<Rightarrow>
           if int (length body) < ae_size entry then Inl (archive_source_error si)
           else
      (case scan_entries env si limits roots (ei + 1)
          \<lparr> sc_names = (case names of None \<Rightarrow> sc_names st | Some index \<Rightarrow> index), sc_plan = plan, sc_polls = sc_polls st + 1 \<rparr>
          items intact of
         Inl e \<Rightarrow> Inl e
       | Inr (entries, st') \<Rightarrow> Inr (entry # entries, st')))))"

definition scan_tar_gzip_source ::
  "archive_env \<Rightarrow> int \<Rightarrow> string \<Rightarrow> archive_limits \<Rightarrow> string list \<Rightarrow> scan_state \<Rightarrow> safety_error + source_plan \<times> scan_state" where
  "scan_tar_gzip_source env si path limits roots st =
     (case env_open env Inspecting si path of None \<Rightarrow> Inl (archive_source_error si) | Some stream \<Rightarrow>
     (case scan_entries env si limits roots 0 st (ts_entries stream) (ts_intact stream) of Inl e \<Rightarrow> Inl e
      | Inr (entries, st') \<Rightarrow>
     (case ts_digest stream of None \<Rightarrow> Inl (archive_source_error si) | Some hex \<Rightarrow>
        Inr (\<lparr> sp_path = path, sp_sha256 = hex, sp_compressed_bytes = ts_compressed_bytes stream,
          sp_entries = entries \<rparr>, st'))))"

fun scan_sources ::
  "archive_env \<Rightarrow> archive_limits \<Rightarrow> string list \<Rightarrow> int \<Rightarrow> scan_state \<Rightarrow> string list \<Rightarrow> safety_error + scan_state" where
  "scan_sources env limits roots si st [] = Inr st"
| "scan_sources env limits roots si st (path # paths) =
     (case scan_tar_gzip_source env si path limits roots st of
        Inl e \<Rightarrow> Inl e
      | Inr (source, st') \<Rightarrow>
          scan_sources env limits roots (si + 1)
            (st'\<lparr>sc_plan := (sc_plan st')\<lparr>ap_sources := ap_sources (sc_plan st') @ [source]\<rparr>\<rparr>) paths)"

fun sum_compressed :: "archive_limits \<Rightarrow> int \<Rightarrow> source_plan list \<Rightarrow> safety_error + int" where
  "sum_compressed limits so_far [] = Inr so_far"
| "sum_compressed limits so_far (source # sources) =
     (if sp_compressed_bytes source > sub64 (al_max_expanded_bytes limits) so_far
      then Inl (serr ErrorResourceLimit OperationValidate [])
      else sum_compressed limits (add64 so_far (sp_compressed_bytes source)) sources)"

text \<open>\<open>float64(a)/float64(b)\<close> for a \<open>b\<close> that is not zero.\<close>

definition float_ratio :: "int \<Rightarrow> int \<Rightarrow> f64" where
  "float_ratio a b = (case f64_of_int b of Finite d \<Rightarrow> fdiv_finite (f64_of_int a) d | _ \<Rightarrow> NaN)"

definition validate_archive_plan :: "archive_plan \<Rightarrow> archive_limits \<Rightarrow> safety_error option" where
  "validate_archive_plan plan limits =
     (case sum_compressed limits 0 (ap_sources plan) of
        Inl e \<Rightarrow> Some e
      | Inr compressed \<Rightarrow>
          fail_if (compressed = 0 \<or> flt (al_max_compression_ratio limits) (float_ratio (ap_expanded_bytes plan) compressed))
            (serr ErrorResourceLimit OperationValidate []))"

fun validate_expected_roots ::
  "(string \<Rightarrow> string) \<Rightarrow> archive_limits \<Rightarrow> int \<Rightarrow> string list \<Rightarrow> safety_error option" where
  "validate_expected_roots nfc limits index [] = None"
| "validate_expected_roots nfc limits index (expected # roots) =
     (if (case normalize_archive_name nfc expected ArchiveDirectory limits (archive_location (-1) index) of
            Inl e \<Rightarrow> True | Inr name \<Rightarrow> name \<noteq> expected \<or> archive_ancestors name \<noteq> [])
      then Some (serr ErrorInvalidInput OperationValidate [])
      else validate_expected_roots nfc limits (index + 1) roots)"

record archive_request =
  ar_sources :: "string list"
  ar_destination :: string
  ar_expected_roots :: "string list"
  ar_limits :: archive_limits

definition inspect_tar_gzip_sources :: "archive_env \<Rightarrow> archive_request \<Rightarrow> safety_error + archive_plan \<times> nat" where
  "inspect_tar_gzip_sources env request =
     (case validate_expected_roots (env_nfc env) (ar_limits request) 0 (ar_expected_roots request) of
        Some e \<Rightarrow> Inl e
      | None \<Rightarrow>
     (case scan_sources env (ar_limits request) (ar_expected_roots request) 0
         \<lparr> sc_names = new_archive_name_index,
           sc_plan = \<lparr> ap_sources = [], ap_files = 0, ap_directories = 0, ap_expanded_bytes = 0 \<rparr>, sc_polls = 0 \<rparr>
         (ar_sources request) of
        Inl e \<Rightarrow> Inl e
      | Inr st \<Rightarrow>
     (case validate_archive_plan (sc_plan st) (ar_limits request) of
        Some e \<Rightarrow> Inl e
      | None \<Rightarrow> Inr (sc_plan st, sc_polls st))))"

record source_evidence =
  sv_name :: string
  sv_sha256 :: string
  sv_compressed_bytes :: int

record extract_result =
  er_destination :: string
  er_files :: int
  er_directories :: int
  er_expanded_bytes :: int
  er_sources :: "source_evidence list"

definition archive_result :: "string \<Rightarrow> archive_plan \<Rightarrow> extract_result" where
  "archive_result destination plan = \<lparr> er_destination = destination, er_files = ap_files plan,
     er_directories = ap_directories plan, er_expanded_bytes = ap_expanded_bytes plan,
     er_sources = map (\<lambda>s. \<lparr> sv_name = path_base (sp_path s), sv_sha256 = sp_sha256 s,
       sv_compressed_bytes = sp_compressed_bytes s \<rparr>) (ap_sources plan) \<rparr>"

text \<open>The context is never nil here.\<close>

definition inspect_tar_gzip :: "archive_env \<Rightarrow> archive_request \<Rightarrow> safety_error + extract_result" where
  "inspect_tar_gzip env request =
     (if ar_sources request = [] \<or> \<not> archive_limits_valid (ar_limits request)
      then Inl (serr ErrorInvalidInput OperationValidate [])
      else map_sum id (\<lambda>(plan, polls). archive_result [] plan) (inspect_tar_gzip_sources env request))"

end
