(* ===== verification/ArchiveExtract.thy ===== *)
theory ArchiveExtract
  imports Archive "HOL-Library.AList"
begin

text \<open>
  internal/safety/archive_extract.go and disk_reservation.go: an inspected archive is read
  again and written into a fresh staging directory next to its destination, behind a file that
  reserves the space, and the directory is renamed into
  place.  The file system is a value: an
  association list from absolute paths to nodes.  Every system call whose outcome matters may fail,
  as a fault plan over the calls' numbers decides; a call that fails changes nothing.  Cancellation is polled as in the scan.
\<close>

section \<open>The file system\<close>

datatype fs_node = DirNode | FileNode string | ReservedNode int

record disk_env =
  dev_os :: os_view
  dev_suffixes :: "string list"
  dev_fault :: "nat \<Rightarrow> bool"

record work =
  wk_nodes :: "(key \<times> fs_node) list"
  wk_calls :: nat
  wk_polls :: nat

datatype failure = SafetyFailure safety_error | SystemFailure

abbreviation fails_with :: "error_kind \<Rightarrow> safety_operation \<Rightarrow> string \<Rightarrow> failure" where
  "fails_with kind operation path \<equiv> SafetyFailure (serr kind operation path)"

definition node_at :: "work \<Rightarrow> key \<Rightarrow> fs_node option" where
  "node_at wk k = map_of (wk_nodes wk) k"

definition faults :: "disk_env \<Rightarrow> work \<Rightarrow> bool" where
  "faults dev wk = dev_fault dev (wk_calls wk)"

definition tick :: "work \<Rightarrow> work" where
  "tick wk = wk\<lparr>wk_calls := wk_calls wk + 1\<rparr>"

definition put_node :: "key \<Rightarrow> fs_node \<Rightarrow> work \<Rightarrow> work" where
  "put_node k n wk = wk\<lparr>wk_nodes := AList.update k n (wk_nodes wk)\<rparr>"

definition remove_node :: "key \<Rightarrow> work \<Rightarrow> work" where
  "remove_node k wk = wk\<lparr>wk_nodes := AList.delete k (wk_nodes wk)\<rparr>"

text \<open>\<open>MkdirAll\<close> below a directory that exists: the ancestors from the top, each made unless it is there.\<close>

fun mkdir_all :: "disk_env \<Rightarrow> key \<Rightarrow> key \<Rightarrow> work \<Rightarrow> bool \<times> work" where
  "mkdir_all dev base [] wk = (True, wk)"
| "mkdir_all dev base (part # parts) wk =
     (case node_at wk (base @ [part]) of
        Some DirNode \<Rightarrow> mkdir_all dev (base @ [part]) parts wk
      | Some _ \<Rightarrow> (False, wk)
      | None \<Rightarrow>
          if faults dev wk then (False, tick wk)
          else mkdir_all dev (base @ [part]) parts (put_node (base @ [part]) DirNode (tick wk)))"

text \<open>\<open>O_CREATE|O_EXCL\<close>: the parent is a directory and the name is free.\<close>

definition create_exclusive :: "disk_env \<Rightarrow> key \<Rightarrow> fs_node \<Rightarrow> work \<Rightarrow> bool \<times> work" where
  "create_exclusive dev k n wk =
     (if faults dev wk \<or> node_at wk k \<noteq> None \<or> (butlast k \<noteq> [] \<and> node_at wk (butlast k) \<noteq> Some DirNode)
      then (False, tick wk) else (True, put_node k n (tick wk)))"

text \<open>\<open>RemoveAll\<close>, whose error the code ignores, and \<open>Rename\<close> of a directory to a name that must be free.\<close>

definition remove_all :: "disk_env \<Rightarrow> key \<Rightarrow> work \<Rightarrow> work" where
  "remove_all dev k wk =
     (if faults dev wk then tick wk
      else (tick wk)\<lparr>wk_nodes := filter (\<lambda>(k', _). \<not> prefix k k') (wk_nodes wk)\<rparr>)"

definition rename :: "disk_env \<Rightarrow> key \<Rightarrow> key \<Rightarrow> work \<Rightarrow> bool \<times> work" where
  "rename dev old new wk =
     (if faults dev wk \<or> node_at wk new \<noteq> None then (False, tick wk)
      else (True, (tick wk)\<lparr>wk_nodes :=
        map (\<lambda>(k, n). (if prefix old k then new @ drop (length old) k else k, n)) (wk_nodes wk)\<rparr>))"

section \<open>The disk reservation\<close>

definition reservation_chunk_bytes :: int where
  "reservation_chunk_bytes = 1024 * 1024"

record reservation =
  rv_dir :: key
  rv_remaining :: int

definition reservation_name :: string where
  "reservation_name = ''.evalwitness-reservation''"

definition reservation_path :: "reservation \<Rightarrow> key" where
  "reservation_path r = rv_dir r @ [reservation_name]"

text \<open>The written bytes stay below a 64-bit bound, so the sum does not wrap.\<close>

function allocate_from :: "disk_env \<Rightarrow> key \<Rightarrow> int \<Rightarrow> int \<Rightarrow> work \<Rightarrow> bool \<times> work" where
  "allocate_from dev path written bytes wk =
     (if written < bytes then
        let chunk = min reservation_chunk_bytes (bytes - written) in
        if faults dev wk then (False, tick wk)
        else allocate_from dev path (written + chunk) bytes (put_node path (ReservedNode (written + chunk)) (tick wk))
      else (\<not> faults dev wk, tick wk))"
  by auto
termination
  by (relation "measure (\<lambda>(_, _, written, bytes, _). nat (bytes - written))")
    (auto simp: reservation_chunk_bytes_def min_def)

declare allocate_from.simps [simp del]

definition close_reservation :: "disk_env \<Rightarrow> reservation \<Rightarrow> work \<Rightarrow> failure option \<times> work" where
  "close_reservation dev r wk =
     (let removing = tick wk;
          wk' = (if faults dev removing then tick removing else remove_node (reservation_path r) (tick removing)) in
      (if faults dev wk \<or> faults dev removing
       then Some (fails_with ErrorConcurrentMutation OperationExtract (key_text (rv_dir r))) else None, wk'))"

definition new_disk_reservation :: "disk_env \<Rightarrow> key \<Rightarrow> int \<Rightarrow> work \<Rightarrow> (failure + reservation) \<times> work" where
  "new_disk_reservation dev directory bytes wk =
     (if bytes < 0 then (Inl (fails_with ErrorInvalidInput OperationCreate (key_text directory)), wk)
      else let r = \<lparr> rv_dir = directory, rv_remaining = bytes \<rparr> in
        case create_exclusive dev (reservation_path r) (ReservedNode 0) wk of
          (False, wk') \<Rightarrow> (Inl (fails_with ErrorInsufficientSpace OperationCreate (key_text directory)), wk')
        | (True, wk') \<Rightarrow>
        (case allocate_from dev (reservation_path r) 0 bytes wk' of
          (False, wk'') \<Rightarrow>
            (Inl (fails_with ErrorInsufficientSpace OperationCreate (key_text directory)), snd (close_reservation dev r wk''))
        | (True, wk'') \<Rightarrow> (Inr r, wk'')))"

definition release_space :: "disk_env \<Rightarrow> reservation \<Rightarrow> int \<Rightarrow> work \<Rightarrow> (failure + reservation) \<times> work" where
  "release_space dev r bytes wk =
     (if bytes < 0 \<or> bytes > rv_remaining r
      then (Inl (fails_with ErrorResourceLimit OperationExtract (key_text (rv_dir r))), wk)
      else let r' = r\<lparr>rv_remaining := sub64 (rv_remaining r) bytes\<rparr> in
        if faults dev wk then (Inl (fails_with ErrorInsufficientSpace OperationExtract (key_text (rv_dir r))), tick wk)
        else (Inr r', put_node (reservation_path r) (ReservedNode (rv_remaining r')) (tick wk)))"

section \<open>Extraction\<close>

text \<open>Creating, copying, syncing and closing a file; the body is what the reader has for the entry.\<close>

definition write_entry :: "disk_env \<Rightarrow> key \<Rightarrow> archive_entry \<Rightarrow> string \<Rightarrow> string \<Rightarrow> work \<Rightarrow> failure option \<times> work" where
  "write_entry dev path entry body location wk =
     (case create_exclusive dev path (FileNode []) wk of
        (False, wk1) \<Rightarrow> (Some (fails_with ErrorNameCollision OperationExtract location), wk1)
      | (True, wk1) \<Rightarrow>
          if faults dev wk1 \<or> int (length body) < ae_size entry
          then (Some (fails_with ErrorInvalidInput OperationExtract location), tick wk1)
          else let wk2 = put_node path (FileNode (take (nat (ae_size entry)) body)) (tick wk1) in
            if faults dev wk2 then (Some (fails_with ErrorConcurrentMutation OperationExtract location), tick wk2)
            else if faults dev (tick wk2) then (Some (fails_with ErrorConcurrentMutation OperationExtract location), tick (tick wk2))
            else (None, tick (tick wk2)))"

text \<open>The directory of a relative name is all but the last of its elements.\<close>

definition extract_archive_entry ::
  "disk_env \<Rightarrow> key \<Rightarrow> archive_entry \<Rightarrow> string \<Rightarrow> string \<Rightarrow> reservation \<Rightarrow> work \<Rightarrow> (failure + reservation) \<times> work" where
  "extract_archive_entry dev root_key entry body location r wk =
     (let relative = path_parts (ae_name entry);
          violation = fails_with ErrorContainmentViolation OperationExtract location in
      if ae_kind entry = ArchiveDirectory then
        (case mkdir_all dev root_key relative wk of
           (False, wk') \<Rightarrow> (Inl violation, wk') | (True, wk') \<Rightarrow> (Inr r, wk'))
      else
        (case mkdir_all dev root_key (butlast relative) wk of
           (False, wk') \<Rightarrow> (Inl violation, wk')
         | (True, wk') \<Rightarrow>
        (case release_space dev r (ae_size entry) wk' of
           (Inl e, wk'') \<Rightarrow> (Inl e, wk'')
         | (Inr r', wk'') \<Rightarrow>
        (case write_entry dev (root_key @ relative) entry body location wk'' of
           (Some e, wk''') \<Rightarrow> (Inl e, wk''')
         | (None, wk''') \<Rightarrow> (Inr r', wk''')))))"

definition polled :: "work \<Rightarrow> work" where
  "polled wk = wk\<lparr>wk_polls := wk_polls wk + 1\<rparr>"

fun extract_entries ::
  "disk_env \<Rightarrow> archive_env \<Rightarrow> archive_request \<Rightarrow> key \<Rightarrow> int \<Rightarrow> int \<Rightarrow> archive_entry list \<Rightarrow> (tar_header \<times> string) list \<Rightarrow> bool \<Rightarrow>
   reservation \<Rightarrow> work \<Rightarrow> (failure + reservation) \<times> work" where
  "extract_entries dev env request root_key si ei [] items intact r wk =
     (if items \<noteq> [] \<or> \<not> intact then (Inl (SafetyFailure (archive_source_error si)), wk) else (Inr r, wk))"
| "extract_entries dev env request root_key si ei (expected # entries) items intact r wk =
     (if env_cancelled env (wk_polls wk) then (Inl (SafetyFailure (archive_source_error si)), wk)
      else case items of
        [] \<Rightarrow> (Inl (SafetyFailure (archive_source_error si)), wk)
      | (h, body) # rest \<Rightarrow>
          let location = archive_location si ei in
          (case validate_archive_header (env_nfc env) (env_fold env) h (ar_limits request) (ar_expected_roots request) None location of
             Inl e \<Rightarrow> (Inl (SafetyFailure e), wk)
           | Inr (actual, _) \<Rightarrow>
               if actual \<noteq> expected then (Inl (fails_with ErrorConcurrentMutation OperationExtract location), wk)
               else
          (case extract_archive_entry dev root_key actual body location r (polled wk) of
             (Inl e, wk') \<Rightarrow> (Inl e, wk')
           | (Inr r', wk') \<Rightarrow> extract_entries dev env request root_key si (ei + 1) entries rest intact r' wk')))"

definition extract_tar_gzip_source ::
  "disk_env \<Rightarrow> archive_env \<Rightarrow> archive_request \<Rightarrow> key \<Rightarrow> int \<Rightarrow> source_plan \<Rightarrow> reservation \<Rightarrow> work \<Rightarrow> (failure + reservation) \<times> work" where
  "extract_tar_gzip_source dev env request root_key si source r wk =
     (case env_open env Extracting si (sp_path source) of
        None \<Rightarrow> (Inl (SafetyFailure (archive_source_error si)), wk)
      | Some stream \<Rightarrow>
          if ts_compressed_bytes stream \<noteq> sp_compressed_bytes source
          then (Inl (SafetyFailure (archive_source_error si)), wk)
          else
     (case validate_expected_roots (env_nfc env) (ar_limits request) 0 (ar_expected_roots request) of
        Some e \<Rightarrow> (Inl (SafetyFailure e), wk)
      | None \<Rightarrow>
     (case extract_entries dev env request root_key si 0 (sp_entries source) (ts_entries stream) (ts_intact stream) r wk of
        (Inl e, wk') \<Rightarrow> (Inl e, wk')
      | (Inr r', wk') \<Rightarrow>
          if ts_digest stream \<noteq> Some (sp_sha256 source)
          then (Inl (fails_with ErrorConcurrentMutation OperationExtract (archive_location si (-1))), wk')
          else (Inr r', wk'))))"

fun extract_sources ::
  "disk_env \<Rightarrow> archive_env \<Rightarrow> archive_request \<Rightarrow> key \<Rightarrow> int \<Rightarrow> source_plan list \<Rightarrow> reservation \<Rightarrow> work \<Rightarrow>
   (failure + reservation) \<times> work" where
  "extract_sources dev env request root_key si [] r wk = (Inr r, wk)"
| "extract_sources dev env request root_key si (source # sources) r wk =
     (case extract_tar_gzip_source dev env request root_key si source r wk of
        (Inl e, wk') \<Rightarrow> (Inl e, wk')
      | (Inr r', wk') \<Rightarrow> extract_sources dev env request root_key (si + 1) sources r' wk')"

text \<open>Opening, syncing and closing one directory, then all of them below the root.\<close>

definition sync_directory :: "disk_env \<Rightarrow> work \<Rightarrow> bool \<times> work" where
  "sync_directory dev wk =
     (if faults dev wk then (False, tick wk)
      else if faults dev (tick wk) then (False, tick (tick wk))
      else (\<not> faults dev (tick (tick wk)), tick (tick (tick wk))))"

fun sync_directories :: "disk_env \<Rightarrow> key list \<Rightarrow> work \<Rightarrow> failure option \<times> work" where
  "sync_directories dev [] wk = (None, wk)"
| "sync_directories dev (k # ks) wk =
     (case sync_directory dev wk of
        (False, wk') \<Rightarrow> (Some SystemFailure, wk') | (True, wk') \<Rightarrow> sync_directories dev ks wk')"

definition directories_below :: "key \<Rightarrow> work \<Rightarrow> key list" where
  "directories_below root_key wk = map fst (filter (\<lambda>(k, n). prefix root_key k \<and> n = DirNode) (wk_nodes wk))"

definition sync_archive_directories :: "disk_env \<Rightarrow> key \<Rightarrow> work \<Rightarrow> failure option \<times> work" where
  "sync_archive_directories dev root_key wk =
     (if faults dev wk then (Some (fails_with ErrorConcurrentMutation OperationExtract []), tick wk)
      else sync_directories dev (directories_below root_key wk) (tick wk))"

text \<open>The root of the staging directory is opened and closed around the sources.\<close>

definition extract_into_staging ::
  "disk_env \<Rightarrow> archive_env \<Rightarrow> archive_request \<Rightarrow> archive_plan \<Rightarrow> key \<Rightarrow> work \<Rightarrow> failure option \<times> work" where
  "extract_into_staging dev env request plan staging wk =
     (case new_disk_reservation dev staging
         (add64 (ap_expanded_bytes plan) (al_reservation_headroom_bytes (ar_limits request))) wk of
        (Inl e, wk1) \<Rightarrow> (Some e, wk1)
      | (Inr r, wk1) \<Rightarrow>
          if faults dev wk1
          then (Some (fails_with ErrorContainmentViolation OperationExtract (key_text staging)), snd (close_reservation dev r (tick wk1)))
          else
     (case extract_sources dev env request staging 0 (ap_sources plan) r (tick wk1) of
        (Inl e, wk2) \<Rightarrow> (Some e, snd (close_reservation dev r wk2))
      | (Inr r', wk2) \<Rightarrow>
     (case close_reservation dev r' wk2 of
        (Some e, wk3) \<Rightarrow> (Some e, wk3)
      | (None, wk3) \<Rightarrow>
     (case sync_archive_directories dev staging wk3 of
        (Some e, wk4) \<Rightarrow> (Some e, wk4)
      | (None, wk4) \<Rightarrow>
          (if faults dev wk4 then Some (fails_with ErrorConcurrentMutation OperationExtract (key_text staging)) else None,
           tick wk4)))))"

text \<open>\<open>MkdirTemp\<close>: the first of the random names that is free.\<close>

definition staging_key :: "key \<Rightarrow> string \<Rightarrow> key" where
  "staging_key destination random = butlast destination @ [''.'' @ last destination @ ''.extract-'' @ random]"

definition mkdir_temp :: "disk_env \<Rightarrow> key \<Rightarrow> work \<Rightarrow> key option \<times> work" where
  "mkdir_temp dev destination wk =
     (case find (\<lambda>random. node_at wk (staging_key destination random) = None) (dev_suffixes dev) of
        None \<Rightarrow> (None, tick wk)
      | Some random \<Rightarrow>
     (case create_exclusive dev (staging_key destination random) DirNode wk of
        (False, wk') \<Rightarrow> (None, wk') | (True, wk') \<Rightarrow> (Some (staging_key destination random), wk')))"

text \<open>
  From the staging directory on: whatever fails before the renaming is over removes it.  What
  fills the directory is an argument.
\<close>

definition publish_staging ::
  "disk_env \<Rightarrow> (key \<Rightarrow> work \<Rightarrow> failure option \<times> work) \<Rightarrow> key \<Rightarrow> key \<Rightarrow> work \<Rightarrow> failure option \<times> work" where
  "publish_staging dev fill destination staging wk =
     (if faults dev wk
      then (Some (fails_with ErrorUnsafePermissions OperationCreate (key_text staging)), remove_all dev staging (tick wk))
      else
     (case fill staging (tick wk) of
        (Some e, wk1) \<Rightarrow> (Some e, remove_all dev staging wk1)
      | (None, wk1) \<Rightarrow>
     (case rename dev staging destination wk1 of
        (False, wk2) \<Rightarrow>
          (Some (fails_with ErrorConcurrentMutation OperationPublish (key_text destination)), remove_all dev staging wk2)
      | (True, wk2) \<Rightarrow>
     (case sync_directory dev wk2 of
        (False, wk3) \<Rightarrow> (Some (fails_with ErrorConcurrentMutation OperationPublish (key_text destination)), wk3)
      | (True, wk3) \<Rightarrow> (None, wk3)))))"

definition extract_tar_gzip_plan ::
  "disk_env \<Rightarrow> archive_env \<Rightarrow> archive_request \<Rightarrow> archive_plan \<Rightarrow> work \<Rightarrow> (failure + extract_result) \<times> work" where
  "extract_tar_gzip_plan dev env request plan wk =
     (case current_path_policy (dev_os dev) of Inl e \<Rightarrow> (Inl (SafetyFailure e), wk) | Inr policy \<Rightarrow>
     (case validate_mutation_root (dev_os dev) policy (ar_destination request) of
        Inl e \<Rightarrow> (Inl (SafetyFailure e), wk)
      | Inr destination \<Rightarrow>
          if faults dev wk \<or> node_at wk destination \<noteq> None
          then (Inl (fails_with ErrorArtifactPolicyViolation OperationExtract (key_text destination)), tick wk)
          else
     (case mkdir_all dev [] (butlast destination) (tick wk) of
        (False, wk1) \<Rightarrow> (Inl (fails_with ErrorInvalidInput OperationCreate (key_text (butlast destination))), wk1)
      | (True, wk1) \<Rightarrow>
     (case mkdir_temp dev destination wk1 of
        (None, wk2) \<Rightarrow> (Inl (fails_with ErrorInsufficientSpace OperationCreate (key_text (butlast destination))), wk2)
      | (Some staging, wk2) \<Rightarrow>
     (case publish_staging dev (extract_into_staging dev env request plan) destination staging wk2 of
        (Some e, wk3) \<Rightarrow> (Inl e, wk3)
      | (None, wk3) \<Rightarrow> (Inr (archive_result (key_text destination) plan), wk3))))))"

definition extract_tar_gzip :: "disk_env \<Rightarrow> archive_env \<Rightarrow> archive_request \<Rightarrow> work \<Rightarrow> (failure + extract_result) \<times> work" where
  "extract_tar_gzip dev env request wk =
     (if ar_destination request = [] \<or> ar_sources request = [] \<or> \<not> archive_limits_valid (ar_limits request)
      then (Inl (fails_with ErrorInvalidInput OperationExtract []), wk)
      else case inspect_tar_gzip_sources env request of
        Inl e \<Rightarrow> (Inl (SafetyFailure e), wk)
      | Inr (plan, polls) \<Rightarrow> extract_tar_gzip_plan dev env request plan (wk\<lparr>wk_polls := polls\<rparr>))"

end
