(* ===== verification/DiskFacts.thy ===== *)
theory DiskFacts
  imports ArchiveExtract
begin

text \<open>
  What the operations on the file system leave as it was, and the contract between the
  publication and whatever fills the staging directory.
\<close>

section \<open>Nodes\<close>

lemma node_at_tick [simp]: "node_at (tick wk) k = node_at wk k"
  by (simp add: node_at_def tick_def)

lemma node_at_poll [simp]: "node_at (polled wk) k = node_at wk k"
  by (simp add: node_at_def polled_def)

lemma node_at_polls [simp]: "node_at (wk\<lparr>wk_polls := n\<rparr>) k = node_at wk k"
  by (simp add: node_at_def)

lemma node_at_put [simp]: "node_at (put_node k n wk) k' = (if k' = k then Some n else node_at wk k')"
  by (simp add: node_at_def put_node_def update_conv')

lemma node_at_remove [simp]: "node_at (remove_node k wk) k' = (if k' = k then None else node_at wk k')"
  by (simp add: node_at_def remove_node_def delete_conv')

lemma node_at_remove_all:
  "node_at (remove_all dev k wk) k' = (if \<not> faults dev wk \<and> prefix k k' then None else node_at wk k')"
proof -
  have "map_of (filter (\<lambda>(k', _). \<not> prefix k k') al) k' = (if prefix k k' then None else map_of al k')"
    for al :: "(key \<times> fs_node) list"
    by (induction al) auto
  then show ?thesis by (simp add: remove_all_def node_at_def tick_def)
qed

lemma map_of_relabel:
  "\<forall>k \<in> fst ` set al. f k = k' \<longleftrightarrow> k = k0 \<Longrightarrow> map_of (map (\<lambda>(k, n). (f k, n)) al) k' = map_of al k0"
  by (induction al) auto

lemma map_of_relabel_None:
  "\<forall>k \<in> fst ` set al. f k \<noteq> k' \<Longrightarrow> map_of (map (\<lambda>(k, n). (f k, n)) al) k' = None"
  by (induction al) auto

lemma map_of_moved:
  assumes free: "\<forall>k \<in> fst ` set al. \<not> prefix new k"
  shows "map_of (map (\<lambda>(k, n). (if prefix old k then new @ drop (length old) k else k, n)) al) k' =
    (if prefix new k' then map_of al (old @ drop (length new) k') else if prefix old k' then None else map_of al k')"
proof -
  let ?f = "\<lambda>k. if prefix old k then new @ drop (length old) k else k"
  consider (new) "prefix new k'" | (old) "\<not> prefix new k'" "prefix old k'" | (other) "\<not> prefix new k'" "\<not> prefix old k'"
    by blast
  then show ?thesis
  proof cases
    case new
    then have "\<forall>k \<in> fst ` set al. ?f k = k' \<longleftrightarrow> k = old @ drop (length new) k'"
      using free by (auto simp: prefix_def)
    from map_of_relabel [OF this] show ?thesis using new by simp
  next
    case old
    then have "\<forall>k \<in> fst ` set al. ?f k \<noteq> k'" by auto
    from map_of_relabel_None [OF this] show ?thesis using old by simp
  next
    case other
    then have "\<forall>k \<in> fst ` set al. ?f k = k' \<longleftrightarrow> k = k'" by auto
    from map_of_relabel [OF this] show ?thesis using other by simp
  qed
qed

lemma rename_True:
  assumes "rename dev old new wk = (True, wk')" and "\<forall>k. prefix new k \<longrightarrow> node_at wk k = None"
  shows "node_at wk' k = (if prefix new k then node_at wk (old @ drop (length new) k) else if prefix old k then None else node_at wk k)"
proof -
  have "\<forall>k \<in> fst ` set (wk_nodes wk). \<not> prefix new k"
    using assms(2) by (auto simp: node_at_def map_of_eq_None_iff)
  from map_of_moved [OF this] show ?thesis
    using assms(1) by (auto simp: rename_def node_at_def tick_def split: if_splits)
qed

lemma rename_False: "rename dev old new wk = (False, wk') \<Longrightarrow> node_at wk' k = node_at wk k"
  by (auto simp: rename_def split: if_splits)

lemma sync_directory_nodes: "node_at (snd (sync_directory dev wk)) k = node_at wk k"
  by (simp add: sync_directory_def)

lemma sync_directories_nodes: "node_at (snd (sync_directories dev ks wk)) k = node_at wk k"
proof (induction ks arbitrary: wk)
  case (Cons k' ks)
  show ?case
    using sync_directory_nodes [of dev wk k] Cons.IH by (cases "sync_directory dev wk") (auto split: bool.splits)
qed simp

lemma sync_archive_directories_nodes: "node_at (snd (sync_archive_directories dev k' wk)) k = node_at wk k"
  by (simp add: sync_archive_directories_def sync_directories_nodes)

section \<open>Well-formed trees\<close>

definition has_parent :: "work \<Rightarrow> key \<Rightarrow> bool" where
  "has_parent wk k \<longleftrightarrow> k \<noteq> [] \<and> (butlast k = [] \<or> node_at wk (butlast k) = Some DirNode)"

definition wf_tree :: "work \<Rightarrow> bool" where
  "wf_tree wk \<longleftrightarrow> (\<forall>k. node_at wk k \<noteq> None \<longrightarrow> has_parent wk k)"

lemma wf_tree_cong: "(\<And>k. node_at wk' k = node_at wk k) \<Longrightarrow> wf_tree wk' = wf_tree wk"
  by (simp add: wf_tree_def has_parent_def)

lemma wf_tree_simps [simp]: "wf_tree (tick wk) = wf_tree wk" "wf_tree (polled wk) = wf_tree wk" "wf_tree (wk\<lparr>wk_polls := n\<rparr>) = wf_tree wk"
  by (rule wf_tree_cong; simp)+

lemma no_children:
  assumes "wf_tree wk" and "node_at wk k \<noteq> Some DirNode" and "k \<noteq> []" and "strict_prefix k k'"
  shows "node_at wk k' = None"
proof -
  have "node_at wk (k @ xs) = None" if "xs \<noteq> []" for xs
    using that
  proof (induction xs rule: rev_induct)
    case (snoc x xs)
    have "node_at wk (k @ xs) \<noteq> Some DirNode"
      using assms(2) snoc.IH by (cases "xs = []") auto
    then have "\<not> has_parent wk (k @ xs @ [x])"
      using assms(3) by (simp add: has_parent_def butlast_append)
    then show ?case using assms(1) by (auto simp: wf_tree_def)
  qed simp
  moreover obtain zs where "k' = k @ zs" "zs \<noteq> []" using assms(4) by (auto simp: strict_prefix_def prefix_def)
  ultimately show ?thesis by simp
qed

lemma wf_put:
  assumes "wf_tree wk" and "has_parent wk k" and "node_at wk k = Some DirNode \<longrightarrow> n = DirNode"
  shows "wf_tree (put_node k n wk)"
  using assms by (auto simp: wf_tree_def has_parent_def)

lemma wf_remove:
  assumes "wf_tree wk" and "node_at wk k \<noteq> Some DirNode"
  shows "wf_tree (remove_node k wk)"
  using assms by (auto simp: wf_tree_def has_parent_def)

lemma wf_remove_all: "wf_tree wk \<Longrightarrow> wf_tree (remove_all dev k wk)"
  by (auto simp: wf_tree_def has_parent_def node_at_remove_all dest: prefix_order.trans [OF _ prefixeq_butlast])

section \<open>Directories\<close>

lemma mkdir_all_ConsE:
  assumes "mkdir_all dev base (part # parts) wk = (ok, wk')"
  obtains (stop) "\<not> ok" "\<And>k. node_at wk' k = node_at wk k"
    | (there) "node_at wk (base @ [part]) = Some DirNode" "mkdir_all dev (base @ [part]) parts wk = (ok, wk')"
    | (made) "node_at wk (base @ [part]) = None" "\<not> faults dev wk"
        "mkdir_all dev (base @ [part]) parts (put_node (base @ [part]) DirNode (tick wk)) = (ok, wk')"
  using assms by (auto split: option.splits fs_node.splits if_splits)

lemma mkdir_all_nodes:
  "mkdir_all dev base rel wk = (ok, wk') \<Longrightarrow>
   node_at wk' k = node_at wk k \<or>
   node_at wk k = None \<and> node_at wk' k = Some DirNode \<and> (\<exists>p. p \<noteq> [] \<and> prefix p rel \<and> k = base @ p)"
proof (induction rel arbitrary: base wk)
  case (Cons part parts)
  have longer: "\<exists>p. p \<noteq> [] \<and> prefix p (part # parts) \<and> k = base @ p"
    if "\<exists>p. p \<noteq> [] \<and> prefix p parts \<and> k = (base @ [part]) @ p"
    using that by (metis Cons_prefix_Cons append.assoc append_Cons append_Nil list.discI)
  have here: "\<exists>p. p \<noteq> [] \<and> prefix p (part # parts) \<and> base @ [part] = base @ p"
    by (intro exI [of _ "[part]"]) simp
  show ?case
    using Cons.prems
  proof (cases rule: mkdir_all_ConsE)
    case there
    then show ?thesis using Cons.IH [OF there(2)] longer by blast
  next
    case made
    then show ?thesis using Cons.IH [OF made(3)] longer here by (auto split: if_splits)
  qed simp
qed simp

lemma mkdir_all_made:
  "mkdir_all dev base rel wk = (True, wk') \<Longrightarrow> p \<noteq> [] \<Longrightarrow> prefix p rel \<Longrightarrow> node_at wk' (base @ p) = Some DirNode"
proof (induction rel arbitrary: base wk p)
  case (Cons part parts)
  obtain q where p: "p = part # q" and q: "prefix q parts"
    using Cons.prems(2,3) by (cases p) auto
  obtain wk1 where rest: "mkdir_all dev (base @ [part]) parts wk1 = (True, wk')" and dir: "node_at wk1 (base @ [part]) = Some DirNode"
    using Cons.prems(1) by (cases rule: mkdir_all_ConsE) (auto intro: that)
  show ?case
  proof (cases "q = []")
    case True
    then show ?thesis using mkdir_all_nodes [OF rest, of "base @ [part]"] dir by (simp add: p)
  next
    case False
    then show ?thesis using Cons.IH [OF rest _ q] by (simp add: p)
  qed
qed simp

lemma mkdir_all_wf:
  "mkdir_all dev base rel wk = (ok, wk') \<Longrightarrow> wf_tree wk \<Longrightarrow> base = [] \<or> node_at wk base = Some DirNode \<Longrightarrow> wf_tree wk'"
proof (induction rel arbitrary: base wk)
  case (Cons part parts)
  show ?case
    using Cons.prems(1)
  proof (cases rule: mkdir_all_ConsE)
    case stop
    then show ?thesis using Cons.prems(2) wf_tree_cong by metis
  next
    case there
    then show ?thesis using Cons.IH [OF there(2)] Cons.prems(2) by simp
  next
    case made
    have "wf_tree (put_node (base @ [part]) DirNode (tick wk))"
      using Cons.prems(2,3) by (intro wf_put) (auto simp: has_parent_def)
    then show ?thesis using Cons.IH [OF made(3)] by simp
  qed
qed simp

text \<open>On a disk without faults only a file in the way stops it.\<close>

lemma mkdir_all_runs:
  assumes "\<And>n. \<not> dev_fault dev n"
  shows "\<forall>p. p \<noteq> [] \<and> prefix p rel \<longrightarrow> node_at wk (base @ p) \<in> {None, Some DirNode} \<Longrightarrow> \<exists>wk'. mkdir_all dev base rel wk = (True, wk')"
proof (induction rel arbitrary: base wk)
  case (Cons part parts)
  have first: "node_at wk (base @ [part]) \<in> {None, Some DirNode}" using Cons.prems by (force dest: spec [of _ "[part]"])
  have rest: "\<forall>p. p \<noteq> [] \<and> prefix p parts \<longrightarrow> node_at wk ((base @ [part]) @ p) \<in> {None, Some DirNode}"
  proof (intro allI impI)
    fix p assume "p \<noteq> [] \<and> prefix p parts"
    then show "node_at wk ((base @ [part]) @ p) \<in> {None, Some DirNode}"
      using spec [OF Cons.prems, of "part # p"] by simp
  qed
  then have "\<forall>p. p \<noteq> [] \<and> prefix p parts \<longrightarrow>
      node_at (put_node (base @ [part]) DirNode (tick wk)) ((base @ [part]) @ p) \<in> {None, Some DirNode}"
    by simp
  from Cons.IH [OF this] Cons.IH [OF rest] first show ?case
    using assms by (auto simp: faults_def)
qed simp

end
