(* ===== verification/Publication.thy ===== *)
theory Publication
  imports DiskFacts
begin

text \<open>
  The contract between \<open>publish_staging\<close> and what fills the staging directory, and what the
  publication makes of it: the destination is there with all of its content or not at all, and nothing
  that was there before has changed.
\<close>

definition inside :: "key \<Rightarrow> work \<Rightarrow> work \<Rightarrow> bool" where
  "inside root_key wk wk' \<longleftrightarrow> (\<forall>k. \<not> strict_prefix root_key k \<longrightarrow> node_at wk' k = node_at wk k) \<and>
     (wf_tree wk \<and> node_at wk root_key = Some DirNode \<longrightarrow> wf_tree wk')"

named_theorems inside_intro \<open>operations that stay below a directory\<close>

lemma inside_refl [inside_intro]: "inside root_key wk wk"
  by (simp add: inside_def)

lemma inside_trans [trans]: "inside root_key wk1 wk2 \<Longrightarrow> inside root_key wk2 wk3 \<Longrightarrow> inside root_key wk1 wk3"
  by (auto simp: inside_def)

lemma inside_cong: "(\<And>k. node_at wk' k = node_at wk k) \<Longrightarrow> inside root_key wk wk'"
  using wf_tree_cong [of wk' wk] by (simp add: inside_def)

lemma inside_tick [inside_intro]: "inside root_key wk (tick wk)"
  by (rule inside_cong) simp

lemma inside_poll [inside_intro]: "inside root_key wk (polled wk)"
  by (rule inside_cong) simp

lemma inside_root: "inside root_key wk wk' \<Longrightarrow> node_at wk' root_key = node_at wk root_key"
  by (simp add: inside_def)

lemma not_prefix_butlast: "k \<noteq> [] \<Longrightarrow> \<not> prefix k (butlast k)"
  by (cases k rule: rev_cases) (auto dest: prefix_length_le)

definition fresh_directory :: "key \<Rightarrow> work \<Rightarrow> bool" where
  "fresh_directory k wk \<longleftrightarrow> k \<noteq> [] \<and> wf_tree wk \<and> node_at wk k = Some DirNode \<and>
     (\<forall>k'. strict_prefix k k' \<longrightarrow> node_at wk k' = None)"

lemma fresh_directory_tick [simp]: "fresh_directory k (tick wk) = fresh_directory k wk"
  by (simp add: fresh_directory_def)

lemma renamed_tree:
  assumes wf: "wf_tree wk" and staging: "staging \<noteq> []" and sibling: "butlast destination = butlast staging"
    and destination: "destination \<noteq> []" "node_at wk destination = None" and there: "node_at wk staging = Some DirNode"
    and rename: "rename dev staging destination wk = (True, wk')"
  shows "wf_tree wk'" and "node_at wk' (destination @ rel) = node_at wk (staging @ rel)"
    and "\<not> prefix destination k \<Longrightarrow> node_at wk' k = (if prefix staging k then None else node_at wk k)"
proof -
  have "node_at wk k = None" if "prefix destination k" for k
    using that no_children [OF wf _ destination(1), of k] destination(2) by (cases "k = destination") (auto simp: strict_prefix_def)
  then have nodes: "node_at wk' k =
      (if prefix destination k then node_at wk (staging @ drop (length destination) k) else if prefix staging k then None else node_at wk k)" for k
    using rename_True [OF rename] by simp
  show "node_at wk' (destination @ rel) = node_at wk (staging @ rel)" by (simp add: nodes)
  show "\<not> prefix destination k \<Longrightarrow> node_at wk' k = (if prefix staging k then None else node_at wk k)" by (simp add: nodes)
  have parent: "\<not> prefix staging (butlast staging)" "\<not> prefix destination (butlast staging)"
    using not_prefix_butlast [OF staging] not_prefix_butlast [OF destination(1)] by (simp_all add: sibling)
  show "wf_tree wk'"
    unfolding wf_tree_def
  proof (intro allI impI)
    fix k assume k: "node_at wk' k \<noteq> None"
    consider (top) "k = destination" | (below) r where "k = destination @ r" "r \<noteq> []" | (other) "\<not> prefix destination k"
      by (metis append_Nil2 prefixE)
    then show "has_parent wk' k"
    proof cases
      case top
      have "has_parent wk staging" using wf there by (simp add: wf_tree_def)
      then show ?thesis using parent by (auto simp: has_parent_def top sibling nodes destination(1))
    next
      case below
      have "has_parent wk (staging @ r)" using wf k by (simp add: wf_tree_def below nodes)
      then have "node_at wk (staging @ butlast r) = Some DirNode"
        using below(2) staging by (auto simp: has_parent_def butlast_append)
      then show ?thesis using below(2) destination(1) by (simp add: has_parent_def below(1) butlast_append nodes)
    next
      case other
      then have "node_at wk k \<noteq> None" "\<not> prefix staging k" using k by (auto simp: nodes split: if_splits)
      moreover have "\<not> prefix destination (butlast k)" "\<not> prefix staging (butlast k)"
        using other calculation(2) by (auto dest: prefix_order.trans [OF _ prefixeq_butlast])
      ultimately show ?thesis using wf by (auto simp: wf_tree_def has_parent_def nodes)
    qed
  qed
qed

lemma siblings_apart:
  assumes "butlast b = butlast a" and "a \<noteq> []" and "b \<noteq> []" and "b \<noteq> a"
  shows "\<not> prefix a b"
proof
  assume "prefix a b"
  then obtain zs where b: "b = a @ zs" by (auto simp: prefix_def)
  have "length b = length a"
    using assms(1-3) by (metis append_butlast_last_id length_append_singleton)
  then show False using b assms(4) by simp
qed

definition published :: "key \<Rightarrow> key \<Rightarrow> (key \<Rightarrow> fs_node option) \<Rightarrow> work \<Rightarrow> work \<Rightarrow> bool \<Rightarrow> bool" where
  "published destination staging content wk wk' completed \<longleftrightarrow> wf_tree wk' \<and>
     (\<forall>k. \<not> prefix destination k \<longrightarrow> \<not> prefix staging k \<longrightarrow> node_at wk' k = node_at wk k) \<and>
     ((\<forall>rel. node_at wk' (destination @ rel) = content rel) \<or>
      \<not> completed \<and> (\<forall>rel. node_at wk' (destination @ rel) = None))"

definition publishable :: "key \<Rightarrow> key \<Rightarrow> work \<Rightarrow> bool" where
  "publishable destination staging wk \<longleftrightarrow> fresh_directory staging wk \<and> butlast destination = butlast staging \<and>
     destination \<noteq> [] \<and> node_at wk destination = None"

lemma publishable_apart:
  assumes "publishable destination staging wk"
  shows "\<not> prefix staging destination" and "\<not> prefix destination staging" and "node_at wk (destination @ rel) = None"
    and "\<not> prefix staging (destination @ rel)"
proof -
  have staging: "staging \<noteq> []" and wf: "wf_tree wk" and sibling: "butlast destination = butlast staging"
    and destination: "destination \<noteq> []" "node_at wk destination = None" and distinct: "destination \<noteq> staging"
    using assms by (auto simp: publishable_def fresh_directory_def)
  show apart: "\<not> prefix staging destination" "\<not> prefix destination staging"
    using siblings_apart [OF sibling staging destination(1) distinct]
      siblings_apart [OF sibling [symmetric] destination(1) staging distinct [symmetric]] by blast+
  show "node_at wk (destination @ rel) = None"
    using no_children [OF wf _ destination(1), of "destination @ rel"] destination(2)
    by (cases "rel = []") (auto simp: strict_prefix_def)
  show "\<not> prefix staging (destination @ rel)"
    using apart prefix_same_cases [of staging "destination @ rel" destination] by auto
qed

lemma published_nothing:
  assumes ok: "publishable destination staging wk" and inside: "inside staging wk wk1"
  shows "published destination staging content wk (remove_all dev staging wk1) False"
proof -
  have "wf_tree wk1" using ok inside by (simp add: inside_def publishable_def fresh_directory_def)
  moreover have "node_at wk1 k = node_at wk k" if "\<not> prefix staging k" for k
    using inside that by (auto simp: inside_def strict_prefix_def)
  ultimately show ?thesis
    using publishable_apart(3,4) [OF ok] by (auto simp: published_def wf_remove_all node_at_remove_all)
qed

lemma published_all:
  assumes ok: "publishable destination staging wk" and inside: "inside staging wk wk1"
    and content: "\<And>rel. node_at wk1 (staging @ rel) = content rel"
    and rename: "rename dev staging destination wk1 = (True, wk2)" and same: "\<And>k. node_at wk3 k = node_at wk2 k"
  shows "published destination staging content wk wk3 completed"
proof -
  have pre: "wf_tree wk1" "staging \<noteq> []" "butlast destination = butlast staging" "destination \<noteq> []"
    "node_at wk1 destination = None" "node_at wk1 staging = Some DirNode"
    using ok inside publishable_apart(1) [OF ok]
    by (auto simp: inside_def publishable_def fresh_directory_def strict_prefix_def)
  note tree = renamed_tree [OF pre rename]
  have "wf_tree wk3" using tree(1) wf_tree_cong same by metis
  moreover have "node_at wk1 k = node_at wk k" if "\<not> prefix staging k" for k
    using inside that by (auto simp: inside_def strict_prefix_def)
  ultimately show ?thesis
    using tree(2,3) content by (simp add: published_def same)
qed

locale staging_writer =
  fixes fill :: "key \<Rightarrow> work \<Rightarrow> failure option \<times> work" and content :: "key \<Rightarrow> fs_node option"
  assumes fill_inside: "inside staging wk (snd (fill staging wk))"
    and fill_exact: "fresh_directory staging wk \<Longrightarrow> fill staging wk = (None, wk') \<Longrightarrow> node_at wk' (staging @ rel) = content rel"
begin

lemma publish_atomic:
  assumes ok: "publishable destination staging wk" and run: "publish_staging dev fill destination staging wk = (res, wk')"
  shows "published destination staging content wk wk' (res = None)"
proof (cases "faults dev wk")
  case True
  then show ?thesis
    using run published_nothing [OF ok inside_tick] by (auto simp: publish_staging_def)
next
  case False
  obtain res1 wk1 where fill: "fill staging (tick wk) = (res1, wk1)" by (cases "fill staging (tick wk)")
  have inside: "inside staging wk wk1"
    using inside_trans [OF inside_tick fill_inside, of staging wk] by (simp add: fill)
  obtain renamed wk2 where rename: "rename dev staging destination wk1 = (renamed, wk2)"
    by (cases "rename dev staging destination wk1")
  consider (failed) e where "res1 = Some e" | (kept) "res1 = None" "\<not> renamed" | (moved) "res1 = None" renamed
    by (cases res1) auto
  then show ?thesis
  proof cases
    case failed
    then show ?thesis
      using run published_nothing [OF ok inside] False fill by (auto simp: publish_staging_def)
  next
    case kept
    have "inside staging wk1 wk2" using rename_False rename kept(2) by (intro inside_cong) simp
    then show ?thesis
      using run published_nothing [OF ok inside_trans [OF inside]] False fill kept rename by (auto simp: publish_staging_def)
  next
    case moved
    have "fresh_directory staging (tick wk)" using ok by (simp add: publishable_def)
    then have content: "node_at wk1 (staging @ rel) = content rel" for rel
      using fill_exact fill moved(1) by blast
    have "wk' = snd (sync_directory dev wk2)"
      using run False fill moved rename by (cases "sync_directory dev wk2") (auto simp: publish_staging_def split: bool.splits)
    then show ?thesis
      using published_all [OF ok inside content, of dev wk2] rename moved(2) sync_directory_nodes by simp
  qed
qed

end

end
