(* ===== verification/ArchiveFacts.thy ===== *)
theory ArchiveFacts
  imports Archive
begin

text \<open>
  What an accepted header and an accepted scan have been checked for: the elements of a name
  are plain, the names of all entries fit into one tree, and the totals are the sums.
\<close>

section \<open>Names\<close>

lemma join_split_parts: "join_parts (path_parts s) = s"
  by (simp add: join_parts_def path_parts_def join_split)

lemma path_parts_nonempty [simp]: "path_parts s \<noteq> []"
  by (simp add: path_parts_def split_on_nonempty)

definition name_accepted :: "archive_limits \<Rightarrow> string \<Rightarrow> bool" where
  "name_accepted limits name \<longleftrightarrow> (\<forall>p \<in> set (path_parts name). plain_part p) \<and>
     \<not> prefix ''.evalwitness-'' (hd (path_parts name)) \<and>
     int (length (path_parts name)) \<le> al_max_depth limits \<and> int (length name) \<le> al_max_path_bytes limits"

lemma normalize_accepted:
  assumes "normalize_archive_name nfc raw kind limits location = Inr name"
  shows "name_accepted limits name" and "nfc name = name" and "kind = ArchiveFile \<Longrightarrow> name = raw"
proof -
  have name: "name = (if kind = ArchiveDirectory then trim_suffix slash raw else raw)"
    and plain: "\<not> list_ex (\<lambda>p. p = [] \<or> p = ''.'' \<or> p = ''..'') (path_parts name)"
    and rest: "\<not> prefix ''.evalwitness-'' (hd (path_parts name))" "int (length (path_parts name)) \<le> al_max_depth limits"
      "int (length name) \<le> al_max_path_bytes limits" and nfc: "nfc name = name"
    using assms by (auto simp: normalize_archive_name_def Let_def split: if_splits)
  have "\<forall>p \<in> set (path_parts name). plain_part p"
    using plain by (auto simp: list_ex_iff plain_part_def path_parts_def dest: split_no_sep)
  then show "name_accepted limits name" using rest by (simp add: name_accepted_def)
  show "nfc name = name" by (rule nfc)
  show "kind = ArchiveFile \<Longrightarrow> name = raw" using name by simp
qed

text \<open>Neither the place of a header nor the index is a part of what it says.\<close>

lemma kind_location: "archive_kind h location = Inr kind \<Longrightarrow> archive_kind h location' = Inr kind"
  unfolding archive_kind_def by (cases "th_link_name h \<noteq> [] \<or> has_archive_extended_attributes (th_pax_keys h)") (auto split: if_splits)

lemma normalize_location:
  "normalize_archive_name nfc raw kind limits location = Inr name \<Longrightarrow>
   normalize_archive_name nfc raw kind limits location' = Inr name"
  by (simp add: normalize_archive_name_def Let_def split: if_splits)

lemma size_location:
  "validate_archive_entry_size entry limits location = None \<Longrightarrow> validate_archive_entry_size entry limits location' = None"
  by (simp add: validate_archive_entry_size_def)

lemma header_parts:
  assumes "validate_archive_header nfc fold_case h limits roots names location = Inr (entry, names')"
  shows "archive_kind h location = Inr (ae_kind entry)"
    and "normalize_archive_name nfc (th_name h) (ae_kind entry) limits location = Inr (ae_name entry)"
    and "roots = [] \<or> hd (path_parts (ae_name entry)) \<in> set roots"
    and "validate_archive_entry_size entry limits location = None" and "ae_size entry = th_size h"
    and "case names of None \<Rightarrow> names' = None | Some index \<Rightarrow>
      (\<exists>index'. names' = Some index' \<and> name_index_add fold_case index entry location = Inr index')"
  using assms by (auto simp: validate_archive_header_def Let_def split: sum.splits if_splits option.splits)

lemma header_without_index:
  assumes "validate_archive_header nfc fold_case h limits roots names location = Inr (entry, names')"
  shows "validate_archive_header nfc fold_case h limits roots None location' = Inr (entry, None)"
proof -
  note parts = header_parts [OF assms]
  have "\<lparr> ae_name = ae_name entry, ae_kind = ae_kind entry, ae_size = th_size h \<rparr> = entry"
    using parts(5) by simp
  then show ?thesis
    using kind_location [OF parts(1)] normalize_location [OF parts(2)] size_location [OF parts(4)] parts(3)
    by (auto simp: validate_archive_header_def)
qed

lemma header_accepted:
  assumes "validate_archive_header nfc fold_case h limits roots names location = Inr (entry, names')"
  shows "name_accepted limits (ae_name entry)" and "0 \<le> ae_size entry" and "ae_size entry \<le> al_max_entry_bytes limits"
    and "ae_kind entry = ArchiveDirectory \<longrightarrow> ae_size entry = 0"
  using normalize_accepted(1) [OF header_parts(2) [OF assms]] header_parts(4) [OF assms]
  by (auto simp: validate_archive_entry_size_def)

section \<open>The name index\<close>

definition names_fit :: "(string \<Rightarrow> string) \<Rightarrow> archive_entry list \<Rightarrow> bool" where
  "names_fit fold_case entries \<longleftrightarrow> distinct (map ae_name entries) \<and> distinct (map (\<lambda>e. fold_case (ae_name e)) entries) \<and>
     (\<forall>e \<in> set entries. ae_kind e = ArchiveFile \<longrightarrow> (\<forall>e' \<in> set entries. ae_name e \<notin> set (archive_ancestors (ae_name e'))))"

definition index_holds :: "(string \<Rightarrow> string) \<Rightarrow> name_index \<Rightarrow> archive_entry list \<Rightarrow> bool" where
  "index_holds fold_case names entries \<longleftrightarrow>
     set (ni_exact names) = ae_name ` set entries \<and>
     (\<forall>e \<in> set entries. ni_folded names (fold_case (ae_name e)) = Some (ae_name e)) \<and>
     (\<forall>e \<in> set entries. set (archive_ancestors (ae_name e)) \<subseteq> set (ni_required_dirs names)) \<and>
     (\<forall>e \<in> set entries. ae_kind e = ArchiveFile \<longrightarrow> ni_kinds names (ae_name e) = Some ArchiveFile)"

lemma require_ancestors_ok:
  assumes "require_ancestors ancestors names location = Inr names'"
  shows "set (ni_required_dirs names') = set ancestors \<union> set (ni_required_dirs names)"
    and "\<forall>a \<in> set ancestors. ni_kinds names a \<noteq> Some ArchiveFile"
    and "ni_exact names' = ni_exact names" "ni_folded names' = ni_folded names" "ni_kinds names' = ni_kinds names"
  using assms by (induction ancestors names location rule: require_ancestors.induct) (auto split: if_splits)

lemma archive_ancestors_iff:
  "a \<in> set (archive_ancestors name) \<longleftrightarrow>
   (\<exists>n. 0 < n \<and> n < length (path_parts name) \<and> a = join_parts (take n (path_parts name)))"
  by (auto simp: archive_ancestors_def Let_def image_iff Suc_le_eq)

lemma ancestors_irrefl:
  assumes "\<forall>p \<in> set (path_parts name). plain_part p"
  shows "name \<notin> set (archive_ancestors name)"
proof
  assume "name \<in> set (archive_ancestors name)"
  then obtain n where n: "0 < n" "n < length (path_parts name)" and eq: "name = join_parts (take n (path_parts name))"
    by (auto simp: archive_ancestors_iff)
  have "path_parts (join_parts (take n (path_parts name))) = take n (path_parts name)"
    using n assms by (intro path_parts_plain(1)) (auto dest: in_set_takeD)
  then have "length (path_parts name) = n" using n eq by (metis length_take min.absorb4)
  then show False using n by simp
qed

lemma name_index_step:
  assumes holds: "index_holds fold_case names entries" and fit: "names_fit fold_case entries"
    and plain: "\<forall>p \<in> set (path_parts (ae_name entry)). plain_part p"
    and add: "name_index_add fold_case names entry location = Inr names'"
  shows "index_holds fold_case names' (entries @ [entry])" and "names_fit fold_case (entries @ [entry])"
proof -
  obtain mid where fresh: "ae_name entry \<notin> set (ni_exact names)"
    and folded: "\<not> (case ni_folded names (fold_case (ae_name entry)) of None \<Rightarrow> False | Some n \<Rightarrow> n \<noteq> ae_name entry)"
    and dirs: "\<not> (ae_kind entry = ArchiveFile \<and> ae_name entry \<in> set (ni_required_dirs names))"
    and mid: "require_ancestors (archive_ancestors (ae_name entry)) names location = Inr mid"
    and names': "names' = mid\<lparr>ni_exact := ae_name entry # ni_exact mid,
        ni_folded := (ni_folded mid)(fold_case (ae_name entry) \<mapsto> ae_name entry),
        ni_kinds := (ni_kinds mid)(ae_name entry \<mapsto> ae_kind entry)\<rparr>"
    using add by (auto simp: name_index_add_def Let_def split: if_splits sum.splits)
  note req = require_ancestors_ok [OF mid]
  have new: "ae_name entry \<notin> ae_name ` set entries" using fresh holds by (simp add: index_holds_def)
  have other: "\<forall>e \<in> set entries. fold_case (ae_name e) \<noteq> fold_case (ae_name entry)"
  proof (intro ballI notI)
    fix e assume e: "e \<in> set entries" and same: "fold_case (ae_name e) = fold_case (ae_name entry)"
    then have "ni_folded names (fold_case (ae_name entry)) = Some (ae_name e)"
      using holds by (simp add: index_holds_def flip: same)
    then have "ae_name e = ae_name entry" using folded by simp
    then have "ae_name entry \<in> ae_name ` set entries" using e by (metis imageI)
    then show False using new by contradiction
  qed
  show "index_holds fold_case names' (entries @ [entry])"
    using holds req new other by (auto simp: index_holds_def names')
  have "\<forall>e \<in> set entries. ae_kind e = ArchiveFile \<longrightarrow> ae_name e \<notin> set (archive_ancestors (ae_name entry))"
    using req(2) holds by (fastforce simp: index_holds_def)
  moreover have "ae_kind entry = ArchiveFile \<longrightarrow> (\<forall>e \<in> set entries. ae_name entry \<notin> set (archive_ancestors (ae_name e)))"
    using dirs holds by (auto simp: index_holds_def)
  ultimately show "names_fit fold_case (entries @ [entry])"
    using fit new other ancestors_irrefl [OF plain] by (auto simp: names_fit_def)
qed

section \<open>Totals\<close>

definition entries_total :: "archive_entry list \<Rightarrow> int" where
  "entries_total entries = sum_list (map ae_size entries)"

definition count_kind :: "entry_kind \<Rightarrow> archive_entry list \<Rightarrow> int" where
  "count_kind kind entries = int (length (filter (\<lambda>e. ae_kind e = kind) entries))"

definition totals_hold :: "archive_limits \<Rightarrow> archive_plan \<Rightarrow> archive_entry list \<Rightarrow> bool" where
  "totals_hold limits plan entries \<longleftrightarrow>
     ap_files plan = count_kind ArchiveFile entries \<and> ap_directories plan = count_kind ArchiveDirectory entries \<and>
     ap_expanded_bytes plan = entries_total entries \<and> int (length entries) \<le> al_max_entries limits \<and>
     entries_total entries \<le> al_max_expanded_bytes limits \<and>
     (\<forall>e \<in> set entries. 0 \<le> ae_size e \<and> ae_size e \<le> al_max_entry_bytes limits)"

definition limits_int64 :: "archive_limits \<Rightarrow> bool" where
  "limits_int64 limits \<longleftrightarrow> archive_limits_valid limits \<and> int64 (al_max_entries limits) \<and> int64 (al_max_expanded_bytes limits)"

lemma entries_total_nonneg: "\<forall>e \<in> set entries. 0 \<le> ae_size e \<Longrightarrow> 0 \<le> entries_total entries"
  by (induction entries) (auto simp: entries_total_def)

lemma count_kinds: "count_kind ArchiveFile entries + count_kind ArchiveDirectory entries = int (length entries)"
proof (induction entries)
  case (Cons e entries)
  then show ?case by (cases "ae_kind e") (auto simp: count_kind_def)
qed (simp add: count_kind_def)

lemma totals_step:
  assumes limits: "limits_int64 limits" and holds: "totals_hold limits plan entries"
    and size: "0 \<le> ae_size entry" "ae_size entry \<le> al_max_entry_bytes limits"
    and add: "add_archive_entry plan entry limits location = Inr plan'"
  shows "totals_hold limits plan' (entries @ [entry])" and "ap_sources plan' = ap_sources plan"
proof -
  have len: "ap_files plan + ap_directories plan = int (length entries)"
    using holds by (simp add: totals_hold_def count_kinds)
  have nonneg: "0 \<le> ap_files plan" "0 \<le> ap_directories plan" "0 \<le> ap_expanded_bytes plan"
    using holds entries_total_nonneg by (auto simp: totals_hold_def count_kind_def)
  have bound: "ap_files plan + ap_directories plan \<le> al_max_entries limits" "ap_expanded_bytes plan \<le> al_max_expanded_bytes limits"
    using holds len by (auto simp: totals_hold_def)
  have range: "al_max_entries limits < 2 ^ 63" "al_max_expanded_bytes limits < 2 ^ 63"
    using limits by (auto simp: limits_int64_def int64_def)
  have small: "int64 (ap_files plan + ap_directories plan)" "int64 (al_max_expanded_bytes limits - ap_expanded_bytes plan)"
    using bound range nonneg by (auto simp: int64_def)
  have room: "int (length entries) < al_max_entries limits" "ae_size entry \<le> al_max_expanded_bytes limits - ap_expanded_bytes plan"
    using add len small by (auto simp: add_archive_entry_def add64_exact sub64_exact Let_def split: if_splits)
  have exact: "add64 (ap_expanded_bytes plan) (ae_size entry) = ap_expanded_bytes plan + ae_size entry"
    "add64 (ap_files plan) 1 = ap_files plan + 1" "add64 (ap_directories plan) 1 = ap_directories plan + 1"
    using room len range nonneg size by (auto intro!: add64_exact simp: int64_def)
  have plan': "plan' = plan\<lparr>ap_expanded_bytes := ap_expanded_bytes plan + ae_size entry,
      ap_files := ap_files plan + (if ae_kind entry = ArchiveFile then 1 else 0),
      ap_directories := ap_directories plan + (if ae_kind entry = ArchiveDirectory then 1 else 0)\<rparr>"
    using add exact by (cases "ae_kind entry") (auto simp: add_archive_entry_def Let_def split: if_splits)
  show "totals_hold limits plan' (entries @ [entry])"
    using holds room size by (auto simp: totals_hold_def plan' count_kind_def entries_total_def)
  show "ap_sources plan' = ap_sources plan" by (simp add: plan')
qed

section \<open>The scan\<close>

definition plan_entries :: "archive_plan \<Rightarrow> archive_entry list" where
  "plan_entries plan = concat (map sp_entries (ap_sources plan))"

definition entry_accepted :: "archive_limits \<Rightarrow> string list \<Rightarrow> archive_entry \<Rightarrow> bool" where
  "entry_accepted limits roots entry \<longleftrightarrow> name_accepted limits (ae_name entry) \<and>
     (roots = [] \<or> hd (path_parts (ae_name entry)) \<in> set roots) \<and>
     0 \<le> ae_size entry \<and> ae_size entry \<le> al_max_entry_bytes limits \<and>
     (ae_kind entry = ArchiveDirectory \<longrightarrow> ae_size entry = 0)"

definition entry_reads :: "archive_env \<Rightarrow> archive_limits \<Rightarrow> string list \<Rightarrow> tar_header \<times> string \<Rightarrow> archive_entry \<Rightarrow> bool" where
  "entry_reads env limits roots item entry \<longleftrightarrow>
     (\<forall>location. validate_archive_header (env_nfc env) (env_fold env) (fst item) limits roots None location = Inr (entry, None)) \<and>
     ae_size entry \<le> int (length (snd item))"

definition source_reads :: "archive_env \<Rightarrow> pass \<Rightarrow> archive_limits \<Rightarrow> string list \<Rightarrow> int \<Rightarrow> source_plan \<Rightarrow> bool" where
  "source_reads env pass limits roots si source \<longleftrightarrow>
     (\<exists>stream. env_open env pass si (sp_path source) = Some stream \<and> ts_intact stream \<and>
       ts_compressed_bytes stream = sp_compressed_bytes source \<and> ts_digest stream = Some (sp_sha256 source) \<and>
       list_all2 (entry_reads env limits roots) (ts_entries stream) (sp_entries source))"

definition scan_holds :: "archive_env \<Rightarrow> archive_limits \<Rightarrow> string list \<Rightarrow> scan_state \<Rightarrow> archive_entry list \<Rightarrow> bool" where
  "scan_holds env limits roots st past \<longleftrightarrow>
     index_holds (env_fold env) (sc_names st) past \<and> names_fit (env_fold env) past \<and>
     totals_hold limits (sc_plan st) past \<and> (\<forall>e \<in> set past. entry_accepted limits roots e)"

lemma scan_entries_sound:
  assumes "limits_int64 limits" and "scan_holds env limits roots st past"
    and "scan_entries env si limits roots ei st items intact = Inr (entries, st')"
  shows "scan_holds env limits roots st' (past @ entries) \<and> ap_sources (sc_plan st') = ap_sources (sc_plan st) \<and>
    intact \<and> list_all2 (entry_reads env limits roots) items entries"
  using assms(2,3)
proof (induction items arbitrary: ei st past entries)
  case Nil
  then show ?case by (auto simp: scan_holds_def split: if_splits)
next
  case (Cons item items)
  obtain h body where item: "item = (h, body)" by (cases item)
  obtain entry names plan rest where header: "validate_archive_header (env_nfc env) (env_fold env) h limits roots
        (Some (sc_names st)) (archive_location si ei) = Inr (entry, names)"
    and add: "add_archive_entry (sc_plan st) entry limits (archive_location si ei) = Inr plan"
    and body: "ae_size entry \<le> int (length body)"
    and rest: "scan_entries env si limits roots (ei + 1) \<lparr> sc_names = (case names of None \<Rightarrow> sc_names st | Some index \<Rightarrow> index),
        sc_plan = plan, sc_polls = sc_polls st + 1 \<rparr> items intact = Inr (rest, st')"
    and entries: "entries = entry # rest"
    using Cons.prems(2) unfolding item by (auto simp: Let_def split: if_splits sum.splits)
  obtain index where names: "names = Some index"
    and index: "name_index_add (env_fold env) (sc_names st) entry (archive_location si ei) = Inr index"
    using header_parts(6) [OF header] by auto
  have accepted: "entry_accepted limits roots entry"
    using header_accepted [OF header] header_parts(3) [OF header] by (simp add: entry_accepted_def)
  then have plain: "\<forall>p \<in> set (path_parts (ae_name entry)). plain_part p"
    and size: "0 \<le> ae_size entry" "ae_size entry \<le> al_max_entry_bytes limits"
    by (simp_all add: entry_accepted_def name_accepted_def)
  have past: "index_holds (env_fold env) (sc_names st) past" "names_fit (env_fold env) past"
    "totals_hold limits (sc_plan st) past" "\<forall>e \<in> set past. entry_accepted limits roots e"
    using Cons.prems(1) by (simp_all add: scan_holds_def)
  note totals = totals_step [OF assms(1) past(3) size add]
  have "scan_holds env limits roots \<lparr> sc_names = index, sc_plan = plan, sc_polls = sc_polls st + 1 \<rparr> (past @ [entry])"
    using name_index_step [OF past(1,2) plain index] totals(1) past(4) accepted by (simp add: scan_holds_def)
  from Cons.IH [OF this rest [unfolded names option.case]]
  show ?case
    using totals(2) header_without_index [OF header] body by (simp add: entries item entry_reads_def)
qed

lemma scan_source_sound:
  assumes "limits_int64 limits" and "scan_holds env limits roots st past"
    and "scan_tar_gzip_source env si path limits roots st = Inr (source, st')"
  shows "scan_holds env limits roots st' (past @ sp_entries source)" and "ap_sources (sc_plan st') = ap_sources (sc_plan st)"
    and "source_reads env Inspecting limits roots si source" and "sp_path source = path"
proof -
  obtain stream hex entries where opened: "env_open env Inspecting si path = Some stream" and hex: "ts_digest stream = Some hex"
    and scan: "scan_entries env si limits roots 0 st (ts_entries stream) (ts_intact stream) = Inr (entries, st')"
    and source: "source = \<lparr> sp_path = path, sp_sha256 = hex, sp_compressed_bytes = ts_compressed_bytes stream, sp_entries = entries \<rparr>"
    using assms(3) by (auto simp: scan_tar_gzip_source_def split: option.splits sum.splits)
  note sound = scan_entries_sound [OF assms(1,2) scan]
  show "scan_holds env limits roots st' (past @ sp_entries source)" "ap_sources (sc_plan st') = ap_sources (sc_plan st)"
    using sound by (simp_all add: source)
  show "source_reads env Inspecting limits roots si source"
    using sound opened hex by (simp add: source_reads_def source)
  show "sp_path source = path" by (simp add: source)
qed

lemma scan_holds_sources [simp]:
  "scan_holds env limits roots (st\<lparr>sc_plan := (sc_plan st)\<lparr>ap_sources := sources\<rparr>\<rparr>) past = scan_holds env limits roots st past"
  by (simp add: scan_holds_def totals_hold_def)

lemma scan_sources_sound:
  assumes "limits_int64 limits" and "scan_holds env limits roots st past"
    and "scan_sources env limits roots si st paths = Inr st'"
  shows "\<exists>new. ap_sources (sc_plan st') = ap_sources (sc_plan st) @ new \<and> map sp_path new = paths \<and>
    (\<forall>i < length new. source_reads env Inspecting limits roots (si + int i) (new ! i)) \<and>
    scan_holds env limits roots st' (past @ concat (map sp_entries new))"
  using assms(2,3)
proof (induction paths arbitrary: si st past)
  case (Cons path paths)
  obtain source mid where scan: "scan_tar_gzip_source env si path limits roots st = Inr (source, mid)"
    and rest: "scan_sources env limits roots (si + 1)
      (mid\<lparr>sc_plan := (sc_plan mid)\<lparr>ap_sources := ap_sources (sc_plan mid) @ [source]\<rparr>\<rparr>) paths = Inr st'"
    using Cons.prems(2) by (auto split: sum.splits)
  note sound = scan_source_sound [OF assms(1) Cons.prems(1) scan]
  from Cons.IH [OF _ rest, unfolded scan_holds_sources, OF sound(1)]
  obtain new where new: "ap_sources (sc_plan st') = ap_sources (sc_plan mid) @ source # new" "map sp_path new = paths"
    "\<forall>i < length new. source_reads env Inspecting limits roots (si + 1 + int i) (new ! i)"
    "scan_holds env limits roots st' ((past @ sp_entries source) @ concat (map sp_entries new))"
    by auto
  have "\<forall>i < length (source # new). source_reads env Inspecting limits roots (si + int i) ((source # new) ! i)"
    using new(3) sound(3) by (auto simp: less_Suc_eq_0_disj add.commute add.left_commute)
  then show ?case
    using new sound by (intro exI [of _ "source # new"]) simp
qed simp

definition plan_sound :: "archive_env \<Rightarrow> pass \<Rightarrow> archive_limits \<Rightarrow> string list \<Rightarrow> archive_plan \<Rightarrow> bool" where
  "plan_sound env pass limits roots plan \<longleftrightarrow>
     names_fit (env_fold env) (plan_entries plan) \<and> totals_hold limits plan (plan_entries plan) \<and>
     (\<forall>e \<in> set (plan_entries plan). entry_accepted limits roots e) \<and>
     (\<forall>i < length (ap_sources plan). source_reads env pass limits roots (int i) (ap_sources plan ! i))"

lemma inspect_sound:
  assumes limits: "limits_int64 (ar_limits request)" and inspect: "inspect_tar_gzip_sources env request = Inr (plan, polls)"
  shows "plan_sound env Inspecting (ar_limits request) (ar_expected_roots request) plan"
    and "map sp_path (ap_sources plan) = ar_sources request"
    and "validate_expected_roots (env_nfc env) (ar_limits request) 0 (ar_expected_roots request) = None"
    and "validate_archive_plan plan (ar_limits request) = None"
proof -
  let ?start = "\<lparr> sc_names = new_archive_name_index,
    sc_plan = \<lparr> ap_sources = [], ap_files = 0, ap_directories = 0, ap_expanded_bytes = 0 \<rparr>, sc_polls = 0 \<rparr>"
  obtain st where roots: "validate_expected_roots (env_nfc env) (ar_limits request) 0 (ar_expected_roots request) = None"
    and scan: "scan_sources env (ar_limits request) (ar_expected_roots request) 0 ?start (ar_sources request) = Inr st"
    and valid: "validate_archive_plan (sc_plan st) (ar_limits request) = None" and plan: "plan = sc_plan st"
    using inspect by (auto simp: inspect_tar_gzip_sources_def split: option.splits sum.splits)
  have "scan_holds env (ar_limits request) (ar_expected_roots request) ?start []"
    using limits by (simp add: scan_holds_def index_holds_def names_fit_def totals_hold_def count_kind_def entries_total_def
        new_archive_name_index_def limits_int64_def archive_limits_valid_def)
  from scan_sources_sound [OF limits this scan]
  show "plan_sound env Inspecting (ar_limits request) (ar_expected_roots request) plan"
    "map sp_path (ap_sources plan) = ar_sources request"
    by (auto simp: plan_sound_def plan_entries_def plan scan_holds_def)
  show "validate_expected_roots (env_nfc env) (ar_limits request) 0 (ar_expected_roots request) = None"
    "validate_archive_plan plan (ar_limits request) = None"
    using roots valid by (simp_all add: plan)
qed

end
