(* ===== verification/ExtractFacts.thy ===== *)
theory ExtractFacts
  imports Publication ArchiveFacts
begin

text \<open>
  The extraction stays below its staging directory and, when it reports no error, has written
  the tree of the plan's entries: the contract of \<open>staging_writer\<close>.
\<close>

section \<open>Below the staging directory\<close>

lemma inside_put [inside_intro]:
  assumes "strict_prefix root_key k" and "butlast k = root_key \<or> node_at wk (butlast k) = Some DirNode"
    and "n \<noteq> DirNode \<longrightarrow> node_at wk k \<noteq> Some DirNode"
  shows "inside root_key wk (put_node k n wk)"
proof -
  have "k \<noteq> []" using assms(1) by auto
  then show ?thesis
    using assms by (auto simp: inside_def has_parent_def intro!: wf_put)
qed

lemma inside_remove [inside_intro]:
  "strict_prefix root_key k \<Longrightarrow> node_at wk k \<noteq> Some DirNode \<Longrightarrow> inside root_key wk (remove_node k wk)"
  by (auto simp: inside_def intro: wf_remove)

lemma inside_mkdir:
  assumes "mkdir_all dev root_key rel wk = (ok, wk')"
  shows "inside root_key wk wk'"
proof -
  have "node_at wk' k = node_at wk k" if "\<not> strict_prefix root_key k" for k
    using mkdir_all_nodes [OF assms, of k] that by (auto simp: strict_prefix_def)
  then show ?thesis
    using mkdir_all_wf [OF assms] by (simp add: inside_def)
qed

lemma create_exclusive_True:
  "create_exclusive dev k n wk = (True, wk') \<longleftrightarrow>
   \<not> faults dev wk \<and> node_at wk k = None \<and> (butlast k = [] \<or> node_at wk (butlast k) = Some DirNode) \<and> wk' = put_node k n (tick wk)"
  by (auto simp: create_exclusive_def)

lemma create_exclusive_False: "create_exclusive dev k n wk = (False, wk') \<Longrightarrow> wk' = tick wk"
  by (auto simp: create_exclusive_def split: if_splits)

text \<open>What a reservation does to the tree is to the node of its file.\<close>

definition only_at :: "key \<Rightarrow> work \<Rightarrow> work \<Rightarrow> bool" where
  "only_at k wk wk' \<longleftrightarrow> (\<forall>k'. k' \<noteq> k \<longrightarrow> node_at wk' k' = node_at wk k') \<and>
     (node_at wk k \<noteq> Some DirNode \<longrightarrow> node_at wk' k \<noteq> Some DirNode)"

lemma only_at_refl [simp]: "only_at k wk wk"
  by (simp add: only_at_def)

lemma only_at_trans: "only_at k wk wk1 \<Longrightarrow> only_at k wk1 wk2 \<Longrightarrow> only_at k wk wk2"
  by (simp add: only_at_def)

lemma only_at_tick [simp]: "only_at k wk (tick wk)"
  by (simp add: only_at_def)

lemma only_at_inside:
  assumes "only_at (root_key @ [name]) wk wk'" and "node_at wk (root_key @ [name]) \<noteq> Some DirNode"
  shows "inside root_key wk wk'"
proof -
  have "node_at wk' k = node_at wk k" if "\<not> strict_prefix root_key k" for k
    using assms(1) that by (cases "k = root_key @ [name]") (simp_all add: only_at_def strict_prefix_def)
  moreover have "wf_tree wk'" if wf: "wf_tree wk" and dir: "node_at wk root_key = Some DirNode"
    unfolding wf_tree_def
  proof (intro allI impI)
    fix k assume "node_at wk' k \<noteq> None"
    show "has_parent wk' k"
    proof (cases "k = root_key @ [name]")
      case True
      then show ?thesis using dir assms(1) by (simp add: has_parent_def only_at_def)
    next
      case False
      then have "has_parent wk k" using \<open>node_at wk' k \<noteq> None\<close> wf assms(1) by (auto simp: wf_tree_def only_at_def)
      then show ?thesis using assms by (cases "butlast k = root_key @ [name]") (auto simp: has_parent_def only_at_def)
    qed
  qed
  ultimately show ?thesis by (simp add: inside_def)
qed

lemma allocate_only: "allocate_from dev k written bytes wk = (ok, wk') \<Longrightarrow> only_at k wk wk'"
proof (induction dev k written bytes wk rule: allocate_from.induct)
  case (1 dev path written bytes wk)
  show ?case
  proof (cases "written < bytes \<and> \<not> faults dev wk")
    case True
    define chunk where "chunk = min reservation_chunk_bytes (bytes - written)"
    have rest: "allocate_from dev path (written + chunk) bytes (put_node path (ReservedNode (written + chunk)) (tick wk)) = (ok, wk')"
      using "1.prems" True by (simp add: allocate_from.simps [of _ _ written] Let_def chunk_def)
    have "only_at path wk (put_node path (ReservedNode (written + chunk)) (tick wk))" by (simp add: only_at_def)
    then show ?thesis
      using "1.IH" [of chunk] True rest only_at_trans chunk_def by blast
  next
    case False
    then show ?thesis using "1.prems" by (subst (asm) allocate_from.simps) (auto split: if_splits)
  qed
qed

lemma close_only: "only_at (reservation_path r) wk (snd (close_reservation dev r wk))"
  by (simp add: close_reservation_def Let_def only_at_def)

lemma release_only:
  "release_space dev r bytes wk = (res, wk') \<Longrightarrow> only_at (reservation_path r) wk wk' \<and> (\<forall>r'. res = Inr r' \<longrightarrow> rv_dir r' = rv_dir r)"
  by (auto simp: release_space_def Let_def only_at_def reservation_path_def split: if_splits)

lemma new_reservation_only:
  assumes "new_disk_reservation dev directory bytes wk = (res, wk')"
  shows "only_at (directory @ [reservation_name]) wk wk'"
    and "res = Inr r \<Longrightarrow> rv_dir r = directory \<and> rv_remaining r = bytes \<and> 0 \<le> bytes \<and> node_at wk (directory @ [reservation_name]) = None"
proof -
  let ?r = "\<lparr> rv_dir = directory, rv_remaining = bytes \<rparr>"
  consider (negative) "bytes < 0" "wk' = wk" "\<exists>e. res = Inl e"
    | (uncreated) wk1 where "0 \<le> bytes" "create_exclusive dev (reservation_path ?r) (ReservedNode 0) wk = (False, wk1)" "wk' = wk1" "\<exists>e. res = Inl e"
    | (created) wk1 ok wk2 where "0 \<le> bytes" "create_exclusive dev (reservation_path ?r) (ReservedNode 0) wk = (True, wk1)"
      "allocate_from dev (reservation_path ?r) 0 bytes wk1 = (ok, wk2)"
      "if ok then wk' = wk2 \<and> res = Inr ?r else wk' = snd (close_reservation dev ?r wk2) \<and> (\<exists>e. res = Inl e)"
    using assms by (auto simp: new_disk_reservation_def Let_def split: if_splits prod.splits bool.splits)
  then have "only_at (directory @ [reservation_name]) wk wk' \<and> (res = Inr r \<longrightarrow>
      rv_dir r = directory \<and> rv_remaining r = bytes \<and> 0 \<le> bytes \<and> node_at wk (directory @ [reservation_name]) = None)"
  proof cases
    case negative
    then show ?thesis by auto
  next
    case uncreated
    then show ?thesis using create_exclusive_False [OF uncreated(2)] by auto
  next
    case created
    have "only_at (directory @ [reservation_name]) wk wk1"
      using created(2) by (auto simp: create_exclusive_True only_at_def reservation_path_def)
    then have "only_at (directory @ [reservation_name]) wk wk2"
      using allocate_only [OF created(3)] by (auto simp: reservation_path_def intro: only_at_trans)
    then show ?thesis
      using created(1,2,4) close_only [of ?r wk2 dev] only_at_trans
      by (cases ok) (auto simp: create_exclusive_True reservation_path_def)
  qed
  then show "only_at (directory @ [reservation_name]) wk wk'"
    "res = Inr r \<Longrightarrow> rv_dir r = directory \<and> rv_remaining r = bytes \<and> 0 \<le> bytes \<and> node_at wk (directory @ [reservation_name]) = None"
    by blast+
qed

section \<open>The tree of the entries\<close>

type_synonym item = "archive_entry \<times> string"

definition item_path :: "item \<Rightarrow> key" where
  "item_path item = path_parts (ae_name (fst item))"

definition item_dir :: "item \<Rightarrow> key" where
  "item_dir item = (if ae_kind (fst item) = ArchiveDirectory then item_path item else butlast (item_path item))"

definition item_files :: "item list \<Rightarrow> (key \<times> string) list" where
  "item_files items = map (\<lambda>item. (item_path item, take (nat (ae_size (fst item))) (snd item)))
     (filter (\<lambda>item. ae_kind (fst item) = ArchiveFile) items)"

definition tree_at :: "item list \<Rightarrow> key \<Rightarrow> fs_node option" where
  "tree_at items rel =
     (case map_of (item_files items) rel of
        Some bytes \<Rightarrow> Some (FileNode bytes)
      | None \<Rightarrow> if rel = [] \<or> list_ex (\<lambda>item. prefix rel (item_dir item)) items then Some DirNode else None)"

lemma tree_at_dir:
  assumes "ae_kind (fst item) = ArchiveDirectory"
  shows "tree_at (items @ [item]) rel =
    (if tree_at items rel = None \<and> prefix rel (item_path item) then Some DirNode else tree_at items rel)"
  using assms by (auto simp: tree_at_def item_files_def item_dir_def split: option.splits)

lemma tree_at_file:
  assumes "ae_kind (fst item) = ArchiveFile" and "tree_at items (item_path item) = None"
  shows "tree_at (items @ [item]) rel =
    (if rel = item_path item then Some (FileNode (take (nat (ae_size (fst item))) (snd item)))
     else if tree_at items rel = None \<and> prefix rel (butlast (item_path item)) then Some DirNode else tree_at items rel)"
  using assms by (auto simp: tree_at_def item_files_def item_dir_def map_add_def split: option.splits)

lemma tree_at_root: "tree_at items [] \<noteq> None"
  by (auto simp: tree_at_def split: option.splits)

definition reserved_apart :: "key \<Rightarrow> bool" where
  "reserved_apart path \<longleftrightarrow> path \<noteq> [] \<and> hd path \<noteq> reservation_name"

lemma accepted_apart: "name_accepted limits name \<Longrightarrow> reserved_apart (path_parts name)"
  by (auto simp: name_accepted_def reserved_apart_def reservation_name_def)

lemma reserved_prefix: "reserved_apart path \<Longrightarrow> prefix p path \<Longrightarrow> p \<noteq> [reservation_name]"
  by (cases path) (auto simp: reserved_apart_def)

definition tree_holds :: "key \<Rightarrow> item list \<Rightarrow> work \<Rightarrow> bool" where
  "tree_holds root_key items wk \<longleftrightarrow> (\<forall>rel. rel \<noteq> [reservation_name] \<longrightarrow> node_at wk (root_key @ rel) = tree_at items rel) \<and>
     node_at wk (root_key @ [reservation_name]) \<noteq> Some DirNode \<and> tree_at items [reservation_name] = None"

lemma tree_holds_only:
  "tree_holds root_key items wk \<Longrightarrow> only_at (root_key @ [reservation_name]) wk wk' \<Longrightarrow> tree_holds root_key items wk'"
  by (auto simp: tree_holds_def only_at_def)

lemma tree_holds_poll [simp]: "tree_holds root_key items (polled wk) = tree_holds root_key items wk"
  "tree_holds root_key items (tick wk) = tree_holds root_key items wk"
  by (simp_all add: tree_holds_def)

lemma mkdir_all_tree:
  assumes run: "mkdir_all dev root_key rel wk = (True, wk')" and p: "p \<noteq> []"
  shows "node_at wk' (root_key @ p) = (if node_at wk (root_key @ p) = None \<and> prefix p rel then Some DirNode else node_at wk (root_key @ p))"
  using mkdir_all_nodes [OF run, of "root_key @ p"] mkdir_all_made [OF run p] by auto

lemma mkdir_all_keeps: "mkdir_all dev base rel wk = (ok, wk') \<Longrightarrow> node_at wk k = Some n \<Longrightarrow> node_at wk' k = Some n"
  using mkdir_all_nodes [of dev base rel wk ok wk' k] by auto

lemma mkdir_all_apart:
  assumes "mkdir_all dev root_key rel wk = (ok, wk')" and "rel = [] \<or> reserved_apart rel"
  shows "node_at wk' (root_key @ [reservation_name]) = node_at wk (root_key @ [reservation_name])"
proof -
  have "\<not> prefix [reservation_name] rel" using assms(2) reserved_prefix by auto
  then show ?thesis using mkdir_all_nodes [OF assms(1), of "root_key @ [reservation_name]"] by auto
qed

lemma write_entry_nodes:
  assumes "write_entry dev path entry body location wk = (res, wk')"
  shows "k \<noteq> path \<Longrightarrow> node_at wk' k = node_at wk k"
    and "node_at wk path = Some DirNode \<Longrightarrow> node_at wk' path = Some DirNode"
    and "node_at wk path \<noteq> Some DirNode \<Longrightarrow> node_at wk' path \<noteq> Some DirNode"
    and "res = None \<Longrightarrow> node_at wk path = None \<and> (butlast path = [] \<or> node_at wk (butlast path) = Some DirNode) \<and>
      node_at wk' path = Some (FileNode (take (nat (ae_size entry)) body)) \<and> ae_size entry \<le> int (length body)"
  using assms
  by (auto simp: write_entry_def Let_def create_exclusive_def split: if_splits prod.splits bool.splits)

lemma write_entry_inside:
  assumes run: "write_entry dev (root_key @ rel) entry body location wk = (res, wk')" and "rel \<noteq> []"
    and dir: "butlast rel = [] \<or> node_at wk (root_key @ butlast rel) = Some DirNode"
  shows "inside root_key wk wk'"
proof (cases "node_at wk (root_key @ rel) = None")
  case False
  then have "wk' = tick wk" using run by (auto simp: write_entry_def create_exclusive_def split: if_splits)
  then show ?thesis by (simp add: inside_tick)
next
  case True
  note nodes = write_entry_nodes [OF run]
  have other: "k \<noteq> root_key @ rel \<Longrightarrow> node_at wk' k = node_at wk k" for k by (rule nodes(1))
  have "wf_tree wk'" if wf: "wf_tree wk" and root: "node_at wk root_key = Some DirNode"
    unfolding wf_tree_def
  proof (intro allI impI)
    fix k assume k: "node_at wk' k \<noteq> None"
    show "has_parent wk' k"
    proof (cases "k = root_key @ rel")
      case here: True
      have "root_key @ butlast rel \<noteq> root_key @ rel" using assms(2) by (simp, cases rel rule: rev_cases) auto
      then show ?thesis using dir root assms(2) other by (auto simp: has_parent_def here butlast_append)
    next
      case elsewhere: False
      then have "has_parent wk k" using k wf other by (simp add: wf_tree_def)
      then show ?thesis using other True by (cases "butlast k = root_key @ rel") (auto simp: has_parent_def)
    qed
  qed
  moreover have "node_at wk' k = node_at wk k" if "\<not> strict_prefix root_key k" for k
    using that assms(2) by (intro other) (auto simp: strict_prefix_def)
  ultimately show ?thesis by (simp add: inside_def)
qed

text \<open>One entry: it stays below the root, keeps the reservation a file, and adds itself to the tree.\<close>

definition reserved_file :: "key \<Rightarrow> work \<Rightarrow> bool" where
  "reserved_file root_key wk \<longleftrightarrow> node_at wk (root_key @ [reservation_name]) \<noteq> Some DirNode"

lemma extract_fileE:
  assumes "extract_archive_entry dev root_key entry body location r wk = (res, wk')" and "ae_kind entry = ArchiveFile"
  obtains (blocked) e where "mkdir_all dev root_key (butlast (path_parts (ae_name entry))) wk = (False, wk')" "res = Inl e"
    | (unreleased) wk1 e where "mkdir_all dev root_key (butlast (path_parts (ae_name entry))) wk = (True, wk1)"
        "release_space dev r (ae_size entry) wk1 = (Inl e, wk')" "res = Inl e"
    | (written) wk1 r' wk2 err where "mkdir_all dev root_key (butlast (path_parts (ae_name entry))) wk = (True, wk1)"
        "release_space dev r (ae_size entry) wk1 = (Inr r', wk2)"
        "write_entry dev (root_key @ path_parts (ae_name entry)) entry body location wk2 = (err, wk')"
        "res = (case err of Some e \<Rightarrow> Inl e | None \<Rightarrow> Inr r')"
  using assms by (auto simp: extract_archive_entry_def Let_def split: prod.splits bool.splits sum.splits option.splits)

lemma entry_inside:
  assumes run: "extract_archive_entry dev root_key entry body location r wk = (res, wk')"
    and r: "rv_dir r = root_key" and apart: "reserved_apart (path_parts (ae_name entry))" and kept: "reserved_file root_key wk"
  shows "inside root_key wk wk' \<and> reserved_file root_key wk' \<and> (\<forall>r'. res = Inr r' \<longrightarrow> rv_dir r' = root_key)"
proof (cases "ae_kind entry")
  case ArchiveDirectory
  then obtain ok where mk: "mkdir_all dev root_key (path_parts (ae_name entry)) wk = (ok, wk')"
    and res: "\<forall>r'. res = Inr r' \<longrightarrow> rv_dir r' = root_key"
    using run r by (auto simp: extract_archive_entry_def Let_def split: prod.splits bool.splits)
  then show ?thesis
    using inside_mkdir [OF mk] mkdir_all_apart [OF mk] apart kept by (simp add: reserved_file_def)
next
  case ArchiveFile
  let ?rel = "path_parts (ae_name entry)"
  have parent: "butlast ?rel = [] \<or> reserved_apart (butlast ?rel)"
    using apart by (cases ?rel) (auto simp: reserved_apart_def)
  have made: "inside root_key wk wk1 \<and> reserved_file root_key wk1"
    if "mkdir_all dev root_key (butlast ?rel) wk = (ok, wk1)" for ok wk1
    using inside_mkdir [OF that] mkdir_all_apart [OF that parent] kept by (simp add: reserved_file_def)
  have released: "inside root_key wk1 wk2 \<and> reserved_file root_key wk2 \<and> (\<forall>r'. res' = Inr r' \<longrightarrow> rv_dir r' = root_key)"
    if "release_space dev r (ae_size entry) wk1 = (res', wk2)" and "reserved_file root_key wk1" for res' wk1 wk2
    using release_only [OF that(1)] only_at_inside [of root_key reservation_name wk1 wk2] that(2) r
    by (auto simp: reservation_path_def reserved_file_def only_at_def)
  from run ArchiveFile show ?thesis
  proof (cases rule: extract_fileE)
    case blocked
    then show ?thesis using made by auto
  next
    case unreleased
    then show ?thesis using made [OF unreleased(1)] released [OF unreleased(2)] by (auto intro: inside_trans)
  next
    case (written wk1 r' wk2 err)
    have so_far: "inside root_key wk wk2" "reserved_file root_key wk2" "rv_dir r' = root_key"
      using made [OF written(1)] released [OF written(2)] by (auto intro: inside_trans)
    have dir: "butlast ?rel = [] \<or> node_at wk2 (root_key @ butlast ?rel) = Some DirNode"
    proof (cases "butlast ?rel = []")
      case False
      have "node_at wk1 (root_key @ butlast ?rel) = Some DirNode"
        using mkdir_all_made [OF written(1) False] by simp
      moreover have "butlast ?rel \<noteq> [reservation_name]" using reserved_prefix [OF apart prefixeq_butlast] .
      ultimately show ?thesis
        using release_only [OF written(2)] r by (simp add: only_at_def reservation_path_def)
    qed simp
    have "reserved_file root_key wk'"
      using so_far(2) write_entry_nodes(1) [OF written(3), of "root_key @ [reservation_name]"] reserved_prefix [OF apart, of ?rel]
      by (simp add: reserved_file_def)
    then show ?thesis
      using so_far write_entry_inside [OF written(3) path_parts_nonempty dir] written(4)
      by (auto intro: inside_trans split: option.splits)
  qed
qed

lemma entry_tree:
  assumes run: "extract_archive_entry dev root_key entry body location r wk = (Inr r', wk')"
    and r: "rv_dir r = root_key" and apart: "reserved_apart (path_parts (ae_name entry))" and tree: "tree_holds root_key items wk"
  shows "tree_holds root_key (items @ [(entry, body)]) wk'"
proof (cases "ae_kind entry")
  case ArchiveDirectory
  then have mk: "mkdir_all dev root_key (path_parts (ae_name entry)) wk = (True, wk')"
    using run by (auto simp: extract_archive_entry_def Let_def split: prod.splits bool.splits)
  have "node_at wk' (root_key @ rel) = tree_at (items @ [(entry, body)]) rel" if rel: "rel \<noteq> [reservation_name]" for rel
  proof (cases "rel = []")
    case True
    have "node_at wk' root_key = node_at wk root_key" using inside_root [OF inside_mkdir [OF mk]] .
    then show ?thesis
      using tree rel ArchiveDirectory tree_at_root [of items] by (force simp: True tree_holds_def tree_at_dir)
  next
    case False
    then show ?thesis
      using mkdir_all_tree [OF mk False] tree rel ArchiveDirectory
      by (simp add: tree_holds_def tree_at_dir item_path_def)
  qed
  moreover have "\<not> prefix [reservation_name] (path_parts (ae_name entry))" using reserved_prefix [OF apart] by blast
  ultimately show ?thesis
    using mkdir_all_apart [OF mk] apart tree ArchiveDirectory by (simp add: tree_holds_def tree_at_dir item_path_def)
next
  case ArchiveFile
  let ?rel = "path_parts (ae_name entry)"
  from run ArchiveFile obtain wk1 wk2 where mk: "mkdir_all dev root_key (butlast ?rel) wk = (True, wk1)"
    and rel: "release_space dev r (ae_size entry) wk1 = (Inr r', wk2)"
    and wrote: "write_entry dev (root_key @ ?rel) entry body location wk2 = (None, wk')"
    by (cases rule: extract_fileE) (auto split: option.splits)
  have parent: "butlast ?rel = [] \<or> reserved_apart (butlast ?rel)"
    using apart by (cases ?rel) (auto simp: reserved_apart_def)
  have here: "?rel \<noteq> [reservation_name]" using reserved_prefix [OF apart] by simp
  have released: "node_at wk2 (root_key @ p) = node_at wk1 (root_key @ p)" if "p \<noteq> [reservation_name]" for p
    using release_only [OF rel] r that by (simp add: only_at_def reservation_path_def)
  note nodes = write_entry_nodes [OF wrote]
  have "node_at wk2 (root_key @ ?rel) = None" using nodes(4) by simp
  then have "node_at wk1 (root_key @ ?rel) = None" using released [OF here] by simp
  then have free: "tree_at items ?rel = None"
    using mkdir_all_keeps [OF mk] tree here by (cases "tree_at items ?rel") (auto simp: tree_holds_def)
  have "node_at wk' (root_key @ p) = tree_at (items @ [(entry, body)]) p" if p: "p \<noteq> [reservation_name]" for p
  proof (cases "p = ?rel")
    case True
    then show ?thesis using nodes(4) free ArchiveFile by (simp add: tree_at_file item_path_def)
  next
    case False
    then have "node_at wk' (root_key @ p) = node_at wk1 (root_key @ p)" using nodes(1) released [OF p] by simp
    also have "\<dots> = (if tree_at items p = None \<and> prefix p (butlast ?rel) then Some DirNode else tree_at items p)"
    proof (cases "p = []")
      case True
      show ?thesis using inside_root [OF inside_mkdir [OF mk]] tree p tree_at_root [of items] by (force simp: True tree_holds_def)
    next
      case ne: False
      show ?thesis using mkdir_all_tree [OF mk ne] tree p by (simp add: tree_holds_def)
    qed
    finally show ?thesis using False free ArchiveFile by (simp add: tree_at_file item_path_def)
  qed
  moreover have "node_at wk' (root_key @ [reservation_name]) \<noteq> Some DirNode"
    using tree mkdir_all_apart [OF mk parent] release_only [OF rel] r nodes(1) here
    by (simp add: tree_holds_def only_at_def reservation_path_def)
  moreover have "\<not> prefix [reservation_name] (butlast ?rel)"
    using reserved_prefix [OF apart prefix_order.trans [OF _ prefixeq_butlast]] by blast
  ultimately show ?thesis
    using tree free here ArchiveFile by (simp add: tree_holds_def tree_at_file item_path_def)
qed

section \<open>The sources\<close>

definition source_items :: "archive_env \<Rightarrow> int \<Rightarrow> source_plan \<Rightarrow> item list" where
  "source_items env si source =
     (case env_open env Extracting si (sp_path source) of
        None \<Rightarrow> [] | Some stream \<Rightarrow> zip (sp_entries source) (map snd (ts_entries stream)))"

fun sources_items :: "archive_env \<Rightarrow> int \<Rightarrow> source_plan list \<Rightarrow> item list" where
  "sources_items env si [] = []"
| "sources_items env si (source # sources) = source_items env si source @ sources_items env (si + 1) sources"

definition plan_tree :: "archive_env \<Rightarrow> archive_plan \<Rightarrow> key \<Rightarrow> fs_node option" where
  "plan_tree env plan = tree_at (sources_items env 0 (ap_sources plan))"

text \<open>The state between two entries.\<close>

definition extracting :: "key \<Rightarrow> reservation \<Rightarrow> work \<Rightarrow> bool" where
  "extracting root_key r wk \<longleftrightarrow> rv_dir r = root_key \<and> reserved_file root_key wk"

lemma extract_entriesE:
  assumes "extract_entries dev env request root_key si ei (expected # entries) items intact r wk = (res, wk')"
  obtains (stopped) e where "res = Inl e" "wk' = wk"
    | (failed) h body rest e where "items = (h, body) # rest" "reserved_apart (path_parts (ae_name expected))"
        "extract_archive_entry dev root_key expected body (archive_location si ei) r (polled wk) = (Inl e, wk')" "res = Inl e"
    | (went) h body rest r1 wk1 where "items = (h, body) # rest" "reserved_apart (path_parts (ae_name expected))"
        "extract_archive_entry dev root_key expected body (archive_location si ei) r (polled wk) = (Inr r1, wk1)"
        "extract_entries dev env request root_key si (ei + 1) entries rest intact r1 wk1 = (res, wk')"
  using assms
  by (auto simp: Let_def dest: accepted_apart [OF header_accepted(1)] split: if_splits list.splits sum.splits prod.splits)

lemma extract_entries_inside:
  assumes "extract_entries dev env request root_key si ei expected items intact r wk = (res, wk')" and "extracting root_key r wk"
  shows "inside root_key wk wk' \<and> reserved_file root_key wk' \<and> (\<forall>r'. res = Inr r' \<longrightarrow> rv_dir r' = root_key)"
  using assms
proof (induction expected arbitrary: ei items r wk)
  case Nil
  then show ?case by (auto simp: extracting_def inside_refl split: if_splits)
next
  case (Cons expected entries)
  have here: "inside root_key wk wk1 \<and> reserved_file root_key wk1 \<and> (\<forall>r'. res1 = Inr r' \<longrightarrow> rv_dir r' = root_key)"
    if "extract_archive_entry dev root_key expected body (archive_location si ei) r (polled wk) = (res1, wk1)"
      and "reserved_apart (path_parts (ae_name expected))" for body res1 wk1
    using entry_inside [OF that(1) _ that(2)] inside_trans [OF inside_poll, of root_key wk wk1] Cons.prems(2)
    by (simp add: extracting_def reserved_file_def)
  show ?case
    using Cons.prems(1)
  proof (cases rule: extract_entriesE)
    case stopped
    then show ?thesis using Cons.prems(2) by (simp add: extracting_def inside_refl)
  next
    case failed
    then show ?thesis using here by blast
  next
    case went
    then show ?thesis using here [OF went(3,2)] Cons.IH [OF went(4)] by (auto simp: extracting_def intro: inside_trans)
  qed
qed

lemma extract_entries_tree:
  assumes "extract_entries dev env request root_key si ei expected items intact r wk = (Inr r', wk')"
    and "rv_dir r = root_key" and "tree_holds root_key before wk"
  shows "tree_holds root_key (before @ zip expected (map snd items)) wk'"
  using assms
proof (induction expected arbitrary: ei items r wk before)
  case Nil
  then show ?case by (auto split: if_splits)
next
  case (Cons expected entries)
  show ?case
    using Cons.prems(1)
  proof (cases rule: extract_entriesE)
    case (went h body rest r1 wk1)
    have "tree_holds root_key (before @ [(expected, body)]) wk1"
      using entry_tree [OF went(3) Cons.prems(2) went(2)] Cons.prems(3) by simp
    moreover have "rv_dir r1 = root_key"
      using entry_inside [OF went(3) Cons.prems(2) went(2)] Cons.prems(3) by (simp add: reserved_file_def tree_holds_def)
    ultimately show ?thesis using Cons.IH [OF went(4), of "before @ [(expected, body)]"] by (simp add: went(1))
  qed simp_all
qed

lemma extract_sourceE:
  assumes "extract_tar_gzip_source dev env request root_key si source r wk = (res, wk')"
  obtains (stopped) e where "res = Inl e" "wk' = wk"
    | (read) stream res1 where "env_open env Extracting si (sp_path source) = Some stream"
        "extract_entries dev env request root_key si 0 (sp_entries source) (ts_entries stream) (ts_intact stream) r wk = (res1, wk')"
        "\<forall>r'. res = Inr r' \<longrightarrow> res1 = Inr r' \<and> ts_digest stream = Some (sp_sha256 source) \<and>
          ts_compressed_bytes stream = sp_compressed_bytes source"
  using assms by (auto simp: extract_tar_gzip_source_def split: option.splits sum.splits prod.splits if_splits)

lemma extract_sources_inside:
  assumes "extract_sources dev env request root_key si sources r wk = (res, wk')" and "extracting root_key r wk"
  shows "inside root_key wk wk' \<and> reserved_file root_key wk' \<and> (\<forall>r'. res = Inr r' \<longrightarrow> rv_dir r' = root_key)"
  using assms
proof (induction sources arbitrary: si r wk)
  case Nil
  then show ?case by (auto simp: extracting_def inside_refl)
next
  case (Cons source sources)
  obtain res1 wk1 where run: "extract_tar_gzip_source dev env request root_key si source r wk = (res1, wk1)"
    by (cases "extract_tar_gzip_source dev env request root_key si source r wk")
  then have here: "inside root_key wk wk1 \<and> reserved_file root_key wk1 \<and> (\<forall>r'. res1 = Inr r' \<longrightarrow> rv_dir r' = root_key)"
  proof (cases rule: extract_sourceE)
    case stopped
    then show ?thesis using Cons.prems(2) by (simp add: extracting_def inside_refl)
  next
    case read
    then show ?thesis using extract_entries_inside [OF read(2) Cons.prems(2)] by blast
  qed
  show ?case
  proof (cases res1)
    case Inl
    then show ?thesis using Cons.prems(1) run here by auto
  next
    case (Inr r1)
    then show ?thesis
      using Cons.prems(1) run here Cons.IH [of "si + 1" r1 wk1] by (auto simp: extracting_def intro: inside_trans)
  qed
qed

lemma extract_sources_tree:
  assumes "extract_sources dev env request root_key si sources r wk = (Inr r', wk')"
    and "rv_dir r = root_key" and "tree_holds root_key before wk"
  shows "tree_holds root_key (before @ sources_items env si sources) wk'"
  using assms
proof (induction sources arbitrary: si r wk before)
  case (Cons source sources)
  obtain r1 wk1 where run: "extract_tar_gzip_source dev env request root_key si source r wk = (Inr r1, wk1)"
    and rest: "extract_sources dev env request root_key (si + 1) sources r1 wk1 = (Inr r', wk')"
    using Cons.prems(1) by (auto split: prod.splits sum.splits)
  from run obtain stream where opened: "env_open env Extracting si (sp_path source) = Some stream"
    and entries: "extract_entries dev env request root_key si 0 (sp_entries source) (ts_entries stream) (ts_intact stream) r wk = (Inr r1, wk1)"
    by (cases rule: extract_sourceE) auto
  have "tree_holds root_key (before @ source_items env si source) wk1"
    using extract_entries_tree [OF entries Cons.prems(2,3)] by (simp add: source_items_def opened)
  moreover have "rv_dir r1 = root_key"
    using extract_entries_inside [OF entries] Cons.prems(2,3) by (simp add: extracting_def reserved_file_def tree_holds_def)
  ultimately show ?case using Cons.IH [OF rest, of "before @ source_items env si source"] by simp
qed simp

section \<open>The staging directory\<close>

lemma staging_inside: "inside staging wk (snd (extract_into_staging dev env request plan staging wk))"
proof -
  obtain res1 wk1 where new: "new_disk_reservation dev staging
      (add64 (ap_expanded_bytes plan) (al_reservation_headroom_bytes (ar_limits request))) wk = (res1, wk1)"
    by (metis prod.exhaust)
  note only = new_reservation_only [OF new]
  show ?thesis
  proof (cases res1)
    case (Inl e)
    then have "snd (extract_into_staging dev env request plan staging wk) = wk1" by (simp add: extract_into_staging_def new)
    moreover have "inside staging wk wk1"
    proof (cases "reserved_file staging wk")
      case True
      then show ?thesis using only_at_inside [OF only(1)] by (simp add: reserved_file_def)
    next
      case False
      then have "create_exclusive dev (staging @ [reservation_name]) n wk = (False, tick wk)" for n
        by (simp add: create_exclusive_def reserved_file_def)
      then have "wk1 = wk \<or> wk1 = tick wk"
        using new by (auto simp: new_disk_reservation_def reservation_path_def Let_def split: if_splits)
      then show ?thesis by (auto intro: inside_intro)
    qed
    ultimately show ?thesis by simp
  next
    case (Inr r)
    then have r: "rv_dir r = staging" and free: "node_at wk (staging @ [reservation_name]) = None" using only(2) by auto
    have here: "inside staging wk (tick wk1)" "reserved_file staging (tick wk1)"
      using only_at_inside [OF only(1)] only(1) free inside_trans [OF _ inside_tick, of staging wk wk1]
      by (auto simp: reserved_file_def only_at_def)
    have closed: "inside staging wk (snd (close_reservation dev r' wk2))"
      if "inside staging wk wk2" "reserved_file staging wk2" "rv_dir r' = staging" for r' wk2
      using that close_only [of r' wk2 dev] only_at_inside [of staging reservation_name wk2]
      by (auto simp: reserved_file_def reservation_path_def intro: inside_trans)
    obtain res2 wk2 where run: "extract_sources dev env request staging 0 (ap_sources plan) r (tick wk1) = (res2, wk2)"
      by (metis prod.exhaust)
    have "extracting staging r (tick wk1)" using here(2) r by (simp add: extracting_def)
    from extract_sources_inside [OF run this]
    have after: "inside staging wk wk2" "reserved_file staging wk2" "\<forall>r'. res2 = Inr r' \<longrightarrow> rv_dir r' = staging"
      using here(1) by (auto intro: inside_trans)
    have synced: "inside staging wk3 (snd (sync_archive_directories dev staging wk3))" for wk3
      by (rule inside_cong) (rule sync_archive_directories_nodes)
    show ?thesis
    proof (cases "\<exists>e. faults dev wk1 \<or> res2 = Inl e")
      case True
      then show ?thesis
        using closed [OF here r] closed [OF after(1,2) r] by (auto simp: extract_into_staging_def new Inr run split: sum.splits)
    next
      case False
      then obtain r' where r': "res2 = Inr r'" and calm: "\<not> faults dev wk1" by (cases res2) auto
      obtain res3 wk3 where close: "close_reservation dev r' wk2 = (res3, wk3)" by (metis prod.exhaust)
      obtain res4 wk4 where sync: "sync_archive_directories dev staging wk3 = (res4, wk4)" by (metis prod.exhaust)
      have "inside staging wk wk3" using closed [OF after(1,2)] after(3) r' close by (metis snd_conv)
      moreover have "inside staging wk3 wk4" using synced [of wk3] by (simp add: sync)
      ultimately show ?thesis
        using calm by (auto simp: extract_into_staging_def new Inr run r' close sync split: option.splits
            intro: inside_trans inside_trans [OF _ inside_tick])
    qed
  qed
qed

lemma staging_exact:
  assumes fresh: "fresh_directory staging wk" and run: "extract_into_staging dev env request plan staging wk = (None, wk')"
  shows "node_at wk' (staging @ rel) = plan_tree env plan rel"
proof -
  obtain r wk1 r' wk2 wk3 wk4 where new: "new_disk_reservation dev staging
      (add64 (ap_expanded_bytes plan) (al_reservation_headroom_bytes (ar_limits request))) wk = (Inr r, wk1)"
    and sources: "extract_sources dev env request staging 0 (ap_sources plan) r (tick wk1) = (Inr r', wk2)"
    and close: "close_reservation dev r' wk2 = (None, wk3)" and sync: "sync_archive_directories dev staging wk3 = (None, wk4)"
    and wk': "wk' = tick wk4"
    using run by (auto simp: extract_into_staging_def split: prod.splits sum.splits option.splits if_splits)
  note only = new_reservation_only [OF new]
  have r: "rv_dir r = staging" using only(2) by simp
  have empty: "node_at wk (staging @ p) = tree_at [] p" for p
    using fresh by (cases "p = []") (auto simp: fresh_directory_def tree_at_def item_files_def strict_prefix_def)
  then have "tree_holds staging [] (tick wk1)"
    using only(1) by (auto simp: tree_holds_def only_at_def tree_at_def item_files_def)
  from extract_sources_tree [OF sources r this]
  have tree: "tree_holds staging (sources_items env 0 (ap_sources plan)) wk2" by simp
  have r': "rv_dir r' = staging"
    using extract_sources_inside [OF sources] only r empty [of "[reservation_name]"]
    by (auto simp: extracting_def reserved_file_def only_at_def tree_at_def item_files_def)
  have "node_at wk' k = node_at wk3 k" for k
    using sync_archive_directories_nodes [of dev staging wk3 k] by (simp add: sync wk')
  moreover have "wk3 = remove_node (staging @ [reservation_name]) (tick (tick wk2))"
    using close r' by (auto simp: close_reservation_def Let_def reservation_path_def split: if_splits)
  ultimately show ?thesis
    using tree by (auto simp: tree_holds_def plan_tree_def)
qed

end
