(* ===== verification/ExtractRuns.thy ===== *)
theory ExtractRuns
  imports ExtractFacts
begin

text \<open>
  On a disk without faults, and with sources that read as they were inspected, the extraction
  runs to its end: every name is free when its turn comes and the reservation covers every file.
\<close>

definition calm :: "disk_env \<Rightarrow> archive_env \<Rightarrow> bool" where
  "calm dev env \<longleftrightarrow> (\<forall>n. \<not> dev_fault dev n) \<and> (\<forall>n. \<not> env_cancelled env n)"

lemma calm_faults: "calm dev env \<Longrightarrow> \<not> faults dev wk"
  by (simp add: calm_def faults_def)

lemma file_not_above:
  assumes fit: "names_fit fold_case entries" and entries: "f \<in> set entries" "e \<in> set entries" and "ae_kind f = ArchiveFile"
    and prefix: "prefix (path_parts (ae_name f)) (path_parts (ae_name e))"
  shows "f = e"
proof (rule ccontr)
  assume "f \<noteq> e"
  then have names: "ae_name f \<noteq> ae_name e"
    using fit entries by (auto simp: names_fit_def distinct_map dest: inj_onD)
  then have "path_parts (ae_name f) \<noteq> path_parts (ae_name e)" using join_split_parts by metis
  then have "length (path_parts (ae_name f)) < length (path_parts (ae_name e))"
    using prefix by (auto simp: prefix_def)
  moreover have "take (length (path_parts (ae_name f))) (path_parts (ae_name e)) = path_parts (ae_name f)"
    using prefix by (auto simp: prefix_def)
  ultimately have "ae_name f \<in> set (archive_ancestors (ae_name e))"
    unfolding archive_ancestors_iff
    by (intro exI [of _ "length (path_parts (ae_name f))"]) (simp add: join_split_parts)
  then show False using fit entries assms(4) by (auto simp: names_fit_def)
qed

lemma item_files_path:
  assumes "map_of (item_files items) rel = Some bytes"
  shows "\<exists>item \<in> set items. ae_kind (fst item) = ArchiveFile \<and> item_path item = rel \<and> bytes = take (nat (ae_size (fst item))) (snd item)"
  using map_of_SomeD [OF assms] by (auto simp: item_files_def)

lemma names_fit_front: "names_fit fold_case (xs @ ys) \<Longrightarrow> names_fit fold_case xs"
  by (simp add: names_fit_def)

text \<open>No name met on the way of an entry is a file of the entries before it, and a file's name is free.\<close>

lemma way_is_free:
  assumes fit: "names_fit fold_case (map fst items @ [e])" and p: "prefix p (path_parts (ae_name e))" "p \<noteq> []"
  shows "tree_at items p \<in> {None, Some DirNode}"
proof (cases "map_of (item_files items) p")
  case (Some bytes)
  then obtain item where item: "item \<in> set items" "ae_kind (fst item) = ArchiveFile" "item_path item = p"
    using item_files_path by blast
  then have "fst item = e"
    using file_not_above [OF fit, of "fst item" e] p by (auto simp: item_path_def)
  then show ?thesis using fit item(1) by (auto simp: names_fit_def)
qed (simp add: tree_at_def)

lemma file_is_free:
  assumes fit: "names_fit fold_case (map fst items @ [e])" and kind: "ae_kind e = ArchiveFile"
  shows "tree_at items (path_parts (ae_name e)) = None"
proof -
  have new: "fst item \<noteq> e" if "item \<in> set items" for item
    using fit that by (auto simp: names_fit_def)
  have "map_of (item_files items) (path_parts (ae_name e)) = None"
  proof (rule ccontr)
    assume "map_of (item_files items) (path_parts (ae_name e)) \<noteq> None"
    then obtain item where item: "item \<in> set items" "ae_kind (fst item) = ArchiveFile" "item_path item = path_parts (ae_name e)"
      using item_files_path by blast
    then have "fst item = e" using file_not_above [OF fit, of "fst item" e] by (auto simp: item_path_def)
    then show False using new item(1) by blast
  qed
  moreover have "\<not> prefix (path_parts (ae_name e)) (item_dir item)" if item: "item \<in> set items" for item
  proof
    assume "prefix (path_parts (ae_name e)) (item_dir item)"
    then have "prefix (path_parts (ae_name e)) (path_parts (ae_name (fst item)))"
      by (auto simp: item_dir_def item_path_def split: if_splits dest: prefix_order.trans [OF _ prefixeq_butlast])
    then show False using file_not_above [OF fit, of e "fst item"] kind item new [OF item] by auto
  qed
  ultimately show ?thesis by (auto simp: tree_at_def list_ex_iff)
qed

lemma tree_at_root_dir: "tree_at items [] = Some DirNode"
  using item_files_path [of items "[]"] by (cases "map_of (item_files items) []") (auto simp: tree_at_def item_path_def)

lemma mkdir_all_way:
  assumes calm: "calm dev env" and fit: "names_fit fold_case (map fst items @ [e])" and tree: "tree_holds root_key items wk"
    and rel: "prefix rel (path_parts (ae_name e))" and apart: "reserved_apart (path_parts (ae_name e))"
  shows "\<exists>wk'. mkdir_all dev root_key rel wk = (True, wk')"
proof (rule mkdir_all_runs)
  show "\<And>n. \<not> dev_fault dev n" using calm by (simp add: calm_def)
  show "\<forall>p. p \<noteq> [] \<and> prefix p rel \<longrightarrow> node_at wk (root_key @ p) \<in> {None, Some DirNode}"
  proof (intro allI impI)
    fix p assume p: "p \<noteq> [] \<and> prefix p rel"
    then have way: "prefix p (path_parts (ae_name e))" using rel prefix_order.trans by blast
    then show "node_at wk (root_key @ p) \<in> {None, Some DirNode}"
      using way_is_free [OF fit way] p reserved_prefix [OF apart way] tree by (simp add: tree_holds_def)
  qed
qed

lemma write_entry_runs:
  assumes "calm dev env" and "node_at wk path = None" and "butlast path = [] \<or> node_at wk (butlast path) = Some DirNode"
    and "ae_size entry \<le> int (length body)"
  shows "\<exists>wk'. write_entry dev path entry body location wk = (None, wk')"
  using assms by (simp add: write_entry_def create_exclusive_def calm_faults Let_def)

lemma release_runs:
  assumes "calm dev env" and "0 \<le> bytes" and "bytes \<le> rv_remaining r" and "int64 (rv_remaining r)"
  shows "\<exists>wk'. release_space dev r bytes wk = (Inr (r\<lparr>rv_remaining := rv_remaining r - bytes\<rparr>), wk')"
proof -
  have "sub64 (rv_remaining r) bytes = rv_remaining r - bytes"
    using assms(2-4) by (intro sub64_exact) (auto simp: int64_def)
  then show ?thesis using assms by (simp add: release_space_def calm_faults)
qed

lemma entry_runs:
  assumes calm: "calm dev env" and fit: "names_fit fold_case (map fst items @ [e])" and tree: "tree_holds root_key items wk"
    and apart: "reserved_apart (path_parts (ae_name e))" and r: "rv_dir r = root_key" and root_key: "root_key \<noteq> []"
    and size: "0 \<le> ae_size e" "ae_size e \<le> rv_remaining r" "int64 (rv_remaining r)" "ae_size e \<le> int (length body)"
    and dir: "ae_kind e = ArchiveDirectory \<longrightarrow> ae_size e = 0"
  shows "\<exists>r' wk'. extract_archive_entry dev root_key e body location r wk = (Inr r', wk') \<and>
    rv_dir r' = root_key \<and> rv_remaining r' = rv_remaining r - ae_size e"
proof (cases "ae_kind e")
  case ArchiveDirectory
  then show ?thesis
    using mkdir_all_way [OF calm fit tree prefix_order.order_refl apart] dir r by (auto simp: extract_archive_entry_def)
next
  case ArchiveFile
  let ?rel = "path_parts (ae_name e)"
  obtain wk1 where mk: "mkdir_all dev root_key (butlast ?rel) wk = (True, wk1)"
    using mkdir_all_way [OF calm fit tree prefixeq_butlast apart] by blast
  obtain wk2 where rel: "release_space dev r (ae_size e) wk1 = (Inr (r\<lparr>rv_remaining := rv_remaining r - ae_size e\<rparr>), wk2)"
    using release_runs [OF calm size(1-3)] by blast
  have here: "?rel \<noteq> [reservation_name]" and there: "butlast ?rel \<noteq> [reservation_name]"
    using reserved_prefix [OF apart] prefixeq_butlast by blast+
  have released: "node_at wk2 (root_key @ p) = node_at wk1 (root_key @ p)" if "p \<noteq> [reservation_name]" for p
    using release_only [OF rel] r that by (simp add: only_at_def reservation_path_def)
  have "node_at wk (root_key @ ?rel) = None"
    using tree file_is_free [OF fit ArchiveFile] here by (simp add: tree_holds_def)
  then have "node_at wk1 (root_key @ ?rel) = None"
    using mkdir_all_nodes [OF mk, of "root_key @ ?rel"] not_prefix_butlast [of ?rel] by auto
  then have free: "node_at wk2 (root_key @ ?rel) = None" using released [OF here] by simp
  have "node_at wk2 (root_key @ butlast ?rel) = Some DirNode"
  proof (cases "butlast ?rel = []")
    case True
    then show ?thesis
      using tree inside_root [OF inside_mkdir [OF mk]] released [of "[]"] tree_at_root_dir
      by (simp add: tree_holds_def) (metis append_Nil2 list.distinct(1))
  next
    case False
    then show ?thesis using mkdir_all_made [OF mk False] released [OF there] by simp
  qed
  then obtain wk3 where "write_entry dev (root_key @ ?rel) e body location wk2 = (None, wk3)"
    using write_entry_runs [OF calm free _ size(4)] by (auto simp: butlast_append)
  then show ?thesis using mk rel r ArchiveFile by (auto simp: extract_archive_entry_def)
qed

lemma entries_runs:
  assumes calm: "calm dev env" and root_key: "root_key \<noteq> []"
    and reads: "list_all2 (entry_reads env (ar_limits request) (ar_expected_roots request)) items entries"
    and fit: "names_fit fold_case (map fst before @ entries)" and tree: "tree_holds root_key before wk" and r: "rv_dir r = root_key"
    and size: "entries_total entries \<le> rv_remaining r" "int64 (rv_remaining r)"
  shows "\<exists>r' wk'. extract_entries dev env request root_key si ei entries items True r wk = (Inr r', wk') \<and>
    rv_dir r' = root_key \<and> rv_remaining r' = rv_remaining r - entries_total entries"
  using reads fit tree r size
proof (induction entries arbitrary: items before ei r wk rule: list.induct)
  case Nil
  have "items = []" using Nil.prems(1) by simp
  then show ?case using Nil.prems(4) by (simp add: entries_total_def)
next
  case (Cons e entries)
  obtain h body rest where items: "items = (h, body) # rest" and reads: "entry_reads env (ar_limits request) (ar_expected_roots request) (h, body) e"
      "list_all2 (entry_reads env (ar_limits request) (ar_expected_roots request)) rest entries"
    using Cons.prems(1) by (cases items) auto
  have header: "validate_archive_header (env_nfc env) (env_fold env) h (ar_limits request) (ar_expected_roots request) None location = Inr (e, None)" for location
    using reads(1) by (simp add: entry_reads_def)
  have accepted: "reserved_apart (path_parts (ae_name e))" "0 \<le> ae_size e" "ae_kind e = ArchiveDirectory \<longrightarrow> ae_size e = 0"
    using header_accepted [OF header] accepted_apart by blast+
  have others: "0 \<le> ae_size e'" if "e' \<in> set entries" for e'
  proof -
    obtain item where "entry_reads env (ar_limits request) (ar_expected_roots request) item e'"
      using reads(2) \<open>e' \<in> set entries\<close> by (metis in_set_conv_nth list_all2_conv_all_nth)
    then show ?thesis by (auto simp: entry_reads_def dest!: spec dest: header_accepted(2))
  qed
  have rest: "0 \<le> entries_total entries" using others entries_total_nonneg by blast
  have room: "ae_size e \<le> rv_remaining r" "entries_total entries \<le> rv_remaining r - ae_size e" "int64 (rv_remaining r - ae_size e)"
    using Cons.prems(5,6) accepted(2) rest by (auto simp: entries_total_def int64_def)
  have fit: "names_fit fold_case (map fst before @ [e])"
    using Cons.prems(2) names_fit_front [of fold_case "map fst before @ [e]"] by simp
  have live: "\<not> env_cancelled env n" for n using calm by (simp add: calm_def)
  obtain r1 wk1 where run: "extract_archive_entry dev root_key e body (archive_location si ei) r (polled wk) = (Inr r1, wk1)"
      and r1: "rv_dir r1 = root_key" "rv_remaining r1 = rv_remaining r - ae_size e"
    using entry_runs [OF calm fit _ accepted(1) Cons.prems(4) root_key accepted(2) room(1) Cons.prems(6) _ accepted(3),
        of "polled wk" body "archive_location si ei"]
      Cons.prems(3) reads(1) by (auto simp: entry_reads_def)
  have tree1: "tree_holds root_key (before @ [(e, body)]) wk1"
    using entry_tree [OF run Cons.prems(4) accepted(1)] Cons.prems(3) by simp
  have fit1: "names_fit fold_case (map fst (before @ [(e, body)]) @ entries)" using Cons.prems(2) by simp
  obtain r2 wk2 where go: "extract_entries dev env request root_key si (ei + 1) entries rest True r1 wk1 = (Inr r2, wk2)"
      and r2: "rv_dir r2 = root_key" "rv_remaining r2 = rv_remaining r1 - entries_total entries"
    using Cons.IH [OF reads(2) fit1 tree1 r1(1), of "ei + 1"] room r1(2) by auto
  show ?case
    using run go r1 r2 live by (auto simp: items header entries_total_def)
qed

lemma sources_runs:
  assumes calm: "calm dev env" and root_key: "root_key \<noteq> []"
    and roots: "validate_expected_roots (env_nfc env) (ar_limits request) 0 (ar_expected_roots request) = None"
    and reads: "\<forall>i < length sources. source_reads env Extracting (ar_limits request) (ar_expected_roots request) (si + int i) (sources ! i)"
    and fit: "names_fit fold_case (map fst before @ concat (map sp_entries sources))"
    and tree: "tree_holds root_key before wk" and r: "rv_dir r = root_key"
    and size: "entries_total (concat (map sp_entries sources)) \<le> rv_remaining r" "int64 (rv_remaining r)"
    and nonneg: "\<forall>e \<in> set (concat (map sp_entries sources)). 0 \<le> ae_size e"
  shows "\<exists>r' wk'. extract_sources dev env request root_key si sources r wk = (Inr r', wk') \<and> rv_dir r' = root_key"
  using reads fit tree r size nonneg
proof (induction sources arbitrary: si before r wk)
  case (Cons source sources)
  have "source_reads env Extracting (ar_limits request) (ar_expected_roots request) si source"
    using Cons.prems(1) by force
  then obtain stream where opened: "env_open env Extracting si (sp_path source) = Some stream"
    and stream: "ts_intact stream" "ts_compressed_bytes stream = sp_compressed_bytes source" "ts_digest stream = Some (sp_sha256 source)"
    and entries: "list_all2 (entry_reads env (ar_limits request) (ar_expected_roots request)) (ts_entries stream) (sp_entries source)"
    by (auto simp: source_reads_def)
  have later: "\<forall>i < length sources. source_reads env Extracting (ar_limits request) (ar_expected_roots request) (si + 1 + int i) (sources ! i)"
    using Cons.prems(1) by (auto simp: add.assoc dest: spec [of _ "Suc _"])
  have total: "entries_total (concat (map sp_entries (source # sources))) =
      entries_total (sp_entries source) + entries_total (concat (map sp_entries sources))"
    by (simp add: entries_total_def)
  have parts: "0 \<le> entries_total (sp_entries source)" "0 \<le> entries_total (concat (map sp_entries sources))"
    using Cons.prems(7) by (auto intro!: entries_total_nonneg)
  have fit: "names_fit fold_case (map fst before @ sp_entries source)"
    using Cons.prems(2) names_fit_front [of fold_case "map fst before @ sp_entries source"] by simp
  obtain r1 wk1 where run: "extract_entries dev env request root_key si 0 (sp_entries source) (ts_entries stream) True r wk = (Inr r1, wk1)"
    and r1: "rv_dir r1 = root_key" "rv_remaining r1 = rv_remaining r - entries_total (sp_entries source)"
    using entries_runs [OF calm root_key entries fit Cons.prems(3,4) _ Cons.prems(6), of si 0] Cons.prems(5) parts total by auto
  have "length (ts_entries stream) = length (sp_entries source)" using entries by (simp add: list_all2_lengthD)
  then have "map fst (before @ zip (sp_entries source) (map snd (ts_entries stream))) = map fst before @ sp_entries source" by simp
  then have fit1: "names_fit fold_case (map fst (before @ zip (sp_entries source) (map snd (ts_entries stream))) @ concat (map sp_entries sources))"
    using Cons.prems(2) by simp
  note tree1 = extract_entries_tree [OF run Cons.prems(4,3)]
  have "\<exists>r' wk'. extract_sources dev env request root_key (si + 1) sources r1 wk1 = (Inr r', wk') \<and> rv_dir r' = root_key"
    using Cons.IH [OF later fit1 tree1 r1(1)] Cons.prems(5-7) parts total r1(2) by (auto simp: int64_def)
  then show ?case using opened stream roots run by (auto simp: extract_tar_gzip_source_def)
qed auto

section \<open>The staging directory and its publication\<close>

interpretation extraction: staging_writer "extract_into_staging dev env request plan" "plan_tree env plan"
  for dev env request plan
  by unfold_locales (fact staging_inside, fact staging_exact)

lemma allocate_runs: "calm dev env \<Longrightarrow> \<exists>wk'. allocate_from dev path written bytes wk = (True, wk')"
proof (induction dev path written bytes wk rule: allocate_from.induct)
  case (1 dev path written bytes wk)
  then show ?case by (subst allocate_from.simps) (simp add: calm_faults Let_def)
qed

lemma reservation_runs:
  assumes calm: "calm dev env" and fresh: "fresh_directory directory wk" and bytes: "0 \<le> bytes"
  shows "\<exists>wk'. new_disk_reservation dev directory bytes wk = (Inr \<lparr> rv_dir = directory, rv_remaining = bytes \<rparr>, wk')"
proof -
  have "node_at wk (directory @ [reservation_name]) = None" "node_at wk directory = Some DirNode"
    using fresh by (auto simp: fresh_directory_def strict_prefix_def)
  then obtain wk1 where "create_exclusive dev (directory @ [reservation_name]) (ReservedNode 0) wk = (True, wk1)"
    using calm by (auto simp: create_exclusive_def calm_faults)
  then show ?thesis
    using allocate_runs [OF calm, of "directory @ [reservation_name]" 0 bytes wk1] bytes
    by (auto simp: new_disk_reservation_def reservation_path_def)
qed

lemma sync_directory_runs: "calm dev env \<Longrightarrow> \<exists>wk'. sync_directory dev wk = (True, wk')"
  by (simp add: sync_directory_def calm_faults)

lemma sync_directories_runs: "calm dev env \<Longrightarrow> \<exists>wk'. sync_directories dev ks wk = (None, wk')"
proof (induction ks arbitrary: wk)
  case (Cons k ks)
  then show ?case using sync_directory_runs [OF Cons.prems, of wk] by auto
qed simp

lemma staging_runs:
  assumes calm: "calm dev env" and fresh: "fresh_directory staging wk"
    and sound: "plan_sound env Extracting (ar_limits request) (ar_expected_roots request) plan"
    and roots: "validate_expected_roots (env_nfc env) (ar_limits request) 0 (ar_expected_roots request) = None"
    and room: "0 \<le> al_reservation_headroom_bytes (ar_limits request)"
      "int64 (ap_expanded_bytes plan + al_reservation_headroom_bytes (ar_limits request))"
  shows "\<exists>wk'. extract_into_staging dev env request plan staging wk = (None, wk')"
proof -
  let ?bytes = "ap_expanded_bytes plan + al_reservation_headroom_bytes (ar_limits request)"
  have nonneg: "\<forall>e \<in> set (plan_entries plan). 0 \<le> ae_size e"
    and total: "ap_expanded_bytes plan = entries_total (plan_entries plan)"
    and fit: "names_fit (env_fold env) (plan_entries plan)"
    using sound by (auto simp: plan_sound_def entry_accepted_def totals_hold_def)
  have bytes: "0 \<le> ?bytes" "entries_total (plan_entries plan) \<le> ?bytes"
    using room(1) entries_total_nonneg [OF nonneg] total by simp_all
  have staging: "staging \<noteq> []" using fresh by (simp add: fresh_directory_def)
  obtain wk1 where new: "new_disk_reservation dev staging ?bytes wk = (Inr \<lparr> rv_dir = staging, rv_remaining = ?bytes \<rparr>, wk1)"
    using reservation_runs [OF calm fresh bytes(1)] by blast
  have "tree_holds staging [] (tick wk1)"
    using new_reservation_only(1) [OF new] fresh
    by (auto simp: tree_holds_def only_at_def tree_at_def item_files_def fresh_directory_def strict_prefix_def)
  from sources_runs [OF calm staging roots, where sources = "ap_sources plan" and si = 0 and before = "[]" and fold_case = "env_fold env"
      and r = "\<lparr> rv_dir = staging, rv_remaining = ?bytes \<rparr>", OF _ _ this]
  obtain r' wk2 where sources: "extract_sources dev env request staging 0 (ap_sources plan)
      \<lparr> rv_dir = staging, rv_remaining = ?bytes \<rparr> (tick wk1) = (Inr r', wk2)"
    using sound fit bytes room(2) nonneg by (auto simp: plan_sound_def plan_entries_def)
  obtain wk3 where close: "close_reservation dev r' wk2 = (None, wk3)"
    using calm by (simp add: close_reservation_def calm_faults Let_def)
  obtain wk4 where "sync_archive_directories dev staging wk3 = (None, wk4)"
    using sync_directories_runs [OF calm] calm by (auto simp: sync_archive_directories_def calm_faults)
  then show ?thesis
    using new sources close calm room(2) by (simp add: extract_into_staging_def add64_exact calm_faults)
qed

lemma publish_runs:
  assumes calm: "calm dev env" and ok: "publishable destination staging wk"
    and fill: "fill staging (tick wk) = (None, wk1)" and inside: "inside staging wk wk1"
  shows "\<exists>wk'. publish_staging dev fill destination staging wk = (None, wk')"
proof -
  have "node_at wk1 destination = None"
    using inside publishable_apart(1) [OF ok] publishable_apart(3) [OF ok, of "[]"] by (auto simp: inside_def strict_prefix_def)
  then obtain wk2 where "rename dev staging destination wk1 = (True, wk2)"
    using calm by (simp add: rename_def calm_faults)
  then show ?thesis
    using fill calm sync_directory_runs [OF calm, of wk2] by (auto simp: publish_staging_def calm_faults)
qed

section \<open>Reaching the staging directory\<close>

definition extract_destination :: "disk_env \<Rightarrow> archive_request \<Rightarrow> key option" where
  "extract_destination dev request =
     (case current_path_policy (dev_os dev) of Inl e \<Rightarrow> None | Inr policy \<Rightarrow>
     (case validate_mutation_root (dev_os dev) policy (ar_destination request) of Inl e \<Rightarrow> None | Inr k \<Rightarrow> Some k))"

lemma mkdir_temp_Some:
  assumes "mkdir_temp dev destination wk = (Some staging, wk')"
  obtains random where "random \<in> set (dev_suffixes dev)" "staging = staging_key destination random" "node_at wk staging = None"
    "butlast staging = [] \<or> node_at wk (butlast staging) = Some DirNode" "wk' = put_node staging DirNode (tick wk)"
proof -
  obtain random where found: "find (\<lambda>random. node_at wk (staging_key destination random) = None) (dev_suffixes dev) = Some random"
    and made: "create_exclusive dev (staging_key destination random) DirNode wk = (True, wk')" "staging = staging_key destination random"
    using assms by (auto simp: mkdir_temp_def split: option.splits prod.splits bool.splits)
  have "random \<in> set (dev_suffixes dev)" using found by (metis find_Some_iff nth_mem)
  then show ?thesis using that made by (simp add: create_exclusive_True)
qed

lemma mkdir_temp_None: "mkdir_temp dev destination wk = (None, wk') \<Longrightarrow> wk' = tick wk"
  by (auto simp: mkdir_temp_def create_exclusive_def split: option.splits if_splits prod.splits)

lemma staging_prepared:
  assumes wf: "wf_tree wk" and destination: "destination \<noteq> []" "node_at wk destination = None"
    and temp: "mkdir_temp dev destination wk = (Some staging, wk')"
  shows "publishable destination staging wk'" and "k \<noteq> staging \<Longrightarrow> node_at wk' k = node_at wk k" and "node_at wk staging = None"
proof -
  obtain random where staging: "staging = staging_key destination random" and free: "node_at wk staging = None"
    and parent: "butlast staging = [] \<or> node_at wk (butlast staging) = Some DirNode" and wk': "wk' = put_node staging DirNode (tick wk)"
    using temp by (rule mkdir_temp_Some)
  have names: "staging \<noteq> []" "butlast staging = butlast destination" by (simp_all add: staging staging_key_def)
  have "destination \<noteq> staging"
  proof
    assume "destination = staging"
    then have "last destination = ''.'' @ last destination @ ''.extract-'' @ random"
      by (metis last_snoc staging staging_key_def)
    then have "length (last destination) = length (''.'' @ last destination @ ''.extract-'' @ random)"
      by (rule arg_cong)
    then show False by simp
  qed
  moreover have "node_at wk k = None" if "strict_prefix staging k" for k
    using no_children [OF wf _ names(1) that] free by simp
  moreover have "wf_tree wk'" unfolding wk'
    using wf parent names(1) by (intro wf_put) (auto simp: has_parent_def)
  ultimately show "publishable destination staging wk'"
    using destination names by (auto simp: publishable_def fresh_directory_def wk')
  show "k \<noteq> staging \<Longrightarrow> node_at wk' k = node_at wk k" by (simp add: wk')
  show "node_at wk staging = None" by (rule free)
qed

end
