(* ===== verification/PathProps.thy ===== *)
theory PathProps
  imports PathPolicy
begin

text \<open>
  What the path policy promises on Linux: an accepted directory is no ancestor of, and not equal
  to, any protected place.
\<close>

text \<open>\<open>EvalSymlinks\<close> answers a clean absolute path, as its documentation says.\<close>

definition linux_view :: "os_view \<Rightarrow> bool" where
  "linux_view os \<longleftrightarrow> ov_goos os = Linux \<and> (\<forall>k k'. ov_eval_symlinks os k = Some k' \<longrightarrow> (\<forall>p \<in> set k'. plain_part p))"

lemma absolute_key_plain: "absolute_key os path = Some k \<Longrightarrow> \<forall>p \<in> set k. plain_part p"
  using key_of_plain by (auto simp: absolute_key_def split: if_splits option.splits)

lemma resolve_up_plain:
  "linux_view os \<Longrightarrow> \<forall>p \<in> set (current @ missing). plain_part p \<Longrightarrow> resolve_up os current missing = Some k \<Longrightarrow> \<forall>p \<in> set k. plain_part p"
proof (induction os current missing rule: resolve_up.induct)
  case (1 os current missing)
  note run = "1.prems"(3) [unfolded resolve_up.simps [of os current missing]]
  show ?case
  proof (cases "ov_lstat os (rev current)")
    case StatPresent
    then obtain real_path where "ov_eval_symlinks os (rev current) = Some real_path" "k = real_path @ missing"
      using run by auto
    then show ?thesis using "1.prems"(1,2) by (auto simp: linux_view_def)
  next
    case StatMissing
    then obtain base parent where current: "current = base # parent" and up: "resolve_up os parent (base # missing) = Some k"
      using run by (auto split: list.splits)
    show ?thesis using "1.IH" [OF StatMissing current "1.prems"(1) _ up] "1.prems"(2) by (simp add: current)
  next
    case StatUnreadable
    then show ?thesis using run by simp
  qed
qed

lemma resolve_plain:
  assumes "linux_view os" and "resolve_with_existing_parents os path = Some k"
  shows "\<forall>p \<in> set k. plain_part p"
proof -
  obtain a where a: "absolute_key os path = Some a" and up: "resolve_up os (rev a) [] = Some k"
    using assms(2) by (auto simp: resolve_with_existing_parents_def split: option.splits)
  show ?thesis using resolve_up_plain [OF assms(1) _ up] absolute_key_plain [OF a] by simp
qed

lemma resolve_protected_set:
  "resolve_protected os locations = Inr policy \<Longrightarrow> (location, path) \<in> set locations \<Longrightarrow>
   \<exists>k. resolve_with_existing_parents os path = Some k \<and> (location, k) \<in> set policy"
proof (induction os locations arbitrary: policy rule: resolve_protected.induct)
  case (2 os location' path' locations)
  obtain k rest where k: "resolve_with_existing_parents os path' = Some k" and rest: "resolve_protected os locations = Inr rest"
    and policy: "policy = (location', k) # rest"
    using "2.prems"(1) by (cases "resolve_protected os locations") (auto split: option.splits)
  show ?case
    using "2.IH" [OF k rest] "2.prems"(2) k by (auto simp: policy)
qed simp

text \<open>The places that the current policy protects.\<close>

definition protected_places :: "os_view \<Rightarrow> string list" where
  "protected_places os =
     [slash] # (case ov_home os of None \<Rightarrow> [] | Some home \<Rightarrow> [home]) @
     (case ov_working_dir os of None \<Rightarrow> []
      | Some dir \<Rightarrow> dir # (case find_repository_root os (rev (key_of dir)) of None \<Rightarrow> [] | Some k \<Rightarrow> [key_text k]))"

lemma policy_resolves:
  assumes policy: "current_path_policy os = Inr policy" and place: "place \<in> set (protected_places os)"
  shows "\<exists>location k. resolve_with_existing_parents os place = Some k \<and> (location, k) \<in> set policy"
proof -
  obtain home dir where home: "ov_home os = Some home" "ov_working_dir os = Some dir"
    and new: "new_path_policy os home (case find_repository_root os (rev (key_of dir)) of None \<Rightarrow> [] | Some k \<Rightarrow> key_text k) dir = Inr policy"
    using policy by (auto simp: current_path_policy_def split: option.splits)
  define repository where "repository = (case find_repository_root os (rev (key_of dir)) of None \<Rightarrow> [] | Some k \<Rightarrow> key_text k)"
  define locations where "locations = ([(ProtectedUserHome, home), (ProtectedWorkingDir, dir)] @
    (if repository = [] then [] else [(ProtectedRepositoryRoot, repository)])) @ [(ProtectedFilesystemRoot, [slash])]"
  have resolved: "resolve_protected os locations = Inr policy"
    using new unfolding repository_def [symmetric] new_path_policy_def build_path_policy_def locations_def
    by (auto simp del: resolve_protected.simps split: if_splits)
  have "\<exists>location. (location, place) \<in> set locations"
  proof (cases "find_repository_root os (rev (key_of dir))")
    case None
    then show ?thesis using place home by (auto simp: protected_places_def locations_def)
  next
    case (Some k)
    then have "repository = key_text k" "repository \<noteq> []" by (simp_all add: repository_def key_text_def)
    then show ?thesis using place home Some by (auto simp: protected_places_def locations_def)
  qed
  then show ?thesis using resolve_protected_set [OF resolved] by blast
qed

lemma contains_linux:
  assumes "linux_view os" and "\<forall>p \<in> set child. plain_part p"
  shows "contains_or_equal os parent child \<longleftrightarrow> prefix parent child"
proof -
  have "''..'' \<notin> set child" using assms(2) by (auto simp: plain_part_def)
  then show ?thesis
    using rel_key_inside assms(1) by (simp add: contains_or_equal_def comparison_path_def linux_view_def)
qed

lemma destination_protects:
  assumes linux: "linux_view os" and policy: "current_path_policy os = Inr policy"
    and valid: "validate_mutation_root os policy path = Inr k"
  shows "resolve_with_existing_parents os path = Some k" and "k \<noteq> []"
    and "place \<in> set (protected_places os) \<Longrightarrow> \<exists>p. resolve_with_existing_parents os place = Some p \<and> \<not> prefix k p"
proof -
  show "resolve_with_existing_parents os path = Some k"
    using valid by (auto simp: validate_mutation_root_def split: if_splits option.splits)
  have clear: "\<not> contains_or_equal os k p" if "(location, p) \<in> set policy" for location p
    using valid that by (auto simp: validate_mutation_root_def list_ex_iff split: if_splits option.splits)
  show places: "\<exists>p. resolve_with_existing_parents os place = Some p \<and> \<not> prefix k p" if "place \<in> set (protected_places os)" for place
    using policy_resolves [OF policy that] clear contains_linux [OF linux resolve_plain [OF linux]] by metis
  show "k \<noteq> []" using places [of "[slash]"] by (auto simp: protected_places_def)
qed

end
