(* ===== verification/ExtractProps.thy ===== *)
theory ExtractProps
  imports ExtractRuns PathProps
begin

text \<open>
  The extraction as a whole: what it changes, what it leaves alone, and when it succeeds.
\<close>

lemma extract_planE:
  assumes run: "extract_tar_gzip_plan dev env request plan wk = (res, wk')"
    and destination: "extract_destination dev request = Some d" and d: "d \<noteq> []" and wf: "wf_tree wk"
  obtains (refused) e where "res = Inl e" "\<And>k. node_at wk' k = node_at wk k"
    | (unmade) e ok wk1 where "res = Inl e" "node_at wk d = None" "mkdir_all dev [] (butlast d) (tick wk) = (ok, wk1)"
        "\<And>k. node_at wk' k = node_at wk1 k"
    | (staged) wk1 random wk2 r where "node_at wk d = None" "mkdir_all dev [] (butlast d) (tick wk) = (True, wk1)"
        "mkdir_temp dev d wk1 = (Some (staging_key d random), wk2)" "random \<in> set (dev_suffixes dev)"
        "publishable d (staging_key d random) wk2" "\<And>k. k \<noteq> staging_key d random \<Longrightarrow> node_at wk2 k = node_at wk1 k"
        "node_at wk1 (staging_key d random) = None"
        "publish_staging dev (extract_into_staging dev env request plan) d (staging_key d random) wk2 = (r, wk')"
        "res = (case r of Some e \<Rightarrow> Inl e | None \<Rightarrow> Inr (archive_result (key_text d) plan))"
proof -
  obtain policy where policy: "current_path_policy (dev_os dev) = Inr policy"
    and valid: "validate_mutation_root (dev_os dev) policy (ar_destination request) = Inr d"
    using destination by (auto simp: extract_destination_def split: sum.splits)
  show ?thesis
  proof (cases "faults dev wk \<or> node_at wk d \<noteq> None")
    case True
    then show ?thesis using run refused by (auto simp: extract_tar_gzip_plan_def policy valid)
  next
    case False
    obtain ok wk1 where mk: "mkdir_all dev [] (butlast d) (tick wk) = (ok, wk1)" by (metis prod.exhaust)
    have parent: "node_at wk d = None" and wf1: "wf_tree wk1"
      using False mkdir_all_wf [OF mk] wf by simp_all
    show ?thesis
    proof (cases ok)
      case not_ok: False
      then show ?thesis using run unmade [OF _ parent mk] False mk by (auto simp: extract_tar_gzip_plan_def policy valid)
    next
      case ok: True
      obtain made wk2 where temp: "mkdir_temp dev d wk1 = (made, wk2)" by (metis prod.exhaust)
      have free: "node_at wk1 d = None"
        using mkdir_all_nodes [OF mk, of d] parent not_prefix_butlast [OF d] by auto
      show ?thesis
      proof (cases made)
        case None
        then have "wk2 = tick wk1" using temp mkdir_temp_None by simp
        then show ?thesis
          using run unmade [OF _ parent mk] False mk ok temp None by (auto simp: extract_tar_gzip_plan_def policy valid)
      next
        case (Some staging)
        obtain random where random: "random \<in> set (dev_suffixes dev)" "staging = staging_key d random"
          using mkdir_temp_Some temp Some by blast
        note prepared = staging_prepared [OF wf1 d free temp [unfolded Some]]
        obtain r wk3 where publish: "publish_staging dev (extract_into_staging dev env request plan) d staging wk2 = (r, wk3)"
          by (metis prod.exhaust)
        then have "wk3 = wk'" "res = (case r of Some e \<Rightarrow> Inl e | None \<Rightarrow> Inr (archive_result (key_text d) plan))"
          using run False mk ok temp Some by (auto simp: extract_tar_gzip_plan_def policy valid split: option.splits)
        then show ?thesis
          using staged [of wk1 random wk2 r] parent mk ok temp Some random prepared publish by simp
      qed
    qed
  qed
qed

section \<open>Everything or nothing, and nothing else\<close>

definition made_by_extraction :: "key \<Rightarrow> key \<Rightarrow> bool" where
  "made_by_extraction d k \<longleftrightarrow> prefix d k \<or> strict_prefix k d \<or> (\<exists>random. prefix (staging_key d random) k)"

lemma plan_extraction:
  assumes wf: "wf_tree wk" and destination: "extract_destination dev request = Some d" and d: "d \<noteq> []"
    and run: "extract_tar_gzip_plan dev env request plan wk = (res, wk')"
  shows "wf_tree wk'" and "node_at wk k = Some n \<Longrightarrow> node_at wk' k = Some n"
    and "node_at wk' k \<noteq> node_at wk k \<Longrightarrow> made_by_extraction d k"
    and "(\<forall>rel. node_at wk' (d @ rel) = node_at wk (d @ rel)) \<and> (\<exists>e. res = Inl e) \<or>
      (\<forall>rel. node_at wk' (d @ rel) = plan_tree env plan rel)"
    and "res = Inr result \<Longrightarrow> result = archive_result (key_text d) plan"
proof -
  have above: "strict_prefix k d" if "prefix k (butlast d)" for k
    using that not_prefix_butlast [OF d] prefix_order.trans [OF that prefixeq_butlast] by (auto simp: strict_prefix_def)
  have "wf_tree wk' \<and> (\<forall>k n. node_at wk k = Some n \<longrightarrow> node_at wk' k = Some n) \<and>
    (\<forall>k. node_at wk' k \<noteq> node_at wk k \<longrightarrow> made_by_extraction d k) \<and>
    ((\<forall>rel. node_at wk' (d @ rel) = node_at wk (d @ rel)) \<and> (\<exists>e. res = Inl e) \<or>
      (\<forall>rel. node_at wk' (d @ rel) = plan_tree env plan rel)) \<and>
    (\<forall>result. res = Inr result \<longrightarrow> result = archive_result (key_text d) plan)"
    using run destination d wf
  proof (cases rule: extract_planE)
    case (refused e)
    then show ?thesis using wf wf_tree_cong [of wk' wk] by simp
  next
    case (unmade e ok wk1)
    have "wf_tree wk'" using mkdir_all_wf [OF unmade(3)] wf wf_tree_cong [OF unmade(4)] by simp
    moreover have "node_at wk1 (d @ rel) = node_at wk (d @ rel)" for rel
      using mkdir_all_nodes [OF unmade(3), of "d @ rel"] not_prefix_butlast [OF d] by (auto dest: append_prefixD)
    ultimately show ?thesis
      using unmade(1,4) mkdir_all_nodes [OF unmade(3)] above mkdir_all_keeps [OF unmade(3)]
      by (auto simp: made_by_extraction_def)
  next
    case (staged wk1 random wk2 r)
    let ?staging = "staging_key d random"
    note all = extraction.publish_atomic [OF staged(5,8), unfolded published_def]
    have below: "node_at wk1 k = None" if "prefix ?staging k" for k
      using that staged(5,6) no_children [of wk1 ?staging k] mkdir_all_wf [OF staged(2)] wf staged(7)
      by (cases "k = ?staging") (auto simp: publishable_def fresh_directory_def strict_prefix_def)
    have absent: "node_at wk (d @ rel) = None" for rel
      using no_children [OF wf _ d, of "d @ rel"] staged(1) by (cases "rel = []") (auto simp: strict_prefix_def)
    have outside: "node_at wk' k = node_at wk1 k" if "\<not> prefix d k" "\<not> prefix ?staging k" for k
      using all that staged(6) [of k] by auto
    have "node_at wk' k = Some n" if "node_at wk k = Some n" for k n
    proof -
      have kept: "node_at wk1 k = Some n" using mkdir_all_keeps [OF staged(2), of k n] that by simp
      moreover have "\<not> prefix d k" using that absent by (auto simp: prefix_def)
      ultimately show ?thesis using outside below by fastforce
    qed
    moreover have "made_by_extraction d k" if "node_at wk' k \<noteq> node_at wk k" for k
    proof (cases "prefix d k \<or> prefix ?staging k")
      case False
      then show ?thesis
        using that outside [of k] mkdir_all_nodes [OF staged(2), of k] above by (auto simp: made_by_extraction_def)
    qed (auto simp: made_by_extraction_def)
    ultimately show ?thesis
      using all absent staged(9) by (auto split: option.splits)
  qed
  then show "wf_tree wk'" "node_at wk k = Some n \<Longrightarrow> node_at wk' k = Some n"
    "node_at wk' k \<noteq> node_at wk k \<Longrightarrow> made_by_extraction d k"
    "(\<forall>rel. node_at wk' (d @ rel) = node_at wk (d @ rel)) \<and> (\<exists>e. res = Inl e) \<or>
      (\<forall>rel. node_at wk' (d @ rel) = plan_tree env plan rel)"
    "res = Inr result \<Longrightarrow> result = archive_result (key_text d) plan"
    by blast+
qed

section \<open>Exactly the plan\<close>

text \<open>What a run without an error has read again is what was inspected.\<close>

lemma extract_archive_entry_body:
  assumes "extract_archive_entry dev root_key entry body location r wk = (Inr r', wk')"
    and "ae_kind entry = ArchiveDirectory \<longrightarrow> ae_size entry = 0"
  shows "ae_size entry \<le> int (length body)"
proof (cases "ae_kind entry")
  case ArchiveFile
  from assms(1) ArchiveFile show ?thesis
    by (cases rule: extract_fileE) (auto dest: write_entry_nodes(4) split: option.splits)
qed (use assms(2) in simp)

lemma extract_entries_reads:
  "extract_entries dev env request root_key si ei expected items intact r wk = (Inr r', wk') \<Longrightarrow>
   intact \<and> list_all2 (entry_reads env (ar_limits request) (ar_expected_roots request)) items expected"
proof (induction expected arbitrary: ei items r wk)
  case (Cons e entries)
  obtain h body rest names r1 wk1 where items: "items = (h, body) # rest"
    and header: "validate_archive_header (env_nfc env) (env_fold env) h (ar_limits request) (ar_expected_roots request) None
        (archive_location si ei) = Inr (e, names)"
    and run: "extract_archive_entry dev root_key e body (archive_location si ei) r (polled wk) = (Inr r1, wk1)"
    and go: "extract_entries dev env request root_key si (ei + 1) entries rest intact r1 wk1 = (Inr r', wk')"
    using Cons.prems by (auto simp: Let_def split: if_splits list.splits sum.splits prod.splits)
  have "entry_reads env (ar_limits request) (ar_expected_roots request) (h, body) e"
    using header_without_index [OF header] extract_archive_entry_body [OF run header_accepted(4) [OF header]]
    by (simp add: entry_reads_def)
  then show ?case using Cons.IH [OF go] by (simp add: items)
qed (auto split: if_splits)

lemma extract_sources_reads:
  "extract_sources dev env request root_key si sources r wk = (Inr r', wk') \<Longrightarrow>
   \<forall>i < length sources. source_reads env Extracting (ar_limits request) (ar_expected_roots request) (si + int i) (sources ! i)"
proof (induction sources arbitrary: si r wk)
  case (Cons source sources)
  obtain r1 wk1 where run: "extract_tar_gzip_source dev env request root_key si source r wk = (Inr r1, wk1)"
    and rest: "extract_sources dev env request root_key (si + 1) sources r1 wk1 = (Inr r', wk')"
    using Cons.prems by (auto split: prod.splits sum.splits)
  from run have "source_reads env Extracting (ar_limits request) (ar_expected_roots request) si source"
    by (cases rule: extract_sourceE) (auto simp: source_reads_def dest: extract_entries_reads)
  then show ?case
    using Cons.IH [OF rest] by (auto simp: less_Suc_eq_0_disj add.commute add.left_commute)
qed simp

lemma extraction_reads:
  assumes run: "extract_tar_gzip_plan dev env request plan wk = (Inr result, wk')"
    and i: "i < length (ap_sources plan)"
  shows "source_reads env Extracting (ar_limits request) (ar_expected_roots request) (int i) (ap_sources plan ! i)"
proof -
  obtain staging wk2 d where "publish_staging dev (extract_into_staging dev env request plan) d staging wk2 = (None, wk')"
    using run by (auto simp: extract_tar_gzip_plan_def split: sum.splits if_splits prod.splits bool.splits option.splits)
  then obtain wk3 where "extract_into_staging dev env request plan staging (tick wk2) = (None, wk3)"
    by (auto simp: publish_staging_def split: if_splits prod.splits option.splits)
  then obtain r wk4 r' wk5 where "extract_sources dev env request staging 0 (ap_sources plan) r wk4 = (Inr r', wk5)"
    by (auto simp: extract_into_staging_def split: prod.splits sum.splits if_splits)
  from extract_sources_reads [OF this] show ?thesis using i by simp
qed

lemma items_of_plan:
  assumes "\<forall>i < length sources. source_reads env Extracting limits roots (si + int i) (sources ! i)"
  shows "map fst (sources_items env si sources) = concat (map sp_entries sources) \<and>
    (\<forall>item \<in> set (sources_items env si sources). ae_size (fst item) \<le> int (length (snd item)))"
  using assms
proof (induction sources arbitrary: si)
  case (Cons source sources)
  have "source_reads env Extracting limits roots si source" using Cons.prems by force
  then obtain stream where stream: "env_open env Extracting si (sp_path source) = Some stream"
    "list_all2 (entry_reads env limits roots) (ts_entries stream) (sp_entries source)"
    by (auto simp: source_reads_def)
  have "length (ts_entries stream) = length (sp_entries source)" using stream(2) by (rule list_all2_lengthD)
  moreover have "ae_size (fst item) \<le> int (length (snd item))" if "item \<in> set (source_items env si source)" for item
    using that stream by (auto simp: source_items_def set_zip list_all2_conv_all_nth entry_reads_def)
  moreover have "\<forall>i < length sources. source_reads env Extracting limits roots (si + 1 + int i) (sources ! i)"
    using Cons.prems by (auto simp: add.assoc dest: spec [of _ "Suc _"])
  ultimately show ?case
    using Cons.IH [of "si + 1"] stream(1) by (auto simp: source_items_def)
qed simp

definition holds_exactly :: "archive_entry list \<Rightarrow> (key \<Rightarrow> fs_node option) \<Rightarrow> bool" where
  "holds_exactly entries tree \<longleftrightarrow>
     (\<forall>e \<in> set entries. case ae_kind e of
        ArchiveDirectory \<Rightarrow> tree (path_parts (ae_name e)) = Some DirNode
      | ArchiveFile \<Rightarrow> \<exists>bytes. tree (path_parts (ae_name e)) = Some (FileNode bytes) \<and> int (length bytes) = ae_size e) \<and>
     (\<forall>rel n. tree rel = Some n \<longrightarrow> rel = [] \<or> (\<exists>e \<in> set entries.
        (n = DirNode \<and> prefix rel (path_parts (ae_name e))) \<or>
        (ae_kind e = ArchiveFile \<and> rel = path_parts (ae_name e) \<and> (\<exists>bytes. n = FileNode bytes))))"

lemma tree_holds_exactly:
  assumes fit: "names_fit fold_case (map fst items)" and nonneg: "\<forall>item \<in> set items. 0 \<le> ae_size (fst item)"
    and bodies: "\<forall>item \<in> set items. ae_size (fst item) \<le> int (length (snd item))"
  shows "holds_exactly (map fst items) (tree_at items)"
proof -
  have unique: "fst item' = fst item"
    if "item \<in> set items" "item' \<in> set items" "ae_kind (fst item') = ArchiveFile" "item_path item' = item_path item" for item item'
    using file_not_above [OF fit, of "fst item'" "fst item"] that by (auto simp: item_path_def)
  have here: "case ae_kind (fst item) of
        ArchiveDirectory \<Rightarrow> tree_at items (item_path item) = Some DirNode
      | ArchiveFile \<Rightarrow> \<exists>bytes. tree_at items (item_path item) = Some (FileNode bytes) \<and> int (length bytes) = ae_size (fst item)"
    if item: "item \<in> set items" for item
  proof (cases "ae_kind (fst item)")
    case ArchiveFile
    then have "item_path item \<in> fst ` set (item_files items)" using item by (force simp: item_files_def)
    then obtain bytes where bytes: "map_of (item_files items) (item_path item) = Some bytes"
      by (metis map_of_eq_None_iff not_None_eq)
    obtain item' where item': "item' \<in> set items" "ae_kind (fst item') = ArchiveFile" "item_path item' = item_path item"
      "bytes = take (nat (ae_size (fst item'))) (snd item')"
      using item_files_path [OF bytes] by blast
    then have "int (length bytes) = ae_size (fst item)"
      using unique [OF item item'(1-3)] nonneg bodies by (auto simp: min_def)
    then show ?thesis using bytes ArchiveFile by (simp add: tree_at_def)
  next
    case ArchiveDirectory
    have "map_of (item_files items) (item_path item) = None"
    proof (rule ccontr)
      assume "map_of (item_files items) (item_path item) \<noteq> None"
      then obtain item' where "item' \<in> set items" "ae_kind (fst item') = ArchiveFile" "item_path item' = item_path item"
        using item_files_path by blast
      then show False using unique [OF item] ArchiveDirectory by (metis entry_kind.distinct(1))
    qed
    then show ?thesis using ArchiveDirectory item by (auto simp: tree_at_def list_ex_iff item_dir_def)
  qed
  have only: "rel = [] \<or> (\<exists>item \<in> set items. (n = DirNode \<and> prefix rel (item_path item)) \<or>
      (ae_kind (fst item) = ArchiveFile \<and> rel = item_path item \<and> (\<exists>bytes. n = FileNode bytes)))"
    if "tree_at items rel = Some n" for rel n
  proof (cases "map_of (item_files items) rel")
    case None
    then have "n = DirNode" "rel = [] \<or> (\<exists>item \<in> set items. prefix rel (item_dir item))"
      using that by (auto simp: tree_at_def list_ex_iff split: if_splits)
    moreover have "prefix rel (item_dir item) \<Longrightarrow> prefix rel (item_path item)" for item
      by (auto simp: item_dir_def split: if_splits dest: prefix_order.trans [OF _ prefixeq_butlast])
    ultimately show ?thesis by blast
  next
    case (Some bytes)
    then show ?thesis using that item_files_path [OF Some] by (auto simp: tree_at_def)
  qed
  show ?thesis
    using here only unfolding holds_exactly_def item_path_def by (simp only: set_map ball_simps bex_simps) blast
qed

section \<open>The whole operation\<close>

lemma extract_tar_gzipE:
  assumes "extract_tar_gzip dev env request wk = (res, wk')"
  obtains (refused) e where "res = Inl e" "wk' = wk"
    | (planned) plan polls where "inspect_tar_gzip_sources env request = Inr (plan, polls)"
        "archive_limits_valid (ar_limits request)" "ar_sources request \<noteq> []"
        "extract_tar_gzip_plan dev env request plan (wk\<lparr>wk_polls := polls\<rparr>) = (res, wk')"
  using assms by (auto simp: extract_tar_gzip_def split: if_splits sum.splits)

lemma no_destination:
  assumes "extract_destination dev request = None"
  shows "snd (extract_tar_gzip_plan dev env request plan wk) = wk" and "\<exists>e. fst (extract_tar_gzip_plan dev env request plan wk) = Inl e"
  using assms by (auto simp: extract_destination_def extract_tar_gzip_plan_def split: sum.splits)

lemma destination_nonempty: "linux_view (dev_os dev) \<Longrightarrow> extract_destination dev request = Some d \<Longrightarrow> d \<noteq> []"
  using destination_protects(2) by (auto simp: extract_destination_def split: sum.splits)

text \<open>Extraction keeps the file system a tree: every node has a directory above it, whatever fails on the way.\<close>

lemma extraction_keeps_tree:
  assumes "linux_view (dev_os dev)" and "wf_tree wk"
  shows "wf_tree (snd (extract_tar_gzip dev env request wk))"
proof -
  obtain res wk' where run: "extract_tar_gzip dev env request wk = (res, wk')" by (metis prod.exhaust)
  then have "wf_tree wk'"
  proof (cases rule: extract_tar_gzipE)
    case refused
    then show ?thesis using assms(2) by simp
  next
    case (planned plan polls)
    show ?thesis
    proof (cases "extract_destination dev request")
      case None
      then show ?thesis using no_destination(1) [OF None, of env plan "wk\<lparr>wk_polls := polls\<rparr>"] planned(4) assms(2) by simp
    next
      case (Some d)
      then show ?thesis
        using plan_extraction(1) [OF _ Some destination_nonempty [OF assms(1) Some] planned(4)] assms(2) by simp
    qed
  qed
  then show ?thesis by (simp add: run)
qed

text \<open>
  C11: whatever fails on the way, extraction changes nothing that is there, makes nodes only at
  its destination, above it and in staging directories beside it, and at the destination it leaves
  either what was there, reporting an error, or the whole tree of the inspected archive.
\<close>

theorem extraction_all_or_nothing:
  assumes linux: "linux_view (dev_os dev)" and wf: "wf_tree wk" and destination: "extract_destination dev request = Some d"
    and run: "extract_tar_gzip dev env request wk = (res, wk')"
  shows "(\<forall>k n. node_at wk k = Some n \<longrightarrow> node_at wk' k = Some n) \<and>
    (\<forall>k. node_at wk' k \<noteq> node_at wk k \<longrightarrow> made_by_extraction d k) \<and>
    ((\<exists>e. res = Inl e) \<and> (\<forall>rel. node_at wk' (d @ rel) = node_at wk (d @ rel)) \<or>
     (\<exists>plan polls. inspect_tar_gzip_sources env request = Inr (plan, polls) \<and>
       (\<forall>rel. node_at wk' (d @ rel) = plan_tree env plan rel)))"
  using run
proof (cases rule: extract_tar_gzipE)
  case refused
  then show ?thesis by simp
next
  case (planned plan polls)
  have "wf_tree (wk\<lparr>wk_polls := polls\<rparr>)" using wf by simp
  note facts = plan_extraction [OF this destination destination_nonempty [OF linux destination] planned(4)]
  show ?thesis
    using facts(2-4) planned(1) unfolding node_at_polls by metis
qed

text \<open>
  C12: after an extraction without an error, the sources that were extracted had the entries and the
  digests of the sources that were inspected, although they were read twice, and the destination holds
  exactly the inspected entries: their directories, their files with their sizes, and nothing else.
\<close>

theorem extraction_exact:
  assumes linux: "linux_view (dev_os dev)" and wf: "wf_tree wk" and destination: "extract_destination dev request = Some d"
    and limits: "limits_int64 (ar_limits request)"
    and run: "extract_tar_gzip dev env request wk = (Inr result, wk')"
  shows "\<exists>plan polls. inspect_tar_gzip_sources env request = Inr (plan, polls) \<and> result = archive_result (key_text d) plan \<and>
    (\<forall>i < length (ap_sources plan).
      source_reads env Extracting (ar_limits request) (ar_expected_roots request) (int i) (ap_sources plan ! i)) \<and>
    holds_exactly (plan_entries plan) (\<lambda>rel. node_at wk' (d @ rel))"
  using run
proof (cases rule: extract_tar_gzipE)
  case (planned plan polls)
  have "wf_tree (wk\<lparr>wk_polls := polls\<rparr>)" using wf by simp
  note facts = plan_extraction [OF this destination destination_nonempty [OF linux destination] planned(4)]
  note reads = extraction_reads [OF planned(4)]
  have "\<forall>i < length (ap_sources plan).
      source_reads env Extracting (ar_limits request) (ar_expected_roots request) (0 + int i) (ap_sources plan ! i)"
    using reads by simp
  note items = items_of_plan [OF this, folded plan_entries_def]
  have sound: "plan_sound env Inspecting (ar_limits request) (ar_expected_roots request) plan"
    using inspect_sound(1) [OF limits planned(1)] .
  have "fst item \<in> set (plan_entries plan)" if "item \<in> set (sources_items env 0 (ap_sources plan))" for item
    using items that by (metis image_eqI set_map)
  then have "holds_exactly (plan_entries plan) (plan_tree env plan)"
    using tree_holds_exactly [of "env_fold env" "sources_items env 0 (ap_sources plan)"] items sound
    by (simp add: plan_sound_def entry_accepted_def plan_tree_def)
  moreover have "(\<lambda>rel. node_at wk' (d @ rel)) = plan_tree env plan" using facts(4) by auto
  ultimately show ?thesis using planned(1) facts(5) reads by auto
qed simp

lemma extract_plan_runs:
  assumes linux: "linux_view (dev_os dev)" and wf: "wf_tree wk" and calm: "calm dev env"
    and destination: "extract_destination dev request = Some d" and free: "node_at wk d = None"
    and parents: "\<forall>p. p \<noteq> [] \<and> prefix p (butlast d) \<longrightarrow> node_at wk p \<in> {None, Some DirNode}"
    and random: "\<exists>random \<in> set (dev_suffixes dev). node_at wk (staging_key d random) = None"
    and sound: "plan_sound env Extracting (ar_limits request) (ar_expected_roots request) plan"
    and roots: "validate_expected_roots (env_nfc env) (ar_limits request) 0 (ar_expected_roots request) = None"
    and room: "0 \<le> al_reservation_headroom_bytes (ar_limits request)"
      "int64 (ap_expanded_bytes plan + al_reservation_headroom_bytes (ar_limits request))"
  shows "fst (extract_tar_gzip_plan dev env request plan wk) = Inr (archive_result (key_text d) plan)"
proof -
  have d: "d \<noteq> []" using destination_nonempty [OF linux destination] .
  obtain wk1 where mk: "mkdir_all dev [] (butlast d) (tick wk) = (True, wk1)"
    using mkdir_all_runs [of dev "butlast d" "tick wk" "[]"] calm parents by (auto simp: calm_def)
  have wf1: "wf_tree wk1" using mkdir_all_wf [OF mk] wf by simp
  have free1: "node_at wk1 d = None" using mkdir_all_nodes [OF mk, of d] free not_prefix_butlast [OF d] by auto
  have above: "node_at wk1 (staging_key d r) = node_at wk (staging_key d r)" for r
    using mkdir_all_nodes [OF mk, of "staging_key d r"] by (auto simp: staging_key_def dest: prefix_length_le)
  have parent: "butlast d = [] \<or> node_at wk1 (butlast d) = Some DirNode"
    using mkdir_all_made [OF mk, of "butlast d"] by auto
  obtain r where found: "find (\<lambda>random. node_at wk1 (staging_key d random) = None) (dev_suffixes dev) = Some r"
    using random above by (cases "find (\<lambda>random. node_at wk1 (staging_key d random) = None) (dev_suffixes dev)")
      (auto simp: find_None_iff)
  then have "node_at wk1 (staging_key d r) = None" by (auto simp: find_Some_iff)
  then obtain wk2 where temp: "mkdir_temp dev d wk1 = (Some (staging_key d r), wk2)"
    using found parent calm by (auto simp: mkdir_temp_def create_exclusive_def calm_faults staging_key_def)
  note ready = staging_prepared(1) [OF wf1 d free1 temp]
  have fresh: "fresh_directory (staging_key d r) (tick wk2)" using ready by (simp add: publishable_def)
  obtain wk3 where fill: "extract_into_staging dev env request plan (staging_key d r) (tick wk2) = (None, wk3)"
    using staging_runs [OF calm fresh sound roots room] by blast
  have "inside (staging_key d r) wk2 wk3"
    using inside_trans [OF inside_tick staging_inside, of "staging_key d r" wk2 dev env request plan] by (simp add: fill)
  then obtain wk4 where "publish_staging dev (extract_into_staging dev env request plan) d (staging_key d r) wk2 = (None, wk4)"
    using publish_runs [where fill = "extract_into_staging dev env request plan", OF calm ready fill] by blast
  moreover obtain policy where "current_path_policy (dev_os dev) = Inr policy"
    "validate_mutation_root (dev_os dev) policy (ar_destination request) = Inr d"
    using destination by (auto simp: extract_destination_def split: sum.splits)
  ultimately show ?thesis
    using free calm mk temp by (simp add: extract_tar_gzip_plan_def calm_faults)
qed

lemma inspected_runs:
  assumes limits: "limits_int64 (ar_limits request)"
      "int64 (al_max_expanded_bytes (ar_limits request) + al_reservation_headroom_bytes (ar_limits request))"
    and steady: "env_open env Extracting = env_open env Inspecting" and inspect: "inspect_tar_gzip_sources env request = Inr (plan, polls)"
  shows "plan_sound env Extracting (ar_limits request) (ar_expected_roots request) plan"
    and "0 \<le> al_reservation_headroom_bytes (ar_limits request)"
    and "int64 (ap_expanded_bytes plan + al_reservation_headroom_bytes (ar_limits request))"
proof -
  show sound: "plan_sound env Extracting (ar_limits request) (ar_expected_roots request) plan"
    using inspect_sound(1) [OF limits(1) inspect] by (simp add: plan_sound_def source_reads_def steady)
  have "0 \<le> ap_expanded_bytes plan" "ap_expanded_bytes plan \<le> al_max_expanded_bytes (ar_limits request)"
    using sound entries_total_nonneg [of "plan_entries plan"] by (auto simp: plan_sound_def totals_hold_def)
  moreover show "0 \<le> al_reservation_headroom_bytes (ar_limits request)"
    using limits(1) by (simp add: limits_int64_def archive_limits_valid_def)
  ultimately show "int64 (ap_expanded_bytes plan + al_reservation_headroom_bytes (ar_limits request))"
    using limits(2) by (auto simp: int64_def)
qed

text \<open>
  C13: on a disk without faults, extraction to a free place of sources that pass the inspection and
  do not change succeeds, with the report of the inspection.
\<close>

theorem extraction_succeeds:
  assumes "linux_view (dev_os dev)" and "wf_tree wk" and "calm dev env"
    and "extract_destination dev request = Some d" and "node_at wk d = None"
    and "\<forall>p. p \<noteq> [] \<and> prefix p (butlast d) \<longrightarrow> node_at wk p \<in> {None, Some DirNode}"
    and "\<exists>random \<in> set (dev_suffixes dev). node_at wk (staging_key d random) = None"
    and limits: "limits_int64 (ar_limits request)"
      "int64 (al_max_expanded_bytes (ar_limits request) + al_reservation_headroom_bytes (ar_limits request))"
    and given: "ar_destination request \<noteq> []" and steady: "env_open env Extracting = env_open env Inspecting"
    and inspect: "inspect_tar_gzip env request = Inr result"
  shows "fst (extract_tar_gzip dev env request wk) = Inr (result\<lparr>er_destination := key_text d\<rparr>)"
proof -
  obtain plan polls where valid: "archive_limits_valid (ar_limits request)" "ar_sources request \<noteq> []"
    and plan: "inspect_tar_gzip_sources env request = Inr (plan, polls)" and result: "result = archive_result [] plan"
    using inspect by (cases "inspect_tar_gzip_sources env request") (auto simp: inspect_tar_gzip_def split: if_splits)
  note ready = inspected_runs [OF limits steady plan]
  have "fst (extract_tar_gzip_plan dev env request plan (wk\<lparr>wk_polls := polls\<rparr>)) = Inr (archive_result (key_text d) plan)"
    using assms(1-7) inspect_sound(3) [OF limits(1) plan] ready by (intro extract_plan_runs) simp_all
  then show ?thesis
    using plan given valid by (simp add: extract_tar_gzip_def result archive_result_def)
qed

end
