(* ===== verification/ArchiveProps.thy ===== *)
theory ArchiveProps
  imports ArchiveFacts PathProps
begin

text \<open>
  What the inspection of an archive promises, what the path policy promises, and a small world
  in which both can be seen.
\<close>

section \<open>A small world\<close>

definition ascii_fold :: "string \<Rightarrow> string" where
  "ascii_fold s = map (\<lambda>c. if is_upper c then char_of (of_char c + 32 :: nat) else c) s"

definition small_stream :: tar_stream where
  "small_stream = \<lparr> ts_compressed_bytes = 1,
     ts_entries = [
       (\<lparr> th_name = ''docs/'', th_link_name = [], th_type_flag = CHR ''5'', th_size = 0, th_pax_keys = [] \<rparr>, []),
       (\<lparr> th_name = ''docs/Notes'', th_link_name = [], th_type_flag = CHR ''0'', th_size = 1, th_pax_keys = [] \<rparr>, ''x'')],
     ts_intact = True, ts_digest = Some ''d1'' \<rparr>"

definition small_env :: archive_env where
  "small_env = \<lparr> env_nfc = (\<lambda>s. s), env_fold = ascii_fold,
     env_open = (\<lambda>pass si path. if path = ''a.tgz'' then Some small_stream else None), env_cancelled = (\<lambda>n. False) \<rparr>"

definition small_os :: os_view where
  "small_os = \<lparr> ov_goos = Linux, ov_to_lower = (\<lambda>s. s), ov_home = Some ''/home'', ov_working_dir = Some ''/work'',
     ov_lstat = (\<lambda>k. if k \<in> {[], [''home''], [''work'']} then StatPresent else StatMissing),
     ov_eval_symlinks = (\<lambda>k. if k \<in> {[], [''home''], [''work'']} then Some k else None) \<rparr>"

definition small_request :: archive_request where
  "small_request = \<lparr> ar_sources = [''a.tgz''], ar_destination = ''/data/out'', ar_expected_roots = [''docs''],
     ar_limits = default_archive_limits \<rparr>"

definition small_plan :: archive_plan where
  "small_plan = \<lparr> ap_sources = [\<lparr> sp_path = ''a.tgz'', sp_sha256 = ''d1'', sp_compressed_bytes = 1,
     sp_entries = [\<lparr> ae_name = ''docs'', ae_kind = ArchiveDirectory, ae_size = 0 \<rparr>,
       \<lparr> ae_name = ''docs/Notes'', ae_kind = ArchiveFile, ae_size = 1 \<rparr>] \<rparr>],
     ap_files = 1, ap_directories = 1, ap_expanded_bytes = 1 \<rparr>"

lemma round64_one: "round64 1 = Finite 1"
  by (subst round64_eq [of 0 _ 4503599627370496]) (simp_all add: pow2_def round_half_even_def Let_def)

lemma small_limits: "limits_int64 default_archive_limits"
  by (simp add: limits_int64_def archive_limits_valid_def default_archive_limits_def int64_def feq_def)

definition start_state :: scan_state where
  "start_state = \<lparr> sc_names = new_archive_name_index,
     sc_plan = \<lparr> ap_sources = [], ap_files = 0, ap_directories = 0, ap_expanded_bytes = 0 \<rparr>, sc_polls = 0 \<rparr>"

lemma small_scan:
  "map_sum id (\<lambda>st. (sc_plan st, sc_polls st)) (scan_sources small_env default_archive_limits [''docs''] 0 start_state [''a.tgz'']) =
   Inr (small_plan, 3)"
  by code_simp

lemma small_roots: "validate_expected_roots (\<lambda>s. s) default_archive_limits 0 [''docs''] = None"
  by code_simp

lemma small_valid: "validate_archive_plan small_plan default_archive_limits = None"
  by (simp add: validate_archive_plan_def small_plan_def default_archive_limits_def float_ratio_def f64_of_int_def round64_one
      sub64_exact add64_exact int64_def)

lemma small_inspected: "inspect_tar_gzip_sources small_env small_request = Inr (small_plan, 3)"
proof -
  obtain st where "scan_sources small_env default_archive_limits [''docs''] 0 start_state [''a.tgz''] = Inr st"
    "sc_plan st = small_plan" "sc_polls st = 3"
    using small_scan by (cases "scan_sources small_env default_archive_limits [''docs''] 0 start_state [''a.tgz'']") auto
  then show ?thesis
    using small_roots small_valid
    by (simp add: inspect_tar_gzip_sources_def small_request_def start_state_def small_env_def)
qed

section \<open>The inspection\<close>

lemma key_of_below:
  assumes "\<forall>p \<in> set d. plain_part p" and "\<forall>p \<in> set (path_parts name). plain_part p"
  shows "key_of (key_text d @ slash # name) = d @ path_parts name"
proof -
  have "key_of (key_text d @ slash # name) = clean_parts True (rev (key_of (key_text d))) (path_parts name)"
    by (simp add: key_of_def path_parts_def split_on_joined clean_append)
  then show ?thesis using assms by (simp add: clean_plain)
qed

text \<open>
  C14: every name of an inspected archive, joined to any directory, names a place strictly below it that
  is not the reserved one; the names of all sources together fit into one tree, no two of them equal or
  equal up to case, no file above another entry.
\<close>

theorem inspected_names_contained:
  assumes "limits_int64 (ar_limits request)" and "inspect_tar_gzip_sources env request = Inr (plan, polls)"
  shows "(\<forall>e \<in> set (plan_entries plan). \<forall>d. (\<forall>p \<in> set d. plain_part p) \<longrightarrow>
      key_of (key_text d @ slash # ae_name e) = d @ path_parts (ae_name e) \<and> path_parts (ae_name e) \<noteq> [] \<and>
      \<not> prefix ''.evalwitness-'' (hd (path_parts (ae_name e)))) \<and>
    names_fit (env_fold env) (plan_entries plan)"
  using inspect_sound(1) [OF assms] key_of_below by (simp add: plan_sound_def entry_accepted_def name_accepted_def)

theorem inspected_names_contained_witness:
  "names_fit ascii_fold (plan_entries small_plan) \<and> key_of ''/data/out/docs/Notes'' = [''data'', ''out'', ''docs'', ''Notes'']"
proof -
  have "limits_int64 (ar_limits small_request)" using small_limits by (simp add: small_request_def)
  from inspected_names_contained [OF this small_inspected]
  have all: "\<forall>e \<in> set (plan_entries small_plan). \<forall>d. (\<forall>p \<in> set d. plain_part p) \<longrightarrow>
      key_of (key_text d @ slash # ae_name e) = d @ path_parts (ae_name e)"
    and fit: "names_fit ascii_fold (plan_entries small_plan)"
    by (auto simp: small_env_def)
  have "\<lparr> ae_name = ''docs/Notes'', ae_kind = ArchiveFile, ae_size = 1 \<rparr> \<in> set (plan_entries small_plan)"
    by (simp add: plan_entries_def small_plan_def)
  from bspec [OF all this, THEN spec, of "[''data'', ''out'']"]
  have "key_of ''/data/out/docs/Notes'' = [''data'', ''out'', ''docs'', ''Notes'']"
    by (simp add: key_text_def join_parts_def path_parts_def plain_part_def)
  then show ?thesis using fit by simp
qed

lemma sum_compressed_exact:
  assumes "sum_compressed limits so_far sources = Inr compressed" and "int64 (al_max_expanded_bytes limits)"
    and "0 \<le> so_far" and "so_far \<le> al_max_expanded_bytes limits" and "\<forall>s \<in> set sources. 0 \<le> sp_compressed_bytes s"
  shows "compressed = so_far + sum_list (map sp_compressed_bytes sources) \<and> compressed \<le> al_max_expanded_bytes limits"
  using assms
proof (induction sources arbitrary: so_far)
  case (Cons source sources)
  have "sub64 (al_max_expanded_bytes limits) so_far = al_max_expanded_bytes limits - so_far"
    using Cons.prems(2-4) by (intro sub64_exact) (auto simp: int64_def)
  then have small: "sp_compressed_bytes source \<le> al_max_expanded_bytes limits - so_far"
    and rest: "sum_compressed limits (add64 so_far (sp_compressed_bytes source)) sources = Inr compressed"
    using Cons.prems(1) by (auto split: if_splits)
  have exact: "add64 so_far (sp_compressed_bytes source) = so_far + sp_compressed_bytes source"
    using Cons.prems(2-5) small by (intro add64_exact) (auto simp: int64_def)
  show ?case using Cons.IH [OF rest Cons.prems(2)] Cons.prems(3,5) small by (simp add: exact)
qed simp

text \<open>
  C15: an archive that passes the inspection has at most the allowed number of entries, which the
  report counts; the reported bytes are the sum of the entry sizes without wrap-around and at most
  the limit; so are the compressed bytes, and the ratio of the two is at most the limit.
\<close>

theorem inspected_within_limits:
  assumes limits: "limits_int64 (ar_limits request)"
    and sizes: "\<And>si path stream. env_open env Inspecting si path = Some stream \<Longrightarrow> 0 \<le> ts_compressed_bytes stream"
    and inspect: "inspect_tar_gzip_sources env request = Inr (plan, polls)"
  shows "ap_files plan + ap_directories plan = int (length (plan_entries plan)) \<and>
    int (length (plan_entries plan)) \<le> al_max_entries (ar_limits request) \<and>
    ap_expanded_bytes plan = sum_list (map ae_size (plan_entries plan)) \<and>
    ap_expanded_bytes plan \<le> al_max_expanded_bytes (ar_limits request) \<and>
    sum_list (map sp_compressed_bytes (ap_sources plan)) \<le> al_max_expanded_bytes (ar_limits request) \<and>
    \<not> flt (al_max_compression_ratio (ar_limits request))
      (float_ratio (ap_expanded_bytes plan) (sum_list (map sp_compressed_bytes (ap_sources plan))))"
proof -
  have sound: "plan_sound env Inspecting (ar_limits request) (ar_expected_roots request) plan"
    using inspect_sound(1) [OF limits inspect] .
  have "0 \<le> sp_compressed_bytes s" if s: "s \<in> set (ap_sources plan)" for s
  proof -
    obtain i where "source_reads env Inspecting (ar_limits request) (ar_expected_roots request) i s"
      using sound s by (auto simp: plan_sound_def in_set_conv_nth)
    then obtain stream where "env_open env Inspecting i (sp_path s) = Some stream" "ts_compressed_bytes stream = sp_compressed_bytes s"
      by (auto simp: source_reads_def)
    then show ?thesis using sizes [of i "sp_path s" stream] by simp
  qed
  moreover obtain compressed where sum: "sum_compressed (ar_limits request) 0 (ap_sources plan) = Inr compressed"
    and ratio: "\<not> flt (al_max_compression_ratio (ar_limits request)) (float_ratio (ap_expanded_bytes plan) compressed)"
    using inspect_sound(4) [OF limits inspect] by (auto simp: validate_archive_plan_def split: sum.splits)
  ultimately have "compressed = sum_list (map sp_compressed_bytes (ap_sources plan)) \<and> compressed \<le> al_max_expanded_bytes (ar_limits request)"
    using sum_compressed_exact [OF sum] limits by (auto simp: limits_int64_def archive_limits_valid_def)
  then show ?thesis
    using sound ratio by (simp add: plan_sound_def totals_hold_def count_kinds entries_total_def)
qed

theorem inspected_within_limits_witness:
  "ap_expanded_bytes small_plan = 1 \<and> sum_list (map sp_compressed_bytes (ap_sources small_plan)) \<le> 8 * 2 ^ 30"
proof -
  have "limits_int64 (ar_limits small_request)" using small_limits by (simp add: small_request_def)
  moreover have "0 \<le> ts_compressed_bytes stream" if "env_open small_env Inspecting si path = Some stream" for si path stream
    using that by (auto simp: small_env_def small_stream_def split: if_splits)
  ultimately show ?thesis
    using inspected_within_limits [OF _ _ small_inspected]
    by (simp add: small_request_def default_archive_limits_def plan_entries_def small_plan_def)
qed

section \<open>The path policy\<close>

text \<open>
  C16: a directory that the current path policy accepts is where its path resolves to, is not the root
  of the file system, and no protected place, the home directory, the working directory or the
  repository around it, is that directory or lies below it.
\<close>

theorem mutation_root_protects:
  assumes "linux_view os" and "current_path_policy os = Inr policy" and "validate_mutation_root os policy path = Inr k"
  shows "resolve_with_existing_parents os path = Some k \<and> k \<noteq> [] \<and>
    (\<forall>place \<in> set (protected_places os). \<exists>p. resolve_with_existing_parents os place = Some p \<and> \<not> prefix k p)"
  using destination_protects [OF assms] by blast

lemma small_view: "linux_view small_os"
  by (auto simp: linux_view_def small_os_def plain_part_def split: if_splits)

definition small_policy :: path_policy where
  "small_policy = [(ProtectedUserHome, [''home'']), (ProtectedWorkingDir, [''work'']), (ProtectedFilesystemRoot, [])]"

lemma small_policy_current: "current_path_policy small_os = Inr small_policy"
  by code_simp

lemma small_destination: "validate_mutation_root small_os small_policy ''/data/out'' = Inr [''data'', ''out'']"
  by code_simp

theorem mutation_root_protects_witness:
  "resolve_with_existing_parents small_os ''/data/out'' = Some [''data'', ''out''] \<and>
   list_all (\<lambda>place. \<exists>p. resolve_with_existing_parents small_os place = Some p \<and> \<not> prefix [''data'', ''out''] p)
     (protected_places small_os)"
  using mutation_root_protects [OF small_view small_policy_current small_destination] by (simp add: list_all_iff)

end
