(* ===== verification/ExtractWitness.thy ===== *)
theory ExtractWitness
  imports ExtractProps ArchiveProps
begin

text \<open>The extraction theorems on the small archive, with and without a failing system call.\<close>

definition small_dev :: "(nat \<Rightarrow> bool) \<Rightarrow> disk_env" where
  "small_dev fault = \<lparr> dev_os = small_os, dev_suffixes = [''1''], dev_fault = fault \<rparr>"

definition small_work :: work where
  "small_work = \<lparr> wk_nodes = [([''home''], DirNode), ([''work''], DirNode)], wk_calls = 0, wk_polls = 0 \<rparr>"

lemma small_facts:
  shows "linux_view (dev_os (small_dev fault))" and "wf_tree small_work"
    and "extract_destination (small_dev fault) small_request = Some [''data'', ''out'']"
    and "limits_int64 (ar_limits small_request)"
    and "int64 (al_max_expanded_bytes (ar_limits small_request) + al_reservation_headroom_bytes (ar_limits small_request))"
    and "env_open small_env Extracting = env_open small_env Inspecting"
    and "calm (small_dev (\<lambda>n. False)) small_env"
proof -
  show "linux_view (dev_os (small_dev fault))" using small_view by (simp add: small_dev_def)
  show "wf_tree small_work" by (auto simp: wf_tree_def has_parent_def small_work_def node_at_def split: if_splits)
  have "ar_destination small_request = ''/data/out''" "dev_os (small_dev fault) = small_os"
    by (simp_all add: small_request_def small_dev_def)
  then show "extract_destination (small_dev fault) small_request = Some [''data'', ''out'']"
    using small_policy_current small_destination by (simp add: extract_destination_def)
  show "limits_int64 (ar_limits small_request)" using small_limits by (simp add: small_request_def)
  show "int64 (al_max_expanded_bytes (ar_limits small_request) + al_reservation_headroom_bytes (ar_limits small_request))"
    by (simp add: small_request_def default_archive_limits_def int64_def)
  show "env_open small_env Extracting = env_open small_env Inspecting" by (simp add: small_env_def)
  show "calm (small_dev (\<lambda>n. False)) small_env" by (simp add: calm_def small_dev_def small_env_def)
qed

lemma small_place:
  shows "node_at small_work [''data'', ''out''] = None"
    and "\<forall>p. p \<noteq> [] \<and> prefix p (butlast [''data'', ''out'']) \<longrightarrow> node_at small_work p \<in> {None, Some DirNode}"
    and "\<exists>random \<in> set (dev_suffixes (small_dev fault)). node_at small_work (staging_key [''data'', ''out''] random) = None"
  by (auto simp: node_at_def small_work_def small_dev_def staging_key_def prefix_Cons)

theorem extraction_keeps_tree_witness:
  "wf_tree (snd (extract_tar_gzip (small_dev (\<lambda>n. n = 5)) small_env small_request small_work))"
  by (rule extraction_keeps_tree) (fact small_facts)+

theorem extraction_all_or_nothing_witness:
  "\<exists>res wk'. extract_tar_gzip (small_dev (\<lambda>n. n = 5)) small_env small_request small_work = (res, wk') \<and>
    node_at wk' [''home''] = Some DirNode"
proof -
  obtain res wk' where run: "extract_tar_gzip (small_dev (\<lambda>n. n = 5)) small_env small_request small_work = (res, wk')"
    by (metis prod.exhaust)
  have "node_at small_work [''home''] = Some DirNode" by (simp add: node_at_def small_work_def)
  then show ?thesis
    using extraction_all_or_nothing [OF small_facts(1-3) run] run by blast
qed

lemma small_run: "\<exists>wk'. extract_tar_gzip (small_dev (\<lambda>n. False)) small_env small_request small_work =
    (Inr (archive_result ''/data/out'' small_plan), wk')"
proof -
  note ready = inspected_runs [OF small_facts(4-6) small_inspected]
  have "fst (extract_tar_gzip_plan (small_dev (\<lambda>n. False)) small_env small_request small_plan (small_work\<lparr>wk_polls := 3\<rparr>)) =
      Inr (archive_result (key_text [''data'', ''out'']) small_plan)"
    using small_facts small_place inspect_sound(3) [OF small_facts(4) small_inspected] ready
    by (intro extract_plan_runs) simp_all
  moreover have "key_text [''data'', ''out''] = ''/data/out''" by (simp add: key_text_def join_parts_def)
  moreover have "ar_destination small_request \<noteq> []" "ar_sources small_request \<noteq> []" "archive_limits_valid (ar_limits small_request)"
    using small_facts(4) by (simp_all add: small_request_def limits_int64_def)
  ultimately show ?thesis
    using small_inspected by (simp add: extract_tar_gzip_def prod_eq_iff)
qed

theorem extraction_exact_witness:
  "\<exists>wk'. extract_tar_gzip (small_dev (\<lambda>n. False)) small_env small_request small_work =
      (Inr (archive_result ''/data/out'' small_plan), wk') \<and>
    holds_exactly (plan_entries small_plan) (\<lambda>rel. node_at wk' ([''data'', ''out''] @ rel))"
proof -
  obtain wk' where run: "extract_tar_gzip (small_dev (\<lambda>n. False)) small_env small_request small_work =
      (Inr (archive_result ''/data/out'' small_plan), wk')"
    using small_run by blast
  from extraction_exact [OF small_facts(1-4) run] small_inspected run show ?thesis by auto
qed

theorem extraction_succeeds_witness:
  "fst (extract_tar_gzip (small_dev (\<lambda>n. False)) small_env small_request small_work) =
    Inr ((archive_result [] small_plan)\<lparr>er_destination := ''/data/out''\<rparr>)"
proof -
  have "inspect_tar_gzip small_env small_request = Inr (archive_result [] small_plan)"
    using small_inspected small_facts(4) by (simp add: inspect_tar_gzip_def small_request_def limits_int64_def)
  moreover have "ar_destination small_request \<noteq> []" by (simp add: small_request_def)
  moreover have "key_text [''data'', ''out''] = ''/data/out''" by (simp add: key_text_def join_parts_def)
  ultimately show ?thesis
    using extraction_succeeds [OF small_facts(1,2,7,3) small_place small_facts(4,5) _ small_facts(6)] by simp
qed

end
