(* ===== verification/GoTime.thy ===== *)
theory GoTime
  imports CanonicalJson "HOL-Library.Monad_Syntax"
begin

text \<open>
  \<open>time.Parse\<close> of Go's standard library for the layout RFC 3339, with what it lets pass: hours of
  one digit, fractions after a comma or a period of which nine digits count, and offsets up to
  24 hours and 60 minutes.  A time is its number of nanoseconds.
\<close>

definition char_digit :: "char \<Rightarrow> int" where
  "char_digit c = int (of_char c) - 48"

fun digits_value :: "string \<Rightarrow> int \<Rightarrow> int" where
  "digits_value [] acc = acc"
| "digits_value (c # s) acc = digits_value s (10 * acc + char_digit c)"

definition literal_char :: "char \<Rightarrow> string \<Rightarrow> string option" where
  "literal_char c s = (case s of x # rest \<Rightarrow> if x = c then Some rest else None | [] \<Rightarrow> None)"

definition long_year :: "string \<Rightarrow> (int \<times> string) option" where
  "long_year s =
     (if length s < 4 \<or> \<not> list_all is_digit (take 4 s) then None else Some (digits_value (take 4 s) 0, drop 4 s))"

text \<open>One or two digits, or exactly two.\<close>

definition getnum :: "bool \<Rightarrow> string \<Rightarrow> (int \<times> string) option" where
  "getnum fixed s =
     (case s of
        [] \<Rightarrow> None
      | a # rest \<Rightarrow>
          if \<not> is_digit a then None
          else (case rest of
            b # rest' \<Rightarrow> (if is_digit b then Some (10 * char_digit a + char_digit b, rest')
                          else if fixed then None else Some (char_digit a, rest))
          | [] \<Rightarrow> (if fixed then None else Some (char_digit a, rest))))"

definition in_range :: "int \<Rightarrow> int \<Rightarrow> int \<times> string \<Rightarrow> (int \<times> string) option" where
  "in_range low high r = (if low \<le> fst r \<and> fst r \<le> high then Some r else None)"

definition fraction :: "string \<Rightarrow> int \<times> string" where
  "fraction s =
     (case s of
        c # d # _ \<Rightarrow>
          if (c = CHR '','' \<or> c = CHR ''.'') \<and> is_digit d then
            let digits = takeWhile is_digit (tl s); used = take 9 digits in
            (digits_value used 0 * 10 ^ (9 - length used), dropWhile is_digit (tl s))
          else (0, s)
      | _ \<Rightarrow> (0, s))"

text \<open>The offset in seconds east of UTC.\<close>

definition zone :: "string \<Rightarrow> (int \<times> string) option" where
  "zone s =
     (if s \<noteq> [] \<and> hd s = CHR ''Z'' then Some (0, tl s)
      else if length s < 6 \<or> s ! 3 \<noteq> CHR '':'' then None
      else do {
        (hours, _) \<leftarrow> Option.bind (getnum True (take 2 (drop 1 s))) (in_range 0 24);
        (minutes, _) \<leftarrow> Option.bind (getnum True (take 2 (drop 4 s))) (in_range 0 60);
        let offset = (hours * 60 + minutes) * 60;
        if hd s = CHR ''+'' then Some (offset, drop 6 s)
        else if hd s = CHR ''-'' then Some (- offset, drop 6 s)
        else None
      })"

definition leap_year :: "int \<Rightarrow> bool" where
  "leap_year y \<longleftrightarrow> y mod 4 = 0 \<and> (y mod 100 \<noteq> 0 \<or> y mod 400 = 0)"

definition month_days :: "int \<Rightarrow> int list" where
  "month_days y = [31, if leap_year y then 29 else 28, 31, 30, 31, 30, 31, 31, 30, 31, 30, 31]"

definition days_before_year :: "int \<Rightarrow> int" where
  "days_before_year y = 365 * y + (y + 3) div 4 - (y + 99) div 100 + (y + 399) div 400"

definition day_number :: "int \<Rightarrow> int \<Rightarrow> int \<Rightarrow> int" where
  "day_number y m d = days_before_year y + sum_list (take (nat m - 1) (month_days y)) + d - 1"

definition parse_rfc3339 :: "string \<Rightarrow> int option" where
  "parse_rfc3339 s = do {
     (year, s) \<leftarrow> long_year s;
     s \<leftarrow> literal_char (CHR ''-'') s;
     (month, s) \<leftarrow> Option.bind (getnum True s) (in_range 1 12);
     s \<leftarrow> literal_char (CHR ''-'') s;
     (day, s) \<leftarrow> getnum True s;
     s \<leftarrow> literal_char (CHR ''T'') s;
     (hour, s) \<leftarrow> Option.bind (getnum False s) (in_range 0 23);
     s \<leftarrow> literal_char (CHR '':'') s;
     (minute, s) \<leftarrow> Option.bind (getnum True s) (in_range 0 59);
     s \<leftarrow> literal_char (CHR '':'') s;
     (sec, s) \<leftarrow> Option.bind (getnum True s) (in_range 0 59);
     let (nanos, s) = fraction s;
     (offset, s) \<leftarrow> zone s;
     if s \<noteq> [] \<or> day < 1 \<or> day > month_days year ! (nat month - 1) then None
     else Some ((day_number year month day * 86400 + hour * 3600 + minute * 60 + sec - offset) * 10 ^ 9 + nanos)
   }"

section \<open>The characters of a time\<close>

definition time_char :: "char \<Rightarrow> bool" where
  "time_char c \<longleftrightarrow> is_digit c \<or> c \<in> set ''-T:.,Z+''"

lemma time_digit [simp]: "is_digit c \<Longrightarrow> time_char c"
  by (simp add: time_char_def)

text \<open>A parser that takes characters of times off the front: if the rest is made of them, so is the whole.\<close>

definition takes_time :: "(string \<Rightarrow> ('a \<times> string) option) \<Rightarrow> bool" where
  "takes_time p \<longleftrightarrow> (\<forall>s x r. p s = Some (x, r) \<longrightarrow> list_all time_char r \<longrightarrow> list_all time_char s)"

lemma takes_timeD: "takes_time p \<Longrightarrow> p s = Some (x, r) \<Longrightarrow> list_all time_char r \<Longrightarrow> list_all time_char s"
  by (auto simp: takes_time_def)

lemma takes_getnum: "takes_time (getnum fixed)"
  by (auto simp: takes_time_def getnum_def split: list.splits if_splits)

lemma takes_year: "takes_time long_year"
proof -
  have "list_all time_char s" if "list_all is_digit (take 4 s)" "list_all time_char (drop 4 s)" for s
    using that by (metis append_take_drop_id list_all_append list_all_cong list.pred_mono_strong time_digit)
  then show ?thesis by (auto simp: takes_time_def long_year_def split: if_splits)
qed

lemma takes_literal: "time_char c \<Longrightarrow> literal_char c s = Some r \<Longrightarrow> list_all time_char r \<Longrightarrow> list_all time_char s"
  by (auto simp: literal_char_def split: list.splits if_splits)

lemma takes_fraction: "fraction s = (n, r) \<Longrightarrow> list_all time_char r \<Longrightarrow> list_all time_char s"
proof -
  assume run: "fraction s = (n, r)" and rest: "list_all time_char r"
  show "list_all time_char s"
  proof (cases "s = [] \<or> r = s")
    case True
    then show ?thesis using rest by auto
  next
    case False
    then obtain c t where s: "s = c # t" by (cases s) auto
    have c: "c = CHR '','' \<or> c = CHR ''.''" and r: "r = dropWhile is_digit t"
      using run False by (auto simp: fraction_def s Let_def split: list.splits if_splits)
    have "list_all time_char (takeWhile is_digit t)" by (auto simp: list_all_iff dest: set_takeWhileD)
    then have "list_all time_char t" using rest unfolding r by (metis list_all_append takeWhile_dropWhile_id)
    then show ?thesis using c by (auto simp: s time_char_def)
  qed
qed

lemma in_range_Some: "in_range low high r = Some r' \<longleftrightarrow> r' = r \<and> low \<le> fst r \<and> fst r \<le> high"
  by (auto simp: in_range_def)

lemma getnum_pair: "getnum True [a, b] = Some (n, r) \<Longrightarrow> is_digit a \<and> is_digit b"
  by (auto simp: getnum_def split: if_splits)

lemma takes_zone: "takes_time zone"
  unfolding takes_time_def
proof (intro allI impI)
  fix s x r assume run: "zone s = Some (x, r)" and rest: "list_all time_char r"
  show "list_all time_char s"
  proof (cases "s \<noteq> [] \<and> hd s = CHR ''Z''")
    case True
    then show ?thesis using run rest by (cases s) (auto simp: zone_def time_char_def)
  next
    case False
    then have "6 \<le> length s" using run by (auto simp: zone_def split: if_splits)
    then obtain a b c d e f t where s: "s = a # b # c # d # e # f # t"
      by (auto simp: Suc_le_length_iff eval_nat_numeral)
    show ?thesis
      using False run rest
      by (auto simp: zone_def s in_range_Some time_char_def eval_nat_numeral Let_def split: if_splits Option.bind_splits
          dest!: getnum_pair)
  qed
qed

lemma parse_time_chars:
  assumes "parse_rfc3339 s = Some t"
  shows "list_all time_char s"
proof -
  obtain year s1 s2 month s3 s4 day s5 s6 hour s7 s8 minute s9 s10 sec s11 nanos s12 offset
    where steps: "long_year s = Some (year, s1)" "literal_char (CHR ''-'') s1 = Some s2" "getnum True s2 = Some (month, s3)"
      "literal_char (CHR ''-'') s3 = Some s4" "getnum True s4 = Some (day, s5)" "literal_char (CHR ''T'') s5 = Some s6"
      "getnum False s6 = Some (hour, s7)" "literal_char (CHR '':'') s7 = Some s8" "getnum True s8 = Some (minute, s9)"
      "literal_char (CHR '':'') s9 = Some s10" "getnum True s10 = Some (sec, s11)" "fraction s11 = (nanos, s12)"
      "zone s12 = Some (offset, [])"
    using assms by (auto simp: parse_rfc3339_def in_range_Some Let_def split: Option.bind_splits if_splits prod.splits)
  have "list_all time_char s12" using takes_timeD [OF takes_zone steps(13)] by simp
  then have "list_all time_char s10" using takes_fraction [OF steps(12)] takes_timeD [OF takes_getnum steps(11)] by blast
  then have "list_all time_char s8"
    using takes_literal [OF _ steps(10)] takes_timeD [OF takes_getnum steps(9)] by (simp add: time_char_def)
  then have "list_all time_char s6"
    using takes_literal [OF _ steps(8)] takes_timeD [OF takes_getnum steps(7)] by (simp add: time_char_def)
  then have "list_all time_char s4"
    using takes_literal [OF _ steps(6)] takes_timeD [OF takes_getnum steps(5)] by (simp add: time_char_def)
  then have "list_all time_char s2"
    using takes_literal [OF _ steps(4)] takes_timeD [OF takes_getnum steps(3)] by (simp add: time_char_def)
  then show ?thesis using takes_literal [OF _ steps(2)] takes_timeD [OF takes_year steps(1)] by (simp add: time_char_def)
qed

end
