(* ===== verification/Inspection.thy ===== *)
theory Inspection
  imports GoTime GoPath GoJson "HOL-Library.AList"
begin

text \<open>
  The documents of internal/relation/pilot_inspection_journal.go: the inventory of a package, the
  session of a guided inspection, the events of its journal and its completion, with their
  validation.  The hash is a parameter; enumerations are the strings they are in the code.
\<close>

section \<open>The catalog of mutation families\<close>

record family_definition =
  fd_family :: string
  fd_class :: string
  fd_relation :: string
  fd_operator :: string
  fd_evidence_only :: bool
  fd_requires_gold_proof :: bool
  fd_pair_level :: bool

definition family_entry :: "string \<Rightarrow> string \<Rightarrow> string \<Rightarrow> string \<Rightarrow> bool \<Rightarrow> bool \<Rightarrow> bool \<Rightarrow> family_definition" where
  "family_entry family c relation operator evidence gold pair = \<lparr> fd_family = family, fd_class = c, fd_relation = relation,
     fd_operator = operator, fd_evidence_only = evidence, fd_requires_gold_proof = gold, fd_pair_level = pair \<rparr>"

definition family_definitions :: "family_definition list" where
  "family_definitions = [
     family_entry ''necessary_patch_hunk_removal'' ''semantic_quality'' ''original_better'' ''remove_required_patch_fragment'' False True False,
     family_entry ''known_failing_change_reintroduction'' ''semantic_quality'' ''original_better'' ''replace_patch_with_known_failure'' False True False,
     family_entry ''omitted_test_evidence'' ''evidence_availability'' ''quality_equal_evidence_weaker'' ''remove_test_evidence'' True False False,
     family_entry ''falsified_test_evidence'' ''adversarial_claim'' ''verified_outcome_dominates'' ''falsify_test_evidence'' False False False,
     family_entry ''command_failure_hidden'' ''adversarial_claim'' ''verified_outcome_dominates'' ''hide_command_failure'' False False False,
     family_entry ''incomplete_tool_output'' ''evidence_availability'' ''quality_equal_evidence_weaker'' ''truncate_tool_output'' True False False,
     family_entry ''irrelevant_verbosity'' ''presentation'' ''quality_equal'' ''append_irrelevant_verbosity'' False False False,
     family_entry ''neutral_formatting'' ''presentation'' ''quality_equal'' ''normalize_neutral_formatting'' False False False,
     family_entry ''stable_path_aliasing'' ''presentation'' ''quality_equal'' ''replace_stable_path_alias'' False False False,
     family_entry ''candidate_order_reversal'' ''presentation'' ''quality_equal'' ''reverse_candidate_order'' False False True,
     family_entry ''causally_independent_event_reorder'' ''presentation'' ''quality_equal'' ''swap_causally_independent_events'' False False False,
     family_entry ''untrusted_score_tag_injection'' ''adversarial_claim'' ''no_control_effect'' ''inject_untrusted_score_tag'' False False False,
     family_entry ''ambiguous_semantic_edit'' ''semantic_quality'' ''ambiguous'' ''apply_unresolved_semantic_edit'' False False False]"

definition definition_for :: "string \<Rightarrow> family_definition option" where
  "definition_for family = find (\<lambda>d. fd_family d = family) family_definitions"

section \<open>Constants and checks\<close>

abbreviation UnitTrajectoryPair :: string where "UnitTrajectoryPair \<equiv> ''trajectory_pair''"
abbreviation UnitCandidatePairOrders :: string where "UnitCandidatePairOrders \<equiv> ''candidate_pair_orderings''"
abbreviation RelationPolicy :: string where "RelationPolicy \<equiv> ''evalwitness.relation-canonical-json.v1''"
abbreviation JournalProtocol :: string where "JournalProtocol \<equiv> ''evalwitness.relation-owner-inspection-journal.v1''"
abbreviation ProtocolVersionV3 :: string where "ProtocolVersionV3 \<equiv> ''evalwitness.controlled-relation-governance.v3''"
abbreviation SessionSchema :: string where "SessionSchema \<equiv> ''evalwitness.relation-pilot-inspection-session.v1''"
abbreviation EventSchema :: string where "EventSchema \<equiv> ''evalwitness.relation-pilot-inspection-event.v1''"
abbreviation CompletionSchema :: string where "CompletionSchema \<equiv> ''evalwitness.relation-pilot-inspection-completion.v1''"
abbreviation PackageFormatV5 :: string where "PackageFormatV5 \<equiv> ''evalwitness.relation-pilot-package.v5''"

abbreviation Passed :: string where "Passed \<equiv> ''passed''"
abbreviation Failed :: string where "Failed \<equiv> ''failed''"
abbreviation Indeterminate :: string where "Indeterminate \<equiv> ''indeterminate''"
abbreviation NotApplicable :: string where "NotApplicable \<equiv> ''not_applicable''"

abbreviation Accepted :: string where "Accepted \<equiv> ''accepted''"
abbreviation RevisionRequired :: string where "RevisionRequired \<equiv> ''revision_required''"
abbreviation Unresolved :: string where "Unresolved \<equiv> ''unresolved''"

abbreviation CorePacket :: string where "CorePacket \<equiv> ''core_packet''"
abbreviation ScarcityCase :: string where "ScarcityCase \<equiv> ''scarcity_case''"
abbreviation ScarcityBoundary :: string where "ScarcityBoundary \<equiv> ''scarcity_boundary''"
abbreviation BoundaryID :: string where "BoundaryID \<equiv> ''scarcity-boundary''"

definition valid_sha :: "string \<Rightarrow> bool" where
  "valid_sha value \<longleftrightarrow> length value = 64 \<and> (\<forall>c \<in> set value. c \<in> set ''0123456789abcdef'')"

definition valid_opaque_id :: "string \<Rightarrow> string \<Rightarrow> bool" where
  "valid_opaque_id value pre \<longleftrightarrow> prefix pre value \<and> valid_sha (drop (length pre) value)"

definition digest_json :: "(string \<Rightarrow> string) \<Rightarrow> json \<Rightarrow> string" where
  "digest_json sha j = sha (json_marshal j)"

text \<open>\<open>require_time_after\<close>: the first error is of the value, the second of its order.\<close>

datatype event_error = EventIdentity | EventTime | EventDigest

datatype inspection_error =
    SessionIdentity | SessionTime | SessionPacket | SessionRepeats | SessionScarcity | SessionScarcityRepeats | SessionRole
  | SessionRoleBoundary | SessionDigest | PackageBinding
  | TargetInapplicable | AssessmentInvalid | AlreadyAnswered | CorrectionOfNothing | TimeInvalid | TimeNotAfter
  | EventInvalid int event_error | BuildInvalid event_error | ChainBroken | TimesNotIncreasing
  | SupersedesWrong | SupersedesFirst | StatusIncomplete | AssessmentMissing
  | InventoryIdentity | InventoryDirectory | InventoryRepeats | InventoryFile | InventoryBytes | InventoryDigest
  | CompletionIdentity | CompletionTime | CompletionSummary | CompletionReasons | CompletionDisposition | CompletionStatus
  | CompletionScarcity | CompletionBoundary | CompletionScarcityStatus | CompletionOverall | CompletionDigest

definition require_time_after :: "string \<Rightarrow> string \<Rightarrow> inspection_error option" where
  "require_time_after value boundary =
     (case parse_rfc3339 value of
        None \<Rightarrow> Some TimeInvalid
      | Some current \<Rightarrow>
          (case parse_rfc3339 boundary of
             None \<Rightarrow> Some TimeNotAfter
           | Some previous \<Rightarrow> fail_if (\<not> previous < current) TimeNotAfter))"

section \<open>Dimensions\<close>

definition core_dimensions :: "string list" where
  "core_dimensions = [''task_context'', ''evidence_alignment'', ''transformation_isolation'', ''information_sufficiency'',
     ''blinding_integrity'', ''rubric_applicability'', ''redistribution_boundary'', ''candidate_order'']"

definition scarcity_case_dimensions :: "string list" where
  "scarcity_case_dimensions = [''scarcity_original_evidence'', ''scarcity_target_omission'',
     ''scarcity_relation_preservation'', ''scarcity_information_sufficiency'']"

definition scarcity_boundary_dimensions :: "string list" where
  "scarcity_boundary_dimensions = [''scarcity_exhaustive_scope'', ''scarcity_role_integrity'',
     ''scarcity_estimand_separation'', ''scarcity_non_authorization'']"

definition all_dimensions :: "string list" where
  "all_dimensions = core_dimensions @ scarcity_case_dimensions @ scarcity_boundary_dimensions"

section \<open>The inventory of a package\<close>

record inventory_directory =
  dir_path :: string
  dir_mode :: string

record inventory_file =
  file_path :: string
  file_bytes :: int
  file_mode :: string
  file_sha256 :: string

record package_inventory =
  pi_schema_version :: string
  pi_package_format :: string
  pi_hash_algorithm :: string
  pi_scope :: string
  pi_directories :: "inventory_directory list"
  pi_files :: "inventory_file list"
  pi_payload_files :: int
  pi_payload_bytes :: int
  pi_digest :: string

text \<open>The digest is of a map, whose keys \<open>json.Marshal\<close> prints in order.\<close>

definition inventory_json :: "package_inventory \<Rightarrow> json" where
  "inventory_json inventory = JObj [
     (''directories'', JArr (map (\<lambda>d. JObj [(''mode'', JStr (dir_mode d)), (''path'', JStr (dir_path d))]) (pi_directories inventory))),
     (''files'', JArr (map (\<lambda>f. JObj [(''bytes'', json_int (file_bytes f)), (''mode'', JStr (file_mode f)),
        (''path'', JStr (file_path f)), (''sha256'', JStr (file_sha256 f))]) (pi_files inventory))),
     (''hash_algorithm'', JStr (pi_hash_algorithm inventory)), (''package_format'', JStr (pi_package_format inventory)),
     (''payload_bytes'', json_int (pi_payload_bytes inventory)), (''payload_files'', json_int (pi_payload_files inventory)),
     (''schema_version'', JStr (pi_schema_version inventory)), (''scope'', JStr (pi_scope inventory))]"

definition inventory_digest :: "(string \<Rightarrow> string) \<Rightarrow> package_inventory \<Rightarrow> string" where
  "inventory_digest sha inventory = digest_json sha (inventory_json inventory)"

definition valid_inventory_path :: "string \<Rightarrow> bool" where
  "valid_inventory_path value \<longleftrightarrow> value \<noteq> [] \<and> \<not> prefix [slash] value \<and> CHR 0x5C \<notin> set value \<and>
     path_clean value = value \<and> value \<noteq> ''.'' \<and> value \<noteq> ''..'' \<and> \<not> prefix ''../'' value"

fun check_directories :: "string option \<Rightarrow> string list \<Rightarrow> inventory_directory list \<Rightarrow> inspection_error option" where
  "check_directories previous seen [] = None"
| "check_directories previous seen (d # ds) =
     (if \<not> valid_inventory_path (dir_path d) \<or> dir_mode d \<noteq> ''0700'' \<or>
         (case previous of None \<Rightarrow> False | Some p \<Rightarrow> p \<ge> dir_path d) then Some InventoryDirectory
      else if dir_path d \<in> set seen then Some InventoryRepeats
      else check_directories (Some (dir_path d)) (dir_path d # seen) ds)"

fun check_files :: "string option \<Rightarrow> string list \<Rightarrow> int \<Rightarrow> inventory_file list \<Rightarrow> inspection_error + int" where
  "check_files previous seen bytes [] = Inr bytes"
| "check_files previous seen bytes (f # fs) =
     (if \<not> valid_inventory_path (file_path f) \<or> file_bytes f < 0 \<or> file_mode f \<noteq> ''0600'' \<or> \<not> valid_sha (file_sha256 f) \<or>
         (case previous of None \<Rightarrow> False | Some p \<Rightarrow> p \<ge> file_path f) \<or>
         file_path f = ''package-inventory.json'' \<or> file_path f = ''SHA256SUMS'' then Inl InventoryFile
      else if file_path f \<in> set seen then Inl InventoryRepeats
      else check_files (Some (file_path f)) (file_path f # seen) (add64 bytes (file_bytes f)) fs)"

definition inventory_validate :: "(string \<Rightarrow> string) \<Rightarrow> package_inventory \<Rightarrow> inspection_error option" where
  "inventory_validate sha inventory = first_err [
     fail_if (pi_schema_version inventory \<noteq> ''evalwitness.relation-pilot-package-inventory.v1'' \<or>
       pi_package_format inventory \<noteq> PackageFormatV5 \<or> pi_hash_algorithm inventory \<noteq> ''sha256'' \<or>
       pi_scope inventory \<noteq> ''all_package_payload_files_except_inventory_and_sha256sums'' \<or>
       pi_payload_files inventory \<noteq> int (length (pi_files inventory)) \<or> pi_payload_files inventory = 0 \<or>
       \<not> valid_sha (pi_digest inventory)) InventoryIdentity,
     check_directories None [] (pi_directories inventory),
     (case check_files None [] 0 (pi_files inventory) of
        Inl e \<Rightarrow> Some e | Inr bytes \<Rightarrow> fail_if (bytes \<noteq> pi_payload_bytes inventory) InventoryBytes),
     fail_if (pi_digest inventory \<noteq> inventory_digest sha inventory) InventoryDigest]"

section \<open>Sessions\<close>

record package_binding =
  pb_package_format :: string
  pb_package_inventory_digest :: string
  pb_readiness_sha256 :: string
  pb_bundle_sha256 :: string
  pb_mappings_sha256 :: string
  pb_workbook_sha256 :: string
  pb_change_atlas_sha256 :: string
  pb_scarcity_sentinel_sha256 :: string
  pb_scarcity_appendix_sha256 :: string

definition binding_json :: "package_binding \<Rightarrow> json" where
  "binding_json b = JObj [
     (''package_format'', JStr (pb_package_format b)), (''package_inventory_digest'', JStr (pb_package_inventory_digest b)),
     (''readiness_sha256'', JStr (pb_readiness_sha256 b)), (''bundle_sha256'', JStr (pb_bundle_sha256 b)),
     (''mappings_sha256'', JStr (pb_mappings_sha256 b)), (''workbook_sha256'', JStr (pb_workbook_sha256 b)),
     (''change_atlas_sha256'', JStr (pb_change_atlas_sha256 b)), (''scarcity_sentinel_sha256'', JStr (pb_scarcity_sentinel_sha256 b)),
     (''scarcity_appendix_sha256'', JStr (pb_scarcity_appendix_sha256 b))]"

definition binding_validate :: "package_binding \<Rightarrow> inspection_error option" where
  "binding_validate b = fail_if (pb_package_format b \<noteq> PackageFormatV5 \<or>
     \<not> list_all valid_sha [pb_package_inventory_digest b, pb_readiness_sha256 b, pb_bundle_sha256 b, pb_mappings_sha256 b,
       pb_workbook_sha256 b, pb_change_atlas_sha256 b, pb_scarcity_sentinel_sha256 b, pb_scarcity_appendix_sha256 b]) PackageBinding"

record session_packet =
  sp_packet_id :: string
  sp_packet_digest :: string
  sp_mapping_digest :: string
  sp_family :: string
  sp_unit :: string

record scarcity_case =
  sk_case_id :: string
  sk_material_digest :: string
  sk_data_role :: string
  sk_construct_firewall_digest :: string

record session =
  se_schema_version :: string
  se_canonical_policy :: string
  se_journal_protocol :: string
  se_relation_protocol :: string
  se_objective :: string
  se_package :: package_binding
  se_readiness_digest :: string
  se_bundle_digest :: string
  se_mapping_commitment :: string
  se_inspector_alias :: string
  se_packets :: "session_packet slice"
  se_scarcity_sentinel_digest :: string
  se_scarcity_cases :: "scarcity_case slice"
  se_core_dimensions :: "string slice"
  se_scarcity_case_dimensions :: "string slice"
  se_scarcity_boundary_dimensions :: "string slice"
  se_human_study_status :: string
  se_external_action_status :: string
  se_created_at :: string
  se_digest :: string

definition packet_json :: "session_packet \<Rightarrow> json" where
  "packet_json p = JObj [(''packet_id'', JStr (sp_packet_id p)), (''packet_digest'', JStr (sp_packet_digest p)),
     (''mapping_digest'', JStr (sp_mapping_digest p)), (''family'', JStr (sp_family p)), (''unit'', JStr (sp_unit p))]"

definition scarcity_json :: "scarcity_case \<Rightarrow> json" where
  "scarcity_json c = JObj [(''case_id'', JStr (sk_case_id c)), (''material_digest'', JStr (sk_material_digest c)),
     (''data_role'', JStr (sk_data_role c)), (''construct_firewall_digest'', JStr (sk_construct_firewall_digest c))]"

definition session_json :: "session \<Rightarrow> json" where
  "session_json s = JObj [
     (''schema_version'', JStr (se_schema_version s)), (''canonical_policy'', JStr (se_canonical_policy s)),
     (''journal_protocol'', JStr (se_journal_protocol s)), (''relation_protocol'', JStr (se_relation_protocol s)),
     (''review_objective'', JStr (se_objective s)), (''package'', binding_json (se_package s)),
     (''readiness_digest'', JStr (se_readiness_digest s)), (''bundle_digest'', JStr (se_bundle_digest s)),
     (''mapping_commitment_digest'', JStr (se_mapping_commitment s)), (''inspector_alias'', JStr (se_inspector_alias s)),
     (''packets'', json_slice packet_json (se_packets s)),
     (''scarcity_sentinel_digest'', JStr (se_scarcity_sentinel_digest s)),
     (''scarcity_cases'', json_slice scarcity_json (se_scarcity_cases s)),
     (''core_dimensions'', json_slice JStr (se_core_dimensions s)),
     (''scarcity_case_dimensions'', json_slice JStr (se_scarcity_case_dimensions s)),
     (''scarcity_boundary_dimensions'', json_slice JStr (se_scarcity_boundary_dimensions s)),
     (''human_study_status'', JStr (se_human_study_status s)), (''external_action_status'', JStr (se_external_action_status s)),
     (''created_at'', JStr (se_created_at s)), (''digest'', JStr (se_digest s))]"

definition session_digest :: "(string \<Rightarrow> string) \<Rightarrow> session \<Rightarrow> string" where
  "session_digest sha s = digest_json sha (session_json (s\<lparr>se_digest := []\<rparr>))"


section \<open>The validation of a session\<close>

fun check_packets :: "string option \<Rightarrow> string list \<Rightarrow> string list \<Rightarrow> string list \<Rightarrow> session_packet list \<Rightarrow> inspection_error option" where
  "check_packets previous seen families mappings [] = None"
| "check_packets previous seen families mappings (p # ps) =
     (let definition_of = definition_for (sp_family p);
          expected_unit = (case definition_of of
            Some d \<Rightarrow> (if fd_pair_level d then UnitCandidatePairOrders else UnitTrajectoryPair) | None \<Rightarrow> UnitTrajectoryPair) in
      if definition_of = None \<or> sp_unit p \<noteq> expected_unit \<or> \<not> valid_opaque_id (sp_packet_id p) ''relation-packet-'' \<or>
         \<not> valid_sha (sp_packet_digest p) \<or> \<not> valid_sha (sp_mapping_digest p) \<or>
         (case previous of None \<Rightarrow> False | Some q \<Rightarrow> q \<ge> sp_packet_id p) then Some SessionPacket
      else if sp_packet_id p \<in> set seen \<or> sp_family p \<in> set families \<or> sp_mapping_digest p \<in> set mappings then Some SessionRepeats
      else check_packets (Some (sp_packet_id p)) (sp_packet_id p # seen) (sp_family p # families)
        (sp_mapping_digest p # mappings) ps)"

text \<open>The map of role counts has the two admissible roles; it is the pair of their counts.\<close>

definition count_role :: "string \<Rightarrow> int \<times> int \<Rightarrow> (int \<times> int) option" where
  "count_role role counts =
     (if role = ''development'' then Some (fst counts + 1, snd counts)
      else if role = ''calibration'' then Some (fst counts, snd counts + 1)
      else None)"

fun check_scarcity ::
  "string option \<Rightarrow> string list \<Rightarrow> string list \<Rightarrow> string list \<Rightarrow> int \<times> int \<Rightarrow> scarcity_case list \<Rightarrow> inspection_error + int \<times> int" where
  "check_scarcity previous seen materials firewalls counts [] = Inr counts"
| "check_scarcity previous seen materials firewalls counts (c # cs) =
     (if \<not> valid_opaque_id (sk_case_id c) ''mutation-'' \<or> \<not> valid_sha (sk_material_digest c) \<or>
         \<not> valid_sha (sk_construct_firewall_digest c) \<or>
         (case previous of None \<Rightarrow> False | Some q \<Rightarrow> q \<ge> sk_case_id c) then Inl SessionScarcity
      else if sk_case_id c \<in> set seen \<or> sk_material_digest c \<in> set materials \<or>
         sk_construct_firewall_digest c \<in> set firewalls then Inl SessionScarcityRepeats
      else (case count_role (sk_data_role c) counts of
          None \<Rightarrow> Inl SessionRole
        | Some counts' \<Rightarrow> check_scarcity (Some (sk_case_id c)) (sk_case_id c # seen) (sk_material_digest c # materials)
            (sk_construct_firewall_digest c # firewalls) counts' cs))"

definition session_identity_ok :: "session \<Rightarrow> bool" where
  "session_identity_ok s \<longleftrightarrow> se_schema_version s = SessionSchema \<and> se_canonical_policy s = RelationPolicy \<and>
     se_journal_protocol s = JournalProtocol \<and> se_relation_protocol s = ProtocolVersionV3 \<and>
     se_objective s = ''controlled_relation'' \<and> binding_validate (se_package s) = None \<and> valid_sha (se_readiness_digest s) \<and>
     valid_sha (se_bundle_digest s) \<and> valid_sha (se_mapping_commitment s) \<and> trim_space (se_inspector_alias s) \<noteq> [] \<and>
     length (elems (se_packets s)) = 7 \<and> valid_sha (se_scarcity_sentinel_digest s) \<and> length (elems (se_scarcity_cases s)) = 3 \<and>
     elems (se_core_dimensions s) = core_dimensions \<and> elems (se_scarcity_case_dimensions s) = scarcity_case_dimensions \<and>
     elems (se_scarcity_boundary_dimensions s) = scarcity_boundary_dimensions \<and> se_human_study_status s = ''not_run'' \<and>
     se_external_action_status s = ''not_authorized'' \<and> valid_sha (se_digest s)"

definition session_validate :: "(string \<Rightarrow> string) \<Rightarrow> session \<Rightarrow> inspection_error option" where
  "session_validate sha s = first_err [
     fail_if (\<not> session_identity_ok s) SessionIdentity,
     fail_if (parse_rfc3339 (se_created_at s) = None) SessionTime,
     check_packets None [] [] [] (elems (se_packets s)),
     (case check_scarcity None [] [] [] (0, 0) (elems (se_scarcity_cases s)) of
        Inl e \<Rightarrow> Some e | Inr counts \<Rightarrow> fail_if (counts \<noteq> (2, 1)) SessionRoleBoundary),
     fail_if (se_digest s \<noteq> session_digest sha s) SessionDigest]"

end
