(* ===== verification/Journal.thy ===== *)
theory Journal
  imports Inspection
begin

text \<open>
  The journal of a guided inspection (internal/relation/pilot_inspection_journal.go): a chain of
  events, each an assessment of one dimension of one subject, linked by digest to its predecessor
  and, as a correction, to the event it supersedes.  Verifying a journal replays it and gives
  its status; the map of the latest event per target is an association list.
\<close>

section \<open>Events\<close>

record inspection_event =
  ev_schema_version :: string
  ev_canonical_policy :: string
  ev_journal_protocol :: string
  ev_session_digest :: string
  ev_sequence :: int
  ev_previous_digest :: string
  ev_subject_kind :: string
  ev_subject_id :: string
  ev_dimension :: string
  ev_assessment :: string
  ev_supersedes_digest :: string
  ev_owner_confirmation :: string
  ev_recorded_at :: string
  ev_digest :: string

definition event_json :: "inspection_event \<Rightarrow> json" where
  "event_json e = JObj [
     (''schema_version'', JStr (ev_schema_version e)), (''canonical_policy'', JStr (ev_canonical_policy e)),
     (''journal_protocol'', JStr (ev_journal_protocol e)), (''session_digest'', JStr (ev_session_digest e)),
     (''sequence'', json_int (ev_sequence e)), (''previous_digest'', JStr (ev_previous_digest e)),
     (''subject_kind'', JStr (ev_subject_kind e)), (''subject_id'', JStr (ev_subject_id e)),
     (''dimension'', JStr (ev_dimension e)), (''assessment'', JStr (ev_assessment e)),
     (''supersedes_digest'', JStr (ev_supersedes_digest e)), (''owner_confirmation'', JStr (ev_owner_confirmation e)),
     (''recorded_at'', JStr (ev_recorded_at e)), (''digest'', JStr (ev_digest e))]"

definition event_digest :: "(string \<Rightarrow> string) \<Rightarrow> inspection_event \<Rightarrow> string" where
  "event_digest sha e = digest_json sha (event_json (e\<lparr>ev_digest := []\<rparr>))"

definition assessment_values :: "string list" where
  "assessment_values = [Passed, Failed, Indeterminate]"

definition event_validate :: "(string \<Rightarrow> string) \<Rightarrow> inspection_event \<Rightarrow> event_error option" where
  "event_validate sha e = first_err [
     fail_if (ev_schema_version e \<noteq> EventSchema \<or> ev_canonical_policy e \<noteq> RelationPolicy \<or>
       ev_journal_protocol e \<noteq> JournalProtocol \<or> \<not> valid_sha (ev_session_digest e) \<or> ev_sequence e < 1 \<or>
       \<not> valid_sha (ev_previous_digest e) \<or> ev_subject_kind e \<notin> set [CorePacket, ScarcityCase, ScarcityBoundary] \<or>
       trim_space (ev_subject_id e) = [] \<or> ev_dimension e \<notin> set all_dimensions \<or> ev_assessment e \<notin> set assessment_values \<or>
       ev_supersedes_digest e \<noteq> [] \<and> \<not> valid_sha (ev_supersedes_digest e) \<or>
       ev_owner_confirmation e \<noteq> ''explicit_owner_assessment'' \<or> \<not> valid_sha (ev_digest e)) EventIdentity,
     fail_if (parse_rfc3339 (ev_recorded_at e) = None) EventTime,
     fail_if (ev_digest e \<noteq> event_digest sha e) EventDigest]"

section \<open>Targets\<close>

record target =
  tg_kind :: string
  tg_id :: string
  tg_dimension :: string

definition target_of :: "string \<Rightarrow> string \<Rightarrow> string \<Rightarrow> target" where
  "target_of kind name dimension = \<lparr> tg_kind = kind, tg_id = name, tg_dimension = dimension \<rparr>"

definition event_target :: "inspection_event \<Rightarrow> target" where
  "event_target e = target_of (ev_subject_kind e) (ev_subject_id e) (ev_dimension e)"

definition core_dimension_applies :: "session_packet \<Rightarrow> string \<Rightarrow> bool" where
  "core_dimension_applies p dimension \<longleftrightarrow> dimension \<in> set core_dimensions \<and>
     (dimension \<noteq> ''candidate_order'' \<or> sp_unit p = UnitCandidatePairOrders)"

definition session_packet_of :: "session \<Rightarrow> string \<Rightarrow> session_packet option" where
  "session_packet_of s name = find (\<lambda>p. sp_packet_id p = name) (elems (se_packets s))"

definition session_case_of :: "session \<Rightarrow> string \<Rightarrow> scarcity_case option" where
  "session_case_of s name = find (\<lambda>c. sk_case_id c = name) (elems (se_scarcity_cases s))"

definition target_applies :: "session \<Rightarrow> target \<Rightarrow> bool" where
  "target_applies s t \<longleftrightarrow>
     (if tg_kind t = CorePacket then
        (case session_packet_of s (tg_id t) of None \<Rightarrow> False | Some p \<Rightarrow> core_dimension_applies p (tg_dimension t))
      else if tg_kind t = ScarcityCase then
        session_case_of s (tg_id t) \<noteq> None \<and> tg_dimension t \<in> set (elems (se_scarcity_case_dimensions s))
      else if tg_kind t = ScarcityBoundary then
        tg_id t = BoundaryID \<and> tg_dimension t \<in> set (elems (se_scarcity_boundary_dimensions s))
      else False)"

definition validate_target :: "(string \<Rightarrow> string) \<Rightarrow> session \<Rightarrow> target \<Rightarrow> inspection_error option" where
  "validate_target sha s t = first_err [session_validate sha s, fail_if (\<not> target_applies s t) TargetInapplicable]"

definition event_key :: "target \<Rightarrow> string" where
  "event_key t = tg_kind t @ CHR 0x00 # tg_id t @ CHR 0x00 # tg_dimension t"

text \<open>The three loops over the targets of a session, in the order in which they are asked.\<close>

definition core_targets :: "session \<Rightarrow> target list" where
  "core_targets s = concat (map (\<lambda>p. map (target_of CorePacket (sp_packet_id p))
     (filter (core_dimension_applies p) (elems (se_core_dimensions s)))) (elems (se_packets s)))"

definition scarcity_targets :: "session \<Rightarrow> target list" where
  "scarcity_targets s = concat (map (\<lambda>c. map (target_of ScarcityCase (sk_case_id c)) (elems (se_scarcity_case_dimensions s)))
     (elems (se_scarcity_cases s)))"

definition boundary_targets :: "session \<Rightarrow> target list" where
  "boundary_targets s = map (target_of ScarcityBoundary BoundaryID) (elems (se_scarcity_boundary_dimensions s))"

definition required_assessments :: "session \<Rightarrow> nat" where
  "required_assessments s =
     sum_list (map (\<lambda>p. length (filter (core_dimension_applies p) (elems (se_core_dimensions s)))) (elems (se_packets s))) +
     length (elems (se_scarcity_cases s)) * length (elems (se_scarcity_case_dimensions s)) +
     length (elems (se_scarcity_boundary_dimensions s))"

section \<open>Replaying a journal\<close>

type_synonym latest_map = "(string \<times> inspection_event) list"

record replay_state =
  rs_latest :: latest_map
  rs_previous_digest :: string
  rs_previous_time :: string
  rs_corrections :: nat

text \<open>\<open>time.Parse\<close> returns the zero time with an error, and the error is dropped.\<close>

definition go_time :: "string \<Rightarrow> int" where
  "go_time s = (case parse_rfc3339 s of Some t \<Rightarrow> t | None \<Rightarrow> day_number 1 1 1 * 86400 * 10 ^ 9)"

definition replay_event :: "(string \<Rightarrow> string) \<Rightarrow> session \<Rightarrow> nat \<Rightarrow> inspection_event \<Rightarrow> replay_state \<Rightarrow> inspection_error + replay_state" where
  "replay_event sha s index e r =
     (case event_validate sha e of
        Some err \<Rightarrow> Inl (EventInvalid (int index + 1) err)
      | None \<Rightarrow>
     if \<not> target_applies s (event_target e) \<or> ev_session_digest e \<noteq> se_digest s \<or>
       ev_sequence e \<noteq> int index + 1 \<or> ev_previous_digest e \<noteq> rs_previous_digest r then Inl ChainBroken
     else if \<not> go_time (rs_previous_time r) < go_time (ev_recorded_at e) then Inl TimesNotIncreasing
     else
       (let key = event_key (event_target e);
            r' = r\<lparr>rs_latest := AList.update key e (rs_latest r), rs_previous_digest := ev_digest e,
                   rs_previous_time := ev_recorded_at e\<rparr> in
        case map_of (rs_latest r) key of
          Some prior \<Rightarrow>
            (if ev_supersedes_digest e \<noteq> ev_digest prior then Inl SupersedesWrong
             else Inr (r'\<lparr>rs_corrections := rs_corrections r + 1\<rparr>))
        | None \<Rightarrow> (if ev_supersedes_digest e \<noteq> [] then Inl SupersedesFirst else Inr r')))"

fun replay :: "(string \<Rightarrow> string) \<Rightarrow> session \<Rightarrow> nat \<Rightarrow> inspection_event list \<Rightarrow> replay_state \<Rightarrow> inspection_error + replay_state" where
  "replay sha s index [] r = Inr r"
| "replay sha s index (e # es) r =
     (case replay_event sha s index e r of Inl err \<Rightarrow> Inl err | Inr r' \<Rightarrow> replay sha s (index + 1) es r')"

definition replay_start :: "session \<Rightarrow> replay_state" where
  "replay_start s = \<lparr> rs_latest = [], rs_previous_digest = se_digest s, rs_previous_time = se_created_at s, rs_corrections = 0 \<rparr>"

section \<open>Dispositions\<close>

record draft =
  dr_packet_id :: string
  dr_task_context :: string
  dr_evidence_alignment :: string
  dr_transformation_isolation :: string
  dr_information_sufficiency :: string
  dr_blinding_integrity :: string
  dr_rubric_applicability :: string
  dr_redistribution_boundary :: string
  dr_candidate_order :: string
  dr_reason_codes :: "string slice"

definition new_draft :: "string \<Rightarrow> draft" where
  "new_draft name = \<lparr> dr_packet_id = name, dr_task_context = [], dr_evidence_alignment = [], dr_transformation_isolation = [],
     dr_information_sufficiency = [], dr_blinding_integrity = [], dr_rubric_applicability = [], dr_redistribution_boundary = [],
     dr_candidate_order = NotApplicable, dr_reason_codes = None \<rparr>"

definition set_draft_assessment :: "string \<Rightarrow> string \<Rightarrow> draft \<Rightarrow> draft" where
  "set_draft_assessment dimension a d =
     (if dimension = ''task_context'' then d\<lparr>dr_task_context := a\<rparr>
      else if dimension = ''evidence_alignment'' then d\<lparr>dr_evidence_alignment := a\<rparr>
      else if dimension = ''transformation_isolation'' then d\<lparr>dr_transformation_isolation := a\<rparr>
      else if dimension = ''information_sufficiency'' then d\<lparr>dr_information_sufficiency := a\<rparr>
      else if dimension = ''blinding_integrity'' then d\<lparr>dr_blinding_integrity := a\<rparr>
      else if dimension = ''rubric_applicability'' then d\<lparr>dr_rubric_applicability := a\<rparr>
      else if dimension = ''redistribution_boundary'' then d\<lparr>dr_redistribution_boundary := a\<rparr>
      else if dimension = ''candidate_order'' then d\<lparr>dr_candidate_order := a\<rparr>
      else d)"

definition draft_assessments :: "draft \<Rightarrow> string list" where
  "draft_assessments d = [dr_task_context d, dr_evidence_alignment d, dr_transformation_isolation d,
     dr_information_sufficiency d, dr_blinding_integrity d, dr_rubric_applicability d, dr_redistribution_boundary d,
     dr_candidate_order d]"

text \<open>\<open>pilotInspectionDisposition\<close> and \<open>pilotInspectionReasons\<close> read nothing of a decision but its assessments.\<close>

definition decision_disposition :: "draft \<Rightarrow> string" where
  "decision_disposition d =
     (if Failed \<in> set (draft_assessments d) then RevisionRequired
      else if Indeterminate \<in> set (draft_assessments d) then Unresolved
      else Accepted)"

definition reason_when :: "string \<Rightarrow> string \<Rightarrow> string list" where
  "reason_when a reason = (if a \<noteq> Passed \<and> a \<noteq> NotApplicable then [reason] else [])"

definition decision_reasons :: "draft \<Rightarrow> string slice" where
  "decision_reasons d =
     (let reasons =
        reason_when (dr_evidence_alignment d) ''evidence_alignment_gap'' @
        reason_when (dr_blinding_integrity d) ''blinding_or_identity_leakage'' @
        reason_when (dr_candidate_order d) ''candidate_order_gap'' @
        reason_when (dr_information_sufficiency d) ''insufficient_information'' @
        reason_when (dr_redistribution_boundary d) ''license_or_redistribution_gap'' @
        reason_when (dr_rubric_applicability d) ''rubric_applicability_gap'' @
        reason_when (dr_task_context d) ''task_context_gap'' @
        reason_when (dr_transformation_isolation d) ''multi_factor_or_unisolated_change'' in
      if reasons = [] then None else Some (sort reasons))"

definition assessment_disposition :: "string list \<Rightarrow> string" where
  "assessment_disposition assessments =
     (if Failed \<in> set assessments then RevisionRequired
      else if Indeterminate \<in> set assessments then Unresolved
      else Accepted)"

definition overall_status :: "nat \<Rightarrow> nat \<Rightarrow> string" where
  "overall_status revision_required unresolved =
     (if revision_required > 0 then RevisionRequired else if unresolved > 0 then Unresolved else Passed)"

definition combine_statuses :: "string \<Rightarrow> string \<Rightarrow> string" where
  "combine_statuses left right =
     (if left = RevisionRequired \<or> right = RevisionRequired then RevisionRequired
      else if left = Unresolved \<or> right = Unresolved then Unresolved
      else Passed)"

section \<open>Summaries\<close>

record decision_summary =
  dm_packet_id :: string
  dm_reason_codes :: "string slice"
  dm_disposition :: string

record scarcity_summary =
  sm_case_id :: string
  sm_data_role :: string
  sm_original_evidence :: string
  sm_target_omission :: string
  sm_relation_preservation :: string
  sm_information_sufficiency :: string
  sm_disposition :: string

record boundary_summary =
  bm_exhaustive_scope :: string
  bm_role_integrity :: string
  bm_estimand_separation :: string
  bm_non_authorization :: string
  bm_disposition :: string

text \<open>A loop over the dimensions of a subject: look the latest assessment up and store it.\<close>

fun collect ::
  "latest_map \<Rightarrow> (string \<Rightarrow> target) \<Rightarrow> (string \<Rightarrow> bool) \<Rightarrow> (string \<Rightarrow> string \<Rightarrow> 'd \<Rightarrow> 'd) \<Rightarrow> string list \<Rightarrow> 'd \<Rightarrow>
    inspection_error + 'd" where
  "collect latest subject applies assign [] d = Inr d"
| "collect latest subject applies assign (dimension # dimensions) d =
     (if \<not> applies dimension then collect latest subject applies assign dimensions d
      else (case map_of latest (event_key (subject dimension)) of
          None \<Rightarrow> Inl AssessmentMissing
        | Some e \<Rightarrow> collect latest subject applies assign dimensions (assign dimension (ev_assessment e) d)))"

fun map_result :: "('a \<Rightarrow> 'e + 'b) \<Rightarrow> 'a list \<Rightarrow> 'e + 'b list" where
  "map_result f [] = Inr []"
| "map_result f (x # xs) =
     (case f x of Inl e \<Rightarrow> Inl e
      | Inr y \<Rightarrow> (case map_result f xs of Inl e \<Rightarrow> Inl e | Inr ys \<Rightarrow> Inr (y # ys)))"

definition packet_draft :: "session \<Rightarrow> latest_map \<Rightarrow> session_packet \<Rightarrow> inspection_error + draft" where
  "packet_draft s latest p =
     (case collect latest (target_of CorePacket (sp_packet_id p)) (core_dimension_applies p) set_draft_assessment
        (elems (se_core_dimensions s)) (new_draft (sp_packet_id p)) of
        Inl e \<Rightarrow> Inl e
      | Inr d \<Rightarrow> Inr (d\<lparr>dr_reason_codes := decision_reasons d\<rparr>))"

definition drafts_from_status :: "session \<Rightarrow> bool \<Rightarrow> latest_map \<Rightarrow> inspection_error + draft list" where
  "drafts_from_status s ready latest =
     (if \<not> ready then Inl StatusIncomplete else map_result (packet_draft s latest) (elems (se_packets s)))"

definition draft_summary :: "draft \<Rightarrow> decision_summary" where
  "draft_summary d = \<lparr> dm_packet_id = dr_packet_id d,
     dm_reason_codes = (if elems (dr_reason_codes d) = [] then None else dr_reason_codes d),
     dm_disposition = decision_disposition d \<rparr>"

definition decision_summaries :: "draft list \<Rightarrow> decision_summary list" where
  "decision_summaries drafts = sort_key dm_packet_id (map draft_summary drafts)"

definition set_scarcity_assessment :: "string \<Rightarrow> string \<Rightarrow> scarcity_summary \<Rightarrow> scarcity_summary" where
  "set_scarcity_assessment dimension a m =
     (if dimension = ''scarcity_original_evidence'' then m\<lparr>sm_original_evidence := a\<rparr>
      else if dimension = ''scarcity_target_omission'' then m\<lparr>sm_target_omission := a\<rparr>
      else if dimension = ''scarcity_relation_preservation'' then m\<lparr>sm_relation_preservation := a\<rparr>
      else if dimension = ''scarcity_information_sufficiency'' then m\<lparr>sm_information_sufficiency := a\<rparr>
      else m)"

definition scarcity_assessments :: "scarcity_summary \<Rightarrow> string list" where
  "scarcity_assessments m = [sm_original_evidence m, sm_target_omission m, sm_relation_preservation m, sm_information_sufficiency m]"

definition case_summary :: "session \<Rightarrow> latest_map \<Rightarrow> scarcity_case \<Rightarrow> inspection_error + scarcity_summary" where
  "case_summary s latest c =
     (case collect latest (target_of ScarcityCase (sk_case_id c)) (\<lambda>_. True) set_scarcity_assessment
        (elems (se_scarcity_case_dimensions s))
        \<lparr> sm_case_id = sk_case_id c, sm_data_role = sk_data_role c, sm_original_evidence = [], sm_target_omission = [],
          sm_relation_preservation = [], sm_information_sufficiency = [], sm_disposition = [] \<rparr> of
        Inl e \<Rightarrow> Inl e
      | Inr m \<Rightarrow> Inr (m\<lparr>sm_disposition := assessment_disposition (scarcity_assessments m)\<rparr>))"

definition set_boundary_assessment :: "string \<Rightarrow> string \<Rightarrow> boundary_summary \<Rightarrow> boundary_summary" where
  "set_boundary_assessment dimension a m =
     (if dimension = ''scarcity_exhaustive_scope'' then m\<lparr>bm_exhaustive_scope := a\<rparr>
      else if dimension = ''scarcity_role_integrity'' then m\<lparr>bm_role_integrity := a\<rparr>
      else if dimension = ''scarcity_estimand_separation'' then m\<lparr>bm_estimand_separation := a\<rparr>
      else if dimension = ''scarcity_non_authorization'' then m\<lparr>bm_non_authorization := a\<rparr>
      else m)"

definition boundary_assessments :: "boundary_summary \<Rightarrow> string list" where
  "boundary_assessments m = [bm_exhaustive_scope m, bm_role_integrity m, bm_estimand_separation m, bm_non_authorization m]"

definition scarcity_summaries :: "session \<Rightarrow> bool \<Rightarrow> latest_map \<Rightarrow> inspection_error + scarcity_summary list \<times> boundary_summary" where
  "scarcity_summaries s ready latest =
     (if \<not> ready then Inl StatusIncomplete
      else (case map_result (case_summary s latest) (elems (se_scarcity_cases s)) of
          Inl e \<Rightarrow> Inl e
        | Inr summaries \<Rightarrow>
            (case collect latest (target_of ScarcityBoundary BoundaryID) (\<lambda>_. True) set_boundary_assessment
               (elems (se_scarcity_boundary_dimensions s))
               \<lparr> bm_exhaustive_scope = [], bm_role_integrity = [], bm_estimand_separation = [], bm_non_authorization = [],
                 bm_disposition = [] \<rparr> of
               Inl e \<Rightarrow> Inl e
             | Inr m \<Rightarrow> Inr (summaries, m\<lparr>bm_disposition := assessment_disposition (boundary_assessments m)\<rparr>))))"

definition count_disposition :: "string \<Rightarrow> string list \<Rightarrow> nat" where
  "count_disposition d dispositions = length (filter (\<lambda>x. x = d) dispositions)"

definition scarcity_status :: "scarcity_summary list \<Rightarrow> boundary_summary option \<Rightarrow> string" where
  "scarcity_status summaries boundary =
     (let dispositions = map sm_disposition summaries @ (case boundary of None \<Rightarrow> [] | Some b \<Rightarrow> [bm_disposition b]) in
      overall_status (count_disposition RevisionRequired dispositions) (count_disposition Unresolved dispositions))"

section \<open>The status of a journal\<close>

record journal_status =
  js_session_digest :: string
  js_events :: nat
  js_corrections :: nat
  js_required :: nat
  js_completed :: nat
  js_completed_core :: nat
  js_completed_scarcity :: nat
  js_completed_boundary :: nat
  js_head_digest :: string
  js_ready :: bool
  js_next :: "target option"
  js_decisions :: "decision_summary list"
  js_scarcity :: "scarcity_summary list"
  js_boundary :: "boundary_summary option"
  js_latest :: latest_map

definition completed_of_kind :: "string \<Rightarrow> latest_map \<Rightarrow> nat" where
  "completed_of_kind kind latest = length (filter (\<lambda>(_, e). ev_subject_kind e = kind) latest)"

definition unanswered :: "latest_map \<Rightarrow> target \<Rightarrow> bool" where
  "unanswered latest t \<longleftrightarrow> map_of latest (event_key t) = None"

definition verify_journal :: "(string \<Rightarrow> string) \<Rightarrow> session \<Rightarrow> inspection_event list \<Rightarrow> inspection_error + journal_status" where
  "verify_journal sha s events =
     (case session_validate sha s of Some e \<Rightarrow> Inl e | None \<Rightarrow>
     (case replay sha s 0 events (replay_start s) of Inl e \<Rightarrow> Inl e | Inr r \<Rightarrow>
      let latest = rs_latest r; required = required_assessments s;
          status = \<lparr> js_session_digest = se_digest s, js_events = length events, js_corrections = rs_corrections r,
            js_required = required, js_completed = length latest, js_completed_core = completed_of_kind CorePacket latest,
            js_completed_scarcity = completed_of_kind ScarcityCase latest,
            js_completed_boundary = completed_of_kind ScarcityBoundary latest,
            js_head_digest = rs_previous_digest r, js_ready = (length latest = required), js_next = None, js_decisions = [],
            js_scarcity = [], js_boundary = None, js_latest = latest \<rparr> in
      case find (unanswered latest) (core_targets s) of Some t \<Rightarrow> Inr (status\<lparr>js_next := Some t\<rparr>) | None \<Rightarrow>
     (case find (unanswered latest) (scarcity_targets s) of Some t \<Rightarrow> Inr (status\<lparr>js_next := Some t\<rparr>) | None \<Rightarrow>
     (case find (unanswered latest) (boundary_targets s) of Some t \<Rightarrow> Inr (status\<lparr>js_next := Some t\<rparr>) | None \<Rightarrow>
     (case drafts_from_status s (js_ready status) latest of Inl e \<Rightarrow> Inl e | Inr drafts \<Rightarrow>
     (case scarcity_summaries s (js_ready status) latest of Inl e \<Rightarrow> Inl e | Inr (summaries, boundary) \<Rightarrow>
        Inr (status\<lparr>js_decisions := decision_summaries drafts, js_scarcity := summaries,
             js_boundary := Some boundary\<rparr>)))))))"

section \<open>Appending an event\<close>

definition last_time :: "session \<Rightarrow> inspection_event list \<Rightarrow> string" where
  "last_time s events = (if events = [] then se_created_at s else ev_recorded_at (last events))"

definition last_digest :: "session \<Rightarrow> inspection_event list \<Rightarrow> string" where
  "last_digest s events = (if events = [] then se_digest s else ev_digest (last events))"

definition sealed_event :: "(string \<Rightarrow> string) \<Rightarrow> session \<Rightarrow> inspection_event list \<Rightarrow> target \<Rightarrow> string \<Rightarrow> string \<Rightarrow>
    inspection_event option \<Rightarrow> inspection_event" where
  "sealed_event sha s events t assessment recorded_at prior =
     (let event = \<lparr> ev_schema_version = EventSchema, ev_canonical_policy = RelationPolicy,
                ev_journal_protocol = JournalProtocol, ev_session_digest = se_digest s,
                ev_sequence = int (length events) + 1, ev_previous_digest = last_digest s events,
                ev_subject_kind = tg_kind t, ev_subject_id = tg_id t, ev_dimension = tg_dimension t,
                ev_assessment = assessment, ev_supersedes_digest = (case prior of None \<Rightarrow> [] | Some e \<Rightarrow> ev_digest e),
                ev_owner_confirmation = ''explicit_owner_assessment'', ev_recorded_at = recorded_at, ev_digest = [] \<rparr> in
      event\<lparr>ev_digest := event_digest sha event\<rparr>)"

definition build_event ::
  "(string \<Rightarrow> string) \<Rightarrow> session \<Rightarrow> inspection_event list \<Rightarrow> target \<Rightarrow> string \<Rightarrow> string \<Rightarrow> bool \<Rightarrow>
    inspection_error + inspection_event" where
  "build_event sha s events t assessment recorded_at correction =
     (case verify_journal sha s events of Inl e \<Rightarrow> Inl e | Inr status \<Rightarrow>
      if \<not> target_applies s t then Inl TargetInapplicable
      else if assessment \<notin> set assessment_values then Inl AssessmentInvalid
      else
        let prior = map_of (js_latest status) (event_key t) in
        if (prior \<noteq> None) \<noteq> correction then Inl (if prior \<noteq> None then AlreadyAnswered else CorrectionOfNothing)
        else (case require_time_after recorded_at (last_time s events) of Some e \<Rightarrow> Inl e | None \<Rightarrow>
          let event = sealed_event sha s events t assessment recorded_at prior in
          case event_validate sha event of Some err \<Rightarrow> Inl (BuildInvalid err) | None \<Rightarrow> Inr event))"

end
