(* ===== verification/JournalFacts.thy ===== *)
theory JournalFacts
  imports Journal
begin

text \<open>
  What a validated session looks like, that its targets have different keys, and the books
  that a replay keeps: the latest event of every target, and as many corrections as there
  were repeated answers.
\<close>

section \<open>Validated sessions\<close>

definition packet_ok :: "session_packet \<Rightarrow> bool" where
  "packet_ok p \<longleftrightarrow> valid_opaque_id (sp_packet_id p) ''relation-packet-'' \<and>
     (\<exists>d. definition_for (sp_family p) = Some d \<and>
        sp_unit p = (if fd_pair_level d then UnitCandidatePairOrders else UnitTrajectoryPair))"

lemma check_packets_Cons:
  assumes "check_packets previous seen families mappings (p # ps) = None"
  shows "packet_ok p" "sp_packet_id p \<notin> set seen" "sp_family p \<notin> set families" "\<forall>q \<in> set_option previous. q < sp_packet_id p"
    "check_packets (Some (sp_packet_id p)) (sp_packet_id p # seen) (sp_family p # families) (sp_mapping_digest p # mappings) ps = None"
  using assms by (auto simp: packet_ok_def Let_def not_le split: if_splits option.splits)

lemma check_packets_sound:
  assumes "check_packets previous seen families mappings ps = None"
  shows "list_all packet_ok ps \<and> set (map sp_packet_id ps) \<inter> set seen = {} \<and> set (map sp_family ps) \<inter> set families = {} \<and>
    distinct (map sp_packet_id ps) \<and> distinct (map sp_family ps) \<and> sorted_wrt (<) (map sp_packet_id ps) \<and>
    (\<forall>q \<in> set_option previous. \<forall>p \<in> set ps. q < sp_packet_id p)"
  using assms
proof (induction ps arbitrary: previous seen families mappings)
  case (Cons p ps)
  note step = check_packets_Cons [OF Cons.prems]
  from Cons.IH [OF step(5)] step(1-4) show ?case
    by (auto simp del: check_packets.simps intro: less_trans)
qed simp

lemma check_scarcity_Cons:
  assumes "check_scarcity previous seen materials firewalls counts (c # cs) = Inr counts'"
  shows "valid_opaque_id (sk_case_id c) ''mutation-''" "sk_case_id c \<notin> set seen"
    "\<exists>counts1. check_scarcity (Some (sk_case_id c)) (sk_case_id c # seen) (sk_material_digest c # materials)
        (sk_construct_firewall_digest c # firewalls) counts1 cs = Inr counts'"
  using assms by (auto split: if_splits option.splits)

lemma check_scarcity_sound:
  assumes "check_scarcity previous seen materials firewalls counts cs = Inr counts'"
  shows "distinct (map sk_case_id cs) \<and> set (map sk_case_id cs) \<inter> set seen = {} \<and>
    list_all (\<lambda>c. valid_opaque_id (sk_case_id c) ''mutation-'') cs"
  using assms
proof (induction cs arbitrary: previous seen materials firewalls counts)
  case (Cons c cs)
  note step = check_scarcity_Cons [OF Cons.prems]
  from step(3) Cons.IH step(1,2) show ?case by (fastforce simp del: check_scarcity.simps)
qed simp

lemma session_validE:
  assumes "session_validate sha s = None"
  shows "session_identity_ok s" "list_all packet_ok (elems (se_packets s))" "distinct (map sp_packet_id (elems (se_packets s)))"
    "distinct (map sp_family (elems (se_packets s)))" "distinct (map sk_case_id (elems (se_scarcity_cases s)))"
    "list_all (\<lambda>c. valid_opaque_id (sk_case_id c) ''mutation-'') (elems (se_scarcity_cases s))"
    "\<exists>t. parse_rfc3339 (se_created_at s) = Some t" "se_digest s = session_digest sha s"
    "sorted (map sp_packet_id (elems (se_packets s)))"
proof -
  have "check_packets None [] [] [] (elems (se_packets s)) = None"
    using assms by (simp add: session_validate_def)
  from check_packets_sound [OF this] show "list_all packet_ok (elems (se_packets s))"
    "distinct (map sp_packet_id (elems (se_packets s)))" "distinct (map sp_family (elems (se_packets s)))"
    "sorted (map sp_packet_id (elems (se_packets s)))" by (auto simp: strict_sorted_iff)
  have "check_scarcity None [] [] [] (0, 0) (elems (se_scarcity_cases s)) = Inr (2, 1)"
    using assms by (auto simp: session_validate_def split: sum.splits)
  from check_scarcity_sound [OF this] show "distinct (map sk_case_id (elems (se_scarcity_cases s)))"
    "list_all (\<lambda>c. valid_opaque_id (sk_case_id c) ''mutation-'') (elems (se_scarcity_cases s))" by auto
qed (use assms in \<open>auto simp: session_validate_def\<close>)

lemma session_dimensions:
  assumes "session_identity_ok s"
  shows "elems (se_core_dimensions s) = core_dimensions" "elems (se_scarcity_case_dimensions s) = scarcity_case_dimensions"
    "elems (se_scarcity_boundary_dimensions s) = scarcity_boundary_dimensions" "length (elems (se_packets s)) = 7"
    "length (elems (se_scarcity_cases s)) = 3"
  using assms by (simp_all add: session_identity_ok_def)

section \<open>Targets\<close>

definition all_targets :: "session \<Rightarrow> target list" where
  "all_targets s = core_targets s @ scarcity_targets s @ boundary_targets s"

lemma targets_required: "length (all_targets s) = required_assessments s"
  by (simp add: all_targets_def core_targets_def scarcity_targets_def boundary_targets_def required_assessments_def
      length_concat comp_def sum_list_triv)

lemma find_distinct:
  assumes "distinct (map key xs)" and "x \<in> set xs"
  shows "find (\<lambda>y. key y = key x) xs = Some x"
  using assms by (induction xs) (auto simp: rev_image_eqI)

lemma find_key: "find (\<lambda>y. key y = k) xs = Some x \<Longrightarrow> x \<in> set xs \<and> key x = k"
  by (auto simp: find_Some_iff)

lemma target_simps [simp]:
  "tg_kind (target_of k i d) = k" "tg_id (target_of k i d) = i" "tg_dimension (target_of k i d) = d"
  by (simp_all add: target_of_def)

lemma target_ext: "t = target_of k i d \<longleftrightarrow> tg_kind t = k \<and> tg_id t = i \<and> tg_dimension t = d"
  by (cases t) (auto simp: target_of_def)

lemma core_applies: "core_dimension_applies p d \<Longrightarrow> d \<in> set core_dimensions"
  by (simp add: core_dimension_applies_def)

lemma applies_iff:
  assumes "session_validate sha s = None"
  shows "target_applies s t \<longleftrightarrow> t \<in> set (all_targets s)"
proof -
  note valid = session_validE [OF assms]
  note dims = session_dimensions [OF valid(1)]
  have packet: "session_packet_of s (sp_packet_id p) = Some p" if "p \<in> set (elems (se_packets s))" for p
    using find_distinct [OF valid(3) that] by (simp add: session_packet_of_def)
  have scarcity: "session_case_of s (sk_case_id c) = Some c" if "c \<in> set (elems (se_scarcity_cases s))" for c
    using find_distinct [OF valid(5) that] by (simp add: session_case_of_def)
  have packets: "session_packet_of s i = Some p \<longleftrightarrow> p \<in> set (elems (se_packets s)) \<and> sp_packet_id p = i" for i p
    using packet by (auto simp: session_packet_of_def dest: find_key)
  have cases: "session_case_of s i = Some c \<longleftrightarrow> c \<in> set (elems (se_scarcity_cases s)) \<and> sk_case_id c = i" for i c
    using scarcity by (auto simp: session_case_of_def dest: find_key)
  have "t \<in> set (core_targets s) \<longleftrightarrow> tg_kind t = CorePacket \<and>
      (\<exists>p \<in> set (elems (se_packets s)). sp_packet_id p = tg_id t \<and> core_dimension_applies p (tg_dimension t))"
    by (force simp: core_targets_def dims target_ext image_iff dest: core_applies)
  also have "\<dots> \<longleftrightarrow> tg_kind t = CorePacket \<and> target_applies s t"
  proof (cases "session_packet_of s (tg_id t)")
    case None
    then show ?thesis using packet by (force simp: target_applies_def)
  next
    case (Some q)
    have here: "q \<in> set (elems (se_packets s))" "sp_packet_id q = tg_id t" using Some packets by blast+
    have "p = q" if "p \<in> set (elems (se_packets s))" "sp_packet_id p = tg_id t" for p
      using packet [OF that(1)] that(2) Some by simp
    then have "(\<exists>p \<in> set (elems (se_packets s)). sp_packet_id p = tg_id t \<and> core_dimension_applies p (tg_dimension t)) \<longleftrightarrow>
        core_dimension_applies q (tg_dimension t)"
      using here by blast
    then show ?thesis using Some by (auto simp: target_applies_def)
  qed
  finally have "t \<in> set (core_targets s) \<longleftrightarrow> tg_kind t = CorePacket \<and> target_applies s t" .
  moreover have "t \<in> set (scarcity_targets s) \<longleftrightarrow> tg_kind t = ScarcityCase \<and> target_applies s t"
    by (force simp: scarcity_targets_def target_applies_def dims cases target_ext image_iff)
  moreover have "t \<in> set (boundary_targets s) \<longleftrightarrow> tg_kind t = ScarcityBoundary \<and> target_applies s t"
    by (auto simp: boundary_targets_def target_applies_def dims target_ext)
  ultimately show ?thesis by (auto simp: all_targets_def target_applies_def split: if_splits)
qed

text \<open>A key determines its target: neither a kind nor a dimension has the separator in it.\<close>

definition plain_target :: "target \<Rightarrow> bool" where
  "plain_target t \<longleftrightarrow> CHR 0x00 \<notin> set (tg_kind t) \<and> CHR 0x00 \<notin> set (tg_dimension t)"

lemma split_unique:
  assumes "a @ c # b = a' @ c # b'" and "c \<notin> set a" and "c \<notin> set a'"
  shows "a = a' \<and> b = b'"
  using assms by (induction a arbitrary: a') (auto simp: Cons_eq_append_conv append_eq_Cons_conv)

lemma event_key_inj:
  assumes "event_key t = event_key t'" and "plain_target t" and "plain_target t'"
  shows "t = t'"
proof -
  have "tg_kind t = tg_kind t' \<and> tg_id t @ CHR 0x00 # tg_dimension t = tg_id t' @ CHR 0x00 # tg_dimension t'"
    using assms by (intro split_unique) (auto simp: event_key_def plain_target_def)
  then have "tg_kind t = tg_kind t'" and rest: "rev (tg_id t @ CHR 0x00 # tg_dimension t) = rev (tg_id t' @ CHR 0x00 # tg_dimension t')" by auto
  moreover have "rev (tg_dimension t) = rev (tg_dimension t') \<and> rev (tg_id t) = rev (tg_id t')"
    using rest assms by (intro split_unique) (auto simp: plain_target_def)
  ultimately show ?thesis by simp
qed

lemma dimensions_plain: "d \<in> set all_dimensions \<Longrightarrow> CHR 0x00 \<notin> set d"
  by (auto simp: all_dimensions_def core_dimensions_def scarcity_case_dimensions_def scarcity_boundary_dimensions_def)

lemma target_kind_dimension:
  assumes "session_identity_ok s" and "t \<in> set (all_targets s)"
  shows "tg_kind t \<in> {CorePacket, ScarcityCase, ScarcityBoundary}" "tg_dimension t \<in> set all_dimensions"
proof -
  show "tg_dimension t \<in> set all_dimensions"
    using assms(2) session_dimensions [OF assms(1)]
    by (auto simp: all_targets_def core_targets_def scarcity_targets_def boundary_targets_def all_dimensions_def)
  show "tg_kind t \<in> {CorePacket, ScarcityCase, ScarcityBoundary}"
    using assms(2) by (auto simp: all_targets_def core_targets_def scarcity_targets_def boundary_targets_def)
qed

lemma targets_plain:
  assumes "session_identity_ok s" and "t \<in> set (all_targets s)"
  shows "plain_target t"
  using target_kind_dimension [OF assms] by (auto simp: plain_target_def dimensions_plain)

lemma distinct_targets:
  assumes "distinct (map key xs)" and "\<And>x. distinct (ds x)"
  shows "distinct (concat (map (\<lambda>x. map (target_of k (key x)) (ds x)) xs))"
  using assms(1)
proof (induction xs)
  case (Cons x xs)
  moreover have "distinct (map (target_of k (key x)) (ds x))"
    using assms(2) by (auto simp: distinct_map inj_on_def target_ext)
  ultimately show ?case by (auto simp: target_ext)
qed simp

lemma targets_distinct:
  assumes "session_validate sha s = None"
  shows "distinct (map event_key (all_targets s))"
proof -
  note valid = session_validE [OF assms]
  note dims = session_dimensions [OF valid(1)]
  have "distinct core_dimensions" "distinct scarcity_case_dimensions" "distinct scarcity_boundary_dimensions"
    by (simp_all add: core_dimensions_def scarcity_case_dimensions_def scarcity_boundary_dimensions_def)
  then have "distinct (all_targets s)"
    using valid(3,5)
    by (auto simp: all_targets_def core_targets_def scarcity_targets_def boundary_targets_def dims target_ext
        distinct_map inj_on_def intro!: distinct_targets)
  then show ?thesis
    using targets_plain [OF valid(1)] by (auto simp: distinct_map inj_on_def intro: event_key_inj)
qed

end
