(* ===== verification/JournalBooks.thy ===== *)
theory JournalBooks
  imports JournalFacts
begin

section \<open>The books of a replay\<close>

definition latest_of :: "inspection_event list \<Rightarrow> string \<Rightarrow> inspection_event option" where
  "latest_of events key = find (\<lambda>e. event_key (event_target e) = key) (rev events)"

definition journal_books :: "session \<Rightarrow> inspection_event list \<Rightarrow> replay_state \<Rightarrow> bool" where
  "journal_books s events r \<longleftrightarrow> distinct (map fst (rs_latest r)) \<and> map_of (rs_latest r) = latest_of events \<and>
     rs_corrections r + length (rs_latest r) = length events \<and>
     rs_previous_digest r = last_digest s events \<and> rs_previous_time r = last_time s events"

lemma replay_append:
  "replay sha s i (es @ [e]) r =
     (case replay sha s i es r of Inl err \<Rightarrow> Inl err | Inr r' \<Rightarrow> replay_event sha s (i + length es) e r')"
  by (induction es arbitrary: i r) (auto split: sum.splits)

lemma replay_eventE:
  assumes "replay_event sha s i e r = Inr r'"
  shows "event_validate sha e = None" "target_applies s (event_target e)" "ev_session_digest e = se_digest s"
    "ev_sequence e = int i + 1" "ev_previous_digest e = rs_previous_digest r"
    "go_time (rs_previous_time r) < go_time (ev_recorded_at e)"
    "rs_latest r' = AList.update (event_key (event_target e)) e (rs_latest r)"
    "rs_previous_digest r' = ev_digest e" "rs_previous_time r' = ev_recorded_at e"
    "ev_supersedes_digest e = (case map_of (rs_latest r) (event_key (event_target e)) of None \<Rightarrow> [] | Some p \<Rightarrow> ev_digest p)"
    "rs_corrections r' = rs_corrections r + (if map_of (rs_latest r) (event_key (event_target e)) = None then 0 else 1)"
  using assms by (auto simp: replay_event_def Let_def split: option.splits if_splits)

lemma length_update:
  assumes "distinct (map fst al)"
  shows "length (AList.update k v al) = length al + (if map_of al k = None then 1 else 0)"
proof -
  have size: "length xs = card (dom (map_of xs))" if "distinct (map fst xs)" for xs :: "('a \<times> 'b) list"
    by (metis distinct_card dom_map_of_conv_image_fst length_map list.set_map that)
  have "length (AList.update k v al) = card (insert k (dom (map_of al)))"
    using size [OF distinct_update [OF assms]] by (simp add: update_conv')
  then show ?thesis using size [OF assms] by (auto simp: card_insert_if finite_dom_map_of)
qed

lemma latest_of_append: "latest_of (es @ [e]) = (latest_of es)(event_key (event_target e) \<mapsto> e)"
  by (auto simp: latest_of_def fun_eq_iff)

lemma replay_books:
  assumes "replay sha s 0 events (replay_start s) = Inr r"
  shows "journal_books s events r"
  using assms
proof (induction events arbitrary: r rule: rev_induct)
  case Nil
  then show ?case
    by (auto simp: journal_books_def replay_start_def latest_of_def last_digest_def last_time_def)
next
  case (snoc e es)
  obtain r1 where r1: "replay sha s 0 es (replay_start s) = Inr r1" and step: "replay_event sha s (length es) e r1 = Inr r"
    using snoc.prems by (auto simp: replay_append split: sum.splits)
  note at = replay_eventE [OF step]
  from snoc.IH [OF r1] show ?case
    by (simp add: journal_books_def at(7-9,11) distinct_update update_conv' latest_of_append length_update last_digest_def last_time_def)
qed

lemma replay_prefix:
  assumes "replay sha s 0 (es @ [e]) (replay_start s) = Inr r"
  obtains r1 where "replay sha s 0 es (replay_start s) = Inr r1" "replay_event sha s (length es) e r1 = Inr r"
  using assms by (auto simp: replay_append split: sum.splits)

lemma replay_events:
  assumes "replay sha s 0 events (replay_start s) = Inr r" and "e \<in> set events"
  shows "event_validate sha e = None" "target_applies s (event_target e)" "ev_session_digest e = se_digest s"
  using assms
proof (induction events arbitrary: r rule: rev_induct)
  case (snoc x es)
  {
    case 1
    from 1(1) obtain r1 where "replay sha s 0 es (replay_start s) = Inr r1" "replay_event sha s (length es) x r1 = Inr r"
      by (rule replay_prefix)
    with 1(2) snoc.IH(1) replay_eventE(1) show ?case by fastforce
  next
    case 2
    from 2(1) obtain r1 where "replay sha s 0 es (replay_start s) = Inr r1" "replay_event sha s (length es) x r1 = Inr r"
      by (rule replay_prefix)
    with 2(2) snoc.IH(2) replay_eventE(2) show ?case by fastforce
  next
    case 3
    from 3(1) obtain r1 where "replay sha s 0 es (replay_start s) = Inr r1" "replay_event sha s (length es) x r1 = Inr r"
      by (rule replay_prefix)
    with 3(2) snoc.IH(3) replay_eventE(3) show ?case by fastforce
  }
qed simp_all

lemma latest_event:
  assumes "latest_of events k = Some e"
  shows "e \<in> set events" "event_key (event_target e) = k"
  using assms by (auto simp: latest_of_def dest: find_key)

section \<open>The open targets\<close>

definition next_target :: "session \<Rightarrow> latest_map \<Rightarrow> target option" where
  "next_target s latest = find (unanswered latest) (all_targets s)"

lemma find_append: "find P (xs @ ys) = (case find P xs of Some x \<Rightarrow> Some x | None \<Rightarrow> find P ys)"
  by (induction xs) auto

lemma latest_within:
  assumes valid: "session_validate sha s = None" and run: "replay sha s 0 events (replay_start s) = Inr r"
  shows "dom (map_of (rs_latest r)) \<subseteq> event_key ` set (all_targets s)"
    "card (dom (map_of (rs_latest r))) = length (rs_latest r)"
    "card (event_key ` set (all_targets s)) = required_assessments s"
proof -
  have books: "distinct (map fst (rs_latest r))" "map_of (rs_latest r) = latest_of events"
    using replay_books [OF run] by (simp_all add: journal_books_def)
  show "dom (map_of (rs_latest r)) \<subseteq> event_key ` set (all_targets s)"
  proof
    fix k assume "k \<in> dom (map_of (rs_latest r))"
    then obtain e where "latest_of events k = Some e" by (auto simp: books(2))
    note e = latest_event [OF this]
    have "event_target e \<in> set (all_targets s)" using replay_events(2) [OF run e(1)] applies_iff [OF valid] by blast
    then show "k \<in> event_key ` set (all_targets s)" using e(2) by blast
  qed
  show "card (dom (map_of (rs_latest r))) = length (rs_latest r)"
    by (metis books(1) distinct_card dom_map_of_conv_image_fst length_map list.set_map)
  show "card (event_key ` set (all_targets s)) = required_assessments s"
    using targets_distinct [OF valid] targets_required [of s] distinct_card [of "map event_key (all_targets s)"] by simp
qed

lemma answered_iff_ready:
  assumes valid: "session_validate sha s = None" and run: "replay sha s 0 events (replay_start s) = Inr r"
  shows "next_target s (rs_latest r) = None \<longleftrightarrow> length (rs_latest r) = required_assessments s"
    and "length (rs_latest r) \<le> required_assessments s"
proof -
  note within = latest_within [OF valid run]
  have "next_target s (rs_latest r) = None \<longleftrightarrow> event_key ` set (all_targets s) \<subseteq> dom (map_of (rs_latest r))"
    by (auto simp: next_target_def find_None_iff unanswered_def dom_def)
  also have "\<dots> \<longleftrightarrow> dom (map_of (rs_latest r)) = event_key ` set (all_targets s)" using within(1) by blast
  also have "\<dots> \<longleftrightarrow> length (rs_latest r) = required_assessments s"
    using card_subset_eq [OF _ within(1)] within(2,3) by auto
  finally show "next_target s (rs_latest r) = None \<longleftrightarrow> length (rs_latest r) = required_assessments s" .
  show "length (rs_latest r) \<le> required_assessments s" using card_mono [OF _ within(1)] within(2,3) by simp
qed

section \<open>Collecting the latest assessments\<close>

lemma collect_total:
  assumes "\<And>d. d \<in> set dimensions \<Longrightarrow> applies d \<Longrightarrow> \<not> unanswered latest (subject d)"
  shows "\<exists>r. collect latest subject applies assign dimensions x = Inr r"
  using assms
proof (induction dimensions arbitrary: x)
  case (Cons d ds)
  then show ?case by (cases "applies d") (auto simp: unanswered_def split: option.splits)
qed simp

lemma map_result_Inr: "map_result f xs = Inr ys \<longleftrightarrow> list_all2 (\<lambda>x y. f x = Inr y) xs ys"
proof (induction xs arbitrary: ys)
  case (Cons x xs)
  show ?case
  proof (cases "f x")
    case (Inr y)
    show ?thesis
    proof (cases "map_result f xs")
      case (Inl e)
      then have "\<not> list_all2 (\<lambda>x y. f x = Inr y) xs zs" for zs using Cons.IH [of zs] by simp
      then show ?thesis using Inl by (auto simp: list_all2_Cons1 Inr)
    next
      case tail: (Inr zs)
      then have "list_all2 (\<lambda>x y. f x = Inr y) xs zs' \<longleftrightarrow> zs' = zs" for zs' using Cons.IH [of zs'] by auto
      then show ?thesis using tail by (auto simp: list_all2_Cons1 Inr)
    qed
  qed (auto simp: list_all2_Cons1)
qed auto

lemma map_result_total:
  assumes "\<And>x. x \<in> set xs \<Longrightarrow> \<exists>y. f x = Inr y"
  shows "\<exists>ys. map_result f xs = Inr ys"
  using assms
proof (induction xs)
  case (Cons x xs)
  obtain y ys where "f x = Inr y" "map_result f xs = Inr ys" using Cons by fastforce
  then show ?case by simp
qed simp

definition verified_status :: "session \<Rightarrow> inspection_event list \<Rightarrow> replay_state \<Rightarrow> journal_status" where
  "verified_status s events r = \<lparr> js_session_digest = se_digest s, js_events = length events, js_corrections = rs_corrections r,
     js_required = required_assessments s, js_completed = length (rs_latest r),
     js_completed_core = completed_of_kind CorePacket (rs_latest r),
     js_completed_scarcity = completed_of_kind ScarcityCase (rs_latest r),
     js_completed_boundary = completed_of_kind ScarcityBoundary (rs_latest r),
     js_head_digest = rs_previous_digest r, js_ready = (length (rs_latest r) = required_assessments s),
     js_next = next_target s (rs_latest r), js_decisions = [], js_scarcity = [], js_boundary = None,
     js_latest = rs_latest r \<rparr>"

definition bare_status :: "journal_status \<Rightarrow> journal_status" where
  "bare_status js = js\<lparr>js_decisions := [], js_scarcity := [], js_boundary := None\<rparr>"

text \<open>Once a journal replays, nothing that follows in its verification can fail.\<close>

lemma summaries_total:
  assumes "next_target s latest = None"
  shows "\<exists>drafts. drafts_from_status s True latest = Inr drafts"
    and "\<exists>summaries boundary. scarcity_summaries s True latest = Inr (summaries, boundary)"
proof -
  have answered: "\<not> unanswered latest t" if "t \<in> set (all_targets s)" for t
    using assms that by (auto simp: next_target_def find_None_iff)
  have "\<exists>d. packet_draft s latest p = Inr d" if "p \<in> set (elems (se_packets s))" for p
  proof -
    have "\<exists>d. collect latest (target_of CorePacket (sp_packet_id p)) (core_dimension_applies p) set_draft_assessment
        (elems (se_core_dimensions s)) (new_draft (sp_packet_id p)) = Inr d"
      using that by (intro collect_total answered) (auto simp: all_targets_def core_targets_def)
    then show ?thesis by (auto simp: packet_draft_def)
  qed
  from map_result_total [OF this] show "\<exists>drafts. drafts_from_status s True latest = Inr drafts"
    by (simp add: drafts_from_status_def)
  have "\<exists>m. case_summary s latest c = Inr m" if "c \<in> set (elems (se_scarcity_cases s))" for c
  proof -
    have "\<exists>m. collect latest (target_of ScarcityCase (sk_case_id c)) (\<lambda>_. True) set_scarcity_assessment
        (elems (se_scarcity_case_dimensions s)) x = Inr m" for x
      using that by (intro collect_total answered) (auto simp: all_targets_def scarcity_targets_def)
    from this [of "\<lparr> sm_case_id = sk_case_id c, sm_data_role = sk_data_role c, sm_original_evidence = [], sm_target_omission = [],
          sm_relation_preservation = [], sm_information_sufficiency = [], sm_disposition = [] \<rparr>"]
    show ?thesis by (auto simp: case_summary_def)
  qed
  then obtain ms where ms: "map_result (case_summary s latest) (elems (se_scarcity_cases s)) = Inr ms"
    using map_result_total [of "elems (se_scarcity_cases s)" "case_summary s latest"] by blast
  have "\<exists>m. collect latest (target_of ScarcityBoundary BoundaryID) (\<lambda>_. True) set_boundary_assessment
      (elems (se_scarcity_boundary_dimensions s)) x = Inr m" for x
    by (intro collect_total answered) (auto simp: all_targets_def boundary_targets_def)
  from this [of "\<lparr> bm_exhaustive_scope = [], bm_role_integrity = [], bm_estimand_separation = [], bm_non_authorization = [],
      bm_disposition = [] \<rparr>"]
  show "\<exists>summaries boundary. scarcity_summaries s True latest = Inr (summaries, boundary)"
    by (auto simp: scarcity_summaries_def ms)
qed

lemma verify_journal_iff:
  "(\<exists>js. verify_journal sha s events = Inr js) \<longleftrightarrow>
    session_validate sha s = None \<and> (\<exists>r. replay sha s 0 events (replay_start s) = Inr r)"
proof -
  have "\<exists>js. verify_journal sha s events = Inr js"
    if valid: "session_validate sha s = None" and run: "replay sha s 0 events (replay_start s) = Inr r" for r
  proof (cases "next_target s (rs_latest r)")
    case None
    then have "length (rs_latest r) = required_assessments s" using answered_iff_ready(1) [OF valid run] by simp
    moreover note summaries_total [OF None]
    ultimately show ?thesis
      using None by (auto simp: verify_journal_def valid run next_target_def all_targets_def find_append Let_def split: option.splits)
  next
    case (Some t)
    then show ?thesis
      by (auto simp: verify_journal_def valid run next_target_def all_targets_def find_append Let_def split: option.splits)
  qed
  then show ?thesis by (auto simp: verify_journal_def split: option.splits sum.splits)
qed

lemma verify_journalE:
  assumes "verify_journal sha s events = Inr js"
  obtains r where "session_validate sha s = None" "replay sha s 0 events (replay_start s) = Inr r"
    "bare_status js = verified_status s events r"
proof -
  obtain r where run: "session_validate sha s = None" "replay sha s 0 events (replay_start s) = Inr r"
    using assms verify_journal_iff by blast
  have "bare_status js = verified_status s events r"
    using assms
    by (auto simp: verify_journal_def run next_target_def all_targets_def find_append Let_def verified_status_def
        bare_status_def split: option.splits sum.splits)
  with run that show thesis by blast
qed

end
