(* ===== verification/JournalProps.thy ===== *)
theory JournalProps
  imports JournalBooks
begin

text \<open>
  What a verified journal guarantees: its books refine a map from targets to answers, an event that
  is built extends it, and an incomplete journal can be finished.
\<close>

section \<open>The books\<close>

text \<open>The abstract journal: what has been answered last, per target.\<close>

definition answer_book :: "inspection_event list \<Rightarrow> target \<rightharpoonup> inspection_event" where
  "answer_book events = fold (\<lambda>e book. book(event_target e \<mapsto> e)) events Map.empty"

lemma answer_book_append: "answer_book (es @ [e]) = (answer_book es)(event_target e \<mapsto> e)"
  by (simp add: answer_book_def)

lemma answer_book_dom: "dom (answer_book es) = event_target ` set es"
proof (induction es rule: rev_induct)
  case (snoc e es)
  then show ?case by (simp only: answer_book_append dom_fun_upd) simp
qed (simp add: answer_book_def)

lemma latest_refines:
  assumes "\<And>e. e \<in> set es \<Longrightarrow> plain_target (event_target e)" and "plain_target t"
  shows "latest_of es (event_key t) = answer_book es t"
  using assms(1)
proof (induction es rule: rev_induct)
  case (snoc e es)
  then have "latest_of es (event_key t) = answer_book es t" "plain_target (event_target e)" by auto
  then show ?case
    using event_key_inj [OF _ assms(2), of "event_target e"]
    by (auto simp: latest_of_append answer_book_append dest: sym)
qed (simp add: latest_of_def answer_book_def)

lemma replay_refines:
  assumes valid: "session_validate sha s = None" and run: "replay sha s 0 events (replay_start s) = Inr r"
    and t: "t \<in> set (all_targets s)"
  shows "map_of (rs_latest r) (event_key t) = answer_book events t"
proof -
  have "plain_target (event_target e)" if "e \<in> set events" for e
    using replay_events(2) [OF run that] applies_iff [OF valid] targets_plain [OF session_validE(1) [OF valid]] by blast
  then show ?thesis
    using replay_books [OF run] t targets_plain [OF session_validE(1) [OF valid]]
    by (simp add: journal_books_def latest_refines)
qed

lemma replay_supersedes:
  assumes valid: "session_validate sha s = None" and run: "replay sha s 0 events (replay_start s) = Inr r" and i: "i < length events"
  shows "ev_supersedes_digest (events ! i) =
    (case answer_book (take i events) (event_target (events ! i)) of None \<Rightarrow> [] | Some p \<Rightarrow> ev_digest p)"
  using run i
proof (induction events arbitrary: r rule: rev_induct)
  case (snoc e es)
  obtain r1 where r1: "replay sha s 0 es (replay_start s) = Inr r1" and step: "replay_event sha s (length es) e r1 = Inr r"
    using snoc.prems(1) by (rule replay_prefix)
  show ?case
  proof (cases "i < length es")
    case True
    then show ?thesis using snoc.IH [OF r1] by (simp add: nth_append)
  next
    case False
    then have i: "i = length es" using snoc.prems(2) by simp
    have "event_target e \<in> set (all_targets s)" using replay_eventE(2) [OF step] applies_iff [OF valid] by blast
    from replay_refines [OF valid r1 this] replay_eventE(10) [OF step] show ?thesis by (simp add: i)
  qed
qed simp

lemma kinds_partition:
  assumes "\<forall>e \<in> snd ` set latest. ev_subject_kind e \<in> {CorePacket, ScarcityCase, ScarcityBoundary}"
  shows "length latest = completed_of_kind CorePacket latest + completed_of_kind ScarcityCase latest +
    completed_of_kind ScarcityBoundary latest"
  using assms by (induction latest) (auto simp: completed_of_kind_def)

lemma bare_simps [simp]:
  "js_session_digest (bare_status js) = js_session_digest js" "js_events (bare_status js) = js_events js"
  "js_corrections (bare_status js) = js_corrections js" "js_required (bare_status js) = js_required js"
  "js_completed (bare_status js) = js_completed js" "js_completed_core (bare_status js) = js_completed_core js"
  "js_completed_scarcity (bare_status js) = js_completed_scarcity js"
  "js_completed_boundary (bare_status js) = js_completed_boundary js" "js_head_digest (bare_status js) = js_head_digest js"
  "js_ready (bare_status js) = js_ready js" "js_next (bare_status js) = js_next js" "js_latest (bare_status js) = js_latest js"
  by (simp_all add: bare_status_def)

lemma status_fields:
  assumes "bare_status js = verified_status s events r"
  shows "js_session_digest js = se_digest s" "js_events js = length events" "js_corrections js = rs_corrections r"
    "js_required js = required_assessments s" "js_completed js = length (rs_latest r)"
    "js_completed_core js = completed_of_kind CorePacket (rs_latest r)"
    "js_completed_scarcity js = completed_of_kind ScarcityCase (rs_latest r)"
    "js_completed_boundary js = completed_of_kind ScarcityBoundary (rs_latest r)"
    "js_head_digest js = rs_previous_digest r" "js_ready js \<longleftrightarrow> length (rs_latest r) = required_assessments s"
    "js_next js = next_target s (rs_latest r)" "js_latest js = rs_latest r"
  using arg_cong [OF assms, of js_session_digest] arg_cong [OF assms, of js_events] arg_cong [OF assms, of js_corrections]
    arg_cong [OF assms, of js_required] arg_cong [OF assms, of js_completed] arg_cong [OF assms, of js_completed_core]
    arg_cong [OF assms, of js_completed_scarcity] arg_cong [OF assms, of js_completed_boundary]
    arg_cong [OF assms, of js_head_digest] arg_cong [OF assms, of js_ready] arg_cong [OF assms, of js_next]
    arg_cong [OF assms, of js_latest]
  by (simp_all add: verified_status_def)

text \<open>
  C17: a verified journal refines the book of last answers: its map of the latest events is that book, every
  event supersedes the answer before it, the counts add up, and it is ready exactly when no target is open.
\<close>

theorem journal_refines_book:
  assumes "verify_journal sha s events = Inr js"
  shows "(\<forall>t \<in> set (all_targets s). map_of (js_latest js) (event_key t) = answer_book events t) \<and>
    event_target ` set events \<subseteq> set (all_targets s) \<and>
    (\<forall>i < length events. ev_supersedes_digest (events ! i) =
       (case answer_book (take i events) (event_target (events ! i)) of None \<Rightarrow> [] | Some p \<Rightarrow> ev_digest p)) \<and>
    js_completed js = card (dom (answer_book events)) \<and> js_completed js + js_corrections js = length events \<and>
    js_completed js = js_completed_core js + js_completed_scarcity js + js_completed_boundary js \<and>
    (js_ready js \<longleftrightarrow> dom (answer_book events) = set (all_targets s)) \<and>
    js_next js = find (\<lambda>t. t \<notin> dom (answer_book events)) (all_targets s)"
proof -
  obtain r where valid: "session_validate sha s = None" and run: "replay sha s 0 events (replay_start s) = Inr r"
    and js: "bare_status js = verified_status s events r"
    using assms by (rule verify_journalE)
  note fields = status_fields [OF js] and refines = replay_refines [OF valid run]
  have books: "distinct (map fst (rs_latest r))" "map_of (rs_latest r) = latest_of events"
    "rs_corrections r + length (rs_latest r) = length events"
    using replay_books [OF run] by (simp_all add: journal_books_def)
  have targets: "event_target ` set events \<subseteq> set (all_targets s)"
    using replay_events(2) [OF run] applies_iff [OF valid] by blast
  have find: "next_target s (rs_latest r) = find (\<lambda>t. t \<notin> dom (answer_book events)) (all_targets s)"
    unfolding next_target_def by (rule find_cong) (simp_all add: unanswered_def refines dom_def)
  have keys: "dom (map_of (rs_latest r)) = event_key ` dom (answer_book events)"
    unfolding answer_book_dom books(2)
    by (auto simp: latest_of_def find_None_iff dom_def dest: find_key)
  have "inj_on event_key (set (all_targets s))"
    using targets_distinct [OF valid] by (simp add: distinct_map)
  then have "inj_on event_key (dom (answer_book events))" using targets by (auto simp: answer_book_dom intro: inj_on_subset)
  then have "card (dom (map_of (rs_latest r))) = card (dom (answer_book events))" by (simp add: keys card_image)
  then have completed: "length (rs_latest r) = card (dom (answer_book events))"
    by (metis books(1) distinct_card dom_map_of_conv_image_fst length_map list.set_map)
  have "ev_subject_kind e \<in> {CorePacket, ScarcityCase, ScarcityBoundary}" if member: "e \<in> snd ` set (rs_latest r)" for e
  proof -
    obtain k where "(k, e) \<in> set (rs_latest r)" using member by auto
    then have "latest_of events k = Some e" using books(1,2) by (metis map_of_eq_Some_iff)
    from latest_event(1) [OF this] targets have "event_target e \<in> set (all_targets s)" by blast
    then have "tg_kind (event_target e) \<in> {CorePacket, ScarcityCase, ScarcityBoundary}"
      by (auto simp: all_targets_def core_targets_def scarcity_targets_def boundary_targets_def)
    then show ?thesis by (simp add: event_target_def)
  qed
  then have parts: "length (rs_latest r) = completed_of_kind CorePacket (rs_latest r) +
      completed_of_kind ScarcityCase (rs_latest r) + completed_of_kind ScarcityBoundary (rs_latest r)"
    by (intro kinds_partition) blast
  have ready: "js_ready js \<longleftrightarrow> dom (answer_book events) = set (all_targets s)"
    using answered_iff_ready(1) [OF valid run] targets by (auto simp: fields(10) find find_None_iff answer_book_dom)
  show ?thesis
    using refines targets replay_supersedes [OF valid run] completed books(3) parts ready find by (simp add: fields)
qed

section \<open>Appending\<close>

lemma build_event_alt:
  assumes "verify_journal sha s events = Inr status" and "target_applies s t" and "assessment \<in> set assessment_values"
    and "(map_of (js_latest status) (event_key t) \<noteq> None) = correction" and "require_time_after recorded_at (last_time s events) = None"
  shows "build_event sha s events t assessment recorded_at correction =
    (let e = sealed_event sha s events t assessment recorded_at (map_of (js_latest status) (event_key t)) in
     case event_validate sha e of Some err \<Rightarrow> Inl (BuildInvalid err) | None \<Rightarrow> Inr e)"
  using assms by (simp add: build_event_def Let_def)

lemma build_eventE:
  assumes "build_event sha s events t assessment recorded_at correction = Inr e"
  obtains status where "verify_journal sha s events = Inr status" "target_applies s t" "assessment \<in> set assessment_values"
    "(map_of (js_latest status) (event_key t) \<noteq> None) = correction" "require_time_after recorded_at (last_time s events) = None"
    "e = sealed_event sha s events t assessment recorded_at (map_of (js_latest status) (event_key t))"
    "event_validate sha e = None"
  using assms by (auto simp: build_event_def Let_def split: sum.splits option.splits if_splits)

lemma sealed_simps [simp]:
  "event_target (sealed_event sha s events t a at prior) = t"
  "ev_session_digest (sealed_event sha s events t a at prior) = se_digest s"
  "ev_sequence (sealed_event sha s events t a at prior) = int (length events) + 1"
  "ev_previous_digest (sealed_event sha s events t a at prior) = last_digest s events"
  "ev_assessment (sealed_event sha s events t a at prior) = a"
  "ev_supersedes_digest (sealed_event sha s events t a at prior) = (case prior of None \<Rightarrow> [] | Some e \<Rightarrow> ev_digest e)"
  "ev_recorded_at (sealed_event sha s events t a at prior) = at"
  by (simp_all add: sealed_event_def Let_def event_target_def target_of_def)

lemma require_time_after_None:
  "require_time_after value boundary = None \<longleftrightarrow>
    (\<exists>v b. parse_rfc3339 value = Some v \<and> parse_rfc3339 boundary = Some b \<and> b < v)"
  by (auto simp: require_time_after_def split: option.splits)

lemma append_replays:
  assumes run: "replay sha s 0 events (replay_start s) = Inr r"
    and ok: "target_applies s t" "require_time_after recorded_at (last_time s events) = None"
    and e: "e = sealed_event sha s events t assessment recorded_at (map_of (rs_latest r) (event_key t))" "event_validate sha e = None"
  shows "\<exists>r'. replay sha s 0 (events @ [e]) (replay_start s) = Inr r'"
proof -
  have "rs_previous_digest r = last_digest s events" "rs_previous_time r = last_time s events"
    using replay_books [OF run] by (simp_all add: journal_books_def)
  moreover have "go_time (last_time s events) < go_time recorded_at"
    using ok(2) by (auto simp: require_time_after_None go_time_def)
  ultimately show ?thesis
    using e(2) ok(1) by (auto simp: replay_append run replay_event_def e(1) Let_def split: option.splits)
qed

lemma built_extends:
  assumes "build_event sha s events t assessment recorded_at correction = Inr e"
  shows "\<exists>js js'. verify_journal sha s events = Inr js \<and> verify_journal sha s (events @ [e]) = Inr js' \<and>
    event_target e = t \<and> ev_assessment e = assessment \<and>
    answer_book (events @ [e]) = (answer_book events)(t \<mapsto> e) \<and> js_head_digest js' = event_digest sha e \<and>
    js_corrections js' = js_corrections js + of_bool correction \<and>
    js_completed js' = js_completed js + of_bool (\<not> correction) \<and> correction = (t \<in> dom (answer_book events))"
proof -
  obtain js where js: "verify_journal sha s events = Inr js" and ok: "target_applies s t" "assessment \<in> set assessment_values"
    "(map_of (js_latest js) (event_key t) \<noteq> None) = correction" "require_time_after recorded_at (last_time s events) = None"
    and e: "e = sealed_event sha s events t assessment recorded_at (map_of (js_latest js) (event_key t))" "event_validate sha e = None"
    using assms by (rule build_eventE)
  obtain r where valid: "session_validate sha s = None" and run: "replay sha s 0 events (replay_start s) = Inr r"
    and status: "bare_status js = verified_status s events r"
    using js by (rule verify_journalE)
  have latest: "js_latest js = rs_latest r" by (rule status_fields [OF status])
  obtain r' where run': "replay sha s 0 (events @ [e]) (replay_start s) = Inr r'"
    using append_replays [OF run ok(1,4) e [unfolded latest]] by blast
  then obtain js' where js': "verify_journal sha s (events @ [e]) = Inr js'" using verify_journal_iff valid by blast
  then obtain r2 where run2: "replay sha s 0 (events @ [e]) (replay_start s) = Inr r2"
    and status': "bare_status js' = verified_status s (events @ [e]) r2"
    by (rule verify_journalE)
  have target: "event_target e = t" and assessed: "ev_assessment e = assessment" by (simp_all add: e(1))
  have correction: "correction = (t \<in> dom (answer_book events))"
    using ok(1,3) replay_refines [OF valid run] applies_iff [OF valid] by (auto simp: latest)
  have step: "replay_event sha s (length events) e r = Inr r2" using run2 run by (simp add: replay_append)
  note at = replay_eventE [OF step]
  have books: "distinct (map fst (rs_latest r))" using replay_books [OF run] by (simp add: journal_books_def)
  have seen: "map_of (rs_latest r) (event_key t) \<noteq> None \<longleftrightarrow> correction" using ok(3) by (simp add: latest)
  have "ev_digest e = event_digest sha e" using e(2) by (simp add: event_validate_def)
  then have "js_head_digest js' = event_digest sha e" by (simp add: status_fields(9) [OF status'] at(8))
  moreover have "js_corrections js' = js_corrections js + of_bool correction"
    using seen by (auto simp: status_fields(3) [OF status'] status_fields(3) [OF status] at(11) target)
  moreover have "js_completed js' = js_completed js + of_bool (\<not> correction)"
    using seen by (auto simp: status_fields(5) [OF status'] status_fields(5) [OF status] at(7) target length_update [OF books])
  moreover have "answer_book (events @ [e]) = (answer_book events)(t \<mapsto> e)" by (simp add: answer_book_append target)
  ultimately show ?thesis using js js' target assessed correction by blast
qed

text \<open>C20: an event that is built extends its journal: the longer journal verifies, and its book has the new answer.\<close>

theorem built_event_extends:
  assumes "build_event sha s events t assessment recorded_at correction = Inr e"
  shows "\<exists>js js'. verify_journal sha s events = Inr js \<and> verify_journal sha s (events @ [e]) = Inr js' \<and>
    event_target e = t \<and> ev_assessment e = assessment \<and>
    answer_book (events @ [e]) = (answer_book events)(t \<mapsto> e) \<and> js_head_digest js' = event_digest sha e \<and>
    js_corrections js' = js_corrections js + of_bool correction \<and>
    js_completed js' = js_completed js + of_bool (\<not> correction) \<and> correction = (t \<in> dom (answer_book events))"
  using assms by (rule built_extends)

section \<open>Finishing\<close>

lemma opaque_trim:
  assumes "valid_opaque_id v pre" and "\<forall>c \<in> set pre. token_char c" and "pre \<noteq> []"
  shows "trim_space v \<noteq> []"
proof -
  obtain rest where v: "v = pre @ rest" and "valid_sha rest"
    using assms(1) by (auto simp: valid_opaque_id_def prefix_def)
  have "list_all token_char ''0123456789abcdef''" by code_simp
  then have "\<forall>c \<in> set rest. token_char c"
    using \<open>valid_sha rest\<close> unfolding valid_sha_def list_all_iff by blast
  then have "trim_space v = v" using assms(2) by (intro trim_space_token) (auto simp: v)
  then show ?thesis using assms(3) by (simp add: v)
qed

lemma targets_named:
  assumes "session_validate sha s = None" and "t \<in> set (all_targets s)"
  shows "tg_kind t \<in> {CorePacket, ScarcityCase, ScarcityBoundary}" "trim_space (tg_id t) \<noteq> []" "tg_dimension t \<in> set all_dimensions"
proof -
  note valid = session_validE [OF assms(1)]
  show "tg_kind t \<in> {CorePacket, ScarcityCase, ScarcityBoundary}" "tg_dimension t \<in> set all_dimensions"
    using target_kind_dimension [OF valid(1) assms(2)] by blast+
  have "list_all token_char ''relation-packet-''" "list_all token_char ''mutation-''" "list_all token_char BoundaryID" by code_simp+
  then have token: "\<forall>c \<in> set pre. token_char c" if "pre \<in> {''relation-packet-'', ''mutation-'', BoundaryID}" for pre
    using that unfolding list_all_iff by blast
  have "trim_space (sp_packet_id p) \<noteq> []" if "p \<in> set (elems (se_packets s))" for p
    using valid(2) that by (intro opaque_trim [OF _ token, of _ "''relation-packet-''"]) (auto simp: list_all_iff packet_ok_def)
  moreover have "trim_space (sk_case_id c) \<noteq> []" if "c \<in> set (elems (se_scarcity_cases s))" for c
    using valid(6) that by (intro opaque_trim [OF _ token, of _ "''mutation-''"]) (auto simp: list_all_iff)
  moreover have "trim_space BoundaryID \<noteq> []" using trim_space_token [OF token, of BoundaryID] by simp
  ultimately show "trim_space (tg_id t) \<noteq> []"
    using assms(2) by (auto simp: all_targets_def core_targets_def scarcity_targets_def boundary_targets_def)
qed

lemma sealed_event_valid:
  assumes valid: "session_validate sha s = None" and run: "replay sha s 0 events (replay_start s) = Inr r"
    and t: "t \<in> set (all_targets s)" and a: "assessment \<in> set assessment_values" and time: "parse_rfc3339 recorded_at \<noteq> None"
    and hash: "\<And>x. valid_sha (sha x)"
  shows "event_validate sha (sealed_event sha s events t assessment recorded_at None) = None"
proof -
  have "valid_sha (se_digest s)" using session_validE(1) [OF valid] by (simp add: session_identity_ok_def)
  moreover have "valid_sha (ev_digest (last events))" if "events \<noteq> []"
    using replay_events(1) [OF run last_in_set [OF that]] by (simp add: event_validate_def event_digest_def digest_json_def hash)
  ultimately have previous: "valid_sha (last_digest s events)" "valid_sha (se_digest s)" by (simp_all add: last_digest_def)
  show ?thesis
    using targets_named [OF valid t] a time previous
    by (auto simp: event_validate_def sealed_event_def Let_def event_digest_def digest_json_def hash)
qed

definition follows :: "string \<Rightarrow> string \<Rightarrow> bool" where
  "follows boundary value \<longleftrightarrow> require_time_after value boundary = None"

lemma next_step:
  assumes js: "verify_journal sha s events = Inr js" and t: "js_next js = Some t" and a: "assessment \<in> set assessment_values"
    and time: "follows (last_time s events) recorded_at" and hash: "\<And>x. valid_sha (sha x)"
  shows "\<exists>e. build_event sha s events t assessment recorded_at False = Inr e \<and> ev_recorded_at e = recorded_at \<and>
    ev_assessment e = assessment"
proof -
  obtain r where valid: "session_validate sha s = None" and run: "replay sha s 0 events (replay_start s) = Inr r"
    and status: "bare_status js = verified_status s events r"
    using js by (rule verify_journalE)
  have open_next: "next_target s (rs_latest r) = Some t" using t status_fields(11) [OF status] by simp
  then have target: "t \<in> set (all_targets s)" and unset: "map_of (js_latest js) (event_key t) = None"
    by (auto simp: next_target_def find_Some_iff unanswered_def status_fields(12) [OF status])
  have "parse_rfc3339 recorded_at \<noteq> None" using time by (auto simp: follows_def require_time_after_None)
  from sealed_event_valid [OF valid run target a this hash] show ?thesis
    using build_event_alt [OF js _ a, of t False recorded_at] target applies_iff [OF valid] unset time
    by (simp add: follows_def)
qed

lemma appended:
  assumes js: "verify_journal sha s events = Inr js" and e: "build_event sha s events t a at False = Inr e"
  shows "\<exists>js'. verify_journal sha s (events @ [e]) = Inr js' \<and> js_completed js' = js_completed js + 1 \<and>
    js_required js' = js_required js"
proof -
  obtain js1 js' where "verify_journal sha s events = Inr js1" and js': "verify_journal sha s (events @ [e]) = Inr js'"
    and completed: "js_completed js' = js_completed js1 + 1"
    using built_extends [OF e] by auto
  then have "js1 = js" using js by simp
  moreover have "js_required js' = js_required js"
    using verify_journalE [OF js] verify_journalE [OF js'] status_fields(4) by metis
  ultimately show ?thesis using js' completed by blast
qed

lemma open_or_ready:
  assumes "verify_journal sha s events = Inr js"
  shows "js_ready js \<longleftrightarrow> js_completed js = js_required js" "js_next js = None \<longleftrightarrow> js_ready js" "js_completed js \<le> js_required js"
proof -
  obtain r where valid: "session_validate sha s = None" and run: "replay sha s 0 events (replay_start s) = Inr r"
    and status: "bare_status js = verified_status s events r"
    using assms by (rule verify_journalE)
  show "js_ready js \<longleftrightarrow> js_completed js = js_required js" "js_next js = None \<longleftrightarrow> js_ready js" "js_completed js \<le> js_required js"
    using answered_iff_ready [OF valid run] by (simp_all add: status_fields [OF status])
qed

lemma can_be_finished:
  assumes "\<And>x. valid_sha (sha x)" and "verify_journal sha s events = Inr js"
    and "successively follows (last_time s events # moments)" and "list_all (\<lambda>a. a \<in> set assessment_values) assessments"
    and "length moments = js_required js - js_completed js" and "length assessments = length moments"
  shows "\<exists>es js'. map ev_recorded_at es = moments \<and> map ev_assessment es = assessments \<and>
    (\<forall>i < length moments. \<exists>js1 t. verify_journal sha s (events @ take i es) = Inr js1 \<and> js_next js1 = Some t \<and>
       build_event sha s (events @ take i es) t (assessments ! i) (moments ! i) False = Inr (es ! i)) \<and>
    verify_journal sha s (events @ es) = Inr js' \<and> js_ready js'"
  using assms(2-)
proof (induction moments arbitrary: events js assessments)
  case Nil
  then show ?case using open_or_ready [OF Nil.prems(1)] by auto
next
  case (Cons at moments)
  obtain a assessments' where as: "assessments = a # assessments'" "a \<in> set assessment_values" "list_all (\<lambda>a. a \<in> set assessment_values) assessments'"
    using Cons.prems(3,5) by (cases assessments) auto
  have "js_completed js < js_required js" using Cons.prems(4) by simp
  then obtain t where t: "js_next js = Some t" using open_or_ready [OF Cons.prems(1)] by (cases "js_next js") auto
  have "follows (last_time s events) at" using Cons.prems(2) by simp
  from next_step [OF Cons.prems(1) t as(2) this assms(1)]
  obtain e where e: "build_event sha s events t a at False = Inr e" "ev_recorded_at e = at" "ev_assessment e = a" by blast
  obtain js1 where js1: "verify_journal sha s (events @ [e]) = Inr js1" "js_completed js1 = js_completed js + 1"
    "js_required js1 = js_required js"
    using appended [OF Cons.prems(1) e(1)] by blast
  have "successively follows (last_time s (events @ [e]) # moments)"
    using Cons.prems(2) e(2) by (cases moments) (auto simp: last_time_def)
  moreover have "length moments = js_required js1 - js_completed js1" "length assessments' = length moments"
    using Cons.prems(4,5) js1(2,3) by (simp_all add: as(1))
  ultimately obtain es js' where es: "map ev_recorded_at es = moments" "map ev_assessment es = assessments'"
    "\<forall>i < length moments. \<exists>js1 t. verify_journal sha s ((events @ [e]) @ take i es) = Inr js1 \<and> js_next js1 = Some t \<and>
       build_event sha s ((events @ [e]) @ take i es) t (assessments' ! i) (moments ! i) False = Inr (es ! i)"
    "verify_journal sha s ((events @ [e]) @ es) = Inr js'" "js_ready js'"
    using Cons.IH [OF js1(1) _ as(3)] by blast
  have "\<exists>js1 t. verify_journal sha s (events @ take i (e # es)) = Inr js1 \<and> js_next js1 = Some t \<and>
       build_event sha s (events @ take i (e # es)) t (assessments ! i) ((at # moments) ! i) False = Inr ((e # es) ! i)"
    if "i < length (at # moments)" for i
  proof (cases i)
    case 0
    then show ?thesis using Cons.prems(1) t e(1) as(1) by auto
  next
    case (Suc j)
    then show ?thesis using es(3) that by (simp add: as(1))
  qed
  then show ?case using es(1,2,4,5) e(2,3) as(1) by (intro exI [of _ "e # es"] exI [of _ js']) simp
qed

text \<open>
  C18: with a hash that prints digests, every verified journal can be finished: whatever is answered to the
  targets it asks for next, at ever later moments, each event is built, and after as many as are missing it is ready.
\<close>

theorem journal_can_be_finished:
  assumes "\<And>x. valid_sha (sha x)" and "verify_journal sha s events = Inr js"
    and "successively follows (last_time s events # moments)" and "list_all (\<lambda>a. a \<in> set assessment_values) assessments"
    and "length moments = js_required js - js_completed js" and "length assessments = length moments"
  shows "\<exists>es js'. map ev_recorded_at es = moments \<and> map ev_assessment es = assessments \<and>
    (\<forall>i < length moments. \<exists>js1 t. verify_journal sha s (events @ take i es) = Inr js1 \<and> js_next js1 = Some t \<and>
       build_event sha s (events @ take i es) t (assessments ! i) (moments ! i) False = Inr (es ! i)) \<and>
    verify_journal sha s (events @ es) = Inr js' \<and> js_ready js'"
  using assms by (rule can_be_finished)

end
