(* ===== verification/JournalHead.thy ===== *)
theory JournalHead
  imports JournalProps CanonicalFacts
begin

text \<open>
  The digest of the head of a journal binds the whole journal: the texts that are hashed determine
  their events, and each event holds the digest of its predecessor.
\<close>

section \<open>Texts of plain values\<close>

definition plain_char :: "char \<Rightarrow> bool" where
  "plain_char c \<longleftrightarrow> 32 \<le> ord c \<and> ord c < 127 \<and> c \<notin> set [quote_char, backslash] \<and> \<not> html_char c"

lemma token_plain: "token_char c \<Longrightarrow> plain_char c"
  by (auto simp: token_char_def plain_char_def html_char_def is_lower_def is_upper_def is_digit_def char_between_def less_eq_char_def)

lemma marshal_plain:
  assumes "\<forall>c \<in> set s. plain_char c"
  shows "marshal_string s = quote_char # s @ [quote_char]"
proof -
  have "concat (map marshal_rune (runes s)) = s"
    using assms
  proof (induction s)
    case (Cons c s)
    then have c: "plain_char c" by simp
    then have "runes ([c] @ s) = Some [c] # runes s" by (intro runes_rune) (simp add: plain_char_def)
    moreover have "marshal_rune (Some [c]) = [c]"
      using c by (auto simp: marshal_rune_def plain_char_def encode_rune_def escape_ascii_def)
    ultimately show ?case using Cons by simp
  qed simp
  then show ?thesis by (simp add: marshal_string_def)
qed

lemma split_at_stop:
  assumes "a @ x # r = a' @ x' # r'" and "\<forall>c \<in> set a. \<not> stop c" and "\<forall>c \<in> set a'. \<not> stop c" and "stop x" and "stop x'"
  shows "a = a' \<and> x = x' \<and> r = r'"
  using assms by (induction a arbitrary: a') (auto simp: Cons_eq_append_conv append_eq_Cons_conv)

definition plain_value :: "json \<Rightarrow> json \<Rightarrow> bool" where
  "plain_value v v' \<longleftrightarrow> (\<exists>s s'. v = JStr s \<and> v' = JStr s' \<and> (\<forall>c \<in> set s \<union> set s'. plain_char c)) \<or>
     (\<exists>i i'. v = json_int i \<and> v' = json_int i')"

definition stops :: "char \<Rightarrow> bool" where
  "stops c \<longleftrightarrow> c = CHR '','' \<or> c = CHR ''}''"

lemma plain_value_delimited:
  assumes v: "plain_value v v'" and eq: "json_marshal v @ x # r = json_marshal v' @ x' # r'" and x: "stops x" "stops x'"
  shows "v = v' \<and> x = x' \<and> r = r'"
  using v unfolding plain_value_def
proof (elim disjE exE conjE)
  fix s s' assume s: "v = JStr s" "v' = JStr s'" "\<forall>c \<in> set s \<union> set s'. plain_char c"
  have "s @ quote_char # x # r = s' @ quote_char # x' # r'" using eq s by (simp add: marshal_plain)
  from split_unique [OF this] s(3) have "s = s' \<and> x # r = x' # r'" by (auto simp: plain_char_def)
  then show ?thesis by (simp add: s)
next
  fix i i' assume i: "v = json_int i" "v' = json_int i'"
  have digits: "\<not> stops c" if "c \<in> set (int_text n)" for c n
    using canonical_number_chars [OF int_text_canonical that] by (auto simp: stops_def is_digit_def char_between_def)
  show ?thesis using split_at_stop [of "int_text i" x r "int_text i'" x' r' stops] eq digits x by (simp add: i json_int_def)
qed

definition json_member :: "string \<times> json \<Rightarrow> string" where
  "json_member m = marshal_string (fst m) @ CHR '':'' # json_marshal (snd m)"

lemma json_marshal_members: "json_marshal (JObj ms) = CHR ''{'' # commas (map json_member ms) @ ''}''"
proof -
  have "map (\<lambda>(key, text). marshal_string key @ CHR '':'' # text) (map (map_prod id json_marshal) ms) = map json_member ms"
    by (auto simp: json_member_def)
  then show ?thesis by (simp only: json_marshal.simps)
qed

lemma commas_Cons: "commas (x # xs) = x @ (if xs = [] then [] else CHR '','' # commas xs)"
  by (cases xs) auto

lemma members_determined:
  assumes "list_all2 (\<lambda>m m'. fst m = fst m' \<and> plain_value (snd m) (snd m')) ms ms'"
    and "commas (map json_member ms) @ ''}'' = commas (map json_member ms') @ ''}''"
  shows "ms = ms'"
  using assms
proof (induction ms ms' rule: list_all2_induct)
  case (Cons m ms m' ms')
  have same: "ms = [] \<longleftrightarrow> ms' = []" using Cons.hyps(2) by (auto simp: list_all2_Cons1 list_all2_Cons2)
  let ?rest = "\<lambda>ms. if ms = [] then ''}'' else CHR '','' # commas (map json_member ms) @ ''}''"
  obtain x r x' r' where rest: "?rest ms = x # r" "?rest ms' = x' # r'" "stops x" "stops x'"
    by (cases "ms = []"; cases "ms' = []") (auto simp: stops_def)
  have "json_marshal (snd m) @ ?rest ms = json_marshal (snd m') @ ?rest ms'"
    using Cons.prems Cons.hyps(1) by (auto simp: json_member_def [of m] json_member_def [of m'] commas_Cons)
  then have "snd m = snd m' \<and> x = x' \<and> r = r'"
    using plain_value_delimited [of "snd m" "snd m'" x r x' r'] Cons.hyps(1) rest by simp
  then have "m = m'" "?rest ms = ?rest ms'" using Cons.hyps(1) rest by (auto simp: prod_eq_iff)
  then show ?case using same Cons.IH by (auto split: if_splits)
qed simp

section \<open>Texts of events\<close>

definition session_text :: "session \<Rightarrow> string" where
  "session_text s = json_marshal (session_json (s\<lparr>se_digest := []\<rparr>))"

definition event_text :: "inspection_event \<Rightarrow> string" where
  "event_text e = json_marshal (event_json (e\<lparr>ev_digest := []\<rparr>))"

lemma text_digests: "session_digest sha s = sha (session_text s)" "event_digest sha e = sha (event_text e)"
  by (simp_all add: session_digest_def session_text_def event_digest_def event_text_def digest_json_def)

definition plain_event :: "inspection_event \<Rightarrow> bool" where
  "plain_event e \<longleftrightarrow> list_all (\<lambda>s. \<forall>c \<in> set s. plain_char c)
     [ev_schema_version e, ev_canonical_policy e, ev_journal_protocol e, ev_session_digest e, ev_previous_digest e,
      ev_subject_kind e, ev_subject_id e, ev_dimension e, ev_assessment e, ev_supersedes_digest e, ev_owner_confirmation e,
      ev_recorded_at e]"

lemma event_text_determines:
  assumes "event_text e = event_text e'" and "plain_event e" and "plain_event e'" and "ev_digest e = ev_digest e'"
  shows "e = e'"
proof -
  let ?ms = "\<lambda>e. case event_json (e\<lparr>ev_digest := []\<rparr>) of JObj ms \<Rightarrow> ms | _ \<Rightarrow> []"
  have "list_all2 (\<lambda>m m'. fst m = fst m' \<and> plain_value (snd m) (snd m')) (?ms e) (?ms e')"
    using assms(2,3) by (auto simp: event_json_def plain_value_def plain_event_def)
  moreover have "commas (map json_member (?ms e)) @ ''}'' = commas (map json_member (?ms e')) @ ''}''"
    using assms(1) by (simp add: event_text_def event_json_def json_marshal_members del: json_marshal.simps)
  ultimately have "?ms e = ?ms e'" by (rule members_determined)
  then show ?thesis using assms(4) by (cases e; cases e') (simp add: event_json_def json_int_def)
qed

lemma sha_plain: "valid_sha s \<Longrightarrow> \<forall>c \<in> set s. plain_char c"
proof -
  have "list_all token_char ''0123456789abcdef''" by code_simp
  then show "valid_sha s \<Longrightarrow> \<forall>c \<in> set s. plain_char c" unfolding valid_sha_def list_all_iff using token_plain by blast
qed

lemma time_plain: "parse_rfc3339 s = Some t \<Longrightarrow> \<forall>c \<in> set s. plain_char c"
proof -
  have "plain_char c" if "time_char c" for c
    using that by (auto simp: time_char_def is_digit_iff plain_char_def html_char_def)
  then show "parse_rfc3339 s = Some t \<Longrightarrow> \<forall>c \<in> set s. plain_char c"
    using parse_time_chars by (auto simp: list_all_iff)
qed

definition journal_words :: "string list" where
  "journal_words = [CorePacket, ScarcityCase, ScarcityBoundary] @ all_dimensions @ assessment_values @
     [EventSchema, RelationPolicy, JournalProtocol, ''explicit_owner_assessment'', BoundaryID, ''relation-packet-'', ''mutation-'']"

lemma plain_words: "x \<in> set journal_words \<Longrightarrow> \<forall>c \<in> set x. plain_char c"
proof -
  have "list_all (list_all token_char) journal_words" by code_simp
  then show "x \<in> set journal_words \<Longrightarrow> \<forall>c \<in> set x. plain_char c" unfolding list_all_iff using token_plain by blast
qed

lemma words_in:
  "k \<in> set [CorePacket, ScarcityCase, ScarcityBoundary] \<Longrightarrow> k \<in> set journal_words"
  "d \<in> set all_dimensions \<Longrightarrow> d \<in> set journal_words"
  "a \<in> set assessment_values \<Longrightarrow> a \<in> set journal_words"
  "x \<in> set [EventSchema, RelationPolicy, JournalProtocol, ''explicit_owner_assessment'', BoundaryID, ''relation-packet-'', ''mutation-''] \<Longrightarrow>
    x \<in> set journal_words"
  unfolding journal_words_def set_append by blast+

lemma opaque_plain:
  assumes "valid_opaque_id v pre" and "pre \<in> {''relation-packet-'', ''mutation-''}"
  shows "\<forall>c \<in> set v. plain_char c"
proof -
  obtain rest where "v = pre @ rest" "valid_sha rest" using assms(1) by (auto simp: valid_opaque_id_def prefix_def)
  then show ?thesis using sha_plain plain_words [OF words_in(4), of pre] assms(2) by auto
qed

lemma target_id_plain:
  assumes "session_validate sha s = None" and "t \<in> set (all_targets s)"
  shows "\<forall>c \<in> set (tg_id t). plain_char c"
proof -
  note valid = session_validE [OF assms(1)]
  have "\<forall>c \<in> set (sp_packet_id p). plain_char c" if "p \<in> set (elems (se_packets s))" for p
    using valid(2) that by (intro opaque_plain [of _ "''relation-packet-''"]) (auto simp: list_all_iff packet_ok_def)
  moreover have "\<forall>c \<in> set (sk_case_id k). plain_char c" if "k \<in> set (elems (se_scarcity_cases s))" for k
    using valid(6) that by (intro opaque_plain [of _ "''mutation-''"]) (auto simp: list_all_iff)
  moreover have "\<forall>c \<in> set BoundaryID. plain_char c" by (rule plain_words [OF words_in(4)]) simp
  ultimately show ?thesis
    using assms(2) unfolding all_targets_def core_targets_def scarcity_targets_def boundary_targets_def by auto
qed

lemma replayed_plain:
  assumes valid: "session_validate sha s = None" and run: "replay sha s 0 events (replay_start s) = Inr r" and e: "e \<in> set events"
  shows "plain_event e" and "ev_digest e = sha (event_text e)" and "ev_schema_version e = EventSchema"
proof -
  note at = replay_events [OF run e]
  have "event_target e \<in> set (all_targets s)" using at(2) applies_iff [OF valid] by blast
  from target_id_plain [OF valid this] have subject: "\<forall>c \<in> set (ev_subject_id e). plain_char c" by (simp add: event_target_def)
  have digests: "\<forall>c \<in> set x. plain_char c" if "x \<in> {ev_session_digest e, ev_previous_digest e, ev_supersedes_digest e}" for x
  proof -
    have "x = [] \<or> valid_sha x" using at(1) that by (auto simp: event_validate_def)
    then show ?thesis using sha_plain by auto
  qed
  obtain t where t: "parse_rfc3339 (ev_recorded_at e) = Some t" using at(1) by (auto simp: event_validate_def)
  have "ev_schema_version e = EventSchema" "ev_canonical_policy e = RelationPolicy" "ev_journal_protocol e = JournalProtocol"
    "ev_subject_kind e \<in> set [CorePacket, ScarcityCase, ScarcityBoundary]" "ev_dimension e \<in> set all_dimensions"
    "ev_assessment e \<in> set assessment_values" "ev_owner_confirmation e = ''explicit_owner_assessment''"
    using at(1) by (auto simp: event_validate_def)
  note fixed = this
  have words: "EventSchema \<in> set journal_words" "RelationPolicy \<in> set journal_words" "JournalProtocol \<in> set journal_words"
    "''explicit_owner_assessment'' \<in> set journal_words"
    by (rule words_in(4), simp)+
  note names = words [folded fixed(1-3,7)] words_in(1) [OF fixed(4)] words_in(2) [OF fixed(5)] words_in(3) [OF fixed(6)]
  show "plain_event e"
    unfolding plain_event_def list.pred_inject(2)
    by (intro conjI list.pred_inject(1) subject time_plain [OF t] plain_words names digests [OF insertI1]
        digests [OF insertI2 [OF insertI1]] digests [OF insertI2 [OF insertI2 [OF insertI1]]])
  show "ev_digest e = sha (event_text e)" using at(1) by (simp add: event_validate_def text_digests)
  show "ev_schema_version e = EventSchema" using at(1) by (simp add: event_validate_def)
qed

section \<open>The chain\<close>

definition collision :: "(string \<Rightarrow> string) \<Rightarrow> string set \<Rightarrow> bool" where
  "collision sha texts \<longleftrightarrow> (\<exists>a \<in> texts. \<exists>b \<in> texts. a \<noteq> b \<and> sha a = sha b)"

definition journal_texts :: "session \<Rightarrow> inspection_event list \<Rightarrow> string set" where
  "journal_texts s events = insert (session_text s) (event_text ` set events)"

lemma no_collision: "\<not> collision sha texts \<Longrightarrow> a \<in> texts \<Longrightarrow> b \<in> texts \<Longrightarrow> sha a = sha b \<Longrightarrow> a = b"
  by (auto simp: collision_def)

lemma no_collision_subset: "\<not> collision sha texts \<Longrightarrow> texts' \<subseteq> texts \<Longrightarrow> \<not> collision sha texts'"
  unfolding collision_def by blast

lemma schema_first:
  assumes "\<forall>c \<in> set v. plain_char c"
  shows "json_marshal (JObj ((''schema_version'', JStr v) # m # ms)) =
    CHR ''{'' # marshal_string ''schema_version'' @ CHR '':'' # quote_char # v @ quote_char # CHR '','' #
      commas (map json_member (m # ms)) @ ''}''"
  unfolding json_marshal_members by (simp add: json_member_def [of "(_, JStr v)"] marshal_plain [OF assms])

lemma texts_differ:
  assumes "session_validate sha s = None" and "ev_schema_version e = EventSchema"
  shows "session_text s \<noteq> event_text e"
proof
  assume same: "session_text s = event_text e"
  have schema: "se_schema_version s = SessionSchema" using session_validE(1) [OF assms(1)] by (simp add: session_identity_ok_def)
  have "list_all token_char SessionSchema" "list_all token_char EventSchema" by code_simp+
  then have plain: "\<forall>c \<in> set SessionSchema. plain_char c" "\<forall>c \<in> set EventSchema. plain_char c"
    unfolding list_all_iff using token_plain by blast+
  obtain r where r: "session_text s = CHR ''{'' # marshal_string ''schema_version'' @ CHR '':'' # quote_char # SessionSchema @ quote_char # r"
    by (simp add: session_text_def session_json_def schema schema_first [OF plain(1)] del: json_marshal.simps)
  obtain r' where r': "event_text e = CHR ''{'' # marshal_string ''schema_version'' @ CHR '':'' # quote_char # EventSchema @ quote_char # r'"
    by (simp add: event_text_def event_json_def assms(2) schema_first [OF plain(2)] del: json_marshal.simps)
  have "SessionSchema @ quote_char # r = EventSchema @ quote_char # r'" using same by (simp add: r r')
  from split_unique [OF this] plain have "SessionSchema = EventSchema" by (auto simp: plain_char_def)
  then show False by simp
qed

lemma head_binds:
  assumes "session_validate sha s = None" "replay sha s 0 events (replay_start s) = Inr r"
    and "session_validate sha s' = None" "replay sha s' 0 events' (replay_start s') = Inr r'"
    and "last_digest s events = last_digest s' events'"
    and "\<not> collision sha (journal_texts s events \<union> journal_texts s' events')"
  shows "events = events' \<and> se_digest s = se_digest s'"
  using assms(2,4,5,6)
proof (induction events arbitrary: events' r r' rule: rev_induct)
  case Nil
  show ?case
  proof (cases events' rule: rev_cases)
    case (snoc es' e')
    have e': "ev_digest e' = sha (event_text e')" "ev_schema_version e' = EventSchema"
      using replayed_plain [OF assms(3) Nil.prems(2), of e'] by (simp_all add: snoc)
    have "sha (session_text s) = sha (event_text e')"
      using Nil.prems(3) session_validE(8) [OF assms(1)] e'(1) by (simp add: last_digest_def snoc text_digests)
    with texts_differ [OF assms(1) e'(2)] Nil.prems(4) show ?thesis
      by (auto simp: collision_def journal_texts_def snoc)
  qed (use Nil.prems(3) in \<open>simp add: last_digest_def\<close>)
next
  case snoc1: (snoc e es)
  note plain = replayed_plain [OF assms(1) snoc1.prems(1), of e, simplified]
  show ?case
  proof (cases events' rule: rev_cases)
    case Nil
    have "sha (session_text s') = sha (event_text e)"
      using snoc1.prems(3) session_validE(8) [OF assms(3)] plain(2) by (simp add: last_digest_def Nil text_digests)
    with texts_differ [OF assms(3) plain(3)] snoc1.prems(4) show ?thesis
      by (auto simp: collision_def journal_texts_def Nil)
  next
    case (snoc es' e')
    note plain' = replayed_plain [OF assms(3) snoc1.prems(2), of e', unfolded snoc, simplified]
    obtain r1 where r1: "replay sha s 0 es (replay_start s) = Inr r1" and step: "replay_event sha s (length es) e r1 = Inr r"
      using snoc1.prems(1) by (rule replay_prefix)
    obtain r2 where r2: "replay sha s' 0 es' (replay_start s') = Inr r2" and step': "replay_event sha s' (length es') e' r2 = Inr r'"
      using snoc1.prems(2) unfolding snoc by (rule replay_prefix)
    have heads: "ev_digest e = ev_digest e'" using snoc1.prems(3) by (simp add: last_digest_def snoc)
    have "event_text e = event_text e'"
    proof (rule no_collision [OF snoc1.prems(4)])
      show "sha (event_text e) = sha (event_text e')" using heads plain(2) plain'(2) by simp
    qed (simp_all add: journal_texts_def snoc)
    then have same: "e = e'" by (rule event_text_determines [OF _ plain(1) plain'(1) heads])
    have "last_digest s es = last_digest s' es'"
      using replay_books [OF r1] replay_books [OF r2] replay_eventE(5) [OF step] replay_eventE(5) [OF step'] same
      by (simp add: journal_books_def)
    moreover have "\<not> collision sha (journal_texts s es \<union> journal_texts s' es')"
      by (rule no_collision_subset [OF snoc1.prems(4)]) (auto simp: journal_texts_def snoc)
    ultimately show ?thesis using snoc1.IH [OF r1 r2] same snoc by simp
  qed
qed

text \<open>
  C19: two verified journals with one head digest are one journal, of sessions with one digest, unless two
  of the texts that were hashed for them are a collision.
\<close>

theorem head_digest_binds_journal:
  assumes "verify_journal sha s events = Inr js" and "verify_journal sha s' events' = Inr js'"
    and "js_head_digest js = js_head_digest js'"
    and "\<not> collision sha (journal_texts s events \<union> journal_texts s' events')"
  shows "events = events' \<and> se_digest s = se_digest s'"
proof -
  obtain r where valid: "session_validate sha s = None" and run: "replay sha s 0 events (replay_start s) = Inr r"
    and status: "bare_status js = verified_status s events r"
    using assms(1) by (rule verify_journalE)
  obtain r' where valid': "session_validate sha s' = None" and run': "replay sha s' 0 events' (replay_start s') = Inr r'"
    and status': "bare_status js' = verified_status s' events' r'"
    using assms(2) by (rule verify_journalE)
  have "last_digest s events = last_digest s' events'"
    using assms(3) replay_books [OF run] replay_books [OF run']
    by (simp add: status_fields(9) [OF status] status_fields(9) [OF status'] journal_books_def)
  from head_binds [OF valid run valid' run' this assms(4)] show ?thesis .
qed

end
