(* ===== verification/JournalDecisions.thy ===== *)
theory JournalDecisions
  imports JournalProps
begin

text \<open>
  What a finished journal decides, read off the last answers to its targets.
\<close>

section \<open>Decisions\<close>

definition assessed :: "inspection_event list \<Rightarrow> target \<Rightarrow> string" where
  "assessed events t = (case answer_book events t of None \<Rightarrow> [] | Some e \<Rightarrow> ev_assessment e)"

lemma collect_fold:
  assumes "collect latest subject applies assign dimensions x = Inr y"
    and "\<And>d. d \<in> set dimensions \<Longrightarrow> applies d \<Longrightarrow> map_of latest (event_key (subject d)) = answer_book events (subject d)"
  shows "y = fold (\<lambda>d acc. if applies d then assign d (assessed events (subject d)) acc else acc) dimensions x"
  using assms by (induction dimensions arbitrary: x) (auto simp: assessed_def split: if_splits option.splits)

lemma packet_draft_assessments:
  assumes draft: "packet_draft s latest p = Inr d" and dims: "elems (se_core_dimensions s) = core_dimensions"
    and book: "\<And>k. core_dimension_applies p k \<Longrightarrow> map_of latest (event_key (target_of CorePacket (sp_packet_id p) k)) =
      answer_book events (target_of CorePacket (sp_packet_id p) k)"
  shows "draft_assessments d = map (\<lambda>k. if core_dimension_applies p k
      then assessed events (target_of CorePacket (sp_packet_id p) k) else NotApplicable) core_dimensions"
    and "dr_packet_id d = sp_packet_id p" and "dr_reason_codes d = decision_reasons d"
proof -
  obtain d0 where d0: "collect latest (target_of CorePacket (sp_packet_id p)) (core_dimension_applies p) set_draft_assessment
        core_dimensions (new_draft (sp_packet_id p)) = Inr d0" and d: "d = d0\<lparr>dr_reason_codes := decision_reasons d0\<rparr>"
    using draft by (auto simp: packet_draft_def dims split: sum.splits)
  have applies: "core_dimension_applies p k" if "k \<in> set core_dimensions" "k \<noteq> ''candidate_order''" for k
    using that by (simp add: core_dimension_applies_def)
  note fold = collect_fold [OF d0 book]
  show "draft_assessments d = map (\<lambda>k. if core_dimension_applies p k
      then assessed events (target_of CorePacket (sp_packet_id p) k) else NotApplicable) core_dimensions"
    "dr_packet_id d = sp_packet_id p"
    using applies
    by (simp_all add: d fold core_dimensions_def set_draft_assessment_def draft_assessments_def new_draft_def)
  show "dr_reason_codes d = decision_reasons d" by (simp add: d decision_reasons_def)
qed

definition packet_answers :: "inspection_event list \<Rightarrow> session_packet \<Rightarrow> string list" where
  "packet_answers events p = map (\<lambda>k. assessed events (target_of CorePacket (sp_packet_id p) k))
     (filter (core_dimension_applies p) core_dimensions)"

definition case_answers :: "inspection_event list \<Rightarrow> scarcity_case \<Rightarrow> string list" where
  "case_answers events c = map (\<lambda>k. assessed events (target_of ScarcityCase (sk_case_id c) k)) scarcity_case_dimensions"

definition boundary_answers :: "inspection_event list \<Rightarrow> string list" where
  "boundary_answers events = map (\<lambda>k. assessed events (target_of ScarcityBoundary BoundaryID k)) scarcity_boundary_dimensions"

lemma set_masked: "x \<noteq> y \<Longrightarrow> x \<in> set (map (\<lambda>k. if P k then f k else y) ks) \<longleftrightarrow> x \<in> set (map f (filter P ks))"
  by auto

lemma reason_when_Nil: "reason_when a reason = [] \<longleftrightarrow> a \<in> {Passed, NotApplicable}"
  by (simp add: reason_when_def)

lemma masked_subset:
  assumes "\<And>x. x \<noteq> n \<Longrightarrow> x \<in> A \<longleftrightarrow> x \<in> B" and "n \<notin> B"
  shows "A \<subseteq> {p, n} \<longleftrightarrow> B \<subseteq> {p}"
proof
  assume sub: "A \<subseteq> {p, n}"
  show "B \<subseteq> {p}"
  proof
    fix x assume x: "x \<in> B"
    then have "x \<noteq> n" using assms(2) by blast
    with assms(1) [OF this] x sub show "x \<in> {p}" by blast
  qed
next
  assume sub: "B \<subseteq> {p}"
  show "A \<subseteq> {p, n}"
  proof
    fix x assume x: "x \<in> A"
    show "x \<in> {p, n}"
    proof (cases "x = n")
      case False
      from assms(1) [OF False] x sub show ?thesis by blast
    qed simp
  qed
qed

lemma elems_unless_None: "elems (if elems x = [] then None else x) = [] \<longleftrightarrow> elems x = []"
  by (simp add: elems_def)

lemma reasons_none: "elems (decision_reasons d) = [] \<longleftrightarrow> set (draft_assessments d) \<subseteq> {Passed, NotApplicable}"
proof -
  have sorted: "elems (if xs = [] then None else Some (sort xs)) = [] \<longleftrightarrow> xs = []" for xs :: "string list"
    by (simp add: elems_def) (metis length_0_conv length_sort)
  show ?thesis
    unfolding decision_reasons_def Let_def sorted
    unfolding append_is_Nil_conv reason_when_Nil draft_assessments_def list.set insert_subset
    by blast
qed

lemma draft_summary_reflects:
  assumes "packet_draft s latest p = Inr d" and "elems (se_core_dimensions s) = core_dimensions"
    and "\<And>k. core_dimension_applies p k \<Longrightarrow> map_of latest (event_key (target_of CorePacket (sp_packet_id p) k)) =
      answer_book events (target_of CorePacket (sp_packet_id p) k)"
    and "set (packet_answers events p) \<subseteq> set assessment_values"
  shows "dm_packet_id (draft_summary d) = sp_packet_id p"
    and "dm_disposition (draft_summary d) = assessment_disposition (packet_answers events p)"
    and "elems (dm_reason_codes (draft_summary d)) = [] \<longleftrightarrow> set (packet_answers events p) \<subseteq> {Passed}"
proof -
  note draft = packet_draft_assessments [OF assms(1-3)]
  show "dm_packet_id (draft_summary d) = sp_packet_id p" by (simp add: draft_summary_def draft(2))
  have same: "x \<in> set (draft_assessments d) \<longleftrightarrow> x \<in> set (packet_answers events p)" if "x \<noteq> NotApplicable" for x
    using set_masked [OF that] by (simp only: draft(1) packet_answers_def)
  show "dm_disposition (draft_summary d) = assessment_disposition (packet_answers events p)"
    using same by (simp add: draft_summary_def decision_disposition_def assessment_disposition_def)
  have none: "NotApplicable \<notin> set (packet_answers events p)" using assms(4) by (auto simp: assessment_values_def)
  have "set (draft_assessments d) \<subseteq> {Passed, NotApplicable} \<longleftrightarrow> set (packet_answers events p) \<subseteq> {Passed}"
    by (rule masked_subset [OF _ none]) (rule same)
  then show "elems (dm_reason_codes (draft_summary d)) = [] \<longleftrightarrow> set (packet_answers events p) \<subseteq> {Passed}"
    using reasons_none [of d] by (simp add: draft_summary_def draft(3) elems_unless_None)
qed

lemma case_summary_reflects:
  assumes run: "case_summary s latest c = Inr m" and dims: "elems (se_scarcity_case_dimensions s) = scarcity_case_dimensions"
    and book: "\<And>k. k \<in> set scarcity_case_dimensions \<Longrightarrow> map_of latest (event_key (target_of ScarcityCase (sk_case_id c) k)) =
      answer_book events (target_of ScarcityCase (sk_case_id c) k)"
  shows "sm_case_id m = sk_case_id c" "sm_data_role m = sk_data_role c" "scarcity_assessments m = case_answers events c"
    "sm_disposition m = assessment_disposition (case_answers events c)"
proof -
  let ?m0 = "\<lparr> sm_case_id = sk_case_id c, sm_data_role = sk_data_role c, sm_original_evidence = [], sm_target_omission = [],
          sm_relation_preservation = [], sm_information_sufficiency = [], sm_disposition = [] \<rparr>"
  obtain m0 where m0: "collect latest (target_of ScarcityCase (sk_case_id c)) (\<lambda>_. True) set_scarcity_assessment
      scarcity_case_dimensions ?m0 = Inr m0" and m: "m = m0\<lparr>sm_disposition := assessment_disposition (scarcity_assessments m0)\<rparr>"
    using run by (auto simp: case_summary_def dims split: sum.splits)
  have fold: "m0 = fold (\<lambda>d acc. if True then set_scarcity_assessment d (assessed events (target_of ScarcityCase (sk_case_id c) d)) acc
      else acc) scarcity_case_dimensions ?m0"
    by (rule collect_fold [OF m0]) (rule book)
  have "scarcity_assessments m0 = case_answers events c" "sm_case_id m0 = sk_case_id c" "sm_data_role m0 = sk_data_role c"
    by (simp_all add: fold scarcity_case_dimensions_def set_scarcity_assessment_def scarcity_assessments_def case_answers_def)
  then show "sm_case_id m = sk_case_id c" "sm_data_role m = sk_data_role c" "scarcity_assessments m = case_answers events c"
    "sm_disposition m = assessment_disposition (case_answers events c)"
    by (simp_all add: m scarcity_assessments_def)
qed

lemma finished_journalE:
  assumes "verify_journal sha s events = Inr js" and "js_ready js"
  obtains r drafts boundary where "session_validate sha s = None" "replay sha s 0 events (replay_start s) = Inr r"
    "drafts_from_status s True (rs_latest r) = Inr drafts" "scarcity_summaries s True (rs_latest r) = Inr (js_scarcity js, boundary)"
    "js_decisions js = decision_summaries drafts" "js_boundary js = Some boundary" "next_target s (rs_latest r) = None"
proof -
  obtain r where valid: "session_validate sha s = None" and run: "replay sha s 0 events (replay_start s) = Inr r"
    and status: "bare_status js = verified_status s events r"
    using assms(1) by (rule verify_journalE)
  have ready: "length (rs_latest r) = required_assessments s" using assms(2) by (simp add: status_fields(10) [OF status])
  then have none: "next_target s (rs_latest r) = None" using answered_iff_ready(1) [OF valid run] by simp
  obtain drafts summaries boundary where all_done: "drafts_from_status s True (rs_latest r) = Inr drafts"
    "scarcity_summaries s True (rs_latest r) = Inr (summaries, boundary)"
    using summaries_total [OF none] by blast
  have "js_scarcity js = summaries" "js_decisions js = decision_summaries drafts" "js_boundary js = Some boundary"
    using assms(1) none ready all_done
    by (auto simp: verify_journal_def valid run next_target_def all_targets_def find_append Let_def split: option.splits)
  then show thesis using that valid run all_done none by blast
qed

lemma boundary_reflects:
  assumes scarcity: "scarcity_summaries s True latest = Inr (summaries, boundary)"
    and dims: "elems (se_scarcity_boundary_dimensions s) = scarcity_boundary_dimensions"
    and book: "\<And>k. k \<in> set scarcity_boundary_dimensions \<Longrightarrow> map_of latest (event_key (target_of ScarcityBoundary BoundaryID k)) =
      answer_book events (target_of ScarcityBoundary BoundaryID k)"
  shows "boundary_assessments boundary = boundary_answers events"
    "bm_disposition boundary = assessment_disposition (boundary_answers events)"
proof -
  obtain b0 where b0: "collect latest (target_of ScarcityBoundary BoundaryID) (\<lambda>_. True) set_boundary_assessment
      scarcity_boundary_dimensions \<lparr> bm_exhaustive_scope = [], bm_role_integrity = [], bm_estimand_separation = [],
        bm_non_authorization = [], bm_disposition = [] \<rparr> = Inr b0"
    and b: "boundary = b0\<lparr>bm_disposition := assessment_disposition (boundary_assessments b0)\<rparr>"
    using scarcity by (auto simp: scarcity_summaries_def dims split: sum.splits)
  have "b0 = fold (\<lambda>d acc. if True then set_boundary_assessment d (assessed events (target_of ScarcityBoundary BoundaryID d)) acc
      else acc) scarcity_boundary_dimensions \<lparr> bm_exhaustive_scope = [], bm_role_integrity = [], bm_estimand_separation = [],
        bm_non_authorization = [], bm_disposition = [] \<rparr>"
    by (rule collect_fold [OF b0]) (rule book)
  then have "boundary_assessments b0 = boundary_answers events"
    by (simp add: scarcity_boundary_dimensions_def set_boundary_assessment_def boundary_assessments_def boundary_answers_def)
  then show "boundary_assessments boundary = boundary_answers events"
    "bm_disposition boundary = assessment_disposition (boundary_answers events)"
    by (simp_all add: b boundary_assessments_def)
qed

lemma targets_in:
  assumes "session_identity_ok s"
  shows "p \<in> set (elems (se_packets s)) \<Longrightarrow> core_dimension_applies p k \<Longrightarrow>
      target_of CorePacket (sp_packet_id p) k \<in> set (all_targets s)"
    and "c \<in> set (elems (se_scarcity_cases s)) \<Longrightarrow> k \<in> set scarcity_case_dimensions \<Longrightarrow>
      target_of ScarcityCase (sk_case_id c) k \<in> set (all_targets s)"
    and "k \<in> set scarcity_boundary_dimensions \<Longrightarrow> target_of ScarcityBoundary BoundaryID k \<in> set (all_targets s)"
  using session_dimensions [OF assms] core_applies [of p k]
  by (auto simp: all_targets_def core_targets_def scarcity_targets_def boundary_targets_def)

lemma finished_answers:
  assumes valid: "session_validate sha s = None" and run: "replay sha s 0 events (replay_start s) = Inr r"
    and none: "next_target s (rs_latest r) = None" and t: "t \<in> set (all_targets s)"
  shows "assessed events t \<in> set assessment_values"
proof -
  note same = replay_refines [OF valid run t]
  obtain e where e: "answer_book events t = Some e"
    using none t same by (cases "answer_book events t") (auto simp: next_target_def find_None_iff unanswered_def)
  have "latest_of events (event_key t) = Some e" using e same replay_books [OF run] by (simp add: journal_books_def)
  from replay_events(1) [OF run latest_event(1) [OF this]] show ?thesis by (simp add: assessed_def e event_validate_def)
qed

lemma finished_reflects:
  assumes "verify_journal sha s events = Inr js" and "js_ready js"
  shows "list_all2 (\<lambda>p m. dm_packet_id m = sp_packet_id p \<and> dm_disposition m = assessment_disposition (packet_answers events p) \<and>
       (elems (dm_reason_codes m) = [] \<longleftrightarrow> set (packet_answers events p) \<subseteq> {Passed})) (elems (se_packets s)) (js_decisions js) \<and>
    list_all2 (\<lambda>c m. sm_case_id m = sk_case_id c \<and> sm_data_role m = sk_data_role c \<and> scarcity_assessments m = case_answers events c \<and>
       sm_disposition m = assessment_disposition (case_answers events c)) (elems (se_scarcity_cases s)) (js_scarcity js) \<and>
    (\<exists>b. js_boundary js = Some b \<and> boundary_assessments b = boundary_answers events \<and>
       bm_disposition b = assessment_disposition (boundary_answers events))"
proof -
  obtain r drafts boundary where valid: "session_validate sha s = None" and run: "replay sha s 0 events (replay_start s) = Inr r"
    and drafts: "drafts_from_status s True (rs_latest r) = Inr drafts"
    and scarcity: "scarcity_summaries s True (rs_latest r) = Inr (js_scarcity js, boundary)"
    and status: "js_decisions js = decision_summaries drafts" "js_boundary js = Some boundary" and none: "next_target s (rs_latest r) = None"
    using assms by (rule finished_journalE)
  note dims = session_dimensions [OF session_validE(1) [OF valid]] and refines = replay_refines [OF valid run]
  note answered = finished_answers [OF valid run none]
  note core = targets_in(1) [OF session_validE(1) [OF valid]] and scarce = targets_in(2) [OF session_validE(1) [OF valid]]
    and bound = targets_in(3) [OF session_validE(1) [OF valid]]
  let ?P = "\<lambda>p m. dm_packet_id m = sp_packet_id p \<and> dm_disposition m = assessment_disposition (packet_answers events p) \<and>
       (elems (dm_reason_codes m) = [] \<longleftrightarrow> set (packet_answers events p) \<subseteq> {Passed})"
  have "list_all2 (\<lambda>p d. packet_draft s (rs_latest r) p = Inr d) (elems (se_packets s)) drafts"
    using drafts by (simp add: drafts_from_status_def map_result_Inr)
  then have "list_all2 (\<lambda>p d. ?P p (draft_summary d)) (elems (se_packets s)) drafts"
  proof (rule list.rel_mono_strong)
    fix p d assume p: "p \<in> set (elems (se_packets s))" and d: "packet_draft s (rs_latest r) p = Inr d"
    have "set (packet_answers events p) \<subseteq> set assessment_values" using answered core [OF p] by (auto simp: packet_answers_def)
    from draft_summary_reflects [OF d dims(1) refines [OF core [OF p]] this] show "?P p (draft_summary d)" by blast
  qed
  then have decisions: "list_all2 ?P (elems (se_packets s)) (map draft_summary drafts)" by (simp add: list_all2_map2)
  then have "map dm_packet_id (map draft_summary drafts) = map sp_packet_id (elems (se_packets s))"
    by (induction rule: list_all2_induct) auto
  then have "js_decisions js = map draft_summary drafts"
    using session_validE(9) [OF valid] by (simp add: status(1) decision_summaries_def sort_key_id_if_sorted del: map_map)
  note decided = decisions [folded this]
  have "list_all2 (\<lambda>c m. case_summary s (rs_latest r) c = Inr m) (elems (se_scarcity_cases s)) (js_scarcity js)"
    using scarcity by (auto simp: scarcity_summaries_def map_result_Inr split: sum.splits)
  then have cases: "list_all2 (\<lambda>c m. sm_case_id m = sk_case_id c \<and> sm_data_role m = sk_data_role c \<and>
      scarcity_assessments m = case_answers events c \<and>
      sm_disposition m = assessment_disposition (case_answers events c)) (elems (se_scarcity_cases s)) (js_scarcity js)"
  proof (rule list.rel_mono_strong)
    fix c m assume c: "c \<in> set (elems (se_scarcity_cases s))" and m: "case_summary s (rs_latest r) c = Inr m"
    from case_summary_reflects [OF m dims(2) refines [OF scarce [OF c]]]
    show "sm_case_id m = sk_case_id c \<and> sm_data_role m = sk_data_role c \<and> scarcity_assessments m = case_answers events c \<and>
      sm_disposition m = assessment_disposition (case_answers events c)" by blast
  qed
  note bounds = boundary_reflects [OF scarcity dims(3) refines [OF bound]]
  show ?thesis using decided cases status(2) bounds by blast
qed

text \<open>
  C21: the decisions of a finished journal are what the last answers say: a packet is to be revised if an answer
  about it failed, else unresolved if one is indeterminate, else accepted, and it has reasons exactly if not all passed;
  likewise for the scarce cases, with their roles, and their boundary.
\<close>

theorem decisions_reflect_answers:
  assumes "verify_journal sha s events = Inr js" and "js_ready js"
  shows "list_all2 (\<lambda>p m. dm_packet_id m = sp_packet_id p \<and> dm_disposition m = assessment_disposition (packet_answers events p) \<and>
       (elems (dm_reason_codes m) = [] \<longleftrightarrow> set (packet_answers events p) \<subseteq> {Passed})) (elems (se_packets s)) (js_decisions js) \<and>
    list_all2 (\<lambda>c m. sm_case_id m = sk_case_id c \<and> sm_data_role m = sk_data_role c \<and> scarcity_assessments m = case_answers events c \<and>
       sm_disposition m = assessment_disposition (case_answers events c)) (elems (se_scarcity_cases s)) (js_scarcity js) \<and>
    (\<exists>b. js_boundary js = Some b \<and> boundary_assessments b = boundary_answers events \<and>
       bm_disposition b = assessment_disposition (boundary_answers events))"
  using assms by (rule finished_reflects)

end
