(* ===== verification/Completion.thy ===== *)
theory Completion
  imports JournalDecisions
begin

text \<open>
  The document that closes a guided inspection (\<open>PilotInspectionCompletion\<close> of
  internal/relation/pilot_inspection_journal.go) and its validation, which recomputes every status
  from the summaries.
\<close>

record completion =
  cp_schema_version :: string
  cp_canonical_policy :: string
  cp_journal_protocol :: string
  cp_session_digest :: string
  cp_package_inventory_digest :: string
  cp_event_count :: int
  cp_head_digest :: string
  cp_required_assessments :: int
  cp_decision_summaries :: "decision_summary slice"
  cp_scarcity_summaries :: "scarcity_summary slice"
  cp_scarcity_boundary :: boundary_summary
  cp_inspection_record_digest :: string
  cp_core_status :: string
  cp_scarcity_status :: string
  cp_overall_status :: string
  cp_human_study_status :: string
  cp_external_action_status :: string
  cp_owner_confirmation :: string
  cp_inspected_at :: string
  cp_digest :: string

definition decision_summary_json :: "decision_summary \<Rightarrow> json" where
  "decision_summary_json m = JObj [(''packet_id'', JStr (dm_packet_id m)),
     (''reason_codes'', json_slice JStr (dm_reason_codes m)), (''disposition'', JStr (dm_disposition m))]"

definition scarcity_summary_json :: "scarcity_summary \<Rightarrow> json" where
  "scarcity_summary_json m = JObj [(''case_id'', JStr (sm_case_id m)), (''data_role'', JStr (sm_data_role m)),
     (''original_evidence'', JStr (sm_original_evidence m)), (''target_omission'', JStr (sm_target_omission m)),
     (''relation_preservation'', JStr (sm_relation_preservation m)),
     (''information_sufficiency'', JStr (sm_information_sufficiency m)), (''disposition'', JStr (sm_disposition m))]"

definition boundary_summary_json :: "boundary_summary \<Rightarrow> json" where
  "boundary_summary_json m = JObj [(''exhaustive_scope'', JStr (bm_exhaustive_scope m)),
     (''role_integrity'', JStr (bm_role_integrity m)), (''estimand_separation'', JStr (bm_estimand_separation m)),
     (''non_authorization'', JStr (bm_non_authorization m)), (''disposition'', JStr (bm_disposition m))]"

definition completion_json :: "completion \<Rightarrow> json" where
  "completion_json c = JObj [
     (''schema_version'', JStr (cp_schema_version c)), (''canonical_policy'', JStr (cp_canonical_policy c)),
     (''journal_protocol'', JStr (cp_journal_protocol c)), (''session_digest'', JStr (cp_session_digest c)),
     (''package_inventory_digest'', JStr (cp_package_inventory_digest c)), (''event_count'', json_int (cp_event_count c)),
     (''head_digest'', JStr (cp_head_digest c)), (''required_assessments'', json_int (cp_required_assessments c)),
     (''decision_summaries'', json_slice decision_summary_json (cp_decision_summaries c)),
     (''scarcity_summaries'', json_slice scarcity_summary_json (cp_scarcity_summaries c)),
     (''scarcity_boundary'', boundary_summary_json (cp_scarcity_boundary c)),
     (''inspection_record_digest'', JStr (cp_inspection_record_digest c)), (''core_status'', JStr (cp_core_status c)),
     (''scarcity_status'', JStr (cp_scarcity_status c)), (''overall_status'', JStr (cp_overall_status c)),
     (''human_study_status'', JStr (cp_human_study_status c)), (''external_action_status'', JStr (cp_external_action_status c)),
     (''owner_confirmation'', JStr (cp_owner_confirmation c)), (''inspected_at'', JStr (cp_inspected_at c)),
     (''digest'', JStr (cp_digest c))]"

definition completion_digest :: "(string \<Rightarrow> string) \<Rightarrow> completion \<Rightarrow> string" where
  "completion_digest sha c = digest_json sha (completion_json (c\<lparr>cp_digest := []\<rparr>))"

definition statuses :: "string list" where
  "statuses = [Passed, RevisionRequired, Unresolved]"

definition dispositions :: "string list" where
  "dispositions = [Accepted, RevisionRequired, Unresolved]"

definition valid_reasons :: "string list" where
  "valid_reasons = [''evidence_alignment_gap'', ''blinding_or_identity_leakage'', ''candidate_order_gap'',
     ''insufficient_information'', ''license_or_redistribution_gap'', ''rubric_applicability_gap'', ''task_context_gap'',
     ''multi_factor_or_unisolated_change'']"

definition required_by_completion :: int where
  "required_by_completion = 50 + 12 + 4"

definition completion_identity_ok :: "completion \<Rightarrow> bool" where
  "completion_identity_ok c \<longleftrightarrow> cp_schema_version c = CompletionSchema \<and> cp_canonical_policy c = RelationPolicy \<and>
     cp_journal_protocol c = JournalProtocol \<and> valid_sha (cp_session_digest c) \<and> valid_sha (cp_package_inventory_digest c) \<and>
     cp_event_count c \<ge> cp_required_assessments c \<and> valid_sha (cp_head_digest c) \<and>
     cp_required_assessments c = required_by_completion \<and> length (elems (cp_decision_summaries c)) = 7 \<and>
     length (elems (cp_scarcity_summaries c)) = 3 \<and> valid_sha (cp_inspection_record_digest c) \<and>
     cp_core_status c \<in> set statuses \<and> cp_scarcity_status c \<in> set statuses \<and> cp_overall_status c \<in> set statuses \<and>
     cp_human_study_status c = ''not_run'' \<and> cp_external_action_status c = ''not_authorized'' \<and>
     cp_owner_confirmation c = ''explicit_owner_completion'' \<and> valid_sha (cp_digest c)"

fun check_reasons :: "string option \<Rightarrow> string list \<Rightarrow> bool" where
  "check_reasons previous [] = True"
| "check_reasons previous (x # xs) =
     (x \<in> set valid_reasons \<and> \<not> (case previous of None \<Rightarrow> False | Some p \<Rightarrow> p \<ge> x) \<and> check_reasons (Some x) xs)"

fun check_decisions :: "string option \<Rightarrow> decision_summary list \<Rightarrow> inspection_error option" where
  "check_decisions previous [] = None"
| "check_decisions previous (m # ms) = first_err [
     fail_if (\<not> valid_opaque_id (dm_packet_id m) ''relation-packet-'' \<or>
       (case previous of None \<Rightarrow> False | Some p \<Rightarrow> p \<ge> dm_packet_id m) \<or> dm_disposition m \<notin> set dispositions) CompletionSummary,
     fail_if (\<not> check_reasons None (elems (dm_reason_codes m))) CompletionReasons,
     fail_if (dm_disposition m = Accepted \<and> elems (dm_reason_codes m) \<noteq> [] \<or>
       dm_disposition m \<noteq> Accepted \<and> elems (dm_reason_codes m) = []) CompletionDisposition,
     check_decisions (Some (dm_packet_id m)) ms]"

definition valid_assessments :: "string list \<Rightarrow> bool" where
  "valid_assessments assessments \<longleftrightarrow> (\<forall>a \<in> set assessments. a \<in> set assessment_values)"

fun check_scarcity_summaries :: "string option \<Rightarrow> int \<times> int \<Rightarrow> scarcity_summary list \<Rightarrow> inspection_error + int \<times> int" where
  "check_scarcity_summaries previous counts [] = Inr counts"
| "check_scarcity_summaries previous counts (m # ms) =
     (if trim_space (sm_case_id m) = [] \<or> (case previous of None \<Rightarrow> False | Some p \<Rightarrow> p \<ge> sm_case_id m) then Inl CompletionScarcity
      else (case count_role (sm_data_role m) counts of
          None \<Rightarrow> Inl SessionRole
        | Some counts' \<Rightarrow>
            if \<not> valid_assessments (scarcity_assessments m) \<or> sm_disposition m \<noteq> assessment_disposition (scarcity_assessments m)
            then Inl CompletionScarcity
            else check_scarcity_summaries (Some (sm_case_id m)) counts' ms))"

definition scarcity_completion_validate :: "completion \<Rightarrow> inspection_error option" where
  "scarcity_completion_validate c = first_err [
     (case check_scarcity_summaries None (0, 0) (elems (cp_scarcity_summaries c)) of
        Inl e \<Rightarrow> Some e | Inr counts \<Rightarrow> fail_if (counts \<noteq> (2, 1)) SessionRoleBoundary),
     (let assessments = boundary_assessments (cp_scarcity_boundary c) in
      fail_if (\<not> valid_assessments assessments \<or>
        bm_disposition (cp_scarcity_boundary c) \<noteq> assessment_disposition assessments) CompletionBoundary),
     fail_if (cp_scarcity_status c \<noteq> scarcity_status (elems (cp_scarcity_summaries c)) (Some (cp_scarcity_boundary c)))
       CompletionScarcityStatus]"

definition completion_validate :: "(string \<Rightarrow> string) \<Rightarrow> completion \<Rightarrow> inspection_error option" where
  "completion_validate sha c = first_err [
     fail_if (\<not> completion_identity_ok c) CompletionIdentity,
     fail_if (parse_rfc3339 (cp_inspected_at c) = None) CompletionTime,
     check_decisions None (elems (cp_decision_summaries c)),
     (let ds = map dm_disposition (elems (cp_decision_summaries c)) in
      fail_if (cp_core_status c \<noteq> overall_status (count_disposition RevisionRequired ds) (count_disposition Unresolved ds))
        CompletionStatus),
     scarcity_completion_validate c,
     fail_if (cp_overall_status c \<noteq> combine_statuses (cp_core_status c) (cp_scarcity_status c)) CompletionOverall,
     fail_if (cp_digest c \<noteq> completion_digest sha c) CompletionDigest]"

section \<open>What a passed completion says\<close>

lemma check_decisions_sound:
  assumes "check_decisions previous ms = None"
  shows "list_all (\<lambda>m. dm_disposition m \<in> set dispositions \<and> (dm_disposition m = Accepted \<longleftrightarrow> elems (dm_reason_codes m) = [])) ms"
  using assms by (induction ms arbitrary: previous) auto

lemma check_summaries_sound:
  assumes "check_scarcity_summaries previous counts ms = Inr counts'"
  shows "list_all (\<lambda>m. valid_assessments (scarcity_assessments m) \<and> sm_disposition m = assessment_disposition (scarcity_assessments m)) ms"
  using assms by (induction ms arbitrary: previous counts) (auto split: if_splits option.splits)

lemma overall_passed: "overall_status r u = Passed \<longleftrightarrow> r = 0 \<and> u = 0"
  by (simp add: overall_status_def)

lemma count_none: "count_disposition d ds = 0 \<longleftrightarrow> d \<notin> set ds"
  by (auto simp: count_disposition_def filter_empty_conv)

lemma combine_passed: "combine_statuses a b = Passed \<longleftrightarrow> a \<notin> {RevisionRequired, Unresolved} \<and> b \<notin> {RevisionRequired, Unresolved}"
  by (simp add: combine_statuses_def)

lemma accepted_assessments:
  assumes "valid_assessments as" and "assessment_disposition as \<notin> {RevisionRequired, Unresolved}"
  shows "set as \<subseteq> {Passed}"
  using assms by (auto simp: valid_assessments_def assessment_disposition_def assessment_values_def split: if_splits)

text \<open>
  A completion that validates and passed overall has accepted every packet without a reason against it,
  and every assessment of the scarce cases and of their boundary passed.
\<close>

lemma passed_completion_clean:
  assumes "completion_validate sha c = None" and "cp_overall_status c = Passed"
  shows "list_all (\<lambda>m. dm_disposition m = Accepted \<and> elems (dm_reason_codes m) = []) (elems (cp_decision_summaries c)) \<and>
    list_all (\<lambda>m. set (scarcity_assessments m) \<subseteq> {Passed}) (elems (cp_scarcity_summaries c)) \<and>
    set (boundary_assessments (cp_scarcity_boundary c)) \<subseteq> {Passed} \<and>
    length (elems (cp_decision_summaries c)) = 7 \<and> length (elems (cp_scarcity_summaries c)) = 3 \<and> cp_event_count c \<ge> 66"
proof -
  let ?ds = "elems (cp_decision_summaries c)" and ?ss = "elems (cp_scarcity_summaries c)" and ?b = "cp_scarcity_boundary c"
  have identity: "completion_identity_ok c" and decisions: "check_decisions None ?ds = None"
    and core: "cp_core_status c = overall_status (count_disposition RevisionRequired (map dm_disposition ?ds))
      (count_disposition Unresolved (map dm_disposition ?ds))"
    and scarce: "scarcity_completion_validate c = None"
    and overall: "combine_statuses (cp_core_status c) (cp_scarcity_status c) = Passed"
    using assms by (simp_all add: completion_validate_def Let_def)
  have summaries: "list_all (\<lambda>m. valid_assessments (scarcity_assessments m) \<and>
      sm_disposition m = assessment_disposition (scarcity_assessments m)) ?ss"
    using scarce by (intro check_summaries_sound) (auto simp: scarcity_completion_validate_def split: sum.splits)
  have boundary: "valid_assessments (boundary_assessments ?b)" "bm_disposition ?b = assessment_disposition (boundary_assessments ?b)"
    and scarcity: "cp_scarcity_status c = scarcity_status ?ss (Some ?b)"
    using scarce by (simp_all add: scarcity_completion_validate_def Let_def)
  have "cp_core_status c \<in> set statuses" "cp_scarcity_status c \<in> set statuses"
    using identity by (simp_all add: completion_identity_ok_def)
  then have passed: "cp_core_status c = Passed" "cp_scarcity_status c = Passed"
    using overall by (simp_all add: combine_passed statuses_def)
  have "dm_disposition m \<notin> {RevisionRequired, Unresolved}" if "m \<in> set ?ds" for m
    using passed(1) that unfolding core overall_passed count_none by (auto simp: image_iff)
  then have accepted: "list_all (\<lambda>m. dm_disposition m = Accepted \<and> elems (dm_reason_codes m) = []) ?ds"
    using check_decisions_sound [OF decisions] by (auto simp: list_all_iff dispositions_def)
  have none: "x \<notin> {RevisionRequired, Unresolved}" if "x \<in> set (map sm_disposition ?ss @ [bm_disposition ?b])" for x
    using passed(2) that unfolding scarcity scarcity_status_def Let_def option.case overall_passed count_none by blast
  then have "set (scarcity_assessments m) \<subseteq> {Passed}" if "m \<in> set ?ss" for m
    using that summaries accepted_assessments [of "scarcity_assessments m"] by (simp add: list_all_iff)
  moreover have "set (boundary_assessments ?b) \<subseteq> {Passed}"
    using none [of "bm_disposition ?b"] boundary by (intro accepted_assessments) simp_all
  ultimately show ?thesis
    using accepted identity by (simp add: list_all_iff completion_identity_ok_def required_by_completion_def)
qed

section \<open>Finished journals and their completion\<close>

lemma check_reasons_sorted:
  assumes "sorted xs" and "distinct xs" and "set xs \<subseteq> set valid_reasons" and "\<forall>q \<in> set_option previous. \<forall>x \<in> set xs. q < x"
  shows "check_reasons previous xs"
  using assms
proof (induction xs arbitrary: previous)
  case (Cons x xs)
  have "check_reasons (Some x) xs"
  proof (rule Cons.IH)
    show "\<forall>q \<in> set_option (Some x). \<forall>y \<in> set xs. q < y" using Cons.prems(1,2) by (auto simp: order.strict_iff_order)
  qed (use Cons.prems in simp_all)
  moreover have "\<not> (case previous of None \<Rightarrow> False | Some p \<Rightarrow> p \<ge> x)"
    using Cons.prems(4) by (cases previous) (simp_all add: not_le)
  ultimately show ?case using Cons.prems(3) by simp
qed simp

lemma reason_when_cases: "reason_when a reason = [] \<or> reason_when a reason = [reason]"
  by (simp add: reason_when_def)

lemma distinct_reasons:
  assumes "distinct rs" and "length as = length rs"
  shows "distinct (concat (map2 reason_when as rs)) \<and> set (concat (map2 reason_when as rs)) \<subseteq> set rs"
  using assms(2,1) by (induction as rs rule: list_induct2) (auto simp: reason_when_def)

lemma decision_reasons_check: "check_reasons None (elems (decision_reasons d))"
proof -
  let ?as = "[dr_evidence_alignment d, dr_blinding_integrity d, dr_candidate_order d, dr_information_sufficiency d,
    dr_redistribution_boundary d, dr_rubric_applicability d, dr_task_context d, dr_transformation_isolation d]"
  let ?xs = "concat (map2 reason_when ?as valid_reasons)"
  have sorted: "elems (if xs = [] then None else Some (sort xs)) = sort xs" for xs :: "string list" by (simp add: elems_def)
  have "?xs = reason_when (dr_evidence_alignment d) ''evidence_alignment_gap'' @
        reason_when (dr_blinding_integrity d) ''blinding_or_identity_leakage'' @
        reason_when (dr_candidate_order d) ''candidate_order_gap'' @
        reason_when (dr_information_sufficiency d) ''insufficient_information'' @
        reason_when (dr_redistribution_boundary d) ''license_or_redistribution_gap'' @
        reason_when (dr_rubric_applicability d) ''rubric_applicability_gap'' @
        reason_when (dr_task_context d) ''task_context_gap'' @
        reason_when (dr_transformation_isolation d) ''multi_factor_or_unisolated_change''"
    unfolding valid_reasons_def by simp
  then have "elems (decision_reasons d) = sort ?xs"
    unfolding decision_reasons_def Let_def sorted by (rule arg_cong [OF sym])
  moreover have "distinct ?xs \<and> set ?xs \<subseteq> set valid_reasons"
    by (rule distinct_reasons) (simp_all add: valid_reasons_def)
  ultimately show ?thesis by (intro check_reasons_sorted) simp_all
qed

lemma check_decisions_complete:
  assumes "list_all (\<lambda>m. valid_opaque_id (dm_packet_id m) ''relation-packet-'' \<and> dm_disposition m \<in> set dispositions \<and>
      check_reasons None (elems (dm_reason_codes m)) \<and> (dm_disposition m = Accepted \<longleftrightarrow> elems (dm_reason_codes m) = [])) ms"
    and "sorted_wrt (<) (map dm_packet_id ms)" and "\<forall>q \<in> set_option previous. \<forall>m \<in> set ms. q < dm_packet_id m"
  shows "check_decisions previous ms = None"
  using assms by (induction ms arbitrary: previous) (auto simp: not_le split: option.splits)

lemma check_summaries_complete:
  assumes "list_all2 (\<lambda>c m. sm_case_id m = sk_case_id c \<and> sm_data_role m = sk_data_role c \<and> valid_assessments (scarcity_assessments m) \<and>
      sm_disposition m = assessment_disposition (scarcity_assessments m)) cs ms"
    and "check_scarcity previous seen materials firewalls counts cs = Inr counts'"
  shows "check_scarcity_summaries previous counts ms = Inr counts'"
  using assms
proof (induction cs ms arbitrary: previous seen materials firewalls counts rule: list_all2_induct)
  case (Cons c cs m ms)
  have "list_all token_char ''mutation-''" by code_simp
  then have "trim_space (sk_case_id c) \<noteq> []"
    using check_scarcity_Cons(1) [OF Cons.prems] by (intro opaque_trim) (auto simp: list_all_iff)
  then show ?case using Cons by (auto split: if_splits option.splits)
qed simp

lemma disposition_in: "assessment_disposition as \<in> set dispositions"
  by (simp add: assessment_disposition_def dispositions_def)

lemma disposition_accepted:
  assumes "set as \<subseteq> set assessment_values"
  shows "assessment_disposition as = Accepted \<longleftrightarrow> set as \<subseteq> {Passed}"
  using assms by (auto simp: assessment_disposition_def assessment_values_def)

lemma list_all2_right: "list_all2 P xs ys \<Longrightarrow> y \<in> set ys \<Longrightarrow> \<exists>x \<in> set xs. P x y"
  by (induction rule: list_all2_induct) auto

lemma finished_reasons:
  assumes "verify_journal sha s events = Inr js" and "js_ready js" and "m \<in> set (js_decisions js)"
  shows "check_reasons None (elems (dm_reason_codes m))"
proof -
  obtain r drafts boundary where drafts: "session_validate sha s = None" "replay sha s 0 events (replay_start s) = Inr r"
    "drafts_from_status s True (rs_latest r) = Inr drafts" "scarcity_summaries s True (rs_latest r) = Inr (js_scarcity js, boundary)"
    "js_decisions js = decision_summaries drafts" "js_boundary js = Some boundary" "next_target s (rs_latest r) = None"
    using assms(1,2) by (rule finished_journalE)
  obtain d where d: "d \<in> set drafts" "m = draft_summary d" using assms(3) by (auto simp: drafts(5) decision_summaries_def)
  have "list_all2 (\<lambda>p d. packet_draft s (rs_latest r) p = Inr d) (elems (se_packets s)) drafts"
    using drafts(3) by (simp add: drafts_from_status_def map_result_Inr)
  from list_all2_right [OF this d(1)] obtain p where "packet_draft s (rs_latest r) p = Inr d" by blast
  then have "dr_reason_codes d = decision_reasons d" by (auto simp: packet_draft_def decision_reasons_def split: sum.splits)
  then have "elems (dm_reason_codes m) = elems (decision_reasons d)" by (simp add: d(2) draft_summary_def elems_def)
  then show ?thesis using decision_reasons_check by simp
qed

text \<open>
  C22: what a finished journal summarises passes the checks that the validation of a completion makes of its summaries:
  seven decisions with their reasons in order, three scarce cases in their frozen roles, and their boundary.
\<close>

theorem finished_summaries_validate:
  assumes "verify_journal sha s events = Inr js" and "js_ready js"
  shows "check_decisions None (js_decisions js) = None \<and> length (js_decisions js) = 7 \<and>
    check_scarcity_summaries None (0, 0) (js_scarcity js) = Inr (2, 1) \<and> length (js_scarcity js) = 3 \<and>
    (\<exists>b. js_boundary js = Some b \<and> valid_assessments (boundary_assessments b) \<and>
       bm_disposition b = assessment_disposition (boundary_assessments b))"
proof -
  note reflects = finished_reflects [OF assms]
  obtain r where valid: "session_validate sha s = None" and run: "replay sha s 0 events (replay_start s) = Inr r"
    and none: "next_target s (rs_latest r) = None"
    using finished_journalE [OF assms] by blast
  note session = session_validE [OF valid] and given = finished_answers [OF valid run none]
  note dims = session_dimensions [OF session(1)]
  have core: "set (packet_answers events p) \<subseteq> set assessment_values" if "p \<in> set (elems (se_packets s))" for p
    using given [OF targets_in(1) [OF session(1) that]] by (auto simp: packet_answers_def)
  have scarce: "set (case_answers events c) \<subseteq> set assessment_values" if "c \<in> set (elems (se_scarcity_cases s))" for c
    using given [OF targets_in(2) [OF session(1) that]] by (auto simp: case_answers_def)
  have bound: "set (boundary_answers events) \<subseteq> set assessment_values"
    using given [OF targets_in(3) [OF session(1)]] by (auto simp: boundary_answers_def)
  let ?Q = "\<lambda>p m. dm_packet_id m = sp_packet_id p \<and> dm_disposition m \<in> set dispositions \<and>
      (dm_disposition m = Accepted \<longleftrightarrow> elems (dm_reason_codes m) = [])"
  have decisions: "list_all2 ?Q (elems (se_packets s)) (js_decisions js)"
    by (rule list.rel_mono_strong [OF conjunct1 [OF reflects]]) (use core in \<open>auto simp: disposition_in disposition_accepted\<close>)
  then have ids: "map dm_packet_id (js_decisions js) = map sp_packet_id (elems (se_packets s))"
    by (induction rule: list_all2_induct) auto
  have "check_decisions None (js_decisions js) = None"
  proof (rule check_decisions_complete)
    show "sorted_wrt (<) (map dm_packet_id (js_decisions js))" using session(3,9) by (simp add: ids strict_sorted_iff)
    show "list_all (\<lambda>m. valid_opaque_id (dm_packet_id m) ''relation-packet-'' \<and> dm_disposition m \<in> set dispositions \<and>
      check_reasons None (elems (dm_reason_codes m)) \<and> (dm_disposition m = Accepted \<longleftrightarrow> elems (dm_reason_codes m) = [])) (js_decisions js)"
      unfolding list_all_iff
    proof
      fix m assume m: "m \<in> set (js_decisions js)"
      obtain p where p: "p \<in> set (elems (se_packets s))" "?Q p m"
        using list_all2_right [OF decisions m] by blast
      then have "valid_opaque_id (dm_packet_id m) ''relation-packet-''" using session(2) by (simp add: list_all_iff packet_ok_def)
      then show "valid_opaque_id (dm_packet_id m) ''relation-packet-'' \<and> dm_disposition m \<in> set dispositions \<and>
          check_reasons None (elems (dm_reason_codes m)) \<and> (dm_disposition m = Accepted \<longleftrightarrow> elems (dm_reason_codes m) = [])"
        using p(2) finished_reasons [OF assms m] by blast
    qed
  qed simp
  moreover have "check_scarcity_summaries None (0, 0) (js_scarcity js) = Inr (2, 1)"
  proof (rule check_summaries_complete)
    show "check_scarcity None [] [] [] (0, 0) (elems (se_scarcity_cases s)) = Inr (2, 1)"
      using valid by (auto simp: session_validate_def split: sum.splits)
    show "list_all2 (\<lambda>c m. sm_case_id m = sk_case_id c \<and> sm_data_role m = sk_data_role c \<and> valid_assessments (scarcity_assessments m) \<and>
      sm_disposition m = assessment_disposition (scarcity_assessments m)) (elems (se_scarcity_cases s)) (js_scarcity js)"
      by (rule list.rel_mono_strong [OF conjunct1 [OF conjunct2 [OF reflects]]]) (use scarce in \<open>auto simp: valid_assessments_def\<close>)
  qed
  moreover have "length (js_decisions js) = 7" "length (js_scarcity js) = 3"
    using list_all2_lengthD [OF conjunct1 [OF reflects]] list_all2_lengthD [OF conjunct1 [OF conjunct2 [OF reflects]]] dims
    by simp_all
  ultimately show ?thesis using conjunct2 [OF conjunct2 [OF reflects]] bound by (auto simp: valid_assessments_def)
qed

section \<open>How much is required\<close>

lemma family_facts: "list_all (\<lambda>d. fd_pair_level d \<longleftrightarrow> fd_family d = ''candidate_order_reversal'') family_definitions"
  by code_simp

lemma pair_family:
  assumes "definition_for f = Some d"
  shows "fd_pair_level d \<longleftrightarrow> f = ''candidate_order_reversal''"
  using assms find_key [of fd_family f family_definitions d] family_facts by (auto simp: definition_for_def list_all_iff)

lemma packet_dimensions:
  assumes "packet_ok p"
  shows "length (filter (core_dimension_applies p) core_dimensions) = 7 + of_bool (sp_family p = ''candidate_order_reversal'')"
proof -
  have unit: "sp_unit p = UnitCandidatePairOrders \<longleftrightarrow> sp_family p = ''candidate_order_reversal''"
    using assms pair_family by (auto simp: packet_ok_def split: if_splits)
  show ?thesis by (simp add: core_dimension_applies_def unit core_dimensions_def)
qed

lemma count_once:
  assumes "distinct (map key xs)"
  shows "(\<Sum>x\<leftarrow>xs. n + of_bool (key x = k)) = n * length xs + of_bool (k \<in> key ` set xs)"
  using assms by (induction xs) auto

text \<open>
  A validated session requires 66 assessments, as every valid completion does, if one of its packets is of the
  family of candidate order reversals, and 65 otherwise.
\<close>

lemma required_assessments_exact:
  assumes "session_validate sha s = None"
  shows "required_assessments s = 65 + of_bool (''candidate_order_reversal'' \<in> sp_family ` set (elems (se_packets s)))"
proof -
  note valid = session_validE [OF assms]
  note dims = session_dimensions [OF valid(1)]
  have "(\<Sum>p\<leftarrow>elems (se_packets s). length (filter (core_dimension_applies p) core_dimensions)) =
      (\<Sum>p\<leftarrow>elems (se_packets s). 7 + of_bool (sp_family p = ''candidate_order_reversal''))"
    using valid(2) packet_dimensions by (intro arg_cong [of _ _ sum_list] map_cong) (auto simp: list_all_iff)
  then show ?thesis
    by (simp add: required_assessments_def dims count_once [OF valid(4)] scarcity_case_dimensions_def scarcity_boundary_dimensions_def)
qed

end
