(* ===== verification/JournalWitness.thy ===== *)
theory JournalWitness
  imports JournalHead Completion
begin

text \<open>A session with seven packets and three scarce cases, and the properties of journals applied to it.\<close>

section \<open>The sample session\<close>

definition hex_id :: "char \<Rightarrow> string" where
  "hex_id c = replicate 64 c"

definition sample_packets :: "session_packet list" where
  "sample_packets = map (\<lambda>(c, family). \<lparr> sp_packet_id = ''relation-packet-'' @ hex_id c, sp_packet_digest = hex_id c,
     sp_mapping_digest = hex_id c, sp_family = family,
     sp_unit = (if family = ''candidate_order_reversal'' then UnitCandidatePairOrders else UnitTrajectoryPair) \<rparr>)
     (zip ''0123456'' [''necessary_patch_hunk_removal'', ''known_failing_change_reintroduction'', ''falsified_test_evidence'',
        ''command_failure_hidden'', ''irrelevant_verbosity'', ''neutral_formatting'', ''candidate_order_reversal''])"

definition sample_cases :: "scarcity_case list" where
  "sample_cases = map (\<lambda>(c, role). \<lparr> sk_case_id = ''mutation-'' @ hex_id c, sk_material_digest = hex_id c, sk_data_role = role,
     sk_construct_firewall_digest = hex_id c \<rparr>) (zip ''012'' [''development'', ''calibration'', ''development''])"

definition sample_session :: "(string \<Rightarrow> string) \<Rightarrow> session" where
  "sample_session sha =
     (let s = \<lparr> se_schema_version = SessionSchema, se_canonical_policy = RelationPolicy, se_journal_protocol = JournalProtocol,
        se_relation_protocol = ProtocolVersionV3, se_objective = ''controlled_relation'',
        se_package = \<lparr> pb_package_format = PackageFormatV5, pb_package_inventory_digest = hex_id CHR ''a'',
          pb_readiness_sha256 = hex_id CHR ''a'', pb_bundle_sha256 = hex_id CHR ''a'', pb_mappings_sha256 = hex_id CHR ''a'',
          pb_workbook_sha256 = hex_id CHR ''a'', pb_change_atlas_sha256 = hex_id CHR ''a'',
          pb_scarcity_sentinel_sha256 = hex_id CHR ''a'', pb_scarcity_appendix_sha256 = hex_id CHR ''a'' \<rparr>,
        se_readiness_digest = hex_id CHR ''a'', se_bundle_digest = hex_id CHR ''a'', se_mapping_commitment = hex_id CHR ''a'',
        se_inspector_alias = ''owner'', se_packets = Some sample_packets, se_scarcity_sentinel_digest = hex_id CHR ''a'',
        se_scarcity_cases = Some sample_cases, se_core_dimensions = Some core_dimensions,
        se_scarcity_case_dimensions = Some scarcity_case_dimensions, se_scarcity_boundary_dimensions = Some scarcity_boundary_dimensions,
        se_human_study_status = ''not_run'', se_external_action_status = ''not_authorized'',
        se_created_at = ''2026-01-01T00:00:00Z'', se_digest = [] \<rparr> in
      s\<lparr>se_digest := session_digest sha s\<rparr>)"

lemma valid_hex: "c \<in> set ''0123456789abcdef'' \<Longrightarrow> valid_sha (hex_id c)"
  by (auto simp: valid_sha_def hex_id_def)

lemma valid_opaque: "c \<in> set ''0123456789abcdef'' \<Longrightarrow> valid_opaque_id (pre @ hex_id c) pre"
  using valid_hex by (simp add: valid_opaque_id_def)

lemma sample_packets_check: "check_packets None [] [] [] sample_packets = None"
  by code_simp

lemma sample_cases_check: "check_scarcity None [] [] [] (0, 0) sample_cases = Inr (2, 1)"
  by code_simp

lemma sample_session_valid:
  assumes "\<And>x. valid_sha (sha x)"
  shows "session_validate sha (sample_session sha) = None"
proof -
  have "trim_space ''owner'' \<noteq> []" by code_simp
  moreover have "parse_rfc3339 ''2026-01-01T00:00:00Z'' \<noteq> None" by code_simp
  moreover have "length sample_packets = 7" "length sample_cases = 3" by code_simp+
  ultimately have "session_identity_ok (sample_session sha)"
    using assms valid_hex [of "CHR ''a''"]
    by (simp add: session_identity_ok_def sample_session_def Let_def binding_validate_def elems_def session_digest_def digest_json_def)
  moreover have "parse_rfc3339 (se_created_at (sample_session sha)) \<noteq> None"
    using \<open>parse_rfc3339 ''2026-01-01T00:00:00Z'' \<noteq> None\<close> by (simp add: sample_session_def Let_def)
  moreover have "se_digest (sample_session sha) = session_digest sha (sample_session sha)"
    by (simp add: sample_session_def Let_def session_digest_def)
  moreover have "elems (se_packets (sample_session sha)) = sample_packets" "elems (se_scarcity_cases (sample_session sha)) = sample_cases"
    by (simp_all add: sample_session_def Let_def elems_def)
  ultimately show ?thesis
    using sample_packets_check sample_cases_check by (simp add: session_validate_def)
qed

lemma empty_journal:
  assumes "\<And>x. valid_sha (sha x)"
  obtains js where "verify_journal sha (sample_session sha) [] = Inr js" "js_completed js = 0" "js_required js = 66"
proof -
  have "replay sha (sample_session sha) 0 [] (replay_start (sample_session sha)) = Inr (replay_start (sample_session sha))" by simp
  then obtain js where js: "verify_journal sha (sample_session sha) [] = Inr js"
    using verify_journal_iff sample_session_valid [of sha, OF assms] by blast
  then obtain r where "replay sha (sample_session sha) 0 [] (replay_start (sample_session sha)) = Inr r"
    "bare_status js = verified_status (sample_session sha) [] r" by (rule verify_journalE)
  then have "js_completed js = 0" "js_required js = required_assessments (sample_session sha)"
    using status_fields [of js "sample_session sha" "[]" r] by (auto simp: replay_start_def)
  moreover have "required_assessments (sample_session sha) = 66"
    by (simp add: required_assessments_def sample_session_def Let_def elems_def sample_packets_def core_dimensions_def
        core_dimension_applies_def sample_cases_def scarcity_case_dimensions_def scarcity_boundary_dimensions_def)
  ultimately show thesis using js that by simp
qed

definition sample_moments :: "string list" where
  "sample_moments = take 66 (concat (map (\<lambda>d. map (\<lambda>h. ''2026-01-0'' @ [d] @ ''T0'' @ [h] @ '':00:00Z'') ''0123456789'') ''23456789''))"

lemma sample_moments_follow: "successively follows (''2026-01-01T00:00:00Z'' # sample_moments)"
  by code_simp

definition const_sha :: "string \<Rightarrow> string" where
  "const_sha s = hex_id CHR ''b''"

lemma const_valid: "valid_sha (const_sha s)"
  using valid_hex [of "CHR ''b''"] by (simp add: const_sha_def)

abbreviation sample :: session where "sample \<equiv> sample_session const_sha"

lemma sample_start: "last_time (sample_session sha) [] = ''2026-01-01T00:00:00Z''"
  by (simp add: last_time_def sample_session_def Let_def)

lemma sample_follows: "successively follows (last_time sample [] # sample_moments)"
  using sample_moments_follow by (simp add: sample_start)

lemma sample_moments_length: "length sample_moments = 66"
  by code_simp

lemma all_passed: "list_all (\<lambda>a. a \<in> set assessment_values) (replicate n Passed)"
  by (simp add: list_all_iff assessment_values_def)

lemma sample_finished:
  obtains es js where "verify_journal const_sha sample es = Inr js" "js_ready js" "map ev_assessment es = replicate 66 Passed"
proof -
  obtain js where js: "verify_journal const_sha sample [] = Inr js" "js_completed js = 0" "js_required js = 66"
    using empty_journal const_valid by metis
  have "length sample_moments = js_required js - js_completed js" by (simp add: js sample_moments_length)
  from can_be_finished [OF const_valid js(1) sample_follows all_passed [of 66] this]
  show thesis using that by (auto simp: sample_moments_length)
qed

section \<open>Properties applied\<close>

theorem journal_can_be_finished_witness:
  "\<exists>es js'. map ev_recorded_at es = sample_moments \<and> map ev_assessment es = replicate 66 Passed \<and>
    verify_journal const_sha sample es = Inr js' \<and> js_ready js'"
proof -
  obtain js where js: "verify_journal const_sha sample [] = Inr js" "js_completed js = 0" "js_required js = 66"
    using empty_journal const_valid by metis
  have "length sample_moments = js_required js - js_completed js" by (simp add: js sample_moments_length)
  from journal_can_be_finished [OF const_valid js(1) sample_follows all_passed [of 66] this]
  show ?thesis by (auto simp: sample_moments_length)
qed

theorem journal_refines_book_witness:
  "\<exists>es js. verify_journal const_sha sample es = Inr js \<and> length es = 66 \<and> js_completed js + js_corrections js = 66 \<and>
    dom (answer_book es) = set (all_targets sample)"
proof -
  obtain es js where js: "verify_journal const_sha sample es = Inr js" "js_ready js" "map ev_assessment es = replicate 66 Passed"
    by (rule sample_finished)
  have "length es = 66" using arg_cong [OF js(3), of length] by simp
  with journal_refines_book [OF js(1)] js(1,2) show ?thesis by auto
qed

lemma sample_next:
  obtains t e where "build_event const_sha sample [] t Passed ''2026-01-02T00:00:00Z'' False = Inr e"
proof -
  obtain js where js: "verify_journal const_sha sample [] = Inr js" "js_completed js = 0" "js_required js = 66"
    using empty_journal const_valid by metis
  then obtain t where "js_next js = Some t" using open_or_ready [OF js(1)] by (cases "js_next js") auto
  moreover have "follows (last_time sample []) ''2026-01-02T00:00:00Z''" unfolding sample_start by code_simp
  moreover have "Passed \<in> set assessment_values" by (simp add: assessment_values_def)
  ultimately show thesis using next_step [OF js(1) _ _ _ const_valid] that by blast
qed

theorem built_event_extends_witness:
  "\<exists>e t js'. build_event const_sha sample [] t Passed ''2026-01-02T00:00:00Z'' False = Inr e \<and>
    verify_journal const_sha sample [e] = Inr js' \<and> answer_book [e] = [t \<mapsto> e]"
proof -
  obtain t e where e: "build_event const_sha sample [] t Passed ''2026-01-02T00:00:00Z'' False = Inr e" by (rule sample_next)
  have "answer_book [] = Map.empty" by (simp add: answer_book_def)
  with built_event_extends [OF e] e show ?thesis by auto
qed

theorem decisions_reflect_answers_witness:
  "\<exists>es js. verify_journal const_sha sample es = Inr js \<and> js_ready js \<and>
    (\<exists>b. js_boundary js = Some b \<and> bm_disposition b = assessment_disposition (boundary_answers es))"
proof -
  obtain es js where js: "verify_journal const_sha sample es = Inr js" "js_ready js" "map ev_assessment es = replicate 66 Passed"
    by (rule sample_finished)
  from decisions_reflect_answers [OF js(1,2)] js(1,2) show ?thesis by blast
qed

theorem finished_summaries_validate_witness:
  "\<exists>es js. verify_journal const_sha sample es = Inr js \<and> check_decisions None (js_decisions js) = None \<and>
    length (js_decisions js) = 7"
proof -
  obtain es js where js: "verify_journal const_sha sample es = Inr js" "js_ready js" "map ev_assessment es = replicate 66 Passed"
    by (rule sample_finished)
  from finished_summaries_validate [OF js(1,2)] js(1) show ?thesis by blast
qed

lemma required_assessments_sample: "required_assessments sample = 66"
proof -
  have "''candidate_order_reversal'' \<in> set (map sp_family sample_packets)" by code_simp
  then show ?thesis
    using required_assessments_exact [OF sample_session_valid [of const_sha, OF const_valid]]
    by (simp add: sample_session_def Let_def elems_def)
qed

text \<open>A hash that tells the text of the session from the texts of events.\<close>

definition kind_sha :: "string \<Rightarrow> string" where
  "kind_sha s = hex_id (if s ! 57 = CHR ''s'' then CHR ''a'' else CHR ''b'')"

lemma kind_valid: "valid_sha (kind_sha s)"
  using valid_hex [of "CHR ''a''"] valid_hex [of "CHR ''b''"] by (simp add: kind_sha_def)

lemma schema_hash:
  assumes "\<forall>c \<in> set v. plain_char c" and "38 < length v"
  shows "kind_sha (json_marshal (JObj ((''schema_version'', JStr v) # m # ms))) =
    hex_id (if v ! 38 = CHR ''s'' then CHR ''a'' else CHR ''b'')"
proof -
  let ?front = "CHR ''{'' # quote_char # ''schema_version'' @ [quote_char, CHR '':'', quote_char]"
  have "list_all token_char ''schema_version''" by code_simp
  then have "marshal_string ''schema_version'' = quote_char # ''schema_version'' @ [quote_char]"
    using token_plain by (intro marshal_plain) (auto simp: list_all_iff)
  then obtain rest where shape: "json_marshal (JObj ((''schema_version'', JStr v) # m # ms)) = ?front @ v @ rest"
    using schema_first [OF assms(1), of m ms] by (simp del: json_marshal.simps)
  have "(?front @ v @ rest) ! (length ?front + 38) = v ! 38"
    using assms(2) by (simp only: nth_append_length_plus) (simp add: nth_append)
  then show ?thesis unfolding shape kind_sha_def by simp
qed

lemma schema_plain: "\<forall>c \<in> set SessionSchema. plain_char c" "\<forall>c \<in> set EventSchema. plain_char c"
proof -
  have "list_all token_char SessionSchema" "list_all token_char EventSchema" by code_simp+
  then show "\<forall>c \<in> set SessionSchema. plain_char c" "\<forall>c \<in> set EventSchema. plain_char c"
    unfolding list_all_iff using token_plain by blast+
qed

lemma kind_hashes:
  "se_schema_version s = SessionSchema \<Longrightarrow> kind_sha (session_text s) = hex_id CHR ''a''"
  "ev_schema_version e = EventSchema \<Longrightarrow> kind_sha (event_text e) = hex_id CHR ''b''"
  using schema_hash [OF schema_plain(1)] schema_hash [OF schema_plain(2)]
  by (simp_all add: session_text_def session_json_def event_text_def event_json_def del: json_marshal.simps)

theorem head_digest_binds_journal_witness:
  "\<exists>e js. verify_journal kind_sha (sample_session kind_sha) [e] = Inr js \<and>
    \<not> collision kind_sha (journal_texts (sample_session kind_sha) [e]) \<and>
    [e] = [e] \<and> se_digest (sample_session kind_sha) = hex_id CHR ''a''"
proof -
  let ?s = "sample_session kind_sha"
  obtain js where js: "verify_journal kind_sha ?s [] = Inr js" "js_completed js = 0" "js_required js = 66"
    using empty_journal kind_valid by metis
  then obtain t where "js_next js = Some t" using open_or_ready [OF js(1)] by (cases "js_next js") auto
  moreover have "follows (last_time ?s []) ''2026-01-02T00:00:00Z''" unfolding sample_start by code_simp
  moreover have "Passed \<in> set assessment_values" by (simp add: assessment_values_def)
  ultimately obtain e where e: "build_event kind_sha ?s [] t Passed ''2026-01-02T00:00:00Z'' False = Inr e"
    using next_step [OF js(1) _ _ _ kind_valid] by blast
  then obtain js' where js': "verify_journal kind_sha ?s [e] = Inr js'" using appended [OF js(1) e] by auto
  have "ev_schema_version e = EventSchema" using e by (elim build_eventE) (simp add: sealed_event_def Let_def)
  moreover have "se_schema_version ?s = SessionSchema" by (simp add: sample_session_def Let_def)
  ultimately have "\<not> collision kind_sha (journal_texts ?s [e])"
    using kind_hashes(1) [of ?s] kind_hashes(2) [of e] by (auto simp: collision_def journal_texts_def hex_id_def)
  moreover from this have "[e] = [e] \<and> se_digest ?s = se_digest ?s"
    using head_digest_binds_journal [OF js' js' refl] by simp
  moreover have "se_digest ?s = hex_id CHR ''a''"
    using session_validE(8) [OF sample_session_valid [of kind_sha, OF kind_valid]] kind_hashes(1) [of ?s]
    by (simp add: text_digests sample_session_def Let_def)
  ultimately show ?thesis using js' by blast
qed

definition sample_completion :: completion where
  "sample_completion = \<lparr> cp_schema_version = CompletionSchema, cp_canonical_policy = RelationPolicy,
     cp_journal_protocol = JournalProtocol, cp_session_digest = hex_id CHR ''b'', cp_package_inventory_digest = hex_id CHR ''a'',
     cp_event_count = 66, cp_head_digest = hex_id CHR ''b'', cp_required_assessments = 66,
     cp_decision_summaries = Some (map (\<lambda>p. \<lparr> dm_packet_id = sp_packet_id p, dm_reason_codes = None, dm_disposition = Accepted \<rparr>)
       sample_packets),
     cp_scarcity_summaries = Some (map (\<lambda>c. \<lparr> sm_case_id = sk_case_id c, sm_data_role = sk_data_role c,
       sm_original_evidence = Passed, sm_target_omission = Passed, sm_relation_preservation = Passed,
       sm_information_sufficiency = Passed, sm_disposition = Accepted \<rparr>) sample_cases),
     cp_scarcity_boundary = \<lparr> bm_exhaustive_scope = Passed, bm_role_integrity = Passed, bm_estimand_separation = Passed,
       bm_non_authorization = Passed, bm_disposition = Accepted \<rparr>,
     cp_inspection_record_digest = hex_id CHR ''a'', cp_core_status = Passed, cp_scarcity_status = Passed, cp_overall_status = Passed,
     cp_human_study_status = ''not_run'', cp_external_action_status = ''not_authorized'',
     cp_owner_confirmation = ''explicit_owner_completion'', cp_inspected_at = ''2026-01-30T00:00:00Z'',
     cp_digest = hex_id CHR ''b'' \<rparr>"

lemma sample_completion_checks: "completion_identity_ok sample_completion" "parse_rfc3339 (cp_inspected_at sample_completion) \<noteq> None"
  "check_decisions None (elems (cp_decision_summaries sample_completion)) = None"
  "scarcity_completion_validate sample_completion = None" "cp_overall_status sample_completion = Passed"
  by code_simp+

lemma sample_core_status: "overall_status (count_disposition RevisionRequired (map dm_disposition (elems (cp_decision_summaries sample_completion))))
    (count_disposition Unresolved (map dm_disposition (elems (cp_decision_summaries sample_completion)))) = cp_core_status sample_completion"
  by code_simp

lemma sample_combined: "cp_overall_status sample_completion =
    combine_statuses (cp_core_status sample_completion) (cp_scarcity_status sample_completion)"
  by code_simp

lemma passed_completion_sample:
  "completion_validate const_sha sample_completion = None \<and>
    list_all (\<lambda>m. dm_disposition m = Accepted \<and> elems (dm_reason_codes m) = []) (elems (cp_decision_summaries sample_completion))"
proof -
  have "cp_digest sample_completion = completion_digest const_sha sample_completion"
    by (simp add: completion_digest_def digest_json_def const_sha_def sample_completion_def)
  then have "completion_validate const_sha sample_completion = None"
    using sample_completion_checks sample_core_status sample_combined by (simp add: completion_validate_def Let_def)
  with passed_completion_clean [OF this sample_completion_checks(5)] show ?thesis by blast
qed

end
