(* ===== verification/CapsuleChain.thy ===== *)
theory CapsuleChain
  imports CapsuleIdentity
begin

text \<open>
  A manifest with disclosing edges: a private verdict is derived from a restricted score, which
  is derived from a public run.  The sample hash tells the components apart, so that each has an
  id of its own; the properties of accepted manifests are applied along the chain.
\<close>

section \<open>The registry and the records\<close>

definition derived_type :: component_type where
  "derived_type = \<lparr> ct_type_id = ''derived'', ct_schema_id = ''derived.v1'', ct_role = RoleDerivation,
     ct_allowed_visibilities = Some [VisibilityRestricted, VisibilityPrivate], ct_media_type = ''a/b'',
     ct_payload_profile = PayloadExactBytes, ct_validator_id = ''any'', ct_binding_validator_id = [],
     ct_parent_rules = Some [
       \<lparr> rule_kind = EdgeDerivedFrom, rule_parent_type = ''derived'', rule_minimum = 0, rule_maximum = 1,
         rule_resolutions = Some [ParentInternal] \<rparr>,
       \<lparr> rule_kind = EdgeDerivedFrom, rule_parent_type = ''raw'', rule_minimum = 0, rule_maximum = 1,
         rule_resolutions = Some [ParentInternal] \<rparr>] \<rparr>"

definition chain_registry :: registry where
  "chain_registry = \<lparr> reg_document = sample_document\<lparr>rd_types := Some [derived_type, sample_type]\<rparr>,
     reg_types = [''raw'' \<mapsto> sample_type, ''derived'' \<mapsto> derived_type],
     reg_validators = [''any'' \<mapsto> (\<lambda>_. None)], reg_bindings = Map.empty \<rparr>"

definition ref_to :: "component_record \<Rightarrow> parent_ref" where
  "ref_to c = \<lparr> ref_kind = EdgeDerivedFrom, ref_component_id = cr_component_id c,
     ref_type_id = cr_type_id c, ref_role = cr_role c, ref_visibility = cr_visibility c,
     ref_resolution = ParentInternal, ref_capsule_id = [], ref_omission_class = [] \<rparr>"

definition derived_record :: "string \<Rightarrow> string \<Rightarrow> visibility \<Rightarrow> component_record \<Rightarrow> component_record" where
  "derived_record i n v p = \<lparr> cr_component_id = i, cr_name = n, cr_type_id = ''derived'',
     cr_schema_id = ''derived.v1'', cr_role = RoleDerivation, cr_visibility = v,
     cr_media_type = ''a/b'', cr_payload = cr_payload sample_record, cr_parents = Some [ref_to p] \<rparr>"

definition score_id :: string where "score_id = replicate 64 CHR ''1''"
definition verdict_id :: string where "verdict_id = replicate 64 CHR ''2''"

definition score_record :: component_record where
  "score_record = derived_record score_id ''score'' VisibilityRestricted sample_record"

definition verdict_record :: component_record where
  "verdict_record = derived_record verdict_id ''verdict'' VisibilityPrivate score_record"

definition chain_manifest :: manifest where
  "chain_manifest = sample_manifest\<lparr>mf_scientific_roots := Some [verdict_id],
     mf_components := Some [sample_record, score_record, verdict_record]\<rparr>"

abbreviation identity_text :: "component_record \<Rightarrow> string" where
  "identity_text c \<equiv> digest_text (component_record_json (c\<lparr>cr_component_id := []\<rparr>))"

definition chain_sha :: "string \<Rightarrow> string" where
  "chain_sha s = (if s = identity_text score_record then score_id
     else if s = identity_text verdict_record then verdict_id else flat_sha [])"

section \<open>The texts differ\<close>

definition encodable :: "json \<Rightarrow> bool" where
  "encodable j \<longleftrightarrow> check_value (coerce j) 0 = None \<and> int_numbers j"

lemma encoded: "encodable j \<Longrightarrow> digest sha j = Inr (sha (digest_text j))"
  by (simp add: encodable_def digest_Inr canonical_marshal_def digest_text_def)

text \<open>Objects that disagree on a member have different texts.\<close>

lemma member_separates:
  assumes "encodable j" and "encodable l" and "j = JObj ms" and "l = JObj ns"
    and "plain_keys ms" and "plain_keys ns" and "fields ms k \<noteq> fields ns k"
  shows "digest_text j \<noteq> digest_text l"
proof
  assume "digest_text j = digest_text l"
  then have "canonical_marshal j = Inr (digest_text l)" "canonical_marshal l = Inr (digest_text l)"
    using assms(1,2) by (simp_all add: encodable_def canonical_marshal_def digest_text_def)
  with canonical_marshal_inject assms(1,2) have "jc j = jc l" unfolding encodable_def by blast
  with object_fields [OF assms(5,6)] assms(3,4,7) show False by simp
qed

lemma chain_ids [simp]:
  "valid_digest score_id" "valid_digest verdict_id" "utf8_valid score_id" "utf8_valid verdict_id"
  "flat_sha [] < score_id" "score_id < verdict_id" "[] < flat_sha []"
  "score_id \<noteq> flat_sha []" "verdict_id \<noteq> flat_sha []" "verdict_id \<noteq> score_id"
  "flat_sha [] \<noteq> score_id" "flat_sha [] \<noteq> verdict_id" "score_id \<noteq> verdict_id" "score_id \<noteq> []" "verdict_id \<noteq> []"
  by code_simp+

lemmas chain_records = sample_record_def score_record_def verdict_record_def derived_record_def ref_to_def
  sample_manifest_def chain_manifest_def

lemmas chain_texts = component_record_json_def payload_identity_json_def json_slice_def parent_ref_json_def
  json_int_def validate_int_text maximum_safe_json_integer_def scientific_json_def manifest_json_def omit_empty_def

lemma scientific_numbers: "int_numbers (scientific_json m)"
  by (simp add: scientific_json_def Let_def)

lemma chain_encodable:
  "encodable (component_record_json (sample_record\<lparr>cr_component_id := []\<rparr>))"
  "encodable (component_record_json (score_record\<lparr>cr_component_id := []\<rparr>))"
  "encodable (component_record_json (verdict_record\<lparr>cr_component_id := []\<rparr>))"
  "encodable (scientific_json chain_manifest)"
  "encodable (manifest_json (chain_manifest\<lparr>mf_manifest_digest := []\<rparr>))"
  unfolding encodable_def
  by (intro conjI int_numbers_capsule scientific_numbers, simp add: chain_records chain_texts)+

text \<open>Records with different names have different texts, and no manifest has the text of a record.\<close>

lemma name_separates:
  assumes "encodable (component_record_json c)"
  shows "encodable (component_record_json d) \<Longrightarrow> utf8_valid (cr_name c) \<Longrightarrow> utf8_valid (cr_name d) \<Longrightarrow>
      cr_name c \<noteq> cr_name d \<Longrightarrow> digest_text (component_record_json c) \<noteq> digest_text (component_record_json d)"
    and "encodable (scientific_json m) \<Longrightarrow> digest_text (component_record_json c) \<noteq> digest_text (scientific_json m)"
    and "encodable (manifest_json m) \<Longrightarrow> digest_text (component_record_json c) \<noteq> digest_text (manifest_json m)"
  by (rule member_separates [where k = "''name''", OF assms _ component_record_json_def component_record_json_def];
      simp add: plain_keys_def)
    ((rule member_separates [where k = "''name''", OF assms _ component_record_json_def
        scientific_json_def [unfolded Let_def]]; simp add: plain_keys_def),
     (rule member_separates [where k = "''name''", OF assms _ component_record_json_def manifest_json_def];
      simp add: plain_keys_def))

lemma chain_separate:
  "identity_text sample_record \<noteq> identity_text score_record"
  "identity_text sample_record \<noteq> identity_text verdict_record"
  "identity_text verdict_record \<noteq> identity_text score_record"
  using chain_encodable(1-3) name_separates(1) by (simp_all add: chain_records)

lemma chain_digests:
  "component_digest chain_sha sample_record = Inr (flat_sha [])"
  "component_digest chain_sha score_record = Inr score_id"
  "component_digest chain_sha verdict_record = Inr verdict_id"
  "scientific_digest chain_sha chain_manifest = Inr (flat_sha [])"
  "manifest_digest chain_sha chain_manifest = Inr (flat_sha [])"
  using chain_separate
    name_separates(2) [OF chain_encodable(2) chain_encodable(4), THEN not_sym]
    name_separates(2) [OF chain_encodable(3) chain_encodable(4), THEN not_sym]
    name_separates(3) [OF chain_encodable(2) chain_encodable(5), THEN not_sym]
    name_separates(3) [OF chain_encodable(3) chain_encodable(5), THEN not_sym]
  unfolding component_digest_def scientific_digest_def manifest_digest_def
  by (simp_all add: encoded [OF chain_encodable(1)] encoded [OF chain_encodable(2)]
      encoded [OF chain_encodable(3)] encoded [OF chain_encodable(4)] encoded [OF chain_encodable(5)] chain_sha_def)

section \<open>The manifest is accepted\<close>

lemma chain_names:
  "valid_identifier ''score'' \<and> valid_identifier ''verdict'' \<and> valid_identifier ''derived''"
  by code_simp

lemma chain_records_valid:
  "validate_component_record chain_sha (Some chain_registry) sample_record = None"
  "validate_component_record chain_sha (Some chain_registry) score_record = None"
  "validate_component_record chain_sha (Some chain_registry) verdict_record = None"
  using chain_digests(1-3) chain_names sample_names
  by (simp_all add: validate_component_record_def chain_registry_def registry_lookup_def sample_type_def
      derived_type_def chain_records validate_payload_identity_def payload_profile_valid_def
      validate_parent_refs_def validate_parent_ref_def parent_ref_key_def rule_matches_def edge_kind_valid_def role_valid_def
      visibility_valid_def parent_resolution_valid_def)

abbreviation chain_table :: component_table where
  "chain_table \<equiv> [(verdict_id, verdict_record), (score_id, score_record), (flat_sha [], sample_record)]"

lemma chain_components:
  "validate_component_set chain_sha (Some chain_registry) [sample_record, score_record, verdict_record] =
     Inr chain_table"
proof -
  have "cr_component_id sample_record = flat_sha []" "cr_component_id score_record = score_id"
    "cr_component_id verdict_record = verdict_id" "cr_name sample_record = ''run''"
    "cr_name score_record = ''score''" "cr_name verdict_record = ''verdict''"
    by (simp_all add: chain_records)
  with chain_records_valid show ?thesis by (simp add: validate_component_set_def not_le)
qed

lemma chain_parents:
  "internal_parents chain_table (flat_sha []) = []"
  "internal_parents chain_table score_id = [flat_sha []]"
  "internal_parents chain_table verdict_id = [score_id]"
  by (simp_all add: internal_parents_def chain_records)

lemma chain_valid: "manifest_validate chain_sha chain_manifest (Some chain_registry) = None"
proof -
  have parts: "elems (mf_components chain_manifest) = [sample_record, score_record, verdict_record]"
    "elems (mf_scientific_roots chain_manifest) = [verdict_id]" "elems (mf_presentation_roots chain_manifest) = []"
    "elems (mf_parent_capsules chain_manifest) = []"
    by (simp_all add: chain_manifest_def sample_manifest_def)
  have "validate_roots chain_manifest chain_table = None"
    by (simp add: validate_roots_def validate_root_set_def parts) (simp add: chain_records)
  moreover have "validate_graph (Some chain_registry) chain_manifest chain_table = None"
  proof -
    have "validate_parent (Some chain_registry) [] chain_table score_record (ref_to sample_record) = None"
      "validate_parent (Some chain_registry) [] chain_table verdict_record (ref_to score_record) = None"
      by (simp_all add: validate_parent_def resolve_parent_def registry_lookup_def chain_registry_def
          validate_edge_def role_edge_allowed_def privacy_projection_def visibility_rank_def chain_records)
    moreover have "elems (cr_parents sample_record) = []" "elems (cr_parents score_record) = [ref_to sample_record]"
      "elems (cr_parents verdict_record) = [ref_to score_record]" "cr_component_id sample_record = flat_sha []"
      "cr_component_id score_record = score_id" "cr_component_id verdict_record = verdict_id"
      by (simp_all add: chain_records)
    ultimately show ?thesis
      by (simp add: validate_graph_def parts reject_cycles_def reject_unreachable_def chain_parents
          eval_nat_numeral)
  qed
  ultimately show ?thesis
    using chain_components chain_digests(4,5) sample_names parts
    by (simp add: manifest_validate_def validate_manifest_structure_def registry_digest_of_def
        chain_registry_def sample_document_def validate_capsule_refs_def)
      (simp add: chain_manifest_def sample_manifest_def)
qed

section \<open>Along the chain\<close>

lemma chain_disclosing: "disclosing chain_manifest = {(verdict_id, score_id), (score_id, flat_sha [])}"
proof -
  have "set (elems (mf_components chain_manifest)) = {sample_record, score_record, verdict_record}"
    by (simp add: chain_manifest_def)
  moreover have "elems (cr_parents sample_record) = []" "elems (cr_parents score_record) = [ref_to sample_record]"
    "elems (cr_parents verdict_record) = [ref_to score_record]" "cr_component_id sample_record = flat_sha []"
    "cr_component_id score_record = score_id" "cr_component_id verdict_record = verdict_id"
    by (simp_all add: chain_records)
  moreover have "ref_resolution (ref_to c) = ParentInternal" "ref_kind (ref_to c) = EdgeDerivedFrom"
    "ref_component_id (ref_to c) = cr_component_id c" for c
    by (simp_all add: ref_to_def)
  ultimately have edges: "{(c, p) \<in> internal_edges chain_manifest. \<not> privacy_projection (ref_kind p)} =
      {(verdict_record, ref_to score_record), (score_record, ref_to sample_record)}"
    by (auto simp: internal_edges_def privacy_projection_def)
  show ?thesis
    unfolding disclosing_def edges by (simp add: chain_records)
qed

text \<open>The public run is reached from the private verdict over two disclosing edges, through the score.\<close>

lemma accepted_no_leak_witness:
  "(verdict_id, score_id) \<in> disclosing chain_manifest \<and> (score_id, flat_sha []) \<in> disclosing chain_manifest \<and>
   visibility_rank (cr_visibility sample_record) \<le> visibility_rank (cr_visibility verdict_record) \<and>
   visibility_rank (cr_visibility sample_record) \<noteq> visibility_rank (cr_visibility verdict_record)"
proof -
  have edges: "(verdict_id, score_id) \<in> disclosing chain_manifest" "(score_id, flat_sha []) \<in> disclosing chain_manifest"
    by (simp_all add: chain_disclosing)
  then have path: "(verdict_id, flat_sha []) \<in> (disclosing chain_manifest)\<^sup>*"
    by (blast intro: rtrancl_trans)
  have members: "verdict_record \<in> set (elems (mf_components chain_manifest))"
    "sample_record \<in> set (elems (mf_components chain_manifest))"
    "cr_component_id verdict_record = verdict_id" "cr_component_id sample_record = flat_sha []"
    by (simp_all add: chain_records)
  have "visibility_rank (cr_visibility sample_record) \<le> visibility_rank (cr_visibility verdict_record)"
    by (rule accepted_no_leak [OF chain_valid path members(1,3,2,4)])
  moreover have "visibility_rank (cr_visibility sample_record) \<noteq> visibility_rank (cr_visibility verdict_record)"
    by (simp add: chain_records visibility_rank_def)
  ultimately show ?thesis using edges by blast
qed

end
