(* ===== verification/Spec2Isabelle.thy ===== *)
theory Spec2Isabelle
  imports Dsse Fallback RegistryProps ClaimWitness FixtureReduction ExtractWitness JournalWitness CapsuleChain
begin

text \<open>
  A verification development for evalwitness, a Go program that runs evaluations of agents with
  language models, keeps the evidence as sealed capsules, states claims over them, and checks both
  again later.  Its own logic lies under src/internal/ and src/protocol/.  This development models the
  part on which the trust in a capsule rests, from the bytes that are hashed up to
  the claims that are made, and the places where a mistake costs money or data: the
  budget of a run, the extraction of archives, the reduction of counterexamples and the journal of an
  owner's inspection.

  \<^bold>\<open>How the parts interact.\<close>  Every digest of a capsule, a claim or a journal is a SHA-256
  over a JSON text, which for capsules and claims is canonical (protocol).  A capsule (internal/capsule) is a manifest of components under a registry of types, with
  a payload per component; the manifest is sealed by its digest, written as a directory, read back, put
  into families with other capsules, described by an in-toto statement and signed in a DSSE envelope.
  A claim ledger (internal/claim) is about one capsule: a claim evaluates an expression over payloads of
  the capsule, and challenges mutate what the verifier sees to show that its guards notice.  The run budget
  (internal/mode) is drawn on by every provider attempt and by the fallbacks of internal/calibration.
  internal/stress reduces an input that violates a relation to a small one and keeps the trace.
  internal/safety guards the file system: the policy for directories, and the archives.  internal/relation
  keeps the journal in which an owner inspects the packets of a review before it is launched.

  \<^bold>\<open>Conventions.\<close>  A Go struct is a record with its fields in order, a named string type is a
  string with its constants as abbreviations, an \<open>error\<close> is an option whose \<open>None\<close> is nil, a
  result with an error is a sum whose left side is the error.  Error values are constructors,
  one per distinguishable failure; their messages are not modelled.  A slice that may be nil is a
  \<open>slice\<close>, a map is an association list where it is ranged over and a partial function where it
  is only looked up.  \<open>int\<close> and \<open>int64\<close> are HOL integers with their wrap-around written out
  (\<open>wrap64\<close>, \<open>add64\<close>); \<open>float64\<close> is rounded rational arithmetic (Float64).  What is not
  code of the repository is a parameter: the hash \<open>sha\<close>, the signature scheme, the Unicode tables, the
  clock, the polls of the context, the answers and faults of the file system, the oracle.  A theorem
  that needs something of a parameter has it as a hypothesis; nothing assumes that the hash is
  injective: where digests bind, the conclusion is \<open>equal, or these two texts collide\<close>.

  \<^bold>\<open>Shared ground.\<close>  GoBase holds results, validating loops, slices and 64-bit arithmetic; GoText
  the byte strings (\<open>TrimSpace\<close>, \<open>Split\<close>, the token and digest validators of internal/capsule and
  internal/claim); Utf8 is unicode/utf8; Base64 is encoding/base64; GoPath is path and path/filepath
  on lexical paths; GoJson is what \<open>json.Marshal\<close> prints; GoTime is \<open>time.Parse\<close> for RFC 3339; Float64 is float64.  These model the standard
  library as far as the source uses it.

  \<^bold>\<open>Canonical JSON\<close> (src/protocol/canonical.go).  CanonicalJson models \<open>CanonicalizeJSON\<close> with its
  reader and writer and \<open>CanonicalMarshal\<close>; StrictJson models \<open>DecodeStrict\<close>.  The reader has fuel:
  a bound computed from the length of the text, and \<open>CanonicalFacts.canonicalize_terminates\<close> shows
  that it never runs out, on any input.  CanonicalFacts further shows that canonical text is a fixed point, that reading
  inverts writing, and that equal text means equal trees up to the order of members.

  \<^bold>\<open>Capsules\<close> (src/internal/capsule).  Capsule models model.go and registry.go, CapsuleManifest
  component.go and manifest.go, CapsuleStore store.go and family.go, Statement statement.go, Dsse dsse.go; the decoders
  are read back in CapsuleRead.  The search of \<open>rejectCycles\<close> has the number of components
  plus one as fuel, the worklist of \<open>rejectUnreachable\<close> a measure; CapsuleGraph shows both to be
  exact.  CapsuleProps states what an accepted manifest guarantees (acyclic and rooted, no
  leak of private parents, a scientific part that is closed), CapsuleIdentity what its identities
  bind, RegistryProps what a loaded registry guarantees.  CapsuleStoreFacts,
  CapsuleStoreProps and CapsuleFamilyProps do the same for directories and families: what is written
  verifies, a verified directory holds exactly its declared files, it refines the package it
  loads as, and no family discloses a more private parent.  Statement and Dsse show that statements and
  envelopes read back, what a verified envelope proves, and that a forged count is accepted.

  \<^bold>\<open>Claims\<close> (src/internal/claim).  Claim models model.go; RawJson and ClaimVerify expression.go and verify.go;
  ClaimChallenge challenge.go.  ClaimNumbers shows that numbers are read exactly; ClaimFacts and
  ChallengeFacts carry ClaimProps: in a verified ledger every claim holds of public evidence, the
  ways of asking for one claim agree, and each challenge is noticed by the guard it is for.
  \<open>package_verifier\<close> is the locale between challenges and the verifier of packages.

  \<^bold>\<open>Run budget and fallbacks\<close> (src/internal/mode/budget.go, src/internal/calibration/fallback.go).  RunBudget
  models each operation under its mutex and, as the relation \<open>step\<close>, the interleaving of the phases of
  concurrent attempts; RunBudgetProps shows by induction over reachable states that no limit is
  exceeded and the token counters are exact, and that rounding can make a persisted budget refuse itself.  Fallback
  reaches the budget through the locale \<open>budget_reserver\<close>, an interpretation of which is the run budget.

  \<^bold>\<open>Reduction\<close> (src/internal/stress).  Reducer models reducer.go with its input and oracle as computations on a
  world, Counterexample the documents of counterexample.go and the replay that validates them, CaseInput
  the input of development_case_study.go.  The loop terminates whatever the input does, by the
  evaluations that are left of the request's maximum.  ReducerSound and ReducerProps hold whatever the world does; ReducerLaws
  shows, under the contract \<open>reducible\<close>, that every reduction returns a one-minimal counterexample;
  ReducerCalls bounds the questions to the oracle; CaseInput and FixtureReduction interpret the contract and apply it.

  \<^bold>\<open>Archives and paths\<close> (src/internal/safety).  PathPolicy models types.go and path.go, Archive models archive.go,
  archive_validate.go and archive_scan.go, ArchiveExtract models archive_extract.go and disk_reservation.go.
  A source file is the value that reading it yields: its digest, its headers with their bodies
  and how the stream ends, at the inspection and at the extraction, which may differ.  The file system is a
  finite map from paths to nodes, and a fault plan decides which system calls fail.  DiskFacts, ArchiveFacts and
  ExtractFacts show what each operation touches; \<open>staging_writer\<close> (Publication) is the contract between
  the renaming into place and what fills the staging directory, which the extraction interprets in
  ExtractRuns.  PathProps and ArchiveProps state what the policy and the inspection promise;
  ExtractProps states that an extraction is all or nothing, writes exactly what was inspected, keeps the file
  system a tree, and succeeds when nothing fails.

  \<^bold>\<open>Inspection journal\<close> (src/internal/relation/pilot_inspection_journal.go, with src/internal/mutation/catalog.go
  and helpers of judgment.go, plan.go, blinding.go, codec.go and pilot_inspection.go).  Inspection models the documents
  and their validation, Journal the events, the replay of a journal, its status and the building of the next event,
  Completion the document that closes it.  JournalFacts and JournalBooks show that a session's
  targets have different keys and that a replay keeps exact books; JournalProps that a journal refines the map from targets
  to last answers, that built events extend it, and that it can always be finished; JournalHead that the digest of its head
  binds all of it; JournalDecisions and Completion that its decisions are what the answers say and pass the
  checks of a completion.

  \<^bold>\<open>Witnesses.\<close>  Each property with a hypothesis is applied at a concrete input: in the theory of the
  property, or in CapsuleChain, ClaimWitness, FixtureReduction, ExtractWitness, JournalWitness and CapsuleFamilyProps for the large samples.

  \<^bold>\<open>Not modelled.\<close>  The text of error messages.  What the file system does under concurrent writers:
  a directory and an archive change at most between two readings, as stated.  Permissions of written files.  The locking of
  the budget file and the transport of its providers.  Windows paths.  Of internal/capsule: archives of capsules,
  provenance records, extensions and the reference capsule; of internal/claim: codecs of the command line,
  packs, projections, autopsies and surfaces; of internal/calibration: the fitting, which is numerical and rests on
  \<open>math\<close> functions; of internal/safety: untrusted JSON limits, cache layout, scans for secrets; of internal/relation: the
  documents a session and a completion are built from, and the reviews.  The other
  packages (agentstudy, audit, baseline, cache, explorer, lineage, mutation, outcome, profile, provider, release,
  reliance, replay, study and the command line among them) are mostly the assembly and field-by-field validation of
  report documents around the operations above, or input and output.
\<close>

end
